(* ===== verification/Prelude.thy ===== *)
theory Prelude
  imports Main
begin

text \<open>
  Shared vocabulary of the development: Python exceptions as values, results that
  either carry an exception or a value, the combinators every component is
  written with, and the collections of hints the component proofs share.
\<close>

named_theorems res_simps \<open>inversion of computations that may raise\<close>
named_theorems vm_simps \<open>unfolding one step of the policy machine\<close>

section \<open>Python exceptions\<close>

text \<open>
  Only the class of an exception decides how a worker treats it, and the class name is
  published in the dead-letter envelope, so an exception is its class and its text.
  The classes are the built-in ones the services meet and the ones they declare.
\<close>

datatype exn_class =
    ValueError | UnicodeDecodeError | JSONDecodeError | ValidationError
  | PermanentMutationError | ExpoDeviceNotRegisteredError
  | KeyError | IndexError | TypeError | AttributeError | AssertionError
  | OverflowError | ZeroDivisionError | OSError | EOFError
  | RuntimeError | CalledProcessError | DlqPublishError | HTTPStatusError | HTTPException | ServiceError

text \<open>\<open>isinstance(error, ValueError)\<close>: the built-in subclasses, pydantic's
  \<open>ValidationError\<close>, and the two classes the workers derive from it.\<close>

fun is_value_error :: "exn_class \<Rightarrow> bool" where
  "is_value_error ValueError = True"
| "is_value_error UnicodeDecodeError = True"
| "is_value_error JSONDecodeError = True"
| "is_value_error ValidationError = True"
| "is_value_error PermanentMutationError = True"
| "is_value_error ExpoDeviceNotRegisteredError = True"
| "is_value_error _ = False"

datatype exn = Exn (exn_cls: exn_class) (exn_msg: string)

type_synonym 'a res = "exn + 'a"

abbreviation value_error :: "string \<Rightarrow> 'a res" where
  "value_error m \<equiv> Inl (Exn ValueError m)"

section \<open>Sequencing\<close>

text \<open>An exception skips the rest of the block.\<close>

fun res_bind :: "'a res \<Rightarrow> ('a \<Rightarrow> 'b res) \<Rightarrow> 'b res" where
  "res_bind (Inl e) f = Inl e"
| "res_bind (Inr x) f = f x"

definition res_guard :: "bool \<Rightarrow> exn \<Rightarrow> unit res" where
  "res_guard ok e = (if ok then Inr () else Inl e)"

primrec res_map :: "('a \<Rightarrow> 'b res) \<Rightarrow> 'a list \<Rightarrow> 'b list res" where
  "res_map f [] = Inr []"
| "res_map f (x # xs) = res_bind (f x) (\<lambda>y. res_bind (res_map f xs) (\<lambda>ys. Inr (y # ys)))"

primrec is_ok :: "'a res \<Rightarrow> bool" where
  "is_ok (Inl _) = False"
| "is_ok (Inr _) = True"

lemma res_bind_Inr_iff [res_simps]:
  "res_bind m f = Inr y \<longleftrightarrow> (\<exists>x. m = Inr x \<and> f x = Inr y)"
  by (cases m) auto

lemma res_bind_Inl_iff [res_simps]:
  "res_bind m f = Inl e \<longleftrightarrow> m = Inl e \<or> (\<exists>x. m = Inr x \<and> f x = Inl e)"
  by (cases m) auto

lemma res_guard_Inr_iff [res_simps]: "res_guard ok e = Inr u \<longleftrightarrow> ok"
  by (simp add: res_guard_def)

lemma res_guard_Inl_iff [res_simps]: "res_guard ok e = Inl e' \<longleftrightarrow> \<not> ok \<and> e' = e"
  by (auto simp: res_guard_def)

lemma res_guard_True [simp]: "res_guard True e = Inr ()"
  by (simp add: res_guard_def)

lemma res_bind_assoc: "res_bind (res_bind m f) g = res_bind m (\<lambda>x. res_bind (f x) g)"
  by (cases m) auto

lemma res_bind_cong [fundef_cong]:
  "\<lbrakk>m = m'; \<And>x. m' = Inr x \<Longrightarrow> f x = f' x\<rbrakk> \<Longrightarrow> res_bind m f = res_bind m' f'"
  by (cases m') auto

lemma res_map_Inr_length: "res_map f xs = Inr ys \<Longrightarrow> length ys = length xs"
  by (induction xs arbitrary: ys) (auto simp: res_simps)

lemma res_map_Inr_map: "(\<And>x. x \<in> set xs \<Longrightarrow> f x = Inr (g x)) \<Longrightarrow> res_map f xs = Inr (map g xs)"
  by (induction xs) auto

lemma is_ok_iff: "is_ok m \<longleftrightarrow> (\<exists>x. m = Inr x)"
  by (cases m) auto

lemma not_is_ok_iff: "\<not> is_ok m \<longleftrightarrow> (\<exists>e. m = Inl e)"
  by (cases m) auto

section \<open>Lists\<close>

text \<open>A set of a source that is only ever read back sorted or by membership is kept as a
  list without repetitions.\<close>

lemma takeWhile_dropWhile_split:
  "\<lbrakk>\<forall>x\<in>set xs. P x; ys = [] \<or> \<not> P (hd ys)\<rbrakk> \<Longrightarrow> takeWhile P (xs @ ys) = xs \<and> dropWhile P (xs @ ys) = ys"
  by (cases ys) (auto simp: takeWhile_append dropWhile_append)

lemma last_append_singleton: "last (xs @ [x]) = x"
  by simp

end
