(* ===== verification/PyFloat.thy ===== *)
theory PyFloat
  imports Prelude Complex_Main "HOL-Library.Log_Nat"
begin

text \<open>
  Python's \<open>float\<close>: IEEE 754 binary64 with round-to-nearest-even.  A finite value is the
  rational it denotes; the negative zero, the infinities and NaN are constructors of
  their own.  Every operation is computed exactly and rounded once by \<open>fl_round\<close>, as the
  hardware does; the square root is rounded from an integer square root.
\<close>

section \<open>Values\<close>

datatype pyfloat = Fin rat | NegZero | Infty bool | NaN

primrec isfinite :: "pyfloat \<Rightarrow> bool" where
  "isfinite (Fin r) = True"
| "isfinite NegZero = True"
| "isfinite (Infty s) = False"
| "isfinite NaN = False"

primrec fl_val :: "pyfloat \<Rightarrow> rat" where
  "fl_val (Fin r) = r"
| "fl_val NegZero = 0"
| "fl_val (Infty s) = 0"
| "fl_val NaN = 0"

text \<open>The sign bit.\<close>

primrec fl_neg_bit :: "pyfloat \<Rightarrow> bool" where
  "fl_neg_bit (Fin r) = (r < 0)"
| "fl_neg_bit NegZero = True"
| "fl_neg_bit (Infty s) = s"
| "fl_neg_bit NaN = False"

section \<open>Rounding\<close>

definition pow2 :: "int \<Rightarrow> rat" where
  "pow2 e = (if 0 \<le> e then 2 ^ nat e else 1 / 2 ^ nat (- e))"

text \<open>The exponent of the leading bit of a non-zero rational.\<close>

definition ilog2 :: "rat \<Rightarrow> int" where
  "ilog2 x = (case quotient_of \<bar>x\<bar> of (p, q) \<Rightarrow>
     let k = bitlen p - bitlen q in if pow2 k \<le> \<bar>x\<bar> then k else k - 1)"

definition round_half_even :: "rat \<Rightarrow> int" where
  "round_half_even r =
     (let f = \<lfloor>r\<rfloor>; d = r - of_int f
      in if d < 1 / 2 then f else if 1 / 2 < d then f + 1 else if even f then f else f + 1)"

text \<open>53 significant bits, the least exponent of a subnormal, the overflow threshold.\<close>

definition ulp_exp :: "rat \<Rightarrow> int" where
  "ulp_exp x = max (ilog2 x - 52) (- 1074)"

definition fl_of_rat :: "bool \<Rightarrow> rat \<Rightarrow> pyfloat" where
  "fl_of_rat s v =
     (if v = 0 then (if s then NegZero else Fin 0)
      else if 2 ^ 1024 \<le> \<bar>v\<bar> then Infty (v < 0) else Fin v)"

definition fl_round :: "rat \<Rightarrow> pyfloat" where
  "fl_round x =
     (if x = 0 then Fin 0
      else let q = ulp_exp x in fl_of_rat (x < 0) (of_int (round_half_even (x / pow2 q)) * pow2 q))"

text \<open>Rounding of an exact result whose zero takes the sign \<open>s\<close>.\<close>

definition fl_round_signed :: "bool \<Rightarrow> rat \<Rightarrow> pyfloat" where
  "fl_round_signed s x = (if x = 0 then (if s then NegZero else Fin 0) else fl_round x)"

text \<open>The numbers of the format.\<close>

definition binary64 :: "rat \<Rightarrow> bool" where
  "binary64 r \<longleftrightarrow> (\<exists>m q. r = of_int m * pow2 q \<and> \<bar>m\<bar> < 2 ^ 53 \<and> - 1074 \<le> q) \<and> \<bar>r\<bar> < 2 ^ 1024"

section \<open>Arithmetic\<close>

primrec fl_neg :: "pyfloat \<Rightarrow> pyfloat" where
  "fl_neg (Fin r) = (if r = 0 then NegZero else Fin (- r))"
| "fl_neg NegZero = Fin 0"
| "fl_neg (Infty s) = Infty (\<not> s)"
| "fl_neg NaN = NaN"

definition fl_abs :: "pyfloat \<Rightarrow> pyfloat" where
  "fl_abs a = (if fl_neg_bit a then fl_neg a else a)"

definition fl_add :: "pyfloat \<Rightarrow> pyfloat \<Rightarrow> pyfloat" where
  "fl_add a b =
     (if a = NaN \<or> b = NaN then NaN
      else case (a, b) of
        (Infty s, Infty t) \<Rightarrow> if s = t then Infty s else NaN
      | (Infty s, _) \<Rightarrow> Infty s
      | (_, Infty t) \<Rightarrow> Infty t
      | _ \<Rightarrow> fl_round_signed (a = NegZero \<and> b = NegZero) (fl_val a + fl_val b))"

definition fl_sub :: "pyfloat \<Rightarrow> pyfloat \<Rightarrow> pyfloat" where
  "fl_sub a b = fl_add a (fl_neg b)"

definition fl_mul :: "pyfloat \<Rightarrow> pyfloat \<Rightarrow> pyfloat" where
  "fl_mul a b =
     (let s = (fl_neg_bit a \<noteq> fl_neg_bit b)
      in if a = NaN \<or> b = NaN then NaN
         else if isfinite a \<and> isfinite b then fl_round_signed s (fl_val a * fl_val b)
         else if isfinite a \<and> fl_val a = 0 \<or> isfinite b \<and> fl_val b = 0 then NaN
         else Infty s)"

text \<open>Division by a non-zero divisor; Python raises for a zero one, which is the caller's check.\<close>

definition fl_div :: "pyfloat \<Rightarrow> pyfloat \<Rightarrow> pyfloat" where
  "fl_div a b =
     (let s = (fl_neg_bit a \<noteq> fl_neg_bit b)
      in if a = NaN \<or> b = NaN then NaN
         else if isfinite a \<and> isfinite b then fl_round_signed s (fl_val a / fl_val b)
         else if isfinite b then Infty s
         else if isfinite a then (if s then NegZero else Fin 0)
         else NaN)"

definition rat_trunc :: "rat \<Rightarrow> int" where
  "rat_trunc r = (if r < 0 then - \<lfloor>- r\<rfloor> else \<lfloor>r\<rfloor>)"

text \<open>\<open>a % b\<close>: C's \<open>fmod\<close> (exact, sign of the dividend), then moved to the divisor's
  sign by one rounded addition; a zero remainder takes the divisor's sign.\<close>

definition fl_mod :: "pyfloat \<Rightarrow> pyfloat \<Rightarrow> pyfloat" where
  "fl_mod a b =
     (if a = NaN \<or> b = NaN \<or> \<not> isfinite a then NaN
      else let m = (if isfinite b then fl_val a - fl_val b * of_int (rat_trunc (fl_val a / fl_val b))
                    else fl_val a)
           in if m = 0 then (if fl_neg_bit b then NegZero else Fin 0)
              else if fl_neg_bit b \<noteq> (m < 0) then fl_add (Fin m) b else Fin m)"

section \<open>Comparison, truth, minimum and maximum\<close>

fun fl_lt :: "pyfloat \<Rightarrow> pyfloat \<Rightarrow> bool" where
  "fl_lt NaN _ = False"
| "fl_lt _ NaN = False"
| "fl_lt (Infty s) (Infty t) = (s \<and> \<not> t)"
| "fl_lt (Infty s) _ = s"
| "fl_lt _ (Infty t) = (\<not> t)"
| "fl_lt a b = (fl_val a < fl_val b)"

fun fl_eq :: "pyfloat \<Rightarrow> pyfloat \<Rightarrow> bool" where
  "fl_eq NaN _ = False"
| "fl_eq _ NaN = False"
| "fl_eq (Infty s) (Infty t) = (s = t)"
| "fl_eq (Infty s) _ = False"
| "fl_eq _ (Infty t) = False"
| "fl_eq a b = (fl_val a = fl_val b)"

definition fl_le :: "pyfloat \<Rightarrow> pyfloat \<Rightarrow> bool" where
  "fl_le a b = (fl_lt a b \<or> fl_eq a b)"

text \<open>\<open>bool(a)\<close>: anything but a zero, NaN included.\<close>

definition fl_truthy :: "pyfloat \<Rightarrow> bool" where
  "fl_truthy a = (\<not> fl_eq a (Fin 0))"

text \<open>\<open>min(a, b)\<close> and \<open>max(a, b)\<close> keep their first argument unless the second is
  strictly better, which decides between the two zeros.\<close>

definition fl_min :: "pyfloat \<Rightarrow> pyfloat \<Rightarrow> pyfloat" where
  "fl_min a b = (if fl_lt b a then b else a)"

definition fl_max :: "pyfloat \<Rightarrow> pyfloat \<Rightarrow> pyfloat" where
  "fl_max a b = (if fl_lt a b then b else a)"

section \<open>Conversions\<close>

definition fl_of_bool :: "bool \<Rightarrow> pyfloat" where
  "fl_of_bool b = Fin (if b then 1 else 0)"

text \<open>\<open>float(f)\<close> of a float is the float itself: rounding is the identity on the numbers of the
  format.\<close>

primrec as_double :: "pyfloat \<Rightarrow> pyfloat" where
  "as_double (Fin r) = fl_round r"
| "as_double NegZero = NegZero"
| "as_double (Infty s) = Infty s"
| "as_double NaN = NaN"

text \<open>\<open>float(i)\<close> of an integer raises where a float literal would be infinite.\<close>

definition float_of_int :: "int \<Rightarrow> pyfloat res" where
  "float_of_int i =
     (let f = fl_round (of_int i)
      in if isfinite f then Inr f
         else Inl (Exn OverflowError ''int too large to convert to float''))"

text \<open>\<open>floor\<close>, \<open>ceil\<close> and \<open>round\<close> give an integer, or raise on what has none.\<close>

definition int_of_float :: "(rat \<Rightarrow> int) \<Rightarrow> pyfloat \<Rightarrow> int res" where
  "int_of_float f a = (case a of
     Infty s \<Rightarrow> Inl (Exn OverflowError ''cannot convert float infinity to integer'')
   | NaN \<Rightarrow> value_error ''cannot convert float NaN to integer''
   | _ \<Rightarrow> Inr (f (fl_val a)))"

definition fl_floor :: "pyfloat \<Rightarrow> int res" where
  "fl_floor = int_of_float floor"

definition fl_ceil :: "pyfloat \<Rightarrow> int res" where
  "fl_ceil = int_of_float ceiling"

definition py_round :: "pyfloat \<Rightarrow> int res" where
  "py_round = int_of_float round_half_even"

definition fl_is_integer :: "pyfloat \<Rightarrow> bool" where
  "fl_is_integer a = (isfinite a \<and> of_int \<lfloor>fl_val a\<rfloor> = fl_val a)"

section \<open>Square root\<close>

text \<open>Integer square root, two bits at a time.\<close>

function isqrt :: "int \<Rightarrow> int" where
  "isqrt n = (if n \<le> 0 then 0
     else let r = 2 * isqrt (n div 4) in if (r + 1) * (r + 1) \<le> n then r + 1 else r)"
  by pat_completeness auto
termination
  by (relation "measure nat") auto

declare isqrt.simps [simp del]

text \<open>The correctly rounded root of a positive number: scaled so that the integer part of the
  root has 53 bits, then rounded up when the remainder passes the middle.\<close>

definition fl_sqrt :: "pyfloat \<Rightarrow> pyfloat" where
  "fl_sqrt a =
     (if fl_val a = 0 then a
      else let q = ilog2 (fl_val a) div 2 - 52; y = fl_val a / (pow2 q * pow2 q);
               m = isqrt \<lfloor>y\<rfloor>;
               h = of_int m + 1 / 2
           in Fin (of_int (if h * h < y \<or> h * h = y \<and> odd m then m + 1 else m) * pow2 q))"

section \<open>Lemmas\<close>

subsection \<open>Powers of two and the leading bit\<close>

lemma pow2_pos [simp]: "0 < pow2 e"
  by (simp add: pow2_def)

lemma pow2_nonzero [simp]: "pow2 e \<noteq> 0"
  using pow2_pos [of e] by linarith

lemma abs_pow2 [simp]: "\<bar>pow2 e\<bar> = pow2 e"
  by (simp add: abs_of_pos)

lemma pow2_powr: "pow2 e = 2 powi e"
  by (simp add: pow2_def power_int_def inverse_eq_divide power_divide)

lemma pow2_add: "pow2 (a + b) = pow2 a * pow2 b"
  by (simp add: pow2_powr power_int_add)

lemma pow2_diff: "pow2 (a - b) = pow2 a / pow2 b"
  by (simp add: pow2_powr power_int_diff)

lemma pow2_nonneg_int: "0 \<le> e \<Longrightarrow> pow2 e = of_int (2 ^ nat e)"
  by (simp add: pow2_def)

lemma pow2_mono_iff [simp]: "pow2 a \<le> pow2 b \<longleftrightarrow> a \<le> b"
proof -
  have "pow2 a < pow2 b" if "a < b" for a b
    using that power_int_strict_increasing [of a b "2::rat"] by (simp add: pow2_powr)
  then show ?thesis
    by (metis linorder_not_less order_less_imp_le order_less_le)
qed

lemma pow2_less_iff [simp]: "pow2 a < pow2 b \<longleftrightarrow> a < b"
  by (metis linorder_not_less pow2_mono_iff)

lemma bitlen_rat_bounds:
  assumes "0 < (p::int)"
  shows "pow2 (bitlen p - 1) \<le> of_int p" and "of_int p < pow2 (bitlen p)"
proof -
  have b: "2 ^ nat (bitlen p - 1) \<le> p" "p < 2 ^ nat (bitlen p)" "0 < bitlen p"
    using bitlen_bounds [OF assms] assms bitlen_nonneg [of p] bitlen_eq_zero_iff [of p] by auto
  show "pow2 (bitlen p - 1) \<le> of_int p"
    using b of_int_le_iff [of "2 ^ nat (bitlen p - 1)" p, where 'a = rat] by (simp add: pow2_def)
  show "of_int p < pow2 (bitlen p)"
    using b of_int_less_iff [of p "2 ^ nat (bitlen p)", where 'a = rat] by (simp add: pow2_def)
qed

lemma ilog2_bounds:
  assumes "x \<noteq> 0"
  shows "pow2 (ilog2 x) \<le> \<bar>x\<bar>" and "\<bar>x\<bar> < pow2 (ilog2 x + 1)"
proof -
  obtain p q where pq: "quotient_of \<bar>x\<bar> = (p, q)" by fastforce
  have q: "0 < q" and x: "\<bar>x\<bar> = of_int p / of_int q"
    using quotient_of_denom_pos [OF pq] quotient_of_div [OF pq] by auto
  have p: "0 < p"
    using assms x q by (metis abs_le_zero_iff linorder_not_less of_int_le_0_iff of_int_pos divide_nonpos_pos)
  let ?k = "bitlen p - bitlen q"
  have "\<bar>x\<bar> < pow2 (bitlen p) / pow2 (bitlen q - 1)"
    unfolding x using bitlen_rat_bounds [OF p] bitlen_rat_bounds [OF q] q p
    by (intro frac_less) auto
  then have up: "\<bar>x\<bar> < pow2 (?k + 1)"
    by (simp add: pow2_diff [symmetric] algebra_simps)
  have "pow2 (bitlen p - 1) / pow2 (bitlen q) \<le> \<bar>x\<bar>"
    unfolding x using bitlen_rat_bounds [OF p] bitlen_rat_bounds [OF q] q p
    by (intro frac_le) auto
  then have lo: "pow2 (?k - 1) \<le> \<bar>x\<bar>"
    by (simp add: pow2_diff [symmetric] algebra_simps)
  show "pow2 (ilog2 x) \<le> \<bar>x\<bar>" "\<bar>x\<bar> < pow2 (ilog2 x + 1)"
    using up lo by (auto simp: ilog2_def pq Let_def)
qed

lemma ilog2_unique:
  assumes "pow2 e \<le> \<bar>x\<bar>" and "\<bar>x\<bar> < pow2 (e + 1)"
  shows "ilog2 x = e"
proof -
  have "x \<noteq> 0" using assms(1) pow2_pos [of e] by (metis abs_zero linorder_not_less)
  note b = ilog2_bounds [OF this]
  have "pow2 (ilog2 x) < pow2 (e + 1)" "pow2 e < pow2 (ilog2 x + 1)"
    using b assms by linarith+
  then show ?thesis by simp
qed

subsection \<open>Rounding\<close>

lemma round_half_even_of_int [simp]: "round_half_even (of_int i) = i"
  by (simp add: round_half_even_def)

lemma round_half_even_bounds:
  "of_int (round_half_even r) \<le> r + 1 / 2" "r - 1 / 2 \<le> of_int (round_half_even r)"
  by (auto simp: round_half_even_def Let_def; use of_int_floor_le [of r] in linarith)+

lemma round_half_even_le_of_int: "r \<le> of_int i \<Longrightarrow> round_half_even r \<le> i"
proof (rule ccontr)
  assume r: "r \<le> of_int i" and "\<not> round_half_even r \<le> i"
  then have "of_int (i + 1) \<le> (of_int (round_half_even r) :: rat)" by simp
  with r round_half_even_bounds(1) [of r] show False by simp
qed

lemma round_half_even_ge_of_int: "of_int i \<le> r \<Longrightarrow> i \<le> round_half_even r"
proof (rule ccontr)
  assume r: "of_int i \<le> r" and "\<not> i \<le> round_half_even r"
  then have "(of_int (round_half_even r) :: rat) \<le> of_int (i - 1)" by linarith
  with r round_half_even_bounds(2) [of r] show False by simp
qed

lemma round_half_even_mono: "r \<le> s \<Longrightarrow> round_half_even r \<le> round_half_even s"
proof (cases "\<lfloor>r\<rfloor> = \<lfloor>s\<rfloor>")
  case True
  assume "r \<le> s"
  then show ?thesis using True by (auto simp: round_half_even_def Let_def)
next
  case False
  assume "r \<le> s"
  then have "\<lfloor>r\<rfloor> + 1 \<le> \<lfloor>s\<rfloor>" using False floor_mono [of r s] by linarith
  moreover have "round_half_even r \<le> \<lfloor>r\<rfloor> + 1" "\<lfloor>s\<rfloor> \<le> round_half_even s"
    by (auto simp: round_half_even_def Let_def)
  ultimately show ?thesis by linarith
qed

lemma ulp_scaled_bound:
  assumes "x \<noteq> 0"
  shows "\<bar>x / pow2 (ulp_exp x)\<bar> < 2 ^ 53"
proof -
  have "\<bar>x\<bar> < pow2 (ilog2 x + 1)" using ilog2_bounds [OF assms] by blast
  also have "\<dots> \<le> pow2 (ulp_exp x + 53)" by (simp add: ulp_exp_def)
  also have "\<dots> = 2 ^ 53 * pow2 (ulp_exp x)" by (simp add: pow2_add) (simp add: pow2_def)
  finally show ?thesis by (simp add: abs_divide divide_less_eq)
qed

text \<open>A number of the format is a whole number of its own units in the last place.\<close>

lemma binary64_scaled:
  assumes "binary64 r" and "r \<noteq> 0"
  shows "\<exists>k. r / pow2 (ulp_exp r) = of_int k"
proof -
  obtain m q where r: "r = of_int m * pow2 q" and m: "\<bar>m\<bar> < 2 ^ 53" and q: "- 1074 \<le> q"
    using assms(1) by (auto simp: binary64_def)
  have "\<bar>of_int m :: rat\<bar> < pow2 53" using m by (simp add: pow2_def flip: of_int_abs)
  then have "\<bar>of_int m :: rat\<bar> * pow2 q < pow2 53 * pow2 q"
    by (rule mult_strict_right_mono) simp
  then have "\<bar>r\<bar> < pow2 (53 + q)" by (simp add: r abs_mult pow2_add)
  then have "pow2 (ilog2 r) < pow2 (53 + q)"
    using ilog2_bounds(1) [OF assms(2)] by linarith
  then have "ulp_exp r \<le> q" using q by (auto simp: ulp_exp_def)
  then have "pow2 q = of_int (2 ^ nat (q - ulp_exp r)) * pow2 (ulp_exp r)"
    using pow2_add [of "q - ulp_exp r" "ulp_exp r"] pow2_nonneg_int [of "q - ulp_exp r"] by simp
  then have "r / pow2 (ulp_exp r) = of_int (m * 2 ^ nat (q - ulp_exp r))"
    by (simp add: r divide_eq_eq)
  then show ?thesis ..
qed

theorem fl_round_binary64: "binary64 r \<Longrightarrow> fl_round r = Fin r"
proof (cases "r = 0")
  case True
  then show ?thesis by (simp add: fl_round_def)
next
  case False
  assume b: "binary64 r"
  obtain k where k: "r / pow2 (ulp_exp r) = of_int k" using binary64_scaled [OF b False] by blast
  then have "of_int k * pow2 (ulp_exp r) = r" by (metis nonzero_eq_divide_eq pow2_nonzero)
  then show ?thesis
    using False b k by (auto simp: fl_round_def fl_of_rat_def binary64_def Let_def)
qed

lemma fl_round_Fin_binary64:
  assumes "fl_round x = Fin v"
  shows "binary64 v"
proof (cases "x = 0")
  case True
  then show ?thesis using assms by (auto simp: fl_round_def binary64_def intro: exI [of _ 0])
next
  case False
  let ?q = "ulp_exp x" and ?m = "round_half_even (x / pow2 (ulp_exp x))"
  have "x / pow2 ?q \<le> of_int (2 ^ 53)" "of_int (- (2 ^ 53)) \<le> x / pow2 ?q"
    using ulp_scaled_bound [OF False] by (simp_all add: abs_less_iff del: abs_divide)
  then have le: "\<bar>?m\<bar> \<le> 2 ^ 53"
    using round_half_even_le_of_int round_half_even_ge_of_int by (metis abs_le_iff minus_le_iff)
  have v: "v = 0 \<or> v = of_int ?m * pow2 ?q \<and> \<bar>v\<bar> < 2 ^ 1024"
    using assms False by (auto simp: fl_round_def fl_of_rat_def Let_def split: if_splits)
  have q: "- 1074 \<le> ?q" by (simp add: ulp_exp_def)
  have carry: "\<exists>m q. of_int ?m * pow2 ?q = of_int m * pow2 q \<and> \<bar>m\<bar> < 2 ^ 53 \<and> - 1074 \<le> q"
    if "\<bar>?m\<bar> = 2 ^ 53"
  proof -
    have "?m = 2 * 2 ^ 52 \<or> ?m = 2 * - (2 ^ 52)" using that by (auto simp: abs_if split: if_splits)
    then obtain k where k: "?m = 2 * k" "\<bar>k\<bar> < 2 ^ 53" by fastforce
    then have "of_int ?m * pow2 ?q = of_int k * pow2 (?q + 1)"
      by (simp add: pow2_add) (simp add: pow2_def)
    then show ?thesis using q k(2) by (metis add_increasing2 zero_le_one)
  qed
  show ?thesis
  proof (cases "v = 0")
    case True
    then show ?thesis by (auto simp: binary64_def intro: exI [of _ 0])
  next
    case False
    then have "v = of_int ?m * pow2 ?q" "\<bar>v\<bar> < 2 ^ 1024" using v by auto
    moreover have "\<exists>m q. of_int ?m * pow2 ?q = of_int m * pow2 q \<and> \<bar>m\<bar> < 2 ^ 53 \<and> - 1074 \<le> q"
      using carry le q by (cases "\<bar>?m\<bar> = 2 ^ 53") fastforce+
    ultimately show ?thesis by (auto simp: binary64_def)
  qed
qed

lemma fl_round_not_NaN [simp]: "fl_round x \<noteq> NaN"
  by (auto simp: fl_round_def fl_of_rat_def Let_def)

lemma binary64_of_int: "\<bar>i\<bar> < 2 ^ 53 \<Longrightarrow> binary64 (of_int i)"
proof -
  assume i: "\<bar>i\<bar> < 2 ^ 53"
  have "(2::rat) ^ 53 \<le> 2 ^ 1024" by (rule power_increasing) auto
  then have "\<bar>of_int i :: rat\<bar> < 2 ^ 1024"
    using i of_int_less_iff [of "\<bar>i\<bar>" "2 ^ 53", where 'a = rat] by simp
  moreover have "(of_int i :: rat) = of_int i * pow2 0" by (simp add: pow2_def)
  ultimately show ?thesis using i unfolding binary64_def by (metis neg_le_0_iff_le zero_le_numeral)
qed

lemma fl_round_of_int: "\<bar>i\<bar> < 2 ^ 53 \<Longrightarrow> fl_round (of_int i) = Fin (of_int i)"
  by (rule fl_round_binary64, rule binary64_of_int)

lemma float_of_int_small: "\<bar>i\<bar> < 2 ^ 53 \<Longrightarrow> float_of_int i = Inr (Fin (of_int i))"
  by (simp add: float_of_int_def fl_round_of_int)

lemma float_of_int_finite: "float_of_int i = Inr f \<Longrightarrow> isfinite f"
  by (auto simp: float_of_int_def Let_def split: if_splits)

subsection \<open>Square root\<close>

lemma isqrt_correct:
  "0 \<le> n \<Longrightarrow> 0 \<le> isqrt n \<and> isqrt n * isqrt n \<le> n \<and> n < (isqrt n + 1) * (isqrt n + 1)"
proof (induction n rule: isqrt.induct)
  case (1 n)
  show ?case
  proof (cases "n = 0")
    case True
    then show ?thesis by (simp add: isqrt.simps)
  next
    case False
    let ?s = "isqrt (n div 4)"
    have s: "0 \<le> ?s" "?s * ?s \<le> n div 4" "n div 4 < (?s + 1) * (?s + 1)" using 1 False by auto
    have "4 * (?s * ?s) \<le> n" "n < 4 * ((?s + 1) * (?s + 1))" using s by linarith+
    then show ?thesis using False "1.prems" s(1) by (auto simp: isqrt.simps [of n] Let_def algebra_simps)
  qed
qed

subsection \<open>Finite operands\<close>

lemma isfinite_cases: "isfinite a \<longleftrightarrow> (\<exists>r. a = Fin r) \<or> a = NegZero"
  by (cases a) auto

lemma fl_truthy_of_bool [simp]: "fl_truthy (fl_of_bool b) = b"
  by (simp add: fl_truthy_def fl_of_bool_def)

lemma isfinite_fl_of_bool [simp]: "isfinite (fl_of_bool b)"
  by (simp add: fl_of_bool_def)

lemma fl_lt_finite: "isfinite a \<Longrightarrow> isfinite b \<Longrightarrow> fl_lt a b \<longleftrightarrow> fl_val a < fl_val b"
  by (auto simp: isfinite_cases)

lemma fl_eq_finite: "isfinite a \<Longrightarrow> isfinite b \<Longrightarrow> fl_eq a b \<longleftrightarrow> fl_val a = fl_val b"
  by (auto simp: isfinite_cases)

lemma fl_le_finite: "isfinite a \<Longrightarrow> isfinite b \<Longrightarrow> fl_le a b \<longleftrightarrow> fl_val a \<le> fl_val b"
  by (auto simp: fl_le_def fl_lt_finite fl_eq_finite)

lemma fl_add_finite:
  "isfinite a \<Longrightarrow> isfinite b \<Longrightarrow>
   fl_add a b = fl_round_signed (a = NegZero \<and> b = NegZero) (fl_val a + fl_val b)"
  by (auto simp: isfinite_cases fl_add_def)

lemma int_of_float_finite: "isfinite a \<Longrightarrow> int_of_float f a = Inr (f (fl_val a))"
  by (auto simp: isfinite_cases int_of_float_def)

lemma fl_floor_finite: "isfinite a \<Longrightarrow> fl_floor a = Inr \<lfloor>fl_val a\<rfloor>"
  by (simp add: fl_floor_def int_of_float_finite)

lemma fl_ceil_finite: "isfinite a \<Longrightarrow> fl_ceil a = Inr \<lceil>fl_val a\<rceil>"
  by (simp add: fl_ceil_def int_of_float_finite)

lemma py_round_finite: "isfinite a \<Longrightarrow> py_round a = Inr (round_half_even (fl_val a))"
  by (simp add: py_round_def int_of_float_finite)

lemma isfinite_fl_neg [simp]: "isfinite (fl_neg a) = isfinite a"
  by (cases a) auto

lemma isfinite_fl_abs [simp]: "isfinite (fl_abs a) = isfinite a"
  by (simp add: fl_abs_def)

lemma isfinite_fl_sqrt [simp]: "isfinite a \<Longrightarrow> isfinite (fl_sqrt a)"
  by (simp add: fl_sqrt_def Let_def)

subsection \<open>Doubles\<close>

definition fl_ok :: "pyfloat \<Rightarrow> bool" where
  "fl_ok f = (isfinite f \<and> binary64 (fl_val f))"

lemma fl_ok_finite [simp]: "fl_ok f \<Longrightarrow> isfinite f"
  by (simp add: fl_ok_def)

lemma as_double_ok [simp]: "fl_ok f \<Longrightarrow> as_double f = f"
  by (cases f) (auto simp: fl_ok_def fl_round_binary64)

lemma binary64_0 [simp]: "binary64 0"
  using binary64_of_int [of 0] by simp

lemma fl_ok_NegZero [simp]: "fl_ok NegZero"
  by (simp add: fl_ok_def)

lemma fl_round_ok: "isfinite (fl_round x) \<Longrightarrow> fl_ok (fl_round x)"
  by (cases "fl_round x") (auto simp: fl_ok_def dest: fl_round_Fin_binary64)

lemma as_double_finite_ok: "isfinite (as_double f) \<Longrightarrow> fl_ok (as_double f)"
  by (cases f) (auto simp: fl_round_ok)

lemma fl_ok_of_int: "\<bar>i\<bar> < 2 ^ 53 \<Longrightarrow> fl_ok (Fin (of_int i))"
  by (simp add: fl_ok_def binary64_of_int)

lemma fl_ok_of_bool [simp]: "fl_ok (fl_of_bool b)"
  using fl_ok_of_int [of 1] fl_ok_of_int [of 0] by (simp add: fl_of_bool_def)

lemma float_of_int_ok: "float_of_int i = Inr f \<Longrightarrow> fl_ok f"
  by (auto simp: float_of_int_def Let_def fl_round_ok split: if_splits)

text \<open>The integers next to a double are doubles, so \<open>floor\<close>, \<open>ceil\<close> and \<open>round\<close> convert back.\<close>

lemma binary64_pow2_53: "\<bar>i\<bar> = 2 ^ 53 \<Longrightarrow> binary64 (of_int i)"
proof -
  assume i: "\<bar>i\<bar> = 2 ^ 53"
  then have "(of_int i :: rat) = of_int (sgn i) * pow2 53"
    by (auto simp: pow2_def abs_if split: if_splits)
  moreover have "\<bar>sgn i\<bar> < (2::int) ^ 53" by (simp add: sgn_if)
  moreover have "\<bar>of_int i :: rat\<bar> < 2 ^ 1024"
    using i power_strict_increasing [of 53 1024 "2::rat"] by (simp flip: of_int_abs)
  ultimately show ?thesis
    unfolding binary64_def by (intro conjI exI [of _ "sgn i"] exI [of _ 53]) auto
qed

lemma binary64_large_int:
  assumes "binary64 r" and "2 ^ 53 \<le> \<bar>r\<bar>"
  shows "\<exists>k. r = of_int k"
proof -
  obtain m q where r: "r = of_int m * pow2 q" and m: "\<bar>m\<bar> < 2 ^ 53"
    using assms(1) by (auto simp: binary64_def)
  have "0 \<le> q"
  proof (rule ccontr)
    assume "\<not> 0 \<le> q"
    then have "pow2 q \<le> pow2 0" by simp
    then have "\<bar>of_int m :: rat\<bar> * pow2 q \<le> \<bar>of_int m\<bar> * 1"
      by (intro mult_left_mono) (auto simp: pow2_def)
    moreover have "\<bar>of_int m :: rat\<bar> < 2 ^ 53"
      using m of_int_less_iff [of "\<bar>m\<bar>" "2 ^ 53", where 'a = rat] by simp
    ultimately show False using assms(2) by (simp add: r abs_mult)
  qed
  then have "r = of_int (m * 2 ^ nat q)" by (simp add: r pow2_nonneg_int)
  then show ?thesis ..
qed

lemma binary64_near_int:
  assumes "binary64 r" and "\<bar>of_int i - r\<bar> < 1"
  shows "binary64 (of_int i)"
proof (cases "2 ^ 53 \<le> \<bar>r\<bar>")
  case True
  then obtain k where "r = of_int k" using binary64_large_int [OF assms(1)] by blast
  then have "\<bar>of_int (i - k) :: rat\<bar> < 1" using assms(2) by simp
  then have "i = k" by (metis abs_ge_zero of_int_abs of_int_less_1_iff right_minus_eq zero_less_abs_iff linorder_not_less int_one_le_iff_zero_less)
  then show ?thesis using assms(1) \<open>r = of_int k\<close> by simp
next
  case False
  then have "\<bar>of_int i :: rat\<bar> < of_int (2 ^ 53 + 1)" using assms(2) by simp
  then have "\<bar>i\<bar> < 2 ^ 53 + 1" by (metis of_int_abs of_int_less_iff)
  then consider "\<bar>i\<bar> < 2 ^ 53" | "\<bar>i\<bar> = 2 ^ 53" by linarith
  then show ?thesis using binary64_of_int binary64_pow2_53 by cases auto
qed

lemma float_of_int_near:
  assumes "fl_ok f" and "\<bar>of_int i - fl_val f\<bar> < 1"
  shows "float_of_int i = Inr (Fin (of_int i))"
proof -
  have "binary64 (of_int i)" using assms by (auto simp: fl_ok_def intro: binary64_near_int)
  then show ?thesis by (simp add: float_of_int_def fl_round_binary64)
qed

lemma float_of_int_floor: "fl_ok f \<Longrightarrow> float_of_int \<lfloor>fl_val f\<rfloor> = Inr (Fin (of_int \<lfloor>fl_val f\<rfloor>))"
  by (rule float_of_int_near) (auto simp: abs_if; linarith)+

lemma float_of_int_ceil: "fl_ok f \<Longrightarrow> float_of_int \<lceil>fl_val f\<rceil> = Inr (Fin (of_int \<lceil>fl_val f\<rceil>))"
  by (rule float_of_int_near) (auto simp: abs_if; linarith)+

lemma float_of_int_round:
  "fl_ok f \<Longrightarrow> float_of_int (round_half_even (fl_val f)) = Inr (Fin (of_int (round_half_even (fl_val f))))"
proof (rule float_of_int_near)
  show "\<bar>of_int (round_half_even (fl_val f)) - fl_val f\<bar> < 1"
    using round_half_even_bounds [of "fl_val f"] by (simp add: abs_if)
qed

section \<open>Bounds\<close>

lemma ulp_exp_le:
  assumes "\<bar>x\<bar> \<le> 2 ^ n" and "x \<noteq> 0"
  shows "ulp_exp x \<le> int n"
proof -
  have "pow2 (ilog2 x) \<le> pow2 (int n)" using ilog2_bounds(1) [OF assms(2)] assms(1) by (simp add: pow2_def)
  then have "ilog2 x \<le> int n" by simp
  then show ?thesis by (simp add: ulp_exp_def)
qed

text \<open>Rounding keeps a bound that is a power of two.\<close>

lemma fl_round_bounded:
  assumes "\<bar>x\<bar> \<le> 2 ^ n" and "n < 1024"
  shows "isfinite (fl_round x) \<and> \<bar>fl_val (fl_round x)\<bar> \<le> 2 ^ n"
proof (cases "x = 0")
  case True
  then show ?thesis by (simp add: fl_round_def)
next
  case False
  define q where "q = ulp_exp x"
  define m where "m = round_half_even (x / pow2 q)"
  have q: "q \<le> int n" using ulp_exp_le [OF assms(1) False] by (simp add: q_def)
  have "pow2 (int n) = pow2 (int n - q) * pow2 q" by (simp flip: pow2_add)
  then have p: "2 ^ n = of_int (2 ^ nat (int n - q)) * pow2 q"
    using q by (simp add: pow2_nonneg_int [symmetric]) (simp add: pow2_def)
  have "x / pow2 q \<le> of_int (2 ^ nat (int n - q))" "of_int (- (2 ^ nat (int n - q))) \<le> x / pow2 q"
    using assms(1) p by (simp_all add: pos_divide_le_eq pos_le_divide_eq abs_le_iff)
  then have "\<bar>m\<bar> \<le> 2 ^ nat (int n - q)"
    using round_half_even_le_of_int round_half_even_ge_of_int unfolding m_def by (metis abs_le_iff minus_le_iff)
  then have "\<bar>of_int m :: rat\<bar> \<le> of_int (2 ^ nat (int n - q))" by (metis of_int_abs of_int_le_iff)
  then have b: "\<bar>of_int m * pow2 q\<bar> \<le> 2 ^ n" unfolding p by (simp add: abs_mult mult_right_mono)
  have "(2::rat) ^ n < 2 ^ 1024" using assms(2) by (intro power_strict_increasing) auto
  then show ?thesis using b False
    by (auto simp: fl_round_def fl_of_rat_def Let_def simp flip: q_def m_def)
qed

lemma fl_round_overflow:
  assumes "of_int (round_half_even (x / pow2 (ulp_exp x))) * pow2 (ulp_exp x) = x" and "2 ^ 1024 \<le> x"
  shows "fl_round x = Infty False"
proof -
  have "0 < x" using assms(2) by (rule less_le_trans [rotated]) simp
  moreover have "fl_round x = fl_of_rat False x"
    using \<open>0 < x\<close> assms(1) by (simp add: fl_round_def Let_def)
  ultimately show ?thesis using assms(2) by (simp add: fl_of_rat_def del: power_numeral)
qed

lemma fl_round_2_1024: "fl_round (2 ^ 1024) = Infty False"
proof (rule fl_round_overflow)
  have "ilog2 (2 ^ 1024) = 1024" by (rule ilog2_unique) (auto simp: pow2_def)
  then have q: "ulp_exp (2 ^ 1024) = 972" by (simp add: ulp_exp_def)
  have "(2::rat) ^ 1024 / pow2 972 = of_int (2 ^ 52)" by (simp add: pow2_def)
  then have "round_half_even ((2::rat) ^ 1024 / pow2 972) = 2 ^ 52" by (metis round_half_even_of_int)
  then show "of_int (round_half_even ((2::rat) ^ 1024 / pow2 (ulp_exp (2 ^ 1024)))) * pow2 (ulp_exp (2 ^ 1024)) = 2 ^ 1024"
    unfolding q by (simp only: pow2_def) simp
qed simp

section \<open>Evaluation\<close>

text \<open>Code equations for the common case, so that concrete runs evaluate quickly: a small
  integer is its own double, and the powers of two are computed on integers.\<close>

lemma fl_round_code [code]:
  "fl_round x = (case quotient_of x of (p, q) \<Rightarrow>
     if q = 1 \<and> \<bar>p\<bar> < 9007199254740992 then Fin x
     else if x = 0 then Fin 0
     else let e = ulp_exp x in fl_of_rat (x < 0) (of_int (round_half_even (x / pow2 e)) * pow2 e))"
proof (cases "quotient_of x")
  case (Pair p q)
  have "fl_round x = Fin x" if "q = 1" "\<bar>p\<bar> < 9007199254740992"
    using quotient_of_div [OF Pair] fl_round_of_int [of p] that by simp
  then show ?thesis using Pair by (simp add: fl_round_def)
qed

lemma fl_of_rat_code [code]:
  "fl_of_rat s v =
     (if v = 0 then (if s then NegZero else Fin 0)
      else if \<bar>v\<bar> < 9007199254740992 then Fin v
      else if 2 ^ 1024 \<le> \<bar>v\<bar> then Infty (v < 0) else Fin v)"
proof -
  have "(9007199254740992::rat) \<le> 2 ^ 1024"
    using power_increasing [of 53 1024 "2::rat"] by simp
  then show ?thesis by (simp add: fl_of_rat_def)
qed

lemma pow2_code [code]:
  "pow2 e = (if 0 \<le> e then of_int (2 ^ nat e) else 1 / of_int (2 ^ nat (- e)))"
  by (simp add: pow2_def)

end
