(* ===== verification/PyText.thy ===== *)
theory PyText
  imports PyFloat
begin

text \<open>
  Python's \<open>str\<close> methods the sources use.  A text is a list of characters, read as the code
  points U+0000 to U+00FF; white space, line ends and case folding are Python's on that range.
  The parsers of \<open>int()\<close> and \<open>float()\<close>, decimal printing and the shortest
  representation of a float are here too.
\<close>

section \<open>Characters\<close>

definition ord_c :: "char \<Rightarrow> nat" where
  "ord_c c = of_char c"

definition is_space :: "char \<Rightarrow> bool" where
  "is_space c = (let n = ord_c c in 9 \<le> n \<and> n \<le> 13 \<or> 28 \<le> n \<and> n \<le> 32 \<or> n = 133 \<or> n = 160)"

definition is_line_end :: "char \<Rightarrow> bool" where
  "is_line_end c = (let n = ord_c c in 10 \<le> n \<and> n \<le> 13 \<or> 28 \<le> n \<and> n \<le> 30 \<or> n = 133)"

definition is_letter :: "char \<Rightarrow> bool" where
  "is_letter c = (65 \<le> ord_c c \<and> ord_c c \<le> 90 \<or> 97 \<le> ord_c c \<and> ord_c c \<le> 122)"

definition is_digit :: "char \<Rightarrow> bool" where
  "is_digit c = (48 \<le> ord_c c \<and> ord_c c \<le> 57)"

definition digit_of :: "char \<Rightarrow> int" where
  "digit_of c = of_char c - 48"

definition digit_char :: "int \<Rightarrow> char" where
  "digit_char d = char_of (48 + d mod 10)"

text \<open>Case folding: A-Z and the accented capitals move down by 32, the sharp s becomes ss.\<close>

definition casefold_char :: "char \<Rightarrow> string" where
  "casefold_char c = (let n = ord_c c
     in if 65 \<le> n \<and> n \<le> 90 \<or> 192 \<le> n \<and> n \<le> 222 \<and> n \<noteq> 215 then [char_of (n + 32)]
        else if n = 223 then ''ss'' else [c])"

definition casefold :: "string \<Rightarrow> string" where
  "casefold s = concat (map casefold_char s)"

definition lower_char :: "char \<Rightarrow> char" where
  "lower_char c = (let n = ord_c c
     in if 65 \<le> n \<and> n \<le> 90 \<or> 192 \<le> n \<and> n \<le> 222 \<and> n \<noteq> 215 then char_of (n + 32) else c)"

definition lower :: "string \<Rightarrow> string" where
  "lower s = map lower_char s"

section \<open>Stripping, splitting, joining\<close>

definition lstrip :: "string \<Rightarrow> string" where
  "lstrip s = dropWhile is_space s"

definition rstrip :: "string \<Rightarrow> string" where
  "rstrip s = rev (dropWhile is_space (rev s))"

definition strip :: "string \<Rightarrow> string" where
  "strip s = rstrip (lstrip s)"

text \<open>\<open>s.strip(cs)\<close> with an explicit set of characters.\<close>

definition strip_chars :: "string \<Rightarrow> string \<Rightarrow> string" where
  "strip_chars cs s =
     rev (dropWhile (\<lambda>c. c \<in> set cs) (rev (dropWhile (\<lambda>c. c \<in> set cs) s)))"

function split_ws :: "string \<Rightarrow> string list" where
  "split_ws s = (case dropWhile is_space s of [] \<Rightarrow> []
     | c # cs \<Rightarrow> (c # takeWhile (\<lambda>d. \<not> is_space d) cs) # split_ws (dropWhile (\<lambda>d. \<not> is_space d) cs))"
  by pat_completeness auto
termination
proof (relation "measure length", goal_cases)
  case (2 s c cs)
  then have "length (c # cs) \<le> length s" by (metis length_dropWhile_le)
  then show ?case using length_dropWhile_le [of "\<lambda>d. \<not> is_space d" cs] by simp
qed simp

declare split_ws.simps [simp del]

text \<open>\<open>splitlines\<close>: the line ends are dropped, \<open>\r\n\<close> is one of them, and a final line end
  opens no further line.\<close>

function splitlines :: "string \<Rightarrow> string list" where
  "splitlines s = (if s = [] then []
     else let l = takeWhile (\<lambda>c. \<not> is_line_end c) s; r = dropWhile (\<lambda>c. \<not> is_line_end c) s
          in l # splitlines (case r of [] \<Rightarrow> []
               | c # cs \<Rightarrow> if ord_c c = 13 \<and> cs \<noteq> [] \<and> ord_c (hd cs) = 10 then tl cs else cs))"
  by pat_completeness auto
termination
proof (relation "measure length", goal_cases)
  case (2 s l r)
  then have "length r \<le> length s" by (simp add: length_dropWhile_le)
  with 2 show ?case by (auto split: list.splits if_splits simp: Let_def)
qed simp

declare splitlines.simps [simp del]

primrec join :: "string \<Rightarrow> string list \<Rightarrow> string" where
  "join sep [] = []"
| "join sep (x # xs) = (if xs = [] then x else x @ sep @ join sep xs)"

definition startswith :: "string \<Rightarrow> string \<Rightarrow> bool" where
  "startswith s p = (take (length p) s = p)"

definition endswith :: "string \<Rightarrow> string \<Rightarrow> bool" where
  "endswith s p = startswith (rev s) (rev p)"

text \<open>\<open>p in s\<close>\<close>

fun contains :: "string \<Rightarrow> string \<Rightarrow> bool" where
  "contains [] p = (p = [])"
| "contains (c # s) p = (startswith (c # s) p \<or> contains s p)"

text \<open>\<open>s.split(sep)\<close> for a one-character separator.\<close>

fun split_on :: "char \<Rightarrow> string \<Rightarrow> string list" where
  "split_on d [] = [[]]"
| "split_on d (c # s) = (if c = d then [] # split_on d s
     else (case split_on d s of [] \<Rightarrow> [[c]] | w # ws \<Rightarrow> (c # w) # ws))"

text \<open>\<open>len(s.encode())\<close>: two bytes from U+0080 on.\<close>

definition utf8_len :: "string \<Rightarrow> nat" where
  "utf8_len s = sum_list (map (\<lambda>c. if ord_c c < 128 then 1 else 2) s)"

definition utf8_encode :: "string \<Rightarrow> int list" where
  "utf8_encode s = concat (map (\<lambda>c. let n = of_char c
     in if n < 128 then [n] else [192 + n div 64, 128 + n mod 64]) s)"

section \<open>Decimal numbers\<close>

function show_pos :: "int \<Rightarrow> string" where
  "show_pos n = (if n < 10 then [digit_char n] else show_pos (n div 10) @ [digit_char (n mod 10)])"
  by pat_completeness auto
termination
  by (relation "measure nat") auto

declare show_pos.simps [simp del]

definition show_int :: "int \<Rightarrow> string" where
  "show_int i = (if i < 0 then CHR ''-'' # show_pos (- i) else show_pos i)"

definition show_nat :: "nat \<Rightarrow> string" where
  "show_nat n = show_pos (int n)"

text \<open>\<open>f"{n:0kd}"\<close> of a natural number\<close>

definition zero_pad :: "nat \<Rightarrow> nat \<Rightarrow> string" where
  "zero_pad k n = replicate (k - length (show_nat n)) (CHR ''0'') @ show_nat n"

text \<open>Digits with single underscores between them, as \<open>int()\<close> and \<open>float()\<close> accept.\<close>

fun digit_part :: "string \<Rightarrow> int list option" where
  "digit_part [] = None"
| "digit_part [c] = (if is_digit c then Some [digit_of c] else None)"
| "digit_part (c # d # cs) =
     (if \<not> is_digit c then None
      else map_option (Cons (digit_of c)) (if d = CHR ''_'' then digit_part cs else digit_part (d # cs)))"

definition of_digits :: "int list \<Rightarrow> int" where
  "of_digits ds = foldl (\<lambda>n d. 10 * n + d) 0 ds"

fun sign_split :: "string \<Rightarrow> bool \<times> string" where
  "sign_split [] = (False, [])"
| "sign_split (c # cs) = (if c = CHR ''-'' then (True, cs)
     else if c = CHR ''+'' then (False, cs) else (False, c # cs))"

text \<open>\<open>int(text)\<close>; Python refuses more than 4300 digits.\<close>

definition parse_int :: "string \<Rightarrow> int option" where
  "parse_int s = (case sign_split (strip s) of (neg, ds) \<Rightarrow>
     Option.bind (digit_part ds) (\<lambda>ds. if 4300 < int (length ds) then None
       else Some (if neg then - of_digits ds else of_digits ds)))"

definition pow10 :: "int \<Rightarrow> rat" where
  "pow10 e = (if 0 \<le> e then 10 ^ nat e else 1 / 10 ^ nat (- e))"

definition is_exp_mark :: "char \<Rightarrow> bool" where
  "is_exp_mark c = (c = CHR ''e'' \<or> c = CHR ''E'')"

text \<open>An optional part of a number: absent is no digits, present must be a digit part.\<close>

definition opt_digits :: "string \<Rightarrow> int list option" where
  "opt_digits s = (if s = [] then Some [] else digit_part s)"

definition parse_exponent :: "string \<Rightarrow> int option" where
  "parse_exponent s = (case s of [] \<Rightarrow> Some 0
     | _ # cs \<Rightarrow> (case sign_split cs of (neg, ds) \<Rightarrow>
         map_option (\<lambda>ds. if neg then - of_digits ds else of_digits ds) (digit_part ds)))"

definition parse_decimal :: "string \<Rightarrow> rat option" where
  "parse_decimal s =
     (let m = takeWhile (\<lambda>c. \<not> is_exp_mark c) s; e = dropWhile (\<lambda>c. \<not> is_exp_mark c) s;
          i = takeWhile (\<lambda>c. c \<noteq> CHR ''.'') m; f = tl (dropWhile (\<lambda>c. c \<noteq> CHR ''.'') m)
      in if i = [] \<and> f = [] then None
         else (case (opt_digits i, opt_digits f, parse_exponent e) of
             (Some is, Some fs, Some x) \<Rightarrow>
               Some (of_int (of_digits (is @ fs)) * pow10 (x - int (length fs)))
           | _ \<Rightarrow> None))"

text \<open>\<open>float(text)\<close>\<close>

definition parse_float :: "string \<Rightarrow> pyfloat option" where
  "parse_float s = (case sign_split (strip s) of (neg, body) \<Rightarrow>
     let w = lower body
     in if w = ''inf'' \<or> w = ''infinity'' then Some (Infty neg)
        else if w = ''nan'' then Some NaN
        else map_option (\<lambda>v. fl_round_signed neg (if neg then - v else v)) (parse_decimal body))"

section \<open>The shortest representation of a float\<close>

text \<open>The position of the decimal point: \<open>x = 0.d1d2... * 10 ^ decpt\<close>, searched upwards from
  just below the estimate the binary exponent gives.\<close>

fun decpt_search :: "nat \<Rightarrow> int \<Rightarrow> rat \<Rightarrow> int" where
  "decpt_search 0 k x = k"
| "decpt_search (Suc n) k x = (if x < pow10 k then k else decpt_search n (k + 1) x)"

definition decpt :: "rat \<Rightarrow> int" where
  "decpt x = decpt_search 5 (ilog2 x * 30103 div 100000 - 1) x"

text \<open>The \<open>n\<close>-digit decimals next to \<open>x\<close>, below and above; the nearer one that reads back as
  \<open>x\<close>, if any.\<close>

definition repr_digits :: "nat \<Rightarrow> rat \<Rightarrow> (int \<times> int) option" where
  "repr_digits n x =
     (let u = decpt x - int n; y = x / pow10 u; lo = \<lfloor>y\<rfloor>;
          back = (\<lambda>m. fl_round (of_int m * pow10 u) = Fin x);
          near = round_half_even y; far = (if near = lo then lo + 1 else lo)
      in if back near then Some (near, u) else if back far then Some (far, u) else None)"

definition shortest :: "rat \<Rightarrow> int \<times> int" where
  "shortest x = (case List.find (\<lambda>n. repr_digits n x \<noteq> None) [1..<18] of
     Some n \<Rightarrow> the (repr_digits n x)
   | None \<Rightarrow> (round_half_even (x / pow10 (decpt x - 17)), decpt x - 17))"

definition strip_zeros :: "string \<Rightarrow> string" where
  "strip_zeros s = rev (dropWhile (\<lambda>c. c = CHR ''0'') (rev s))"

definition repr_pos :: "rat \<Rightarrow> string" where
  "repr_pos x = (case shortest x of (m, u) \<Rightarrow>
     let full = show_pos m; p = int (length full) + u; ds = strip_zeros full
     in if - 4 < p \<and> p \<le> 16 then
          (if p \<le> 0 then ''0.'' @ replicate (nat (- p)) (CHR ''0'') @ ds
           else if length ds \<le> nat p then ds @ replicate (nat p - length ds) (CHR ''0'') @ ''.0''
           else take (nat p) ds @ ''.'' @ drop (nat p) ds)
        else take 1 ds @ (if tl ds = [] then [] else CHR ''.'' # tl ds) @ ''e''
             @ (if p - 1 < 0 then ''-'' else ''+'') @ zero_pad 2 (nat \<bar>p - 1\<bar>))"

definition float_repr :: "pyfloat \<Rightarrow> string" where
  "float_repr a = (case a of
     NaN \<Rightarrow> ''nan''
   | Infty s \<Rightarrow> (if s then ''-inf'' else ''inf'')
   | NegZero \<Rightarrow> ''-0.0''
   | Fin r \<Rightarrow> if r = 0 then ''0.0'' else if r < 0 then CHR ''-'' # repr_pos (- r) else repr_pos r)"

section \<open>Texts on one line\<close>

definition one_line :: "string \<Rightarrow> bool" where
  "one_line s = (\<forall>c\<in>set s. \<not> is_line_end c)"

lemma one_line_simps [simp]:
  "one_line []" "one_line (c # s) \<longleftrightarrow> \<not> is_line_end c \<and> one_line s"
  "one_line (s @ t) \<longleftrightarrow> one_line s \<and> one_line t"
  "one_line (rev s) = one_line s"
  by (auto simp: one_line_def)

lemma one_line_parts [simp]:
  "one_line s \<Longrightarrow> one_line (take n s)" "one_line s \<Longrightarrow> one_line (drop n s)" "one_line s \<Longrightarrow> one_line (tl s)"
  "one_line s \<Longrightarrow> one_line (dropWhile P s)" "\<not> is_line_end c \<Longrightarrow> one_line (replicate n c)"
  by (auto simp: one_line_def dest: in_set_takeD in_set_dropD set_dropWhileD) (cases s; auto)

lemma is_digit_digit_char [simp]: "is_digit (digit_char d)"
proof -
  have "d mod 10 \<in> set [0..9]" by (simp add: pos_mod_sign pos_mod_bound [of 10 d, simplified zle_add1_eq_le [symmetric]])
  moreover have "list_all (\<lambda>d. is_digit (char_of (48 + d))) [0..(9::int)]" by code_simp
  ultimately show ?thesis by (simp add: list_all_iff digit_char_def)
qed

lemma is_digit_not_line_end: "is_digit c \<Longrightarrow> \<not> is_line_end c" and is_digit_not_space: "is_digit c \<Longrightarrow> \<not> is_space c"
  by (simp_all add: is_digit_def is_line_end_def is_space_def Let_def)

lemma show_pos_digits: "\<forall>c\<in>set (show_pos n). is_digit c"
proof (induction n rule: show_pos.induct)
  case (1 n)
  then show ?case by (subst show_pos.simps) auto
qed

lemma show_pos_nonempty: "show_pos n \<noteq> []"
  by (subst show_pos.simps) simp

lemma one_line_digits: "\<forall>c\<in>set s. is_digit c \<Longrightarrow> one_line s"
  by (auto simp: one_line_def dest: is_digit_not_line_end)

lemma is_digit_zero [simp]: "is_digit (CHR ''0'')"
  by code_simp

lemma zero_pad_digits: "\<forall>c\<in>set (zero_pad k n). is_digit c"
  using show_pos_digits [of "int n"] by (auto simp: zero_pad_def show_nat_def)

lemma zero_pad_nonempty: "zero_pad k n \<noteq> []"
  by (simp add: zero_pad_def show_nat_def show_pos_nonempty)

lemma line_end_literals [simp]:
  "list_all (\<lambda>c. \<not> is_line_end c) ''0123456789-+.einfa''"
  by code_simp

lemma one_line_literal_chars [simp]:
  "\<not> is_line_end (CHR ''0'')" "\<not> is_line_end (CHR ''-'')" "\<not> is_line_end (CHR ''+'')"
  "\<not> is_line_end (CHR ''.'')" "\<not> is_line_end (CHR ''e'')" "\<not> is_line_end (CHR ''i'')"
  "\<not> is_line_end (CHR ''n'')" "\<not> is_line_end (CHR ''f'')" "\<not> is_line_end (CHR ''a'')"
  using line_end_literals by simp_all

lemma one_line_show_int: "one_line (show_int i)"
  using show_pos_digits [of i] show_pos_digits [of "- i"] by (simp add: show_int_def one_line_digits)

lemma one_line_show_pos [simp]: "one_line (show_pos n)"
  by (rule one_line_digits) (rule show_pos_digits)

lemma one_line_zero_pad [simp]: "one_line (zero_pad k n)"
  by (rule one_line_digits) (rule zero_pad_digits)

lemma one_line_strip_zeros [simp]: "one_line s \<Longrightarrow> one_line (strip_zeros s)"
  by (simp add: strip_zeros_def)

lemma one_line_repr_pos: "one_line (repr_pos x)"
proof (cases "shortest x")
  case (Pair m u)
  then show ?thesis by (simp add: repr_pos_def Let_def)
qed

lemma one_line_float_repr: "one_line (float_repr f)"
  by (cases f) (auto simp: float_repr_def one_line_repr_pos)

lemma strip_id:
  assumes "s \<noteq> []" and "\<not> is_space (hd s)" and "\<not> is_space (last s)"
  shows "strip s = s"
proof -
  have "lstrip s = s" using assms(1,2) by (cases s) (auto simp: lstrip_def)
  moreover have "dropWhile is_space (rev s) = rev s"
    using assms(1,3) by (simp add: dropWhile_eq_self_iff hd_rev)
  ultimately show ?thesis by (simp add: strip_def rstrip_def)
qed

lemma last_show_pos: "is_digit (last (show_pos n))"
  using show_pos_digits [of n] show_pos_nonempty [of n] by simp

section \<open>Evaluation\<close>

text \<open>Code points as integers, for concrete runs.\<close>

lemma ord_c_int: "int (ord_c c) = of_char c"
  by (simp add: ord_c_def of_nat_of_char)

lemma ord_c_le: "ord_c c \<le> n \<longleftrightarrow> (of_char c :: int) \<le> int n" "n \<le> ord_c c \<longleftrightarrow> int n \<le> (of_char c :: int)"
  "ord_c c < n \<longleftrightarrow> (of_char c :: int) < int n" "ord_c c = n \<longleftrightarrow> (of_char c :: int) = int n"
  by (simp_all flip: ord_c_int)

lemma char_of_int: "char_of (int n) = char_of n"
proof -
  have "take_bit 8 (int n) = int (of_char (char_of n :: char))" by (simp add: take_bit_eq_mod zmod_int)
  then show ?thesis by (simp add: char_of_eq_iff of_nat_of_char)
qed

lemma char_of_ord_c: "char_of (ord_c c + n) = char_of ((of_char c :: int) + int n)"
  by (metis char_of_int of_nat_add ord_c_int)

lemma utf8_len_code [code]:
  "utf8_len s = sum_list (map (\<lambda>c. if (of_char c :: int) < 128 then 1 else 2) s)"
  by (simp add: utf8_len_def ord_c_le)

lemma is_space_code [code]:
  "is_space c = (let n = (of_char c :: int) in 9 \<le> n \<and> n \<le> 13 \<or> 28 \<le> n \<and> n \<le> 32 \<or> n = 133 \<or> n = 160)"
  by (simp add: is_space_def Let_def ord_c_le)

lemma is_line_end_code [code]:
  "is_line_end c = (let n = (of_char c :: int) in 10 \<le> n \<and> n \<le> 13 \<or> 28 \<le> n \<and> n \<le> 30 \<or> n = 133)"
  by (simp add: is_line_end_def Let_def ord_c_le)

lemma is_digit_code [code]: "is_digit c = (let n = (of_char c :: int) in 48 \<le> n \<and> n \<le> 57)"
  by (simp add: is_digit_def Let_def ord_c_le)

lemma lower_char_code [code]:
  "lower_char c = (let n = (of_char c :: int)
     in if 65 \<le> n \<and> n \<le> 90 \<or> 192 \<le> n \<and> n \<le> 222 \<and> n \<noteq> 215 then char_of (n + 32) else c)"
  by (simp add: lower_char_def Let_def ord_c_le char_of_ord_c)

lemma casefold_char_code [code]:
  "casefold_char c = (let n = (of_char c :: int)
     in if 65 \<le> n \<and> n \<le> 90 \<or> 192 \<le> n \<and> n \<le> 222 \<and> n \<noteq> 215 then [char_of (n + 32)]
        else if n = 223 then ''ss'' else [c])"
  by (simp add: casefold_char_def Let_def ord_c_le char_of_ord_c)

section \<open>Lines\<close>

lemma newline_end [simp]: "is_line_end (CHR 0x0A)"
  by code_simp

lemma newline_not_return [simp]: "ord_c (CHR 0x0A) = 10"
  by (simp add: ord_c_def)

lemma splitlines_Nil [simp]: "splitlines [] = []"
  by (simp add: splitlines.simps)

lemma splitlines_last: "one_line l \<Longrightarrow> l \<noteq> [] \<Longrightarrow> splitlines l = [l]"
  by (subst splitlines.simps) (simp add: one_line_def takeWhile_eq_all_conv [THEN iffD2] dropWhile_eq_Nil_conv [THEN iffD2])

lemma splitlines_line: "one_line l \<Longrightarrow> splitlines (l @ CHR 0x0A # r) = l # splitlines r"
proof -
  assume "one_line l"
  then have "takeWhile (\<lambda>c. \<not> is_line_end c) (l @ CHR 0x0A # r) = l"
    "dropWhile (\<lambda>c. \<not> is_line_end c) (l @ CHR 0x0A # r) = CHR 0x0A # r"
    using takeWhile_dropWhile_split [of l "\<lambda>c. \<not> is_line_end c" "CHR 0x0A # r"]
    by (auto simp: one_line_def)
  then show ?thesis by (subst splitlines.simps) simp
qed

lemma splitlines_join:
  "\<forall>l\<in>set ls. one_line l \<and> l \<noteq> [] \<Longrightarrow> splitlines (join [CHR 0x0A] ls) = ls"
  by (induction ls) (auto simp: splitlines_last splitlines_line)

lemma splitlines_Cons_eq:
  assumes "s \<noteq> []"
  obtains t where "splitlines s = takeWhile (\<lambda>c. \<not> is_line_end c) s # splitlines t"
    and "length t < length s"
    and "dropWhile (\<lambda>c. \<not> is_line_end c) s = [] \<and> t = []
      \<or> utf8_len t + 1 \<le> utf8_len (dropWhile (\<lambda>c. \<not> is_line_end c) s)"
proof -
  define r where "r = dropWhile (\<lambda>c. \<not> is_line_end c) s"
  define t where "t = (case r of [] \<Rightarrow> []
     | c # cs \<Rightarrow> if ord_c c = 13 \<and> cs \<noteq> [] \<and> ord_c (hd cs) = 10 then tl cs else cs)"
  have "splitlines s = takeWhile (\<lambda>c. \<not> is_line_end c) s # splitlines t"
    using assms by (subst splitlines.simps) (simp add: r_def t_def Let_def)
  moreover have l: "length r \<le> length s" by (simp add: r_def length_dropWhile_le)
  have "length t < length s \<and> (r = [] \<and> t = [] \<or> utf8_len t + 1 \<le> utf8_len r)"
  proof (cases r)
    case Nil
    then show ?thesis using assms by (simp add: t_def)
  next
    case (Cons c cs)
    have "length t \<le> length cs \<and> utf8_len t \<le> utf8_len cs"
      using Cons by (cases cs) (auto simp: t_def utf8_len_def)
    then show ?thesis using l Cons by (auto simp: utf8_len_def)
  qed
  ultimately show ?thesis using that by (simp add: r_def)
qed

lemma splitlines_one_line: "l \<in> set (splitlines s) \<Longrightarrow> one_line l"
proof (induction s rule: length_induct)
  case (1 s)
  show ?case
  proof (cases "s = []")
    case False
    then obtain t where "splitlines s = takeWhile (\<lambda>c. \<not> is_line_end c) s # splitlines t" "length t < length s"
      by (rule splitlines_Cons_eq)
    then show ?thesis using 1 by (auto simp: one_line_def dest: set_takeWhileD)
  qed (use 1 in simp)
qed

lemma utf8_len_append [simp]: "utf8_len (s @ t) = utf8_len s + utf8_len t"
  by (simp add: utf8_len_def)

lemma utf8_len_Cons [simp]: "utf8_len (c # t) = (if ord_c c < 128 then 1 else 2) + utf8_len t"
  by (simp add: utf8_len_def)

lemma utf8_len_Nil [simp]: "utf8_len [] = 0"
  by (simp add: utf8_len_def)

section \<open>Beginnings\<close>

lemma startswith_append [simp]: "startswith (p @ s) p"
  by (simp add: startswith_def)

lemma startswith_split: "startswith s p \<longleftrightarrow> (\<exists>r. s = p @ r)"
  unfolding startswith_def by (metis append_eq_conv_conj append_take_drop_id)

lemma startswith_drop: "startswith s p \<Longrightarrow> s = p @ drop (length p) s"
  unfolding startswith_def by (metis append_take_drop_id)

lemma contains_append: "contains s p \<longleftrightarrow> (\<exists>a b. s = a @ p @ b)"
proof (induction s)
  case (Cons c s)
  have "startswith (c # s) p \<longleftrightarrow> (\<exists>b. c # s = p @ b)"
    unfolding startswith_def by (metis append_eq_conv_conj append_take_drop_id)
  then show ?case using Cons by (auto simp: Cons_eq_append_conv)
qed (auto simp: startswith_def)

lemma contains_part: "contains s (a @ p @ b) \<Longrightarrow> contains s p"
  by (auto simp: contains_append) (metis append.assoc)

lemma contains_join: "contains a p \<or> contains b p \<Longrightarrow> contains (a @ b) p"
  unfolding contains_append by (metis append.assoc)

end
