(* ===== verification/PyValue.thy ===== *)
theory PyValue
  imports PyText "HOL-Library.AList" "HOL-Library.List_Lexorder" "HOL-Library.Char_ord"
begin

text \<open>
  The dynamically typed values that cross the services: what \<open>json.loads\<close> can return, which
  is also what an instruction operand can be.  Dictionaries are association lists with
  distinct keys in insertion order, as Python keeps them.
\<close>

section \<open>Values\<close>

datatype pyval =
    PNone
  | PBool bool
  | PInt int
  | PFloat pyfloat
  | PStr string
  | PList "pyval list"
  | PDict "(string \<times> pyval) list"

type_synonym pydict = "(string \<times> pyval) list"

fun type_name :: "pyval \<Rightarrow> string" where
  "type_name PNone = ''NoneType''"
| "type_name (PBool b) = ''bool''"
| "type_name (PInt i) = ''int''"
| "type_name (PFloat f) = ''float''"
| "type_name (PStr s) = ''str''"
| "type_name (PList xs) = ''list''"
| "type_name (PDict d) = ''dict''"

text \<open>\<open>isinstance(v, int)\<close> holds of booleans too; the integer a value stands for.\<close>

fun as_int :: "pyval \<Rightarrow> int option" where
  "as_int (PInt i) = Some i"
| "as_int (PBool b) = Some (if b then 1 else 0)"
| "as_int _ = None"

fun is_number :: "pyval \<Rightarrow> bool" where
  "is_number (PInt i) = True"
| "is_number (PBool b) = True"
| "is_number (PFloat f) = True"
| "is_number _ = False"

fun as_str :: "pyval \<Rightarrow> string option" where
  "as_str (PStr s) = Some s"
| "as_str _ = None"

fun as_dict :: "pyval \<Rightarrow> pydict option" where
  "as_dict (PDict d) = Some d"
| "as_dict _ = None"

fun as_list :: "pyval \<Rightarrow> pyval list option" where
  "as_list (PList xs) = Some xs"
| "as_list _ = None"

fun truthy :: "pyval \<Rightarrow> bool" where
  "truthy PNone = False"
| "truthy (PBool b) = b"
| "truthy (PInt i) = (i \<noteq> 0)"
| "truthy (PFloat f) = fl_truthy f"
| "truthy (PStr s) = (s \<noteq> [])"
| "truthy (PList xs) = (xs \<noteq> [])"
| "truthy (PDict d) = (d \<noteq> [])"

section \<open>Dictionaries\<close>

abbreviation dict_get :: "pydict \<Rightarrow> string \<Rightarrow> pyval option" where
  "dict_get d k \<equiv> map_of d k"

definition dict_set :: "string \<Rightarrow> pyval \<Rightarrow> pydict \<Rightarrow> pydict" where
  "dict_set k v d = AList.update k v d"

text \<open>\<open>a | b\<close>: the right operand's values win, new keys come last.\<close>

definition dict_merge :: "pydict \<Rightarrow> pydict \<Rightarrow> pydict" where
  "dict_merge a b = foldl (\<lambda>d (k, v). dict_set k v d) a b"

definition dict_get_or :: "pydict \<Rightarrow> string \<Rightarrow> pyval \<Rightarrow> pyval" where
  "dict_get_or d k v = (case dict_get d k of Some w \<Rightarrow> w | None \<Rightarrow> v)"

definition wf_dict :: "pydict \<Rightarrow> bool" where
  "wf_dict d = distinct (map fst d)"

text \<open>\<open>v[k]\<close> and \<open>v.get(k, default)\<close> on an arbitrary value, with what Python raises when
  the value is no dictionary.\<close>

fun py_getitem :: "pyval \<Rightarrow> string \<Rightarrow> pyval res" where
  "py_getitem (PDict d) k = (case dict_get d k of
     Some v \<Rightarrow> Inr v | None \<Rightarrow> Inl (Exn KeyError (CHR 0x27 # k @ [CHR 0x27])))"
| "py_getitem (PList xs) k = Inl (Exn TypeError ''list indices must be integers or slices, not str'')"
| "py_getitem (PStr s) k = Inl (Exn TypeError (''string indices must be integers, not '' @ [CHR 0x27] @ ''str'' @ [CHR 0x27]))"
| "py_getitem v k = Inl (Exn TypeError (CHR 0x27 # type_name v @ CHR 0x27 # '' object is not subscriptable''))"

fun py_get :: "pyval \<Rightarrow> string \<Rightarrow> pyval \<Rightarrow> pyval res" where
  "py_get (PDict d) k v = Inr (dict_get_or d k v)"
| "py_get w k v = Inl (Exn AttributeError
     (CHR 0x27 # type_name w @ CHR 0x27 # '' object has no attribute '' @ [CHR 0x27] @ ''get'' @ [CHR 0x27]))"

text \<open>\<open>k in v\<close> for a text \<open>k\<close>\<close>

fun py_contains :: "string \<Rightarrow> pyval \<Rightarrow> bool res" where
  "py_contains k (PDict d) = Inr (dict_get d k \<noteq> None)"
| "py_contains k (PList xs) = Inr (PStr k \<in> set xs)"
| "py_contains k (PStr s) = Inr (contains s k)"
| "py_contains k v = Inl (Exn TypeError
     (''argument of type '' @ CHR 0x27 # type_name v @ CHR 0x27 # '' is not iterable''))"

section \<open>Numbers\<close>

text \<open>\<open>float(v)\<close>\<close>

fun py_float :: "pyval \<Rightarrow> pyfloat res" where
  "py_float (PFloat f) = Inr f"
| "py_float (PInt i) = float_of_int i"
| "py_float (PBool b) = Inr (fl_of_bool b)"
| "py_float (PStr s) = (case parse_float s of Some f \<Rightarrow> Inr f
     | None \<Rightarrow> value_error (''could not convert string to float: '' @ s))"
| "py_float v = Inl (Exn TypeError
     (''float() argument must be a string or a real number, not '' @ CHR 0x27 # type_name v @ [CHR 0x27]))"

text \<open>Addition and subtraction of two numbers: integers exactly, otherwise as floats.\<close>

definition num_op :: "(int \<Rightarrow> int \<Rightarrow> int) \<Rightarrow> (pyfloat \<Rightarrow> pyfloat \<Rightarrow> pyfloat) \<Rightarrow> pyval \<Rightarrow> pyval \<Rightarrow> pyval res" where
  "num_op fi ff a b = (case (as_int a, as_int b) of
     (Some i, Some j) \<Rightarrow> Inr (PInt (fi i j))
   | _ \<Rightarrow> if is_number a \<and> is_number b
         then res_bind (py_float a) (\<lambda>x. res_bind (py_float b) (\<lambda>y. Inr (PFloat (ff x y))))
         else Inl (Exn TypeError ''unsupported operand type(s)''))"

definition py_sub :: "pyval \<Rightarrow> pyval \<Rightarrow> pyval res" where
  "py_sub = num_op (-) fl_sub"

text \<open>The exact order of two numbers; an integer is compared with a float without rounding.\<close>

fun num_key :: "pyval \<Rightarrow> pyfloat" where
  "num_key (PFloat f) = f"
| "num_key v = (case as_int v of Some i \<Rightarrow> Fin (of_int i) | None \<Rightarrow> NaN)"

definition py_lt :: "pyval \<Rightarrow> pyval \<Rightarrow> bool" where
  "py_lt a b = fl_lt (num_key a) (num_key b)"

definition py_le :: "pyval \<Rightarrow> pyval \<Rightarrow> bool" where
  "py_le a b = fl_le (num_key a) (num_key b)"

definition num_eq :: "pyval \<Rightarrow> pyval \<Rightarrow> bool" where
  "num_eq a b = fl_eq (num_key a) (num_key b)"

section \<open>Text of a value\<close>

definition hex_digit :: "nat \<Rightarrow> char" where
  "hex_digit n = (if n < 10 then char_of (48 + n) else char_of (87 + n))"

definition hex2 :: "nat \<Rightarrow> string" where
  "hex2 n = [hex_digit (n div 16 mod 16), hex_digit (n mod 16)]"

definition repr_char :: "char \<Rightarrow> char \<Rightarrow> string" where
  "repr_char q c = (let n = ord_c c
     in if c = q \<or> n = 92 then [CHR 0x5C, c]
        else if n = 9 then [CHR 0x5C, CHR ''t''] else if n = 10 then [CHR 0x5C, CHR ''n'']
        else if n = 13 then [CHR 0x5C, CHR ''r'']
        else if n < 32 \<or> 127 \<le> n \<and> n \<le> 160 \<or> n = 173 then CHR 0x5C # CHR ''x'' # hex2 n
        else [c])"

definition str_repr :: "string \<Rightarrow> string" where
  "str_repr s =
     (let q = (if CHR 0x27 \<in> set s \<and> CHR 0x22 \<notin> set s then CHR 0x22 else CHR 0x27)
      in q # concat (map (repr_char q) s) @ [q])"

fun py_repr :: "pyval \<Rightarrow> string" where
  "py_repr PNone = ''None''"
| "py_repr (PBool b) = (if b then ''True'' else ''False'')"
| "py_repr (PInt i) = show_int i"
| "py_repr (PFloat f) = float_repr f"
| "py_repr (PStr s) = str_repr s"
| "py_repr (PList xs) = ''['' @ join '', '' (map py_repr xs) @ '']''"
| "py_repr (PDict d) = ''{'' @ join '', '' (map (\<lambda>kv. str_repr (fst kv) @ '': '' @ py_repr (snd kv)) d) @ ''}''"

definition py_str :: "pyval \<Rightarrow> string" where
  "py_str v = (case v of PStr s \<Rightarrow> s | _ \<Rightarrow> py_repr v)"

text \<open>\<open>json.dumps(v, separators=(",", ":"))\<close>, with or without \<open>sort_keys\<close>.\<close>

definition json_char :: "char \<Rightarrow> string" where
  "json_char c = (let n = ord_c c
     in if n = 34 \<or> n = 92 then [CHR 0x5C, c]
        else if n = 8 then [CHR 0x5C, CHR ''b''] else if n = 9 then [CHR 0x5C, CHR ''t'']
        else if n = 10 then [CHR 0x5C, CHR ''n''] else if n = 12 then [CHR 0x5C, CHR ''f'']
        else if n = 13 then [CHR 0x5C, CHR ''r'']
        else if n < 32 \<or> 127 \<le> n then CHR 0x5C # ''u00'' @ hex2 n
        else [c])"

definition json_str :: "string \<Rightarrow> string" where
  "json_str s = CHR 0x22 # concat (map json_char s) @ [CHR 0x22]"

definition json_float :: "pyfloat \<Rightarrow> string" where
  "json_float f = (case f of NaN \<Rightarrow> ''NaN'' | Infty s \<Rightarrow> (if s then ''-Infinity'' else ''Infinity'')
     | _ \<Rightarrow> float_repr f)"

fun sort_dicts :: "pyval \<Rightarrow> pyval" where
  "sort_dicts (PList xs) = PList (map sort_dicts xs)"
| "sort_dicts (PDict d) = PDict (sort_key fst (map (\<lambda>kv. (fst kv, sort_dicts (snd kv))) d))"
| "sort_dicts v = v"

fun json_dumps :: "pyval \<Rightarrow> string" where
  "json_dumps PNone = ''null''"
| "json_dumps (PBool b) = (if b then ''true'' else ''false'')"
| "json_dumps (PInt i) = show_int i"
| "json_dumps (PFloat f) = json_float f"
| "json_dumps (PStr s) = json_str s"
| "json_dumps (PList xs) = ''['' @ join '','' (map json_dumps xs) @ '']''"
| "json_dumps (PDict d) =
     ''{'' @ join '','' (map (\<lambda>kv. json_str (fst kv) @ '':'' @ json_dumps (snd kv)) d) @ ''}''"

definition json_dumps_sorted :: "pyval \<Rightarrow> string" where
  "json_dumps_sorted v = json_dumps (sort_dicts v)"

section \<open>Lemmas\<close>

lemma dict_get_set [simp]:
  "dict_get (dict_set k v d) k' = (if k' = k then Some v else dict_get d k')"
  by (simp add: dict_set_def update_conv')

lemma wf_dict_set [simp]: "wf_dict d \<Longrightarrow> wf_dict (dict_set k v d)"
  by (simp add: wf_dict_def dict_set_def distinct_update)

lemma wf_dict_merge: "wf_dict a \<Longrightarrow> wf_dict (dict_merge a b)"
  unfolding dict_merge_def by (induction b arbitrary: a) auto

lemma dict_merge_Nil [simp]: "dict_merge a [] = a"
  by (simp add: dict_merge_def)

lemma dict_merge_Cons: "dict_merge a ((k, v) # b) = dict_merge (dict_set k v a) b"
  by (simp add: dict_merge_def)

text \<open>A merge reads the right operand first.\<close>

lemma dict_get_merge:
  "wf_dict b \<Longrightarrow> dict_get (dict_merge a b) k = (case dict_get b k of None \<Rightarrow> dict_get a k | Some v \<Rightarrow> Some v)"
proof (induction b arbitrary: a)
  case (Cons kv b)
  obtain k' v where kv: "kv = (k', v)" by force
  have wf: "wf_dict b" and fresh: "k' \<notin> dom (map_of b)"
    using Cons.prems by (auto simp: wf_dict_def kv dom_map_of_conv_image_fst)
  show ?case using Cons.IH [OF wf] fresh by (auto simp: kv dict_merge_Cons split: option.split)
qed simp

lemma dict_get_merge_single [simp]:
  "dict_get (dict_merge a [(k', v)]) k = (if k = k' then Some v else dict_get a k)"
  by (simp add: dict_merge_Cons)

lemma py_float_finite_int: "as_int v = Some i \<Longrightarrow> py_float v = Inr f \<Longrightarrow> isfinite f"
  by (cases v) (auto dest: float_of_int_finite)

lemma as_int_is_number: "as_int v = Some i \<Longrightarrow> is_number v"
  by (cases v) auto

lemma py_float_number: "is_number v \<Longrightarrow> py_float v = Inl e \<Longrightarrow> exn_cls e = OverflowError"
  by (cases v) (auto simp: float_of_int_def Let_def split: if_splits)

end
