(* ===== verification/VelatoIr.thy ===== *)
theory VelatoIr
  imports PyValue
begin

text \<open>
  The sealed intermediate representation of the policy dialect
  (\<open>services/velato-engine/engine.py\<close>): operations and their encoding tables,
  instructions, the validation of one instruction and the static analysis of a program.
\<close>

section \<open>Registers and operations\<close>

definition MAX_LOCALS :: int where "MAX_LOCALS = 16"
definition DEFAULT_MAX_INSTRUCTIONS :: int where "DEFAULT_MAX_INSTRUCTIONS = 512"
definition DEFAULT_MAX_STACK :: int where "DEFAULT_MAX_STACK = 64"

definition DIALECT_VERSION :: string where
  "DIALECT_VERSION = ''signalchord-velato-1.1.0''"

definition INPUTS :: "string list" where
  "INPUTS = [''source_trust'', ''corroboration_count'', ''contradiction_count'', ''novelty'',
     ''entity_relevance'', ''graph_centrality'', ''geographic_relevance'', ''watchlist_match'',
     ''recency'', ''source_diversity'']"

definition OUTPUTS :: "string list" where
  "OUTPUTS = [''alert_score'', ''severity_code'', ''routing_code'', ''suppressed'']"

datatype opcode =
  Op_HALT | Op_PUSH_CONST | Op_LOAD_INPUT | Op_ADD | Op_SUB | Op_MUL
  | Op_GT | Op_SELECT | Op_STORE_SCORE | Op_STORE_SEVERITY | Op_STORE_ROUTE | Op_STORE_SUPPRESS
  | Op_MIN | Op_MAX | Op_DIV | Op_MOD | Op_NEG | Op_ABS
  | Op_CLAMP | Op_FLOOR | Op_CEIL | Op_ROUND | Op_POW | Op_SQRT
  | Op_EQ | Op_NE | Op_LT | Op_LTE | Op_GTE | Op_AND
  | Op_OR | Op_XOR | Op_NOT | Op_IS_ZERO | Op_BETWEEN | Op_SIGN
  | Op_DUP | Op_SWAP | Op_OVER | Op_DROP | Op_LOAD_LOCAL | Op_STORE_LOCAL
  | Op_NOP | Op_STACK_DEPTH | Op_LOAD_SCORE | Op_LOAD_SEVERITY | Op_LOAD_ROUTE | Op_LOAD_SUPPRESS

fun op_value :: "opcode \<Rightarrow> string" where
  "op_value Op_HALT = ''HALT''"
| "op_value Op_PUSH_CONST = ''PUSH_CONST''"
| "op_value Op_LOAD_INPUT = ''LOAD_INPUT''"
| "op_value Op_ADD = ''ADD''"
| "op_value Op_SUB = ''SUB''"
| "op_value Op_MUL = ''MUL''"
| "op_value Op_GT = ''GT''"
| "op_value Op_SELECT = ''SELECT''"
| "op_value Op_STORE_SCORE = ''STORE_SCORE''"
| "op_value Op_STORE_SEVERITY = ''STORE_SEVERITY''"
| "op_value Op_STORE_ROUTE = ''STORE_ROUTE''"
| "op_value Op_STORE_SUPPRESS = ''STORE_SUPPRESS''"
| "op_value Op_MIN = ''MIN''"
| "op_value Op_MAX = ''MAX''"
| "op_value Op_DIV = ''DIV''"
| "op_value Op_MOD = ''MOD''"
| "op_value Op_NEG = ''NEG''"
| "op_value Op_ABS = ''ABS''"
| "op_value Op_CLAMP = ''CLAMP''"
| "op_value Op_FLOOR = ''FLOOR''"
| "op_value Op_CEIL = ''CEIL''"
| "op_value Op_ROUND = ''ROUND''"
| "op_value Op_POW = ''POW''"
| "op_value Op_SQRT = ''SQRT''"
| "op_value Op_EQ = ''EQ''"
| "op_value Op_NE = ''NE''"
| "op_value Op_LT = ''LT''"
| "op_value Op_LTE = ''LTE''"
| "op_value Op_GTE = ''GTE''"
| "op_value Op_AND = ''AND''"
| "op_value Op_OR = ''OR''"
| "op_value Op_XOR = ''XOR''"
| "op_value Op_NOT = ''NOT''"
| "op_value Op_IS_ZERO = ''IS_ZERO''"
| "op_value Op_BETWEEN = ''BETWEEN''"
| "op_value Op_SIGN = ''SIGN''"
| "op_value Op_DUP = ''DUP''"
| "op_value Op_SWAP = ''SWAP''"
| "op_value Op_OVER = ''OVER''"
| "op_value Op_DROP = ''DROP''"
| "op_value Op_LOAD_LOCAL = ''LOAD_LOCAL''"
| "op_value Op_STORE_LOCAL = ''STORE_LOCAL''"
| "op_value Op_NOP = ''NOP''"
| "op_value Op_STACK_DEPTH = ''STACK_DEPTH''"
| "op_value Op_LOAD_SCORE = ''LOAD_SCORE''"
| "op_value Op_LOAD_SEVERITY = ''LOAD_SEVERITY''"
| "op_value Op_LOAD_ROUTE = ''LOAD_ROUTE''"
| "op_value Op_LOAD_SUPPRESS = ''LOAD_SUPPRESS''"

definition all_ops :: "opcode list" where
  "all_ops =
    [Op_HALT, Op_PUSH_CONST, Op_LOAD_INPUT, Op_ADD, Op_SUB, Op_MUL,
     Op_GT, Op_SELECT, Op_STORE_SCORE, Op_STORE_SEVERITY, Op_STORE_ROUTE, Op_STORE_SUPPRESS,
     Op_MIN, Op_MAX, Op_DIV, Op_MOD, Op_NEG, Op_ABS,
     Op_CLAMP, Op_FLOOR, Op_CEIL, Op_ROUND, Op_POW, Op_SQRT,
     Op_EQ, Op_NE, Op_LT, Op_LTE, Op_GTE, Op_AND,
     Op_OR, Op_XOR, Op_NOT, Op_IS_ZERO, Op_BETWEEN, Op_SIGN,
     Op_DUP, Op_SWAP, Op_OVER, Op_DROP, Op_LOAD_LOCAL, Op_STORE_LOCAL,
     Op_NOP, Op_STACK_DEPTH, Op_LOAD_SCORE, Op_LOAD_SEVERITY, Op_LOAD_ROUTE, Op_LOAD_SUPPRESS]"

text \<open>\<open>Op(name)\<close>: the member of that value, if there is one.\<close>

definition op_of_value :: "string \<Rightarrow> opcode option" where
  "op_of_value s = List.find (\<lambda>p. op_value p = s) all_ops"

definition INSTRUCTION_BANKS :: "(int \<times> (int \<times> opcode) list) list" where
  "INSTRUCTION_BANKS =
  [(0, [(0, Op_HALT), (1, Op_PUSH_CONST), (2, Op_LOAD_INPUT), (3, Op_ADD),
        (4, Op_SUB), (5, Op_MUL), (6, Op_GT), (7, Op_SELECT),
        (8, Op_STORE_SCORE), (9, Op_STORE_SEVERITY), (10, Op_STORE_ROUTE), (11, Op_STORE_SUPPRESS)]),
   (1, [(0, Op_MIN), (1, Op_MAX), (2, Op_DIV), (3, Op_MOD),
        (4, Op_NEG), (5, Op_ABS), (6, Op_CLAMP), (7, Op_FLOOR),
        (8, Op_CEIL), (9, Op_ROUND), (10, Op_POW), (11, Op_SQRT)]),
   (2, [(0, Op_EQ), (1, Op_NE), (2, Op_LT), (3, Op_LTE),
        (4, Op_GTE), (5, Op_AND), (6, Op_OR), (7, Op_XOR),
        (8, Op_NOT), (9, Op_IS_ZERO), (10, Op_BETWEEN), (11, Op_SIGN)]),
   (3, [(0, Op_DUP), (1, Op_SWAP), (2, Op_OVER), (3, Op_DROP),
        (4, Op_LOAD_LOCAL), (5, Op_STORE_LOCAL), (6, Op_NOP), (7, Op_STACK_DEPTH),
        (8, Op_LOAD_SCORE), (9, Op_LOAD_SEVERITY), (10, Op_LOAD_ROUTE), (11, Op_LOAD_SUPPRESS)])]"

definition OP_ENCODING :: "(opcode \<times> int \<times> int) list" where
  "OP_ENCODING = concat (map (\<lambda>(bank, instructions).
     map (\<lambda>(interval, p). (p, bank, interval)) instructions) INSTRUCTION_BANKS)"

text \<open>\<open>OP_ENCODING[op]\<close> and the lookup \<open>INSTRUCTION_BANKS.get(channel)[interval]\<close>.\<close>

definition op_encoding :: "opcode \<Rightarrow> int \<times> int" where
  "op_encoding p = the (map_of OP_ENCODING p)"

definition bank_op :: "int \<Rightarrow> int \<Rightarrow> opcode option" where
  "bank_op channel interval =
     Option.bind (map_of INSTRUCTION_BANKS channel) (\<lambda>bank. map_of bank interval)"

definition OPERAND_OPS :: "opcode list" where
  "OPERAND_OPS = [Op_PUSH_CONST, Op_LOAD_INPUT, Op_LOAD_LOCAL, Op_STORE_LOCAL]"

definition LOCAL_OPS :: "opcode list" where
  "LOCAL_OPS = [Op_LOAD_LOCAL, Op_STORE_LOCAL]"

definition OUTPUT_STORE_OPS :: "(opcode \<times> string) list" where
  "OUTPUT_STORE_OPS = [(Op_STORE_SCORE, ''alert_score''), (Op_STORE_SEVERITY, ''severity_code''),
     (Op_STORE_ROUTE, ''routing_code''), (Op_STORE_SUPPRESS, ''suppressed'')]"

text \<open>Operands popped, results pushed.\<close>

fun STACK_EFFECTS :: "opcode \<Rightarrow> nat \<times> nat" where
  "STACK_EFFECTS Op_HALT = (0, 0)"
| "STACK_EFFECTS Op_PUSH_CONST = (0, 1)"
| "STACK_EFFECTS Op_LOAD_INPUT = (0, 1)"
| "STACK_EFFECTS Op_ADD = (2, 1)"
| "STACK_EFFECTS Op_SUB = (2, 1)"
| "STACK_EFFECTS Op_MUL = (2, 1)"
| "STACK_EFFECTS Op_GT = (2, 1)"
| "STACK_EFFECTS Op_SELECT = (3, 1)"
| "STACK_EFFECTS Op_STORE_SCORE = (1, 0)"
| "STACK_EFFECTS Op_STORE_SEVERITY = (1, 0)"
| "STACK_EFFECTS Op_STORE_ROUTE = (1, 0)"
| "STACK_EFFECTS Op_STORE_SUPPRESS = (1, 0)"
| "STACK_EFFECTS Op_MIN = (2, 1)"
| "STACK_EFFECTS Op_MAX = (2, 1)"
| "STACK_EFFECTS Op_DIV = (2, 1)"
| "STACK_EFFECTS Op_MOD = (2, 1)"
| "STACK_EFFECTS Op_NEG = (1, 1)"
| "STACK_EFFECTS Op_ABS = (1, 1)"
| "STACK_EFFECTS Op_CLAMP = (3, 1)"
| "STACK_EFFECTS Op_FLOOR = (1, 1)"
| "STACK_EFFECTS Op_CEIL = (1, 1)"
| "STACK_EFFECTS Op_ROUND = (1, 1)"
| "STACK_EFFECTS Op_POW = (2, 1)"
| "STACK_EFFECTS Op_SQRT = (1, 1)"
| "STACK_EFFECTS Op_EQ = (2, 1)"
| "STACK_EFFECTS Op_NE = (2, 1)"
| "STACK_EFFECTS Op_LT = (2, 1)"
| "STACK_EFFECTS Op_LTE = (2, 1)"
| "STACK_EFFECTS Op_GTE = (2, 1)"
| "STACK_EFFECTS Op_AND = (2, 1)"
| "STACK_EFFECTS Op_OR = (2, 1)"
| "STACK_EFFECTS Op_XOR = (2, 1)"
| "STACK_EFFECTS Op_NOT = (1, 1)"
| "STACK_EFFECTS Op_IS_ZERO = (1, 1)"
| "STACK_EFFECTS Op_BETWEEN = (3, 1)"
| "STACK_EFFECTS Op_SIGN = (1, 1)"
| "STACK_EFFECTS Op_DUP = (1, 2)"
| "STACK_EFFECTS Op_SWAP = (2, 2)"
| "STACK_EFFECTS Op_OVER = (2, 3)"
| "STACK_EFFECTS Op_DROP = (1, 0)"
| "STACK_EFFECTS Op_LOAD_LOCAL = (0, 1)"
| "STACK_EFFECTS Op_STORE_LOCAL = (1, 0)"
| "STACK_EFFECTS Op_NOP = (0, 0)"
| "STACK_EFFECTS Op_STACK_DEPTH = (0, 1)"
| "STACK_EFFECTS Op_LOAD_SCORE = (0, 1)"
| "STACK_EFFECTS Op_LOAD_SEVERITY = (0, 1)"
| "STACK_EFFECTS Op_LOAD_ROUTE = (0, 1)"
| "STACK_EFFECTS Op_LOAD_SUPPRESS = (0, 1)"

datatype instruction = Instruction (ins_op: opcode) (ins_arg: pyval)

type_synonym program = "instruction list"

section \<open>Validation of one instruction\<close>

definition local_operand :: "pyval \<Rightarrow> int option" where
  "local_operand v = (case as_int v of
     Some i \<Rightarrow> if 0 \<le> i \<and> i < MAX_LOCALS then Some i else None
   | None \<Rightarrow> None)"

definition input_operand :: "pyval \<Rightarrow> string option" where
  "input_operand v = (case as_str v of
     Some s \<Rightarrow> if s \<in> set INPUTS then Some s else None
   | None \<Rightarrow> None)"

definition validate_instruction :: "instruction \<Rightarrow> unit res" where
  "validate_instruction ins =
     (if ins_op ins = Op_PUSH_CONST then
        (if \<not> is_number (ins_arg ins) then value_error ''PUSH_CONST requires a finite numeric operand''
         else res_bind (py_float (ins_arg ins)) (\<lambda>f.
           if isfinite f then Inr () else value_error ''PUSH_CONST requires a finite numeric operand''))
      else if ins_op ins = Op_LOAD_INPUT then
        (if input_operand (ins_arg ins) = None then value_error ''LOAD_INPUT requires a valid input register''
         else Inr ())
      else if ins_op ins \<in> set LOCAL_OPS then
        (if local_operand (ins_arg ins) = None
         then value_error (op_value (ins_op ins) @ '' requires a local register from 0 to ''
                @ show_int (MAX_LOCALS - 1))
         else Inr ())
      else if ins_arg ins \<noteq> PNone then value_error (op_value (ins_op ins) @ '' does not accept an operand'')
      else Inr ())"

section \<open>Static analysis\<close>

record program_analysis =
  instruction_count :: nat
  max_stack_depth :: nat
  final_stack_depth :: nat
  required_inputs :: "string list"
  local_registers :: "int list"
  outputs_written :: "string list"
  warnings :: "string list"

text \<open>The variables of the analysis loop.  The three sets are lists without repetitions, since
  they are only read back sorted or by membership.\<close>

record analysis_state =
  an_depth :: nat
  an_max_depth :: nat
  an_required :: "string list"
  an_locals :: "int list"
  an_outputs :: "string list"
  an_warnings :: "string list"
  an_halted :: bool
  an_executed :: nat

definition analysis_init :: analysis_state where
  "analysis_init = \<lparr>an_depth = 0, an_max_depth = 0, an_required = [], an_locals = [],
     an_outputs = [], an_warnings = [], an_halted = False, an_executed = 0\<rparr>"

text \<open>The bookkeeping of one reachable instruction, after its stack effect was accepted.\<close>

definition analysis_note :: "instruction \<Rightarrow> analysis_state \<Rightarrow> analysis_state" where
  "analysis_note ins a =
     a\<lparr>an_required := (case (ins_op ins, as_str (ins_arg ins)) of
          (Op_LOAD_INPUT, Some s) \<Rightarrow> List.insert s (an_required a) | _ \<Rightarrow> an_required a),
       an_locals := (if ins_op ins \<in> set LOCAL_OPS then (case as_int (ins_arg ins) of
          Some i \<Rightarrow> List.insert i (an_locals a) | None \<Rightarrow> an_locals a) else an_locals a),
       an_outputs := (case map_of OUTPUT_STORE_OPS (ins_op ins) of
          Some n \<Rightarrow> List.insert n (an_outputs a) | None \<Rightarrow> an_outputs a),
       an_halted := (ins_op ins = Op_HALT)\<rparr>"

text \<open>One iteration for the instruction at \<open>index\<close>.\<close>

definition analysis_step :: "int \<Rightarrow> nat \<Rightarrow> instruction \<Rightarrow> analysis_state \<Rightarrow> analysis_state res" where
  "analysis_step max_stack index ins a =
     (if an_halted a
      then Inr (a\<lparr>an_warnings := an_warnings a
             @ [''instruction '' @ show_nat index @ '' is unreachable after HALT'']\<rparr>)
      else res_bind (validate_instruction ins) (\<lambda>_.
        case STACK_EFFECTS (ins_op ins) of (pops, pushes) \<Rightarrow>
          if an_depth a < pops
          then value_error (''static stack underflow at instruction '' @ show_nat index
                 @ '' ('' @ op_value (ins_op ins) @ '')'')
          else let d = an_depth a - pops + pushes; m = max (an_max_depth a) d
               in if int m > max_stack then value_error ''stack limit exceeded''
                  else Inr (analysis_note ins
                    (a\<lparr>an_executed := Suc (an_executed a), an_depth := d, an_max_depth := m\<rparr>))))"

fun analysis_loop :: "int \<Rightarrow> nat \<Rightarrow> program \<Rightarrow> analysis_state \<Rightarrow> analysis_state res" where
  "analysis_loop max_stack index [] a = Inr a"
| "analysis_loop max_stack index (ins # ir) a =
     res_bind (analysis_step max_stack index ins a) (analysis_loop max_stack (Suc index) ir)"

definition missing_outputs :: "analysis_state \<Rightarrow> string list" where
  "missing_outputs a = filter (\<lambda>n. n \<notin> set (an_outputs a)) OUTPUTS"

definition analysis_warnings :: "analysis_state \<Rightarrow> string list" where
  "analysis_warnings a = an_warnings a
     @ (if an_halted a then [] else [''program has no explicit HALT''])
     @ (if missing_outputs a = [] then []
        else [''outputs not written: '' @ join '', '' (missing_outputs a)])"

text \<open>Building the result model checks that at least one instruction is counted.\<close>

definition analysis_result :: "analysis_state \<Rightarrow> program_analysis res" where
  "analysis_result a =
     (if an_executed a < 1 then Inl (Exn ValidationError ''instruction_count'')
      else Inr \<lparr>instruction_count = an_executed a, max_stack_depth = an_max_depth a,
        final_stack_depth = an_depth a, required_inputs = sort (an_required a),
        local_registers = sort (an_locals a),
        outputs_written = filter (\<lambda>n. n \<in> set (an_outputs a)) OUTPUTS,
        warnings = analysis_warnings a\<rparr>)"

definition analyze_ir :: "program \<Rightarrow> int \<Rightarrow> int \<Rightarrow> program_analysis res" where
  "analyze_ir ir max_instructions max_stack =
     (if ir = [] then value_error ''program is empty''
      else if int (length ir) > max_instructions then value_error ''instruction limit exceeded''
      else res_bind (analysis_loop max_stack 0 ir analysis_init) analysis_result)"

abbreviation analyze :: "program \<Rightarrow> program_analysis res" where
  "analyze ir \<equiv> analyze_ir ir DEFAULT_MAX_INSTRUCTIONS DEFAULT_MAX_STACK"

text \<open>The part of a program that runs: up to and including the first \<open>HALT\<close>.\<close>

fun live_part :: "program \<Rightarrow> program" where
  "live_part [] = []"
| "live_part (ins # ir) = (if ins_op ins = Op_HALT then [ins] else ins # live_part ir)"

definition has_halt :: "program \<Rightarrow> bool" where
  "has_halt ir = (\<exists>ins\<in>set ir. ins_op ins = Op_HALT)"

text \<open>\<open>if not ir or ir[-1].op is not Op.HALT: ir.append(Instruction(Op.HALT))\<close>\<close>

definition ensure_halt :: "program \<Rightarrow> program" where
  "ensure_halt ir = (if ir = [] \<or> ins_op (last ir) \<noteq> Op_HALT then ir @ [Instruction Op_HALT PNone] else ir)"

text \<open>\<open>for instruction in ir: ...; break on HALT\<close>, for any body and any halting action.\<close>

fun run_until_halt ::
  "(instruction \<Rightarrow> 's \<Rightarrow> 's res) \<Rightarrow> (instruction \<Rightarrow> 's \<Rightarrow> 's res) \<Rightarrow> program \<Rightarrow> 's \<Rightarrow> 's res" where
  "run_until_halt step halt [] s = Inr s"
| "run_until_halt step halt (ins # ir) s =
     (if ins_op ins = Op_HALT then halt ins s
      else res_bind (step ins s) (run_until_halt step halt ir))"

section \<open>Tables\<close>

lemma all_ops_complete: "p \<in> set all_ops"
  by (cases p; simp add: all_ops_def)

lemma op_of_value_value [simp]: "op_of_value (op_value p) = Some p"
proof -
  have "list_all (\<lambda>p. op_of_value (op_value p) = Some p) all_ops" by code_simp
  then show ?thesis using all_ops_complete by (auto simp: list_all_iff)
qed

lemma op_of_value_Some: "op_of_value s = Some p \<Longrightarrow> op_value p = s"
  by (auto simp: op_of_value_def find_Some_iff)

lemma bank_op_encoding: "bank_op (fst (op_encoding p)) (snd (op_encoding p)) = Some p"
proof -
  have "list_all (\<lambda>p. bank_op (fst (op_encoding p)) (snd (op_encoding p)) = Some p) all_ops"
    by code_simp
  then show ?thesis using all_ops_complete by (auto simp: list_all_iff)
qed

lemma op_encoding_bounds:
  "0 \<le> fst (op_encoding p) \<and> fst (op_encoding p) < 4 \<and> 0 \<le> snd (op_encoding p) \<and> snd (op_encoding p) < 12"
proof -
  have "list_all (\<lambda>p. 0 \<le> fst (op_encoding p) \<and> fst (op_encoding p) < 4
     \<and> 0 \<le> snd (op_encoding p) \<and> snd (op_encoding p) < 12) all_ops" by code_simp
  then show ?thesis using all_ops_complete by (auto simp: list_all_iff)
qed

section \<open>Facts about the analysis\<close>

lemma analysis_note_simps [simp]:
  "an_depth (analysis_note ins a) = an_depth a"
  "an_max_depth (analysis_note ins a) = an_max_depth a"
  "an_warnings (analysis_note ins a) = an_warnings a"
  "an_executed (analysis_note ins a) = an_executed a"
  "an_halted (analysis_note ins a) = (ins_op ins = Op_HALT)"
  by (simp_all add: analysis_note_def)

text \<open>What one accepted instruction tells.\<close>

lemma analysis_stepD:
  assumes "analysis_step ms k ins a = Inr b" and "\<not> an_halted a"
  shows "validate_instruction ins = Inr ()" and "fst (STACK_EFFECTS (ins_op ins)) \<le> an_depth a"
    and "an_depth b = an_depth a - fst (STACK_EFFECTS (ins_op ins)) + snd (STACK_EFFECTS (ins_op ins))"
    and "an_max_depth b = max (an_max_depth a) (an_depth b)"
    and "int (an_depth b) \<le> ms" and "an_halted b \<longleftrightarrow> ins_op ins = Op_HALT"
    and "an_executed b = Suc (an_executed a)"
  using assms
  by (auto simp: analysis_step_def Let_def res_simps split: prod.splits if_splits)

lemma analysis_step_halted:
  "an_halted a \<Longrightarrow> analysis_step ms k ins a = Inr (a\<lparr>an_warnings := an_warnings a
     @ [''instruction '' @ show_nat k @ '' is unreachable after HALT'']\<rparr>)"
  by (simp add: analysis_step_def)

lemma analysis_loop_halted:
  "an_halted a \<Longrightarrow> \<exists>ws. analysis_loop ms k ir a = Inr (a\<lparr>an_warnings := ws\<rparr>)"
proof (induction ir arbitrary: k a)
  case Nil
  have "a = a\<lparr>an_warnings := an_warnings a\<rparr>" by simp
  then show ?case by (metis analysis_loop.simps(1))
next
  case (Cons ins ir)
  let ?b = "a\<lparr>an_warnings := an_warnings a
     @ [''instruction '' @ show_nat k @ '' is unreachable after HALT'']\<rparr>"
  have "an_halted ?b" using Cons.prems by simp
  from Cons.IH [OF this, of "Suc k"] show ?case
    using Cons.prems by (auto simp: analysis_step_halted)
qed

section \<open>The interface between the analysis and a machine\<close>

text \<open>
  A machine runs instructions on its own state.  It exposes the depth of its stack, the
  deepest stack seen and the number of instructions begun, and promises that an
  instruction the analysis accepts moves these as the table of stack effects says and does
  not fail for a reason the analysis rules out (\<open>fault\<close>).  Everything the analysis predicts
  of a run follows from these laws alone.
\<close>

locale stack_machine =
  fixes step :: "instruction \<Rightarrow> 's \<Rightarrow> 's res"
    and halt :: "instruction \<Rightarrow> 's \<Rightarrow> 's res"
    and depth :: "'s \<Rightarrow> nat"
    and peak :: "'s \<Rightarrow> nat"
    and ticks :: "'s \<Rightarrow> nat"
    and max_instructions :: int
    and max_stack :: int
    and fault :: "exn \<Rightarrow> bool"
    and inv :: "'s \<Rightarrow> bool"
  assumes step_effect:
      "\<lbrakk>inv s; validate_instruction ins = Inr (); ins_op ins \<noteq> Op_HALT;
        fst (STACK_EFFECTS (ins_op ins)) \<le> depth s; step ins s = Inr t\<rbrakk> \<Longrightarrow>
       inv t \<and> depth t = depth s - fst (STACK_EFFECTS (ins_op ins)) + snd (STACK_EFFECTS (ins_op ins))
         \<and> peak t = max (peak s) (depth t) \<and> ticks t = Suc (ticks s)"
    and halt_effect:
      "\<lbrakk>inv s; halt ins s = Inr t\<rbrakk> \<Longrightarrow>
       inv t \<and> depth t = depth s \<and> peak t = peak s \<and> ticks t = Suc (ticks s)"
    and step_fault:
      "\<lbrakk>inv s; validate_instruction ins = Inr (); ins_op ins \<noteq> Op_HALT;
        fst (STACK_EFFECTS (ins_op ins)) \<le> depth s;
        int (depth s - fst (STACK_EFFECTS (ins_op ins)) + snd (STACK_EFFECTS (ins_op ins))) \<le> max_stack;
        int (ticks s) < max_instructions; step ins s = Inl e\<rbrakk> \<Longrightarrow> \<not> fault e"
    and halt_ok:
      "\<lbrakk>inv s; int (ticks s) < max_instructions\<rbrakk> \<Longrightarrow> \<exists>t. halt ins s = Inr t"
begin

lemma run_agrees:
  assumes "analysis_loop max_stack k ir a = Inr b" and "\<not> an_halted a" and "inv s"
    and "depth s = an_depth a" and "peak s = an_max_depth a" and "ticks s = an_executed a"
    and "an_depth a \<le> an_max_depth a"
    and "run_until_halt step halt ir s = Inr t"
  shows "inv t \<and> depth t = an_depth b \<and> peak t = an_max_depth b \<and> ticks t = an_executed b"
  using assms
proof (induction ir arbitrary: k a s)
  case Nil
  then show ?case by simp
next
  case (Cons ins ir)
  obtain c where c: "analysis_step max_stack k ins a = Inr c"
    and rest: "analysis_loop max_stack (Suc k) ir c = Inr b"
    using Cons.prems(1) by (auto simp: res_simps)
  note d = analysis_stepD [OF c Cons.prems(2)]
  show ?case
  proof (cases "ins_op ins = Op_HALT")
    case True
    have "halt ins s = Inr t" using Cons.prems(8) True by simp
    note h = halt_effect [OF Cons.prems(3) this]
    have "an_halted c" using d(6) True by simp
    from analysis_loop_halted [OF this] rest obtain ws where "b = c\<lparr>an_warnings := ws\<rparr>"
      by (metis sum.inject(2))
    then show ?thesis using h d(3,4,7) True Cons.prems(4-7) by simp
  next
    case False
    obtain u where u: "step ins s = Inr u" and run: "run_until_halt step halt ir u = Inr t"
      using Cons.prems(8) False by (auto simp: res_simps)
    have "fst (STACK_EFFECTS (ins_op ins)) \<le> depth s" using d(2) Cons.prems(4) by simp
    note e = step_effect [OF Cons.prems(3) d(1) False this u]
    show ?thesis using Cons.IH [OF rest _ _ _ _ _ _ run] e d(3,4,6,7) False Cons.prems(4-6) by simp
  qed
qed

lemma run_no_fault:
  assumes "analysis_loop max_stack k ir a = Inr b" and "\<not> an_halted a" and "inv s"
    and "depth s = an_depth a" and "int (ticks s + length ir) \<le> max_instructions"
    and "run_until_halt step halt ir s = Inl e"
  shows "\<not> fault e"
  using assms
proof (induction ir arbitrary: k a s)
  case Nil
  then show ?case by simp
next
  case (Cons ins ir)
  obtain c where c: "analysis_step max_stack k ins a = Inr c"
    and rest: "analysis_loop max_stack (Suc k) ir c = Inr b"
    using Cons.prems(1) by (auto simp: res_simps)
  note d = analysis_stepD [OF c Cons.prems(2)]
  have t: "int (ticks s) < max_instructions" using Cons.prems(5) by simp
  have p: "fst (STACK_EFFECTS (ins_op ins)) \<le> depth s" using d(2) Cons.prems(4) by simp
  show ?case
  proof (cases "ins_op ins = Op_HALT")
    case True
    then show ?thesis using halt_ok [OF Cons.prems(3) t, of ins] Cons.prems(6) by auto
  next
    case False
    then consider "step ins s = Inl e"
      | u where "step ins s = Inr u" "run_until_halt step halt ir u = Inl e"
      using Cons.prems(6) by (auto simp: res_simps)
    then show ?thesis
    proof cases
      case 1
      then show ?thesis
        using step_fault [OF Cons.prems(3) d(1) False p _ t] d(3,5) Cons.prems(4) by simp
    next
      case 2
      note e = step_effect [OF Cons.prems(3) d(1) False p 2(1)]
      show ?thesis
        using Cons.IH [OF rest _ _ _ _ 2(2)] e d(3,6) False Cons.prems(4,5) by simp
    qed
  qed
qed

end

lemma analyze_irD:
  assumes "analyze_ir ir mi ms = Inr an"
  obtains b where "analysis_loop ms 0 ir analysis_init = Inr b"
    and "instruction_count an = an_executed b" and "max_stack_depth an = an_max_depth b"
    and "final_stack_depth an = an_depth b" and "ir \<noteq> []" and "int (length ir) \<le> mi"
  using assms by (auto simp: analyze_ir_def analysis_result_def res_simps split: if_splits)

end
