(* ===== verification/Sha256.thy ===== *)
theory Sha256
  imports PyText "HOL-Library.Word"
begin

text \<open>
  \<open>hashlib.sha256\<close> (FIPS 180-4) on a list of bytes, on 32-bit words: the digest, its
  hexadecimal text, and what the services rely on about their lengths.
\<close>

type_synonym w32 = "32 word"

definition rotr :: "nat \<Rightarrow> w32 \<Rightarrow> w32" where
  "rotr n x = or (drop_bit n x) (push_bit (32 - n) x)"

definition ch :: "w32 \<Rightarrow> w32 \<Rightarrow> w32 \<Rightarrow> w32" where
  "ch x y z = xor (and x y) (and (not x) z)"

definition maj :: "w32 \<Rightarrow> w32 \<Rightarrow> w32 \<Rightarrow> w32" where
  "maj x y z = xor (and x y) (xor (and x z) (and y z))"

definition big_sigma0 :: "w32 \<Rightarrow> w32" where
  "big_sigma0 x = xor (rotr 2 x) (xor (rotr 13 x) (rotr 22 x))"

definition big_sigma1 :: "w32 \<Rightarrow> w32" where
  "big_sigma1 x = xor (rotr 6 x) (xor (rotr 11 x) (rotr 25 x))"

definition small_sigma0 :: "w32 \<Rightarrow> w32" where
  "small_sigma0 x = xor (rotr 7 x) (xor (rotr 18 x) (drop_bit 3 x))"

definition small_sigma1 :: "w32 \<Rightarrow> w32" where
  "small_sigma1 x = xor (rotr 17 x) (xor (rotr 19 x) (drop_bit 10 x))"

definition round_constants :: "w32 list" where
  "round_constants = [
     1116352408, 1899447441, 3049323471, 3921009573, 961987163, 1508970993,
     2453635748, 2870763221, 3624381080, 310598401, 607225278, 1426881987,
     1925078388, 2162078206, 2614888103, 3248222580, 3835390401, 4022224774,
     264347078, 604807628, 770255983, 1249150122, 1555081692, 1996064986,
     2554220882, 2821834349, 2952996808, 3210313671, 3336571891, 3584528711,
     113926993, 338241895, 666307205, 773529912, 1294757372, 1396182291,
     1695183700, 1986661051, 2177026350, 2456956037, 2730485921, 2820302411,
     3259730800, 3345764771, 3516065817, 3600352804, 4094571909, 275423344,
     430227734, 506948616, 659060556, 883997877, 958139571, 1322822218,
     1537002063, 1747873779, 1955562222, 2024104815, 2227730452, 2361852424,
     2428436474, 2756734187, 3204031479, 3329325298]"

definition initial_hash :: "w32 list" where
  "initial_hash = [1779033703, 3144134277, 1013904242, 2773480762,
                   1359893119, 2600822924, 528734635, 1541459225]"

text \<open>The 64-word message schedule; the list is kept newest first.\<close>

fun extend :: "nat \<Rightarrow> w32 list \<Rightarrow> w32 list" where
  "extend 0 ws = ws"
| "extend (Suc n) ws =
     extend n ((small_sigma1 (ws ! 1) + ws ! 6 + small_sigma0 (ws ! 14) + ws ! 15) # ws)"

fun compress_round :: "w32 list \<Rightarrow> w32 \<times> w32 \<Rightarrow> w32 list" where
  "compress_round [a, b, c, d, e, f, g, h] (k, w) =
     (let t1 = h + big_sigma1 e + ch e f g + k + w; t2 = big_sigma0 a + maj a b c
      in [t1 + t2, a, b, c, d + t1, e, f, g])"
| "compress_round hs _ = hs"

definition compress :: "w32 list \<Rightarrow> w32 list \<Rightarrow> w32 list" where
  "compress hs block =
     map2 (+) hs (foldl compress_round hs (zip round_constants (rev (extend 48 (rev block)))))"

fun words_of_bytes :: "int list \<Rightarrow> w32 list" where
  "words_of_bytes (a # b # c # d # bs) =
     word_of_int (((a * 256 + b) * 256 + c) * 256 + d) # words_of_bytes bs"
| "words_of_bytes _ = []"

definition pad_message :: "int list \<Rightarrow> int list" where
  "pad_message bs =
     bs @ [128] @ replicate ((119 - length bs mod 64) mod 64) 0
        @ map (\<lambda>i. int (8 * length bs) div 256 ^ i mod 256) (rev [0..<8])"

fun hash_blocks :: "nat \<Rightarrow> w32 list \<Rightarrow> w32 list \<Rightarrow> w32 list" where
  "hash_blocks 0 ws hs = hs"
| "hash_blocks (Suc n) ws hs = hash_blocks n (drop 16 ws) (compress hs (take 16 ws))"

definition bytes_of_word :: "w32 \<Rightarrow> int list" where
  "bytes_of_word w = map (\<lambda>i. uint w div 256 ^ i mod 256) [3, 2, 1, 0]"

definition sha256 :: "int list \<Rightarrow> int list" where
  "sha256 bs = (let ws = words_of_bytes (pad_message bs)
     in concat (map bytes_of_word (hash_blocks (length ws div 16) ws initial_hash)))"

definition hex_nibble :: "int \<Rightarrow> char" where
  "hex_nibble n = (if n < 10 then char_of (48 + n) else char_of (87 + n))"

definition hexdigest :: "int list \<Rightarrow> string" where
  "hexdigest bs = concat (map (\<lambda>b. [hex_nibble (b div 16), hex_nibble (b mod 16)]) bs)"

text \<open>\<open>sha256(text.encode()).hexdigest()\<close>\<close>

definition sha256_hex :: "string \<Rightarrow> string" where
  "sha256_hex s = hexdigest (sha256 (utf8_encode s))"

section \<open>Lengths\<close>

lemma length_compress_round: "length hs = 8 \<Longrightarrow> length (compress_round hs kw) = 8"
  by (cases "(hs, kw)" rule: compress_round.cases) (auto simp: Let_def)

lemma length_compress_rounds: "length hs = 8 \<Longrightarrow> length (foldl compress_round hs kws) = 8"
  by (induction kws arbitrary: hs) (auto simp: length_compress_round)

lemma length_compress: "length hs = 8 \<Longrightarrow> length (compress hs b) = 8"
  by (simp add: compress_def length_compress_rounds)

lemma length_hash_blocks: "length hs = 8 \<Longrightarrow> length (hash_blocks n ws hs) = 8"
  by (induction n arbitrary: ws hs) (auto simp: length_compress)

lemma length_concat_const: "(\<And>x. length (f x) = n) \<Longrightarrow> length (concat (map f xs)) = n * length xs"
  by (induction xs) auto

lemma length_sha256: "length (sha256 bs) = 32"
  by (simp add: sha256_def Let_def length_concat_const [where n = 4] bytes_of_word_def
      length_hash_blocks initial_hash_def)

lemma length_sha256_hex: "length (sha256_hex s) = 64"
  by (simp add: sha256_hex_def hexdigest_def length_concat_const [where n = 2] length_sha256)

end
