(* ===== verification/VelatoVm.thy ===== *)
theory VelatoVm
  imports VelatoIr Sha256
begin

text \<open>
  The policy machine: \<open>execute\<close> of \<open>services/velato-engine/engine.py\<close>.  A run is a fold of
  one step over the program; the step is the body of the interpreter's loop, with its local
  functions \<open>pop\<close>, \<open>push\<close> and \<open>pop_binary\<close>.  C's \<open>pow\<close> is the one operation the IEEE
  standard does not fix, so it is the parameter \<open>math_pow\<close> of every definition that can
  reach it.
\<close>

section \<open>State\<close>

text \<open>The local variables of \<open>execute\<close>; the top of the stack is the head of the list.\<close>

record vm =
  vm_stack :: "pyfloat list"
  vm_locals :: "pyfloat list"
  vm_score :: int
  vm_severity :: int
  vm_route :: int
  vm_suppressed :: bool
  vm_max_depth :: nat
  vm_trace :: "pyval list"
  vm_count :: nat

definition vm_init :: vm where
  "vm_init = \<lparr>vm_stack = [], vm_locals = replicate (nat MAX_LOCALS) (Fin 0), vm_score = 0,
     vm_severity = 0, vm_route = 0, vm_suppressed = False, vm_max_depth = 0, vm_trace = [],
     vm_count = 0\<rparr>"

record policy_result =
  alert_score :: int
  severity_code :: int
  routing_code :: int
  suppressed :: bool
  instructions_executed :: nat
  result_max_stack_depth :: nat
  trace_hash :: string

text \<open>\<open>math.pow\<close> raises on a domain error and on overflow.\<close>

datatype pow_error = PowDomain | PowOverflow

type_synonym pow_fun = "pyfloat \<Rightarrow> pyfloat \<Rightarrow> pow_error + pyfloat"

section \<open>Stack access\<close>

definition pop :: "vm \<Rightarrow> (pyfloat \<times> vm) res" where
  "pop m = (case vm_stack m of [] \<Rightarrow> value_error ''stack underflow''
     | x # xs \<Rightarrow> Inr (x, m\<lparr>vm_stack := xs\<rparr>))"

definition push :: "pyfloat \<Rightarrow> vm \<Rightarrow> vm res" where
  "push f m = (let numeric = as_double f
     in if \<not> isfinite numeric then value_error ''operation produced a non-finite value''
        else Inr (m\<lparr>vm_stack := numeric # vm_stack m\<rparr>))"

definition push_int :: "int \<Rightarrow> vm \<Rightarrow> vm res" where
  "push_int i m = res_bind (float_of_int i) (\<lambda>f. push f m)"

definition push_bool :: "bool \<Rightarrow> vm \<Rightarrow> vm res" where
  "push_bool b m = push (fl_of_bool b) m"

definition pop_binary :: "vm \<Rightarrow> (pyfloat \<times> pyfloat \<times> vm) res" where
  "pop_binary m = res_bind (pop m) (\<lambda>(b, m). res_bind (pop m) (\<lambda>(a, m). Inr (a, b, m)))"

text \<open>\<open>upper, lower, value = pop(), pop(), pop()\<close>\<close>

definition pop_ternary :: "vm \<Rightarrow> (pyfloat \<times> pyfloat \<times> pyfloat \<times> vm) res" where
  "pop_ternary m = res_bind (pop m) (\<lambda>(x, m). res_bind (pop m) (\<lambda>(y, m).
     res_bind (pop m) (\<lambda>(z, m). Inr (x, y, z, m))))"

text \<open>\<open>locals_[i]\<close> with Python's indexing from the end.\<close>

definition list_index :: "'a list \<Rightarrow> int \<Rightarrow> nat res" where
  "list_index xs i = (let j = (if i < 0 then i + int (length xs) else i)
     in if 0 \<le> j \<and> j < int (length xs) then Inr (nat j)
        else Inl (Exn IndexError ''list index out of range''))"

abbreviation assertion_failed :: "'a res" where
  "assertion_failed \<equiv> Inl (Exn AssertionError '''')"

section \<open>Operations\<close>

definition BINARY_OPS :: "opcode list" where
  "BINARY_OPS = [Op_ADD, Op_SUB, Op_MUL, Op_MIN, Op_MAX, Op_GT, Op_EQ, Op_NE, Op_LT, Op_LTE,
     Op_GTE, Op_AND, Op_OR, Op_XOR]"

definition UNARY_OPS :: "opcode list" where
  "UNARY_OPS = [Op_NEG, Op_ABS, Op_FLOOR, Op_CEIL, Op_ROUND, Op_SQRT, Op_NOT, Op_IS_ZERO, Op_SIGN]"

text \<open>\<open>float(values[op])\<close> for the table of the binary operations.\<close>

definition binary_value :: "opcode \<Rightarrow> pyfloat \<Rightarrow> pyfloat \<Rightarrow> pyfloat" where
  "binary_value p a b = (case p of
     Op_ADD \<Rightarrow> fl_add a b
   | Op_SUB \<Rightarrow> fl_sub a b
   | Op_MUL \<Rightarrow> fl_mul a b
   | Op_MIN \<Rightarrow> fl_min a b
   | Op_MAX \<Rightarrow> fl_max a b
   | Op_GT \<Rightarrow> fl_of_bool (fl_lt b a)
   | Op_EQ \<Rightarrow> fl_of_bool (fl_eq a b)
   | Op_NE \<Rightarrow> fl_of_bool (\<not> fl_eq a b)
   | Op_LT \<Rightarrow> fl_of_bool (fl_lt a b)
   | Op_LTE \<Rightarrow> fl_of_bool (fl_le a b)
   | Op_GTE \<Rightarrow> fl_of_bool (fl_le b a)
   | Op_AND \<Rightarrow> fl_of_bool (fl_truthy a \<and> fl_truthy b)
   | Op_OR \<Rightarrow> fl_of_bool (fl_truthy a \<or> fl_truthy b)
   | _ \<Rightarrow> fl_of_bool (fl_truthy a \<noteq> fl_truthy b))"

definition unary_step :: "opcode \<Rightarrow> pyfloat \<Rightarrow> vm \<Rightarrow> vm res" where
  "unary_step p v m = (case p of
     Op_NEG \<Rightarrow> push (fl_neg v) m
   | Op_ABS \<Rightarrow> push (fl_abs v) m
   | Op_FLOOR \<Rightarrow> res_bind (fl_floor v) (\<lambda>i. push_int i m)
   | Op_CEIL \<Rightarrow> res_bind (fl_ceil v) (\<lambda>i. push_int i m)
   | Op_ROUND \<Rightarrow> res_bind (py_round v) (\<lambda>i. push_int i m)
   | Op_SQRT \<Rightarrow> (if fl_lt v (Fin 0) then value_error ''square root of negative value''
                  else push (fl_sqrt v) m)
   | Op_NOT \<Rightarrow> push_bool (\<not> fl_truthy v) m
   | Op_IS_ZERO \<Rightarrow> push_bool (fl_eq v (Fin 0)) m
   | _ \<Rightarrow> push_int (if fl_lt v (Fin 0) then - 1 else if fl_lt (Fin 0) v then 1 else 0) m)"

text \<open>\<open>max(lo, min(hi, x))\<close> on integers\<close>

definition clamp_int :: "int \<Rightarrow> int \<Rightarrow> int \<Rightarrow> int" where
  "clamp_int lo hi x = max lo (min hi x)"

definition fl_clamp :: "pyfloat \<Rightarrow> pyfloat \<Rightarrow> pyfloat \<Rightarrow> pyfloat" where
  "fl_clamp lo hi v = fl_max lo (fl_min hi v)"

definition pow_step :: "pow_fun \<Rightarrow> pyfloat \<Rightarrow> pyfloat \<Rightarrow> vm \<Rightarrow> vm res" where
  "pow_step math_pow a b m = (case math_pow a b of
     Inl _ \<Rightarrow> value_error ''invalid exponentiation''
   | Inr f \<Rightarrow> if isfinite (as_double f) then push f m else value_error ''invalid exponentiation'')"

text \<open>The chain of branches of one iteration, in the order of the source.\<close>

definition exec_op :: "pow_fun \<Rightarrow> (string \<times> pyfloat) list \<Rightarrow> instruction \<Rightarrow> vm \<Rightarrow> vm res" where
  "exec_op math_pow inputs ins m =
    (let p = ins_op ins in
     if p = Op_PUSH_CONST then
       (if is_number (ins_arg ins) then res_bind (py_float (ins_arg ins)) (\<lambda>f. push f m) else assertion_failed)
     else if p = Op_LOAD_INPUT then
       (case as_str (ins_arg ins) of None \<Rightarrow> assertion_failed
        | Some s \<Rightarrow> (case map_of inputs s of None \<Rightarrow> Inl (Exn KeyError s) | Some f \<Rightarrow> push f m))
     else if p \<in> set BINARY_OPS then
       res_bind (pop_binary m) (\<lambda>(a, b, m). push (binary_value p a b) m)
     else if p = Op_DIV then
       res_bind (pop_binary m) (\<lambda>(a, b, m).
         if fl_eq b (Fin 0) then value_error ''division by zero'' else push (fl_div a b) m)
     else if p = Op_MOD then
       res_bind (pop_binary m) (\<lambda>(a, b, m).
         if fl_eq b (Fin 0) then value_error ''modulo by zero'' else push (fl_mod a b) m)
     else if p = Op_POW then
       res_bind (pop_binary m) (\<lambda>(a, b, m). pow_step math_pow a b m)
     else if p \<in> set UNARY_OPS then
       res_bind (pop m) (\<lambda>(v, m). unary_step p v m)
     else if p = Op_CLAMP then
       res_bind (pop_ternary m) (\<lambda>(hi, lo, v, m).
         if fl_lt hi lo then value_error ''CLAMP lower bound exceeds upper bound''
         else push (fl_clamp lo hi v) m)
     else if p = Op_BETWEEN then
       res_bind (pop_ternary m) (\<lambda>(hi, lo, v, m).
         if fl_lt hi lo then value_error ''BETWEEN lower bound exceeds upper bound''
         else push_bool (fl_le lo v \<and> fl_le v hi) m)
     else if p = Op_SELECT then
       res_bind (pop_ternary m) (\<lambda>(false_value, true_value, condition, m).
         push (if fl_truthy condition then true_value else false_value) m)
     else if p = Op_DUP then
       res_bind (pop m) (\<lambda>(v, m). res_bind (push v m) (push v))
     else if p = Op_SWAP then
       res_bind (pop_binary m) (\<lambda>(a, b, m). res_bind (push b m) (push a))
     else if p = Op_OVER then
       res_bind (pop_binary m) (\<lambda>(a, b, m). res_bind (push a m) (\<lambda>m. res_bind (push b m) (push a)))
     else if p = Op_DROP then res_bind (pop m) (\<lambda>(v, m). Inr m)
     else if p = Op_LOAD_LOCAL then
       (case as_int (ins_arg ins) of None \<Rightarrow> assertion_failed
        | Some i \<Rightarrow> res_bind (list_index (vm_locals m) i) (\<lambda>k. push (vm_locals m ! k) m))
     else if p = Op_STORE_LOCAL then
       (case as_int (ins_arg ins) of None \<Rightarrow> assertion_failed
        | Some i \<Rightarrow> res_bind (pop m) (\<lambda>(v, m). res_bind (list_index (vm_locals m) i) (\<lambda>k.
            Inr (m\<lparr>vm_locals := (vm_locals m)[k := v]\<rparr>))))
     else if p = Op_NOP then Inr m
     else if p = Op_STACK_DEPTH then push_int (int (length (vm_stack m))) m
     else if p = Op_LOAD_SCORE then push_int (vm_score m) m
     else if p = Op_LOAD_SEVERITY then push_int (vm_severity m) m
     else if p = Op_LOAD_ROUTE then push_int (vm_route m) m
     else if p = Op_LOAD_SUPPRESS then push_bool (vm_suppressed m) m
     else if p = Op_STORE_SCORE then
       res_bind (pop m) (\<lambda>(v, m). res_bind (py_round v) (\<lambda>i. Inr (m\<lparr>vm_score := clamp_int 0 100 i\<rparr>)))
     else if p = Op_STORE_SEVERITY then
       res_bind (pop m) (\<lambda>(v, m). res_bind (py_round v) (\<lambda>i. Inr (m\<lparr>vm_severity := clamp_int 0 9 i\<rparr>)))
     else if p = Op_STORE_ROUTE then
       res_bind (pop m) (\<lambda>(v, m). res_bind (py_round v) (\<lambda>i. Inr (m\<lparr>vm_route := clamp_int 0 255 i\<rparr>)))
     else if p = Op_STORE_SUPPRESS then
       res_bind (pop m) (\<lambda>(v, m). Inr (m\<lparr>vm_suppressed := fl_truthy v\<rparr>))
     else value_error (''unsupported operation '' @ op_value p))"

section \<open>The loop\<close>

definition trace_entry :: "instruction \<Rightarrow> nat \<Rightarrow> nat \<Rightarrow> (string \<times> pyval) list \<Rightarrow> pyval" where
  "trace_entry ins before_depth after_depth rest =
     PDict ([(''op'', PStr (op_value (ins_op ins))), (''arg'', ins_arg ins),
       (''depth_before'', PInt (int before_depth)), (''depth_after'', PInt (int after_depth))] @ rest)"

definition stack_top :: "vm \<Rightarrow> pyval" where
  "stack_top m = (case vm_stack m of [] \<Rightarrow> PNone | x # _ \<Rightarrow> PFloat x)"

text \<open>\<open>for count, instruction in enumerate(ir, 1): if count > max_instructions: ...\<close>\<close>

definition begin_instruction :: "int \<Rightarrow> vm \<Rightarrow> vm res" where
  "begin_instruction max_instructions m =
     (if int (Suc (vm_count m)) > max_instructions then value_error ''instruction limit exceeded''
      else Inr (m\<lparr>vm_count := Suc (vm_count m)\<rparr>))"

definition exec_halt :: "int \<Rightarrow> instruction \<Rightarrow> vm \<Rightarrow> vm res" where
  "exec_halt max_instructions ins m =
     res_bind (begin_instruction max_instructions m) (\<lambda>m.
       let d = length (vm_stack m)
       in Inr (m\<lparr>vm_trace := vm_trace m @ [trace_entry ins d d []]\<rparr>))"

definition end_instruction :: "int \<Rightarrow> instruction \<Rightarrow> nat \<Rightarrow> vm \<Rightarrow> vm res" where
  "end_instruction max_stack ins before_depth m =
     (let d = length (vm_stack m)
      in if int d > max_stack then value_error ''stack limit exceeded''
         else Inr (m\<lparr>vm_max_depth := max (vm_max_depth m) d,
           vm_trace := vm_trace m @ [trace_entry ins before_depth d [(''top'', stack_top m)]]\<rparr>))"

definition exec_step ::
  "pow_fun \<Rightarrow> (string \<times> pyfloat) list \<Rightarrow> int \<Rightarrow> int \<Rightarrow> instruction \<Rightarrow> vm \<Rightarrow> vm res" where
  "exec_step math_pow inputs max_instructions max_stack ins m =
     res_bind (begin_instruction max_instructions m) (\<lambda>m'.
       res_bind (exec_op math_pow inputs ins m') (end_instruction max_stack ins (length (vm_stack m'))))"

definition exec_loop ::
  "pow_fun \<Rightarrow> (string \<times> pyfloat) list \<Rightarrow> int \<Rightarrow> int \<Rightarrow> program \<Rightarrow> vm \<Rightarrow> vm res" where
  "exec_loop math_pow inputs max_instructions max_stack =
     run_until_halt (exec_step math_pow inputs max_instructions max_stack) (exec_halt max_instructions)"

text \<open>The inputs are read in the order of \<open>INPUTS\<close>; each must be there and a finite number.\<close>

definition normalize_input :: "pyval \<Rightarrow> string \<Rightarrow> (string \<times> pyfloat) res" where
  "normalize_input inputs key =
     res_bind (py_contains key inputs) (\<lambda>present.
       if \<not> present then value_error (''missing input '' @ key)
       else res_bind (py_getitem inputs key) (\<lambda>v. res_bind (py_float v) (\<lambda>f.
         if \<not> isfinite f then value_error (''input '' @ key @ '' must be finite'')
         else Inr (key, f))))"

definition normalize_inputs :: "pyval \<Rightarrow> (string \<times> pyfloat) list res" where
  "normalize_inputs inputs = res_map (normalize_input inputs) INPUTS"

text \<open>The result model checks the ranges of the three codes.\<close>

definition policy_result_of :: "program_analysis \<Rightarrow> vm \<Rightarrow> policy_result res" where
  "policy_result_of an m =
     (if \<not> (0 \<le> vm_score m \<and> vm_score m \<le> 100) then Inl (Exn ValidationError ''alert_score'')
      else if \<not> (0 \<le> vm_severity m \<and> vm_severity m \<le> 9) then Inl (Exn ValidationError ''severity_code'')
      else if \<not> (0 \<le> vm_route m \<and> vm_route m \<le> 255) then Inl (Exn ValidationError ''routing_code'')
      else Inr \<lparr>alert_score = vm_score m, severity_code = vm_severity m, routing_code = vm_route m,
        suppressed = vm_suppressed m, instructions_executed = length (vm_trace m),
        result_max_stack_depth = max (vm_max_depth m) (max_stack_depth an),
        trace_hash = sha256_hex (json_dumps_sorted (PList (vm_trace m)))\<rparr>)"

definition execute :: "pow_fun \<Rightarrow> program \<Rightarrow> pyval \<Rightarrow> int \<Rightarrow> int \<Rightarrow> policy_result res" where
  "execute math_pow ir inputs max_instructions max_stack =
     res_bind (analyze_ir ir max_instructions max_stack) (\<lambda>an.
     res_bind (normalize_inputs inputs) (\<lambda>ins.
     res_bind (exec_loop math_pow ins max_instructions max_stack ir vm_init) (policy_result_of an)))"

section \<open>Inversion of the stack operations\<close>

lemma pop_Inr [vm_simps]:
  "pop m = Inr (x, m') \<longleftrightarrow> (\<exists>xs. vm_stack m = x # xs \<and> m' = m\<lparr>vm_stack := xs\<rparr>)"
  by (auto simp: pop_def split: list.splits)

lemma pop_Inl [vm_simps]:
  "pop m = Inl e \<longleftrightarrow> vm_stack m = [] \<and> e = Exn ValueError ''stack underflow''"
  by (auto simp: pop_def split: list.splits)

lemma push_Inr [vm_simps]:
  "push f m = Inr m' \<longleftrightarrow> isfinite (as_double f) \<and> m' = m\<lparr>vm_stack := as_double f # vm_stack m\<rparr>"
  by (auto simp: push_def Let_def)

lemma push_Inl [vm_simps]:
  "push f m = Inl e \<longleftrightarrow>
   \<not> isfinite (as_double f) \<and> e = Exn ValueError ''operation produced a non-finite value''"
  by (auto simp: push_def Let_def)

lemma push_ok: "fl_ok f \<Longrightarrow> push f m = Inr (m\<lparr>vm_stack := f # vm_stack m\<rparr>)"
  by (simp add: push_def)

lemma push_bool_eq: "push_bool b m = Inr (m\<lparr>vm_stack := fl_of_bool b # vm_stack m\<rparr>)"
  by (simp add: push_bool_def push_ok)

lemma push_int_small:
  "\<bar>i\<bar> < 2 ^ 53 \<Longrightarrow> push_int i m = Inr (m\<lparr>vm_stack := Fin (of_int i) # vm_stack m\<rparr>)"
  by (simp add: push_int_def float_of_int_small push_ok fl_ok_of_int)

lemma push_int_Inr [vm_simps]:
  "push_int i m = Inr m' \<longleftrightarrow>
   (\<exists>f. float_of_int i = Inr f \<and> fl_ok f \<and> m' = m\<lparr>vm_stack := f # vm_stack m\<rparr>)"
  by (auto simp: push_int_def res_simps push_ok dest: float_of_int_ok)
    (auto simp: push_ok dest!: float_of_int_ok)

lemma pop_binary_Inr [vm_simps]:
  "pop_binary m = Inr (a, b, m') \<longleftrightarrow> (\<exists>xs. vm_stack m = b # a # xs \<and> m' = m\<lparr>vm_stack := xs\<rparr>)"
  by (auto simp: pop_binary_def res_simps vm_simps)

lemma pop_ternary_Inr [vm_simps]:
  "pop_ternary m = Inr (x, y, z, m') \<longleftrightarrow>
   (\<exists>xs. vm_stack m = x # y # z # xs \<and> m' = m\<lparr>vm_stack := xs\<rparr>)"
  by (auto simp: pop_ternary_def res_simps vm_simps)

lemma list_index_Inr: "list_index xs i = Inr k \<Longrightarrow> k < length xs"
  by (auto simp: list_index_def Let_def split: if_splits)

lemma list_index_in_range: "0 \<le> i \<Longrightarrow> i < int (length xs) \<Longrightarrow> list_index xs i = Inr (nat i)"
  by (simp add: list_index_def)

section \<open>Invariant\<close>

text \<open>Every number on the stack and in a register is a finite double, there are sixteen
  registers, and the three codes are in range.\<close>

definition vm_inv :: "vm \<Rightarrow> bool" where
  "vm_inv m \<longleftrightarrow> list_all fl_ok (vm_stack m) \<and> list_all fl_ok (vm_locals m)
     \<and> length (vm_locals m) = 16 \<and> 0 \<le> vm_score m \<and> vm_score m \<le> 100
     \<and> 0 \<le> vm_severity m \<and> vm_severity m \<le> 9 \<and> 0 \<le> vm_route m \<and> vm_route m \<le> 255"

lemma vm_inv_init: "vm_inv vm_init"
  by (simp add: vm_inv_def vm_init_def MAX_LOCALS_def list_all_iff fl_ok_def)

lemma vm_inv_push: "vm_inv m \<Longrightarrow> fl_ok f \<Longrightarrow> vm_inv (m\<lparr>vm_stack := f # vm_stack m\<rparr>)"
  by (simp add: vm_inv_def)

lemma clamp_int_bounds: "lo \<le> hi \<Longrightarrow> lo \<le> clamp_int lo hi x \<and> clamp_int lo hi x \<le> hi"
  by (auto simp: clamp_int_def)

text \<open>What one operation does to the state: the stack moves by its effect, the invariant is
  kept, and the bookkeeping of the loop is left alone.\<close>

definition exec_frame :: "instruction \<Rightarrow> vm \<Rightarrow> vm \<Rightarrow> bool" where
  "exec_frame ins m m' \<longleftrightarrow> vm_inv m'
     \<and> length (vm_stack m') + fst (STACK_EFFECTS (ins_op ins))
         = length (vm_stack m) + snd (STACK_EFFECTS (ins_op ins))
     \<and> vm_max_depth m' = vm_max_depth m \<and> vm_trace m' = vm_trace m \<and> vm_count m' = vm_count m"

lemmas op_tables = BINARY_OPS_def UNARY_OPS_def LOCAL_OPS_def

lemma list_all_update: "list_all P xs \<Longrightarrow> P x \<Longrightarrow> list_all P (xs[k := x])"
  by (auto simp: list_all_iff dest: set_update_subset_insert [THEN subsetD])

lemma list_all_nth': "list_all P xs \<Longrightarrow> k < length xs \<Longrightarrow> P (xs ! k)"
  by (simp add: list_all_length)

definition pushed :: "vm \<Rightarrow> vm \<Rightarrow> bool" where
  "pushed m m' \<longleftrightarrow> (\<exists>f. fl_ok f \<and> m' = m\<lparr>vm_stack := f # vm_stack m\<rparr>)"

lemma pushed_push: "push f m = Inr m' \<Longrightarrow> pushed m m'"
  by (auto simp: push_Inr pushed_def intro!: exI [of _ "as_double f"] as_double_finite_ok)

lemma pushed_push_int: "push_int i m = Inr m' \<Longrightarrow> pushed m m'"
  by (auto simp: push_int_Inr pushed_def)

lemma pushed_push_bool: "push_bool b m = Inr m' \<Longrightarrow> pushed m m'"
  unfolding push_bool_def by (rule pushed_push)

lemma pushed_pow_step: "pow_step pw a b m = Inr m' \<Longrightarrow> pushed m m'"
  by (auto simp: pow_step_def intro: pushed_push split: sum.splits if_splits)

lemma pushed_unary_step: "unary_step p v m = Inr m' \<Longrightarrow> pushed m m'"
  by (cases p; auto simp: unary_step_def res_simps
      intro: pushed_push pushed_push_int pushed_push_bool split: if_splits)

lemmas pushed_intros = pushed_push pushed_push_int pushed_push_bool pushed_pow_step pushed_unary_step

lemma pushedE:
  assumes "pushed m m'"
  obtains f where "fl_ok f" and "m' = m\<lparr>vm_stack := f # vm_stack m\<rparr>"
  using assms by (auto simp: pushed_def)

definition popped :: "nat \<Rightarrow> vm \<Rightarrow> vm \<Rightarrow> bool" where
  "popped n m m' \<longleftrightarrow> n \<le> length (vm_stack m) \<and> m' = m\<lparr>vm_stack := drop n (vm_stack m)\<rparr>"

lemma popped_pop: "pop m = Inr (x, m') \<Longrightarrow> popped (Suc 0) m m'"
  by (auto simp: vm_simps popped_def)

lemma popped_pop_binary: "pop_binary m = Inr (a, b, m') \<Longrightarrow> popped 2 m m'"
  by (auto simp: vm_simps popped_def)

lemma popped_pop_ternary: "pop_ternary m = Inr (a, b, c, m') \<Longrightarrow> popped 3 m m'"
  by (auto simp: vm_simps popped_def)

lemmas popped_intros = popped_pop popped_pop_binary popped_pop_ternary

text \<open>The state an operation leaves: \<open>n\<close> values popped, \<open>k\<close> doubles pushed.\<close>

definition moved :: "nat \<Rightarrow> nat \<Rightarrow> vm \<Rightarrow> vm \<Rightarrow> bool" where
  "moved n k m m' \<longleftrightarrow> n \<le> length (vm_stack m) \<and> (\<exists>fs. length fs = k \<and> list_all fl_ok fs
     \<and> m' = m\<lparr>vm_stack := fs @ drop n (vm_stack m)\<rparr>)"

lemma moved_popped: "popped n m m' \<Longrightarrow> moved n 0 m m'"
  by (simp add: moved_def popped_def)

lemma moved_refl: "moved 0 0 m m"
  by (simp add: moved_def)

lemma moved_pushed: "moved n k m m' \<Longrightarrow> pushed m' m'' \<Longrightarrow> moved n (Suc k) m m''"
  by (fastforce simp: moved_def pushed_def intro: exI [of _ "f # fs" for f fs])

lemma moved_frame:
  assumes "moved n k m m'" and "vm_inv m"
  shows "vm_inv m' \<and> length (vm_stack m') + n = length (vm_stack m) + k
     \<and> vm_max_depth m' = vm_max_depth m \<and> vm_trace m' = vm_trace m \<and> vm_count m' = vm_count m"
  using assms by (auto simp: moved_def vm_inv_def list_all_iff) (meson in_set_dropD)

lemma pushed_after_pops: "popped n m m' \<Longrightarrow> pushed m' m'' \<Longrightarrow> moved n (Suc 0) m m''"
  using moved_pushed [OF moved_popped] by simp

lemma pushed_moved: "pushed m m' \<Longrightarrow> moved 0 (Suc 0) m m'"
  using moved_pushed [OF moved_refl] by simp

lemma pushed_twice: "popped n m b \<Longrightarrow> pushed b x \<Longrightarrow> pushed x m' \<Longrightarrow> moved n 2 m m'"
  using moved_pushed [OF pushed_after_pops] by (simp add: numeral_2_eq_2)

lemma pushed_thrice:
  "popped n m b \<Longrightarrow> pushed b x \<Longrightarrow> pushed x y \<Longrightarrow> pushed y m' \<Longrightarrow> moved n 3 m m'"
  using moved_pushed [OF moved_pushed [OF pushed_after_pops]] by (simp add: numeral_3_eq_3)

text \<open>The operations that only move the stack.\<close>

definition STORE_OPS :: "opcode list" where
  "STORE_OPS = [Op_STORE_LOCAL, Op_STORE_SCORE, Op_STORE_SEVERITY, Op_STORE_ROUTE, Op_STORE_SUPPRESS]"

lemma exec_op_moved:
  assumes "exec_op pw inputs ins m = Inr m'" and "ins_op ins \<notin> set STORE_OPS"
    and "ins_op ins \<noteq> Op_HALT"
  shows "moved (fst (STACK_EFFECTS (ins_op ins))) (snd (STACK_EFFECTS (ins_op ins))) m m'"
  using assms
  by (cases "ins_op ins"; simp add: exec_op_def op_tables STORE_OPS_def Let_def res_simps
      split: option.splits prod.splits if_splits)
    (auto dest!: pushed_intros popped_intros intro: pushed_after_pops pushed_moved moved_popped
       moved_refl pushed_twice pushed_thrice)

text \<open>The stores pop one value and write one register or code.\<close>

lemma popped_inv:
  "popped n m m' \<Longrightarrow> vm_inv m \<Longrightarrow> vm_inv m' \<and> length (vm_stack m') + n = length (vm_stack m)
     \<and> vm_max_depth m' = vm_max_depth m \<and> vm_trace m' = vm_trace m \<and> vm_count m' = vm_count m"
  using moved_frame [OF moved_popped] by simp

lemma pop_fl_ok: "pop m = Inr (v, m') \<Longrightarrow> vm_inv m \<Longrightarrow> fl_ok v"
  by (auto simp: vm_simps vm_inv_def)

lemma vm_inv_store:
  "vm_inv m \<Longrightarrow> vm_inv (m\<lparr>vm_score := clamp_int 0 100 i\<rparr>)"
  "vm_inv m \<Longrightarrow> vm_inv (m\<lparr>vm_severity := clamp_int 0 9 i\<rparr>)"
  "vm_inv m \<Longrightarrow> vm_inv (m\<lparr>vm_route := clamp_int 0 255 i\<rparr>)"
  "vm_inv m \<Longrightarrow> vm_inv (m\<lparr>vm_suppressed := b\<rparr>)"
  "vm_inv m \<Longrightarrow> fl_ok f \<Longrightarrow> vm_inv (m\<lparr>vm_locals := (vm_locals m)[k := f]\<rparr>)"
  by (auto simp: vm_inv_def clamp_int_def list_all_update)

lemma exec_op_store_frame:
  assumes "exec_op pw inputs ins m = Inr m'" and "ins_op ins \<in> set STORE_OPS" and "vm_inv m"
  shows "exec_frame ins m m'"
proof -
  obtain v m0 where p: "pop m = Inr (v, m0)"
    and q: "(\<exists>i. m' = m0\<lparr>vm_score := clamp_int 0 100 i\<rparr> \<or> m' = m0\<lparr>vm_severity := clamp_int 0 9 i\<rparr>
        \<or> m' = m0\<lparr>vm_route := clamp_int 0 255 i\<rparr>) \<or> (\<exists>b. m' = m0\<lparr>vm_suppressed := b\<rparr>)
        \<or> (\<exists>k. m' = m0\<lparr>vm_locals := (vm_locals m0)[k := v]\<rparr>)"
    using assms(1,2)
    by (cases "ins_op ins"; simp add: exec_op_def op_tables STORE_OPS_def Let_def res_simps
        split: option.splits prod.splits if_splits) blast+
  have e: "STACK_EFFECTS (ins_op ins) = (1, 0)" using assms(2) by (auto simp: STORE_OPS_def)
  note i = popped_inv [OF popped_pop [OF p] assms(3)] pop_fl_ok [OF p assms(3)]
  show ?thesis using q i e by (auto simp: exec_frame_def vm_inv_store)
qed

lemma exec_op_frame:
  assumes "exec_op pw inputs ins m = Inr m'" and "vm_inv m" and "ins_op ins \<noteq> Op_HALT"
  shows "exec_frame ins m m'"
proof (cases "ins_op ins \<in> set STORE_OPS")
  case True
  then show ?thesis using exec_op_store_frame assms by blast
next
  case False
  from moved_frame [OF exec_op_moved [OF assms(1) False assms(3)] assms(2)] show ?thesis
    by (simp add: exec_frame_def)
qed

section \<open>Errors\<close>

text \<open>The errors the interpreter can raise on a program the analysis accepts; all are
  \<open>ValueError\<close>s about the numbers, none about the program.\<close>

definition RUNTIME_ERRORS :: "string list" where
  "RUNTIME_ERRORS = [''operation produced a non-finite value'', ''division by zero'',
     ''modulo by zero'', ''invalid exponentiation'', ''square root of negative value'',
     ''CLAMP lower bound exceeds upper bound'', ''BETWEEN lower bound exceeds upper bound'']"

definition runtime_error :: "exn \<Rightarrow> bool" where
  "runtime_error e = (exn_cls e = ValueError \<and> exn_msg e \<in> set RUNTIME_ERRORS)"

lemma runtime_errorI [intro]:
  "m \<in> set RUNTIME_ERRORS \<Longrightarrow> runtime_error (Exn ValueError m)"
  by (simp add: runtime_error_def)

lemma push_error: "push f m = Inl e \<Longrightarrow> runtime_error e"
  by (auto simp: push_Inl RUNTIME_ERRORS_def)

lemma pow_step_error: "pow_step pw a b m = Inl e \<Longrightarrow> runtime_error e"
  by (auto simp: pow_step_def RUNTIME_ERRORS_def push_Inl split: sum.splits if_splits)

lemma unary_step_error:
  assumes "unary_step p v m = Inl e" and "fl_ok v"
  shows "runtime_error e"
proof -
  have "fl_floor v = Inr \<lfloor>fl_val v\<rfloor>" "fl_ceil v = Inr \<lceil>fl_val v\<rceil>"
    "py_round v = Inr (round_half_even (fl_val v))"
    using assms(2) by (simp_all add: fl_floor_finite fl_ceil_finite py_round_finite)
  then show ?thesis
    using assms
    by (cases p; auto simp: unary_step_def push_bool_eq push_int_def float_of_int_floor
        float_of_int_ceil float_of_int_round float_of_int_small RUNTIME_ERRORS_def
        dest: push_error split: if_splits)
qed

lemma pop_short:
  "pop m = Inl e \<Longrightarrow> length (vm_stack m) < 1"
  "pop_binary m = Inl e \<Longrightarrow> length (vm_stack m) < 2"
  "pop_ternary m = Inl e \<Longrightarrow> length (vm_stack m) < 3"
  by (auto simp: pop_binary_def pop_ternary_def res_simps vm_simps)

lemma validate_push_const:
  assumes "validate_instruction ins = Inr ()" and "ins_op ins = Op_PUSH_CONST"
  shows "is_number (ins_arg ins) \<and> (\<exists>f. py_float (ins_arg ins) = Inr f \<and> isfinite f)"
  using assms by (auto simp: validate_instruction_def res_simps split: if_splits)

lemma validate_load_input:
  assumes "validate_instruction ins = Inr ()" and "ins_op ins = Op_LOAD_INPUT"
  shows "\<exists>s. ins_arg ins = PStr s \<and> s \<in> set INPUTS"
  using assms
  by (cases "ins_arg ins") (auto simp: validate_instruction_def input_operand_def split: if_splits option.splits)

lemma validate_local:
  assumes "validate_instruction ins = Inr ()" and "ins_op ins \<in> set LOCAL_OPS"
  shows "\<exists>i. as_int (ins_arg ins) = Some i \<and> 0 \<le> i \<and> i < 16"
  using assms
  by (auto simp: validate_instruction_def local_operand_def LOCAL_OPS_def MAX_LOCALS_def
      split: if_splits option.splits)

lemma validate_no_operand:
  assumes "validate_instruction ins = Inr ()" and "ins_op ins \<notin> set OPERAND_OPS"
  shows "ins_arg ins = PNone"
  using assms by (auto simp: validate_instruction_def OPERAND_OPS_def LOCAL_OPS_def split: if_splits)

lemma list_index_locals:
  "vm_inv m \<Longrightarrow> 0 \<le> i \<Longrightarrow> i < 16 \<Longrightarrow> list_index (vm_locals m) i = Inr (nat i)"
  by (simp add: list_index_in_range vm_inv_def)

definition inputs_complete :: "(string \<times> pyfloat) list \<Rightarrow> bool" where
  "inputs_complete inputs = (\<forall>k\<in>set INPUTS. map_of inputs k \<noteq> None)"

lemma round_ok: "fl_ok v \<Longrightarrow> py_round v = Inr (round_half_even (fl_val v))"
  by (simp add: py_round_finite)

lemma exec_op_local_error:
  assumes "exec_op pw inputs ins m = Inl e" and "validate_instruction ins = Inr ()"
    and "ins_op ins \<in> set LOCAL_OPS" and "vm_inv m"
    and "fst (STACK_EFFECTS (ins_op ins)) \<le> length (vm_stack m)"
  shows "runtime_error e"
proof -
  obtain i where i: "as_int (ins_arg ins) = Some i" "0 \<le> i" "i < 16"
    using validate_local [OF assms(2,3)] by blast
  have "list_index (vm_locals m0) i = Inr (nat i)" if "pop m = Inr (v, m0)" for v m0
    using popped_inv [OF popped_pop [OF that] assms(4)] i by (simp add: list_index_locals)
  moreover have "list_index (vm_locals m) i = Inr (nat i)"
    using i assms(4) by (simp add: list_index_locals)
  ultimately show ?thesis
    using assms(1,3,5) i(1)
    by (auto simp: exec_op_def op_tables Let_def res_simps pop_Inl dest: push_error)
qed

lemma exec_op_error:
  assumes "exec_op pw inputs ins m = Inl e" and "validate_instruction ins = Inr ()"
    and "ins_op ins \<noteq> Op_HALT" and "vm_inv m"
    and "fst (STACK_EFFECTS (ins_op ins)) \<le> length (vm_stack m)"
    and "int (length (vm_stack m)) < 2 ^ 53" and "inputs_complete inputs"
  shows "runtime_error e"
proof (cases "ins_op ins \<in> set LOCAL_OPS \<or> ins_op ins = Op_PUSH_CONST \<or> ins_op ins = Op_LOAD_INPUT")
  case True
  then consider "ins_op ins \<in> set LOCAL_OPS" | "ins_op ins = Op_PUSH_CONST" | "ins_op ins = Op_LOAD_INPUT"
    by blast
  then show ?thesis
  proof cases
    case 1
    then show ?thesis using exec_op_local_error assms by blast
  next
    case 2
    then show ?thesis
      using assms(1) validate_push_const [OF assms(2) 2]
      by (auto simp: exec_op_def res_simps dest: push_error)
  next
    case 3
    then show ?thesis
      using assms(1,7) validate_load_input [OF assms(2) 3]
      by (fastforce simp: exec_op_def inputs_complete_def dest: push_error split: option.splits)
  qed
next
  case False
  note ranges = assms(4) [unfolded vm_inv_def]
  show ?thesis
    using assms(1,3,5,6) False ranges
    by (cases "ins_op ins"; simp add: exec_op_def op_tables Let_def res_simps push_bool_eq
        push_int_small; elim disjE exE conjE; simp split: if_splits)
      (auto simp: RUNTIME_ERRORS_def round_ok push_bool_eq
        dest: push_error pow_step_error pop_short pop_fl_ok [OF _ assms(4)]
          unary_step_error [OF _ pop_fl_ok [OF _ assms(4)]])
qed

section \<open>The machine meets the analysis\<close>

definition machine_inv :: "(string \<times> pyfloat) list \<Rightarrow> int \<Rightarrow> vm \<Rightarrow> bool" where
  "machine_inv inputs max_stack m \<longleftrightarrow> vm_inv m \<and> inputs_complete inputs \<and> max_stack < 2 ^ 53
     \<and> int (length (vm_stack m)) < 2 ^ 53 \<and> length (vm_trace m) = vm_count m"

lemma vm_inv_begin: "vm_inv (m\<lparr>vm_count := n\<rparr>) = vm_inv m"
  by (simp add: vm_inv_def)

lemma exec_step_effect:
  assumes "machine_inv inputs ms m" and "ins_op ins \<noteq> Op_HALT"
    and "fst (STACK_EFFECTS (ins_op ins)) \<le> length (vm_stack m)"
    and "exec_step pw inputs mi ms ins m = Inr t"
  shows "machine_inv inputs ms t
    \<and> length (vm_stack t) = length (vm_stack m) - fst (STACK_EFFECTS (ins_op ins)) + snd (STACK_EFFECTS (ins_op ins))
    \<and> vm_max_depth t = max (vm_max_depth m) (length (vm_stack t)) \<and> vm_count t = Suc (vm_count m)"
proof -
  let ?m = "m\<lparr>vm_count := Suc (vm_count m)\<rparr>"
  obtain u where u: "exec_op pw inputs ins ?m = Inr u"
    and t: "end_instruction ms ins (length (vm_stack m)) u = Inr t"
    using assms(4) by (auto simp: exec_step_def begin_instruction_def res_simps split: if_splits)
  have "vm_inv ?m" using assms(1) by (simp add: machine_inv_def vm_inv_begin)
  from exec_op_frame [OF u this assms(2)] t assms(1,3) show ?thesis
    by (auto simp: exec_frame_def end_instruction_def Let_def machine_inv_def vm_inv_def split: if_splits)
qed

lemma exec_halt_effect:
  assumes "machine_inv inputs ms m" and "exec_halt mi ins m = Inr t"
  shows "machine_inv inputs ms t \<and> length (vm_stack t) = length (vm_stack m)
    \<and> vm_max_depth t = vm_max_depth m \<and> vm_count t = Suc (vm_count m)"
  using assms
  by (auto simp: exec_halt_def begin_instruction_def res_simps Let_def machine_inv_def vm_inv_def split: if_splits)

lemma exec_step_error:
  assumes "machine_inv inputs ms m" and "validate_instruction ins = Inr ()" and "ins_op ins \<noteq> Op_HALT"
    and "fst (STACK_EFFECTS (ins_op ins)) \<le> length (vm_stack m)"
    and "int (length (vm_stack m) - fst (STACK_EFFECTS (ins_op ins)) + snd (STACK_EFFECTS (ins_op ins))) \<le> ms"
    and "int (vm_count m) < mi" and "exec_step pw inputs mi ms ins m = Inl e"
  shows "runtime_error e"
proof -
  let ?m = "m\<lparr>vm_count := Suc (vm_count m)\<rparr>"
  have b: "begin_instruction mi m = Inr ?m" using assms(6) by (simp add: begin_instruction_def)
  have inv: "vm_inv ?m" using assms(1) by (simp add: machine_inv_def vm_inv_begin)
  consider "exec_op pw inputs ins ?m = Inl e"
    | u where "exec_op pw inputs ins ?m = Inr u" "end_instruction ms ins (length (vm_stack m)) u = Inl e"
    using assms(7) b by (auto simp: exec_step_def res_simps)
  then show ?thesis
  proof cases
    case 1
    then show ?thesis
      using exec_op_error [OF 1 assms(2,3) inv] assms(1,4) by (simp add: machine_inv_def)
  next
    case 2
    from exec_op_frame [OF 2(1) inv assms(3)] assms(4,5) 2(2) show ?thesis
      by (auto simp: exec_frame_def end_instruction_def Let_def split: if_splits)
  qed
qed

text \<open>The interpreter is a machine of the analysis: its stack is the stack the analysis counts,
  and the only faults are those about numbers.\<close>

interpretation vm: stack_machine
  "exec_step pw inputs mi ms" "exec_halt mi" "\<lambda>m. length (vm_stack m)" vm_max_depth vm_count
  mi ms "\<lambda>e. \<not> runtime_error e" "machine_inv inputs ms"
  for pw inputs mi ms
proof (unfold_locales, goal_cases)
  case (1 s ins t)
  then show ?case using exec_step_effect by blast
next
  case (2 s ins t)
  then show ?case using exec_halt_effect by blast
next
  case (3 s ins e)
  then show ?case using exec_step_error by blast
next
  case (4 s ins)
  then show ?case by (simp add: exec_halt_def begin_instruction_def Let_def)
qed

lemma machine_inv_init:
  "inputs_complete inputs \<Longrightarrow> ms < 2 ^ 53 \<Longrightarrow> machine_inv inputs ms vm_init"
  by (simp add: machine_inv_def vm_inv_init) (simp add: vm_init_def)

lemma vm_init_simps [simp]:
  "vm_stack vm_init = []" "vm_max_depth vm_init = 0" "vm_count vm_init = 0" "vm_trace vm_init = []"
  "vm_score vm_init = 0" "vm_severity vm_init = 0" "vm_route vm_init = 0" "vm_suppressed vm_init = False"
  by (simp_all add: vm_init_def)

lemma analysis_init_simps [simp]:
  "an_depth analysis_init = 0" "an_max_depth analysis_init = 0" "an_executed analysis_init = 0"
  "an_halted analysis_init = False" "an_required analysis_init = []" "an_locals analysis_init = []"
  "an_outputs analysis_init = []" "an_warnings analysis_init = []"
  by (simp_all add: analysis_init_def)

lemma exec_loop_ok:
  assumes "analyze_ir ir mi ms = Inr an" and "inputs_complete inputs" and "ms < 2 ^ 53"
    and "exec_loop pw inputs mi ms ir vm_init = Inr m"
  shows "vm_inv m \<and> length (vm_stack m) = final_stack_depth an \<and> vm_max_depth m = max_stack_depth an
     \<and> length (vm_trace m) = instruction_count an"
proof -
  obtain b where b: "analysis_loop ms 0 ir analysis_init = Inr b"
    "instruction_count an = an_executed b" "max_stack_depth an = an_max_depth b"
    "final_stack_depth an = an_depth b"
    using analyze_irD [OF assms(1)] by metis
  from vm.run_agrees [OF b(1) _ machine_inv_init [OF assms(2,3)] _ _ _ _ assms(4) [unfolded exec_loop_def]]
  show ?thesis using b(2-4) by (simp add: machine_inv_def)
qed

lemma exec_loop_error:
  assumes "analyze_ir ir mi ms = Inr an" and "inputs_complete inputs" and "ms < 2 ^ 53"
    and "exec_loop pw inputs mi ms ir vm_init = Inl e"
  shows "runtime_error e"
proof -
  obtain b where b: "analysis_loop ms 0 ir analysis_init = Inr b" and l: "int (length ir) \<le> mi"
    using analyze_irD [OF assms(1)] by metis
  from vm.run_no_fault [OF b _ machine_inv_init [OF assms(2,3)] _ _ assms(4) [unfolded exec_loop_def]] l
  show ?thesis by simp
qed

section \<open>Inputs and results\<close>

lemma normalize_inputs_complete: "normalize_inputs v = Inr ins \<Longrightarrow> inputs_complete ins"
proof -
  assume n: "normalize_inputs v = Inr ins"
  have "map fst ins = keys" if "res_map (normalize_input v) keys = Inr ins" for keys ins
    using that
    by (induction keys arbitrary: ins) (auto simp: res_simps normalize_input_def split: if_splits)
  then have "map fst ins = INPUTS" using n by (simp add: normalize_inputs_def)
  then show ?thesis unfolding inputs_complete_def by (metis image_set map_of_eq_None_iff)
qed

lemma policy_result_ok: "vm_inv m \<Longrightarrow> \<exists>r. policy_result_of an m = Inr r"
  by (simp add: policy_result_of_def vm_inv_def)

end
