(* ===== verification/VelatoRuns.thy ===== *)
theory VelatoRuns
  imports VelatoVm
begin

text \<open>
  What a whole run of the policy machine promises: the static analysis is exact, code after
  the first \<open>HALT\<close> is dead, the only errors are about numbers, and the result is in range.
\<close>

section \<open>A declarative reading of the analysis\<close>

text \<open>A program is well stacked from a depth if each instruction up to the first \<open>HALT\<close> is
  valid, finds its operands and stays within the limit.\<close>

fun well_stacked :: "int \<Rightarrow> nat \<Rightarrow> program \<Rightarrow> bool" where
  "well_stacked max_stack d [] = True"
| "well_stacked max_stack d (ins # ir) =
     (case STACK_EFFECTS (ins_op ins) of (pops, pushes) \<Rightarrow>
        validate_instruction ins = Inr () \<and> pops \<le> d \<and> int (d - pops + pushes) \<le> max_stack
        \<and> (ins_op ins = Op_HALT \<or> well_stacked max_stack (d - pops + pushes) ir))"

fun final_depth :: "nat \<Rightarrow> program \<Rightarrow> nat" where
  "final_depth d [] = d"
| "final_depth d (ins # ir) =
     (let d' = d - fst (STACK_EFFECTS (ins_op ins)) + snd (STACK_EFFECTS (ins_op ins))
      in if ins_op ins = Op_HALT then d' else final_depth d' ir)"

lemma analysis_step_Inr_iff:
  "\<not> an_halted a \<Longrightarrow> int (an_max_depth a) \<le> ms \<Longrightarrow>
   (\<exists>b. analysis_step ms k ins a = Inr b) \<longleftrightarrow>
   validate_instruction ins = Inr () \<and> fst (STACK_EFFECTS (ins_op ins)) \<le> an_depth a
   \<and> int (an_depth a - fst (STACK_EFFECTS (ins_op ins)) + snd (STACK_EFFECTS (ins_op ins))) \<le> ms"
  by (cases "STACK_EFFECTS (ins_op ins)") (auto simp: analysis_step_def Let_def res_simps)

lemma analysis_step_max:
  "analysis_step ms k ins a = Inr b \<Longrightarrow> \<not> an_halted a \<Longrightarrow> int (an_max_depth b) \<le> ms"
  by (auto simp: analysis_step_def Let_def res_simps split: prod.splits if_splits)

lemma analysis_loop_iff:
  assumes "\<not> an_halted a" and "int (an_max_depth a) \<le> ms"
  shows "(\<exists>b. analysis_loop ms k ir a = Inr b) \<longleftrightarrow> well_stacked ms (an_depth a) ir"
  using assms
proof (induction ir arbitrary: k a)
  case (Cons ins ir)
  obtain pops pushes where e: "STACK_EFFECTS (ins_op ins) = (pops, pushes)" by force
  note iff = analysis_step_Inr_iff [OF Cons.prems, of k ins, unfolded e fst_conv snd_conv]
  show ?case
  proof (cases "analysis_step ms k ins a")
    case (Inl err)
    then show ?thesis using iff by (auto simp: e)
  next
    case (Inr c)
    note d = analysis_stepD [OF Inr Cons.prems(1)] analysis_step_max [OF Inr Cons.prems(1)]
    show ?thesis
    proof (cases "ins_op ins = Op_HALT")
      case True
      then have "an_halted c" using d(6) by simp
      from analysis_loop_halted [OF this, of ms "Suc k" ir] show ?thesis
        using Inr True iff e by auto
    next
      case False
      then have "\<not> an_halted c" using d(6) by simp
      from Cons.IH [OF this d(8), of "Suc k"] show ?thesis
        using Inr False iff d(3) by (auto simp: e)
    qed
  qed
qed simp

lemma analysis_loop_depth:
  "analysis_loop ms k ir a = Inr b \<Longrightarrow> \<not> an_halted a \<Longrightarrow> an_depth b = final_depth (an_depth a) ir"
proof (induction ir arbitrary: k a)
  case (Cons ins ir)
  obtain c where c: "analysis_step ms k ins a = Inr c" and rest: "analysis_loop ms (Suc k) ir c = Inr b"
    using Cons.prems(1) by (auto simp: res_simps)
  note d = analysis_stepD [OF c Cons.prems(2)]
  show ?case
  proof (cases "ins_op ins = Op_HALT")
    case True
    then have "an_halted c" using d(6) by simp
    from analysis_loop_halted [OF this, of ms "Suc k" ir] rest show ?thesis
      using True d(3) by (auto simp: Let_def)
  next
    case False
    then show ?thesis using Cons.IH [OF rest] d(3,6) by (simp add: Let_def)
  qed
qed simp

lemma analysis_executed_pos:
  assumes "analysis_loop ms k ir a = Inr b" and "\<not> an_halted a" and "ir \<noteq> []"
  shows "an_executed a < an_executed b"
  using assms
proof (induction ir arbitrary: k a)
  case (Cons ins ir)
  obtain c where c: "analysis_step ms k ins a = Inr c" and rest: "analysis_loop ms (Suc k) ir c = Inr b"
    using Cons.prems(1) by (auto simp: res_simps)
  note d = analysis_stepD [OF c Cons.prems(2)]
  show ?case
  proof (cases "an_halted c \<or> ir = []")
    case True
    then show ?thesis using analysis_loop_halted [of c ms "Suc k" ir] rest d(7) by auto
  next
    case False
    then show ?thesis using Cons.IH [OF rest] d(7) by simp
  qed
qed simp

lemma analyze_ok_iff:
  assumes "0 \<le> ms"
  shows "is_ok (analyze_ir ir mi ms) \<longleftrightarrow> ir \<noteq> [] \<and> int (length ir) \<le> mi \<and> well_stacked ms 0 ir"
proof (cases "analysis_loop ms 0 ir analysis_init")
  case (Inl e)
  then show ?thesis
    using analysis_loop_iff [of analysis_init ms 0 ir] assms by (auto simp: analyze_ir_def)
next
  case (Inr b)
  then have "well_stacked ms 0 ir" using analysis_loop_iff [of analysis_init ms 0 ir] assms by simp
  moreover have "ir \<noteq> [] \<Longrightarrow> an_executed b \<noteq> 0" using analysis_executed_pos [OF Inr] by simp
  ultimately show ?thesis
    using Inr by (cases "ir = []") (auto simp: analyze_ir_def analysis_result_def)
qed

lemma well_stacked_live_part: "well_stacked ms d (live_part ir) = well_stacked ms d ir"
  by (induction ir arbitrary: d) (auto split: prod.splits)

lemma well_stacked_map:
  assumes "well_stacked ms d ir"
    and "\<And>ins. ins \<in> set ir \<Longrightarrow> validate_instruction ins = Inr () \<Longrightarrow> validate_instruction (f ins) = Inr ()"
    and "\<And>ins. ins_op (f ins) = ins_op ins"
  shows "well_stacked ms d (map f ir)"
  using assms(1,2) by (induction ir arbitrary: d) (auto simp: assms(3) split: prod.splits)

lemma validate_HALT [simp]: "validate_instruction (Instruction Op_HALT PNone) = Inr ()"
  by (simp add: validate_instruction_def LOCAL_OPS_def)

lemma well_stacked_snoc_HALT:
  "well_stacked ms d ir \<Longrightarrow> int d \<le> ms \<Longrightarrow> well_stacked ms d (ir @ [Instruction Op_HALT PNone])"
  by (induction ir arbitrary: d) (auto split: prod.splits)

lemma well_stacked_ensure_halt:
  "well_stacked ms 0 ir \<Longrightarrow> 0 \<le> ms \<Longrightarrow> well_stacked ms 0 (ensure_halt ir)"
  by (simp add: ensure_halt_def well_stacked_snoc_HALT)

text \<open>C1. The static analysis accepts a program exactly when it is not empty, is within the
  instruction limit and is well stacked from the empty stack; the depth it predicts for the
  end is the sum of the stack effects up to the first HALT.  In particular building the
  analysis model never fails on an accepted program.\<close>

theorem analyze_ir_iff:
  "0 \<le> ms \<Longrightarrow>
   (\<exists>an. analyze_ir ir mi ms = Inr an \<and> final_stack_depth an = final_depth 0 ir) \<longleftrightarrow>
   ir \<noteq> [] \<and> int (length ir) \<le> mi \<and> well_stacked ms 0 ir"
proof (cases "analysis_loop ms 0 ir analysis_init")
  case (Inl e)
  assume "0 \<le> ms"
  then have "\<not> well_stacked ms 0 ir"
    using analysis_loop_iff [of analysis_init ms 0 ir] Inl by simp
  then show ?thesis using Inl by (simp add: analyze_ir_def)
next
  case (Inr b)
  have d: "an_depth b = final_depth 0 ir" using analysis_loop_depth [OF Inr] by simp
  assume "0 \<le> ms"
  then have w: "well_stacked ms 0 ir" using analysis_loop_iff [of analysis_init ms 0 ir] Inr by simp
  show ?thesis
  proof (cases "ir = []")
    case False
    then have "0 < an_executed b" using analysis_executed_pos [OF Inr] by simp
    then show ?thesis using Inr d w False by (auto simp: analyze_ir_def analysis_result_def)
  qed (simp add: analyze_ir_def)
qed

theorem analyze_ir_iff_witness:
  "\<exists>an. analyze_ir [Instruction Op_PUSH_CONST (PInt 7), Instruction Op_DUP PNone, Instruction Op_STORE_SCORE PNone] 512 64
     = Inr an \<and> final_stack_depth an = 1"
proof -
  let ?p = "[Instruction Op_PUSH_CONST (PInt 7), Instruction Op_DUP PNone, Instruction Op_STORE_SCORE PNone]"
  have "well_stacked 64 0 ?p" by code_simp
  moreover have "final_depth 0 ?p = 1" by code_simp
  ultimately show ?thesis using analyze_ir_iff [of 64 ?p 512] by simp
qed

section \<open>Dead code\<close>

lemma analysis_loop_live_part:
  assumes "\<not> an_halted a"
  shows "analysis_loop ms k ir a = Inl e \<longleftrightarrow> analysis_loop ms k (live_part ir) a = Inl e"
    and "analysis_loop ms k ir a = Inr b \<Longrightarrow>
      \<exists>ws. analysis_loop ms k (live_part ir) a = Inr (b\<lparr>an_warnings := ws\<rparr>)"
proof -
  have "(analysis_loop ms k ir a = Inl e \<longleftrightarrow> analysis_loop ms k (live_part ir) a = Inl e) \<and>
    (\<forall>b. analysis_loop ms k ir a = Inr b \<longrightarrow>
      (\<exists>ws. analysis_loop ms k (live_part ir) a = Inr (b\<lparr>an_warnings := ws\<rparr>)))"
    using assms
  proof (induction ir arbitrary: k a)
    case Nil
    have "a = a\<lparr>an_warnings := an_warnings a\<rparr>" by simp
    then show ?case by (simp; metis)
  next
    case (Cons ins ir)
    show ?case
    proof (cases "analysis_step ms k ins a")
      case (Inr c)
      note h = analysis_stepD(6) [OF Inr Cons.prems]
      show ?thesis
      proof (cases "ins_op ins = Op_HALT")
        case True
        then obtain ws where ws: "analysis_loop ms (Suc k) ir c = Inr (c\<lparr>an_warnings := ws\<rparr>)"
          using analysis_loop_halted h by blast
        have "c = c\<lparr>an_warnings := ws, an_warnings := an_warnings c\<rparr>" by simp
        then show ?thesis using True Inr ws by (auto intro: exI [of _ "an_warnings c"])
      next
        case False
        then show ?thesis using Inr Cons.IH [of c "Suc k"] h by simp
      qed
    qed simp
  qed
  then show "analysis_loop ms k ir a = Inl e \<longleftrightarrow> analysis_loop ms k (live_part ir) a = Inl e"
    "analysis_loop ms k ir a = Inr b \<Longrightarrow>
      \<exists>ws. analysis_loop ms k (live_part ir) a = Inr (b\<lparr>an_warnings := ws\<rparr>)" by blast+
qed

lemma run_live_part: "run_until_halt st h (live_part ir) s = run_until_halt st h ir s"
proof (induction ir arbitrary: s)
  case (Cons ins ir)
  then show ?case by (cases "st ins s") auto
qed simp

lemma live_part_Nil [simp]: "live_part ir = [] \<longleftrightarrow> ir = []"
  by (cases ir) auto

lemma length_live_part: "length (live_part ir) \<le> length ir"
  by (induction ir) auto

lemma policy_result_of_depth:
  "max_stack_depth an = max_stack_depth an' \<Longrightarrow> policy_result_of an = policy_result_of an'"
  by (simp add: policy_result_of_def fun_eq_iff)

lemma analyze_ir_live_part:
  assumes "int (length ir) \<le> mi"
  shows "(\<exists>e. analyze_ir ir mi ms = Inl e \<and> analyze_ir (live_part ir) mi ms = Inl e)
    \<or> (\<exists>an an'. analyze_ir ir mi ms = Inr an \<and> analyze_ir (live_part ir) mi ms = Inr an'
         \<and> max_stack_depth an = max_stack_depth an')"
proof -
  have l: "int (length (live_part ir)) \<le> mi" using assms length_live_part [of ir] by linarith
  show ?thesis
  proof (cases "analysis_loop ms 0 ir analysis_init")
    case (Inl e)
    then have "analysis_loop ms 0 (live_part ir) analysis_init = Inl e"
      using analysis_loop_live_part(1) [of analysis_init ms 0 ir e] by simp
    then show ?thesis using Inl l assms by (auto simp: analyze_ir_def)
  next
    case (Inr b)
    then obtain ws where "analysis_loop ms 0 (live_part ir) analysis_init = Inr (b\<lparr>an_warnings := ws\<rparr>)"
      using analysis_loop_live_part(2) [of analysis_init ms 0 ir b] by auto
    then show ?thesis using Inr l assms by (auto simp: analyze_ir_def analysis_result_def)
  qed
qed

text \<open>C29. Code after the first HALT is dead: whatever it is, valid or not, a program within
  the instruction limit gives the same result, trace hash included, or the same error as the
  part of it that runs.\<close>

theorem execute_live_part:
  assumes "int (length ir) \<le> mi"
  shows "execute pw ir inputs mi ms = execute pw (live_part ir) inputs mi ms"
proof -
  have run: "exec_loop pw ins mi ms (live_part ir) = exec_loop pw ins mi ms ir" for ins
    by (simp add: exec_loop_def run_live_part fun_eq_iff)
  from analyze_ir_live_part [OF assms, of ms] show ?thesis
  proof (elim disjE exE conjE)
    fix an an'
    assume an: "analyze_ir ir mi ms = Inr an" "analyze_ir (live_part ir) mi ms = Inr an'"
      "max_stack_depth an = max_stack_depth an'"
    then show ?thesis using policy_result_of_depth [OF an(3)] by (simp add: execute_def run)
  qed (simp add: execute_def)
qed

theorem execute_live_part_witness:
  "execute (\<lambda>_ _. Inl PowDomain) [Instruction Op_HALT PNone, Instruction Op_ADD (PStr ''junk'')] (PDict []) 512 64
   = execute (\<lambda>_ _. Inl PowDomain) [Instruction Op_HALT PNone] (PDict []) 512 64"
  using execute_live_part [of "[Instruction Op_HALT PNone, Instruction Op_ADD (PStr ''junk'')]" 512] by simp

section \<open>Errors of the analysis\<close>

text \<open>The analysis raises only \<open>ValueError\<close>s, unless a constant is an integer too large for
  a float, which raises \<open>OverflowError\<close>.\<close>

definition constant_fits :: "instruction \<Rightarrow> bool" where
  "constant_fits ins = (ins_op ins = Op_PUSH_CONST \<longrightarrow> is_number (ins_arg ins) \<longrightarrow> is_ok (py_float (ins_arg ins)))"

lemma validate_error:
  "validate_instruction ins = Inl e \<Longrightarrow> constant_fits ins \<Longrightarrow> is_value_error (exn_cls e)"
  by (auto simp: validate_instruction_def constant_fits_def res_simps is_ok_iff split: if_splits)

lemma analysis_step_error:
  "analysis_step ms k ins a = Inl e \<Longrightarrow> constant_fits ins \<Longrightarrow> is_value_error (exn_cls e)"
  by (auto simp: analysis_step_def Let_def res_simps dest: validate_error split: if_splits prod.splits)

lemma analysis_loop_error:
  "analysis_loop ms k ir a = Inl e \<Longrightarrow> \<forall>ins\<in>set ir. constant_fits ins \<Longrightarrow> is_value_error (exn_cls e)"
  by (induction ir arbitrary: k a) (auto simp: res_simps dest: analysis_step_error)

lemma analyze_error:
  "analyze_ir ir mi ms = Inl e \<Longrightarrow> \<forall>ins\<in>set ir. constant_fits ins \<Longrightarrow> is_value_error (exn_cls e)"
  by (auto simp: analyze_ir_def analysis_result_def res_simps dest: analysis_loop_error split: if_splits)

lemma constant_fits_ensure_halt:
  "\<forall>ins\<in>set ir. constant_fits ins \<Longrightarrow> \<forall>ins\<in>set (ensure_halt ir). constant_fits ins"
  by (auto simp: ensure_halt_def constant_fits_def)

section \<open>Results and errors\<close>

text \<open>The ranges a policy result promises its consumers.\<close>

definition result_in_range :: "program_analysis \<Rightarrow> policy_result \<Rightarrow> bool" where
  "result_in_range an r \<longleftrightarrow> 0 \<le> alert_score r \<and> alert_score r \<le> 100
     \<and> 0 \<le> severity_code r \<and> severity_code r \<le> 9 \<and> 0 \<le> routing_code r \<and> routing_code r \<le> 255
     \<and> instructions_executed r = instruction_count an
     \<and> result_max_stack_depth r = max_stack_depth an \<and> length (trace_hash r) = 64"

lemma policy_result_in_range:
  assumes "policy_result_of an m = Inr r" and "vm_max_depth m = max_stack_depth an"
    and "length (vm_trace m) = instruction_count an"
  shows "result_in_range an r"
  using assms
  by (auto simp: policy_result_of_def result_in_range_def length_sha256_hex split: if_splits)

lemma executeD:
  assumes "execute pw ir inputs mi ms = Inr r"
  obtains an ins m where "analyze_ir ir mi ms = Inr an" and "normalize_inputs inputs = Inr ins"
    and "exec_loop pw ins mi ms ir vm_init = Inr m" and "policy_result_of an m = Inr r"
  using assms by (auto simp: execute_def res_simps)

lemma execute_in_range:
  assumes "execute pw ir inputs mi ms = Inr r" and "ms < 2 ^ 53"
  shows "\<exists>an. analyze_ir ir mi ms = Inr an \<and> result_in_range an r"
proof -
  obtain an ins m where e: "analyze_ir ir mi ms = Inr an" "normalize_inputs inputs = Inr ins"
    "exec_loop pw ins mi ms ir vm_init = Inr m" "policy_result_of an m = Inr r"
    using executeD [OF assms(1)] by metis
  from exec_loop_ok [OF e(1) normalize_inputs_complete [OF e(2)] assms(2) e(3)]
  show ?thesis using policy_result_in_range [OF e(4)] e(1) by blast
qed

text \<open>C4. A run that returns keeps every promise of the result: score, severity and route are
  in their ranges, the number of instructions executed and the deepest stack are those the
  static analysis announced, and the trace hash has 64 characters.\<close>

theorem execute_result:
  assumes "execute pw ir inputs mi ms = Inr r" and "ms < 2 ^ 53"
  shows "\<exists>an. analyze_ir ir mi ms = Inr an \<and> result_in_range an r"
  using assms by (rule execute_in_range)

lemma execute_returns:
  assumes "is_ok (analyze_ir ir mi ms)" and "normalize_inputs inputs = Inr ins" and "ms < 2 ^ 53"
    and "is_ok (exec_loop pw ins mi ms ir vm_init)"
  obtains r where "execute pw ir inputs mi ms = Inr r"
proof -
  obtain an m where am: "analyze_ir ir mi ms = Inr an" "exec_loop pw ins mi ms ir vm_init = Inr m"
    using assms(1,4) by (auto simp: is_ok_iff)
  from exec_loop_ok [OF am(1) normalize_inputs_complete [OF assms(2)] assms(3) am(2)]
  have "vm_inv m" by simp
  from policy_result_ok [OF this, of an] show ?thesis using am assms(2) that by (auto simp: execute_def)
qed

text \<open>Inputs for the examples: every register is zero but the watch list, which is one.\<close>

definition sample_inputs :: pyval where
  "sample_inputs = PDict (map (\<lambda>k. (k, if k = ''watchlist_match'' then PInt 1 else PFloat (Fin 0))) INPUTS)"

definition sample_program :: program where
  "sample_program = [Instruction Op_LOAD_INPUT (PStr ''watchlist_match''), Instruction Op_PUSH_CONST (PInt 140),
     Instruction Op_MUL PNone, Instruction Op_STORE_SCORE PNone, Instruction Op_HALT PNone]"

definition no_pow :: pow_fun where
  "no_pow a b = Inl PowDomain"

lemma sample_runs:
  obtains r where "execute no_pow sample_program sample_inputs 512 64 = Inr r"
proof -
  have n: "is_ok (normalize_inputs sample_inputs)" by code_simp
  have l: "is_ok (res_bind (normalize_inputs sample_inputs)
     (\<lambda>ins. exec_loop no_pow ins 512 64 sample_program vm_init))" by code_simp
  have a: "is_ok (analyze_ir sample_program 512 64)" by code_simp
  from n obtain ins where ins: "normalize_inputs sample_inputs = Inr ins" by (auto simp: is_ok_iff)
  from execute_returns [OF a ins, of no_pow] l ins that show ?thesis by auto
qed

theorem execute_result_witness:
  "\<exists>r an. execute no_pow sample_program sample_inputs 512 64 = Inr r
     \<and> analyze_ir sample_program 512 64 = Inr an \<and> result_in_range an r"
proof -
  obtain r where r: "execute no_pow sample_program sample_inputs 512 64 = Inr r" by (rule sample_runs)
  from execute_result [OF this] r show ?thesis by auto
qed

lemma execute_runtime_error:
  assumes "execute pw ir inputs mi ms = Inl e" and "ms < 2 ^ 53"
    and "is_ok (analyze_ir ir mi ms)" and "is_ok (normalize_inputs inputs)"
  shows "runtime_error e"
proof -
  obtain an ins where a: "analyze_ir ir mi ms = Inr an" "normalize_inputs inputs = Inr ins"
    using assms(3,4) by (auto simp: is_ok_iff)
  show ?thesis
  proof (cases "exec_loop pw ins mi ms ir vm_init")
    case (Inl err)
    then show ?thesis
      using exec_loop_error [OF a(1) normalize_inputs_complete [OF a(2)] assms(2) Inl] a assms(1)
      by (simp add: execute_def)
  next
    case (Inr m)
    from exec_loop_ok [OF a(1) normalize_inputs_complete [OF a(2)] assms(2) Inr]
    show ?thesis using policy_result_ok [of m an] a assms(1) Inr by (auto simp: execute_def)
  qed
qed

text \<open>C2. A program the analysis accepts, on inputs that are all there and finite, can fail
  only with a ValueError about numbers (division by zero, a non-finite result, a bad range
  and the like): never by stack underflow or overflow, by running out of instructions, by a
  bad operand or register, or by building the result.\<close>

theorem execute_error:
  assumes "execute pw ir inputs mi ms = Inl e" and "ms < 2 ^ 53"
    and "is_ok (analyze_ir ir mi ms)" and "is_ok (normalize_inputs inputs)"
  shows "runtime_error e"
  using assms by (rule execute_runtime_error)

theorem execute_error_witness:
  "\<exists>e. execute no_pow [Instruction Op_PUSH_CONST (PInt 1), Instruction Op_PUSH_CONST (PInt 0),
       Instruction Op_DIV PNone, Instruction Op_HALT PNone] sample_inputs 512 64 = Inl e \<and> runtime_error e"
proof -
  let ?p = "[Instruction Op_PUSH_CONST (PInt 1), Instruction Op_PUSH_CONST (PInt 0),
       Instruction Op_DIV PNone, Instruction Op_HALT PNone]"
  have "execute no_pow ?p sample_inputs 512 64 = Inl (Exn ValueError ''division by zero'')" by code_simp
  moreover have "is_ok (analyze_ir ?p 512 64)" by code_simp
  moreover have "is_ok (normalize_inputs sample_inputs)" by code_simp
  ultimately show ?thesis using execute_error [of no_pow ?p sample_inputs 512 64] by auto
qed

end
