(* ===== verification/VelatoLibrary.thy ===== *)
theory VelatoLibrary
  imports VelatoRuns
begin

text \<open>
  \<open>services/velato-engine/standard_library.py\<close>: macros that emit programs of the policy dialect.
  Arguments annotated as numbers are numbers here; a builder whose method raised is dropped.
\<close>

section \<open>Sums\<close>

text \<open>The built-in \<open>sum\<close> of numbers: exact while the items are machine integers, then floats with
  Neumaier's compensation, then pairwise addition once an integer is too big.\<close>

definition fits_long :: "int \<Rightarrow> bool" where
  "fits_long i = (- (2 ^ 63) \<le> i \<and> i < 2 ^ 63)"

definition py_add :: "pyval \<Rightarrow> pyval \<Rightarrow> pyval res" where
  "py_add = num_op (+) fl_add"

fun sum_objects :: "pyval \<Rightarrow> pyval list \<Rightarrow> pyval res" where
  "sum_objects acc [] = Inr acc"
| "sum_objects acc (x # xs) = res_bind (py_add acc x) (\<lambda>s. sum_objects s xs)"

definition compensated :: "pyfloat \<Rightarrow> pyfloat \<Rightarrow> pyfloat" where
  "compensated f c = (if fl_truthy c \<and> isfinite c then fl_add f c else f)"

fun sum_floats :: "pyfloat \<Rightarrow> pyfloat \<Rightarrow> pyval list \<Rightarrow> pyval res" where
  "sum_floats f c [] = Inr (PFloat (compensated f c))"
| "sum_floats f c (v # xs) = (case v of
     PFloat x \<Rightarrow>
       (let t = fl_add f x
        in sum_floats t (if fl_le (fl_abs x) (fl_abs f) then fl_add c (fl_add (fl_sub f t) x)
             else fl_add c (fl_add (fl_sub x t) f)) xs)
   | _ \<Rightarrow> (case as_int v of
       Some i \<Rightarrow> if fits_long i then sum_floats (fl_add f (fl_round (of_int i))) c xs
         else res_bind (py_add (PFloat (compensated f c)) v) (\<lambda>s. sum_objects s xs)
     | None \<Rightarrow> res_bind (py_add (PFloat (compensated f c)) v) (\<lambda>s. sum_objects s xs)))"

definition sum_rest :: "pyval \<Rightarrow> pyval list \<Rightarrow> pyval res" where
  "sum_rest acc xs = (case acc of PFloat f \<Rightarrow> sum_floats f (Fin 0) xs | _ \<Rightarrow> sum_objects acc xs)"

fun sum_ints :: "int \<Rightarrow> pyval list \<Rightarrow> pyval res" where
  "sum_ints i [] = Inr (PInt i)"
| "sum_ints i (v # xs) = (case as_int v of
     Some j \<Rightarrow> if fits_long j \<and> fits_long (i + j) then sum_ints (i + j) xs
       else res_bind (py_add (PInt i) v) (\<lambda>s. sum_rest s xs)
   | None \<Rightarrow> res_bind (py_add (PInt i) v) (\<lambda>s. sum_rest s xs))"

definition py_sum :: "pyval list \<Rightarrow> pyval res" where
  "py_sum xs = sum_ints 0 xs"

section \<open>The builder\<close>

record policy_builder =
  pb_instructions :: program

definition pb_new :: policy_builder where "pb_new = \<lparr>pb_instructions = []\<rparr>"

definition pb_emit :: "opcode \<Rightarrow> pyval \<Rightarrow> policy_builder \<Rightarrow> policy_builder" where
  "pb_emit p arg b = b\<lparr>pb_instructions := pb_instructions b @ [Instruction p arg]\<rparr>"

definition pb_extend :: "program \<Rightarrow> policy_builder \<Rightarrow> policy_builder" where
  "pb_extend ir b = b\<lparr>pb_instructions := pb_instructions b @ ir\<rparr>"

definition pb_constant :: "pyval \<Rightarrow> policy_builder \<Rightarrow> policy_builder" where "pb_constant v = pb_emit Op_PUSH_CONST v"
definition pb_input :: "string \<Rightarrow> policy_builder \<Rightarrow> policy_builder" where "pb_input name = pb_emit Op_LOAD_INPUT (PStr name)"
definition pb_load_local :: "int \<Rightarrow> policy_builder \<Rightarrow> policy_builder" where "pb_load_local r = pb_emit Op_LOAD_LOCAL (PInt r)"
definition pb_store_local :: "int \<Rightarrow> policy_builder \<Rightarrow> policy_builder" where "pb_store_local r = pb_emit Op_STORE_LOCAL (PInt r)"
definition pb_add :: "policy_builder \<Rightarrow> policy_builder" where "pb_add = pb_emit Op_ADD PNone"
definition pb_subtract :: "policy_builder \<Rightarrow> policy_builder" where "pb_subtract = pb_emit Op_SUB PNone"
definition pb_multiply :: "policy_builder \<Rightarrow> policy_builder" where "pb_multiply = pb_emit Op_MUL PNone"
definition pb_divide :: "policy_builder \<Rightarrow> policy_builder" where "pb_divide = pb_emit Op_DIV PNone"
definition pb_minimum :: "policy_builder \<Rightarrow> policy_builder" where "pb_minimum = pb_emit Op_MIN PNone"
definition pb_maximum :: "policy_builder \<Rightarrow> policy_builder" where "pb_maximum = pb_emit Op_MAX PNone"

definition pb_clamp :: "pyval \<Rightarrow> pyval \<Rightarrow> policy_builder \<Rightarrow> policy_builder res" where
  "pb_clamp lo hi b = (if py_lt hi lo then value_error ''lower bound must not exceed upper bound''
     else Inr (pb_emit Op_CLAMP PNone (pb_constant hi (pb_constant lo b))))"

definition pb_clamp01 :: "policy_builder \<Rightarrow> policy_builder res" where
  "pb_clamp01 = pb_clamp (PInt 0) (PInt 1)"

definition pb_normalize :: "pyval \<Rightarrow> pyval \<Rightarrow> bool \<Rightarrow> policy_builder \<Rightarrow> policy_builder res" where
  "pb_normalize lo hi clamp b =
     (if py_le hi lo then value_error ''normalization requires lower < upper''
      else res_bind (py_sub hi lo) (\<lambda>d.
        let b' = pb_divide (pb_constant d (pb_subtract (pb_constant lo b)))
        in if clamp then pb_clamp01 b' else Inr b'))"

definition pb_percentage :: "policy_builder \<Rightarrow> policy_builder" where
  "pb_percentage b = pb_multiply (pb_constant (PInt 100) b)"

definition pb_greater_than :: "pyval \<Rightarrow> policy_builder \<Rightarrow> policy_builder" where
  "pb_greater_than v b = pb_emit Op_GT PNone (pb_constant v b)"
definition pb_at_least :: "pyval \<Rightarrow> policy_builder \<Rightarrow> policy_builder" where
  "pb_at_least v b = pb_emit Op_GTE PNone (pb_constant v b)"
definition pb_less_than :: "pyval \<Rightarrow> policy_builder \<Rightarrow> policy_builder" where
  "pb_less_than v b = pb_emit Op_LT PNone (pb_constant v b)"
definition pb_at_most :: "pyval \<Rightarrow> policy_builder \<Rightarrow> policy_builder" where
  "pb_at_most v b = pb_emit Op_LTE PNone (pb_constant v b)"
definition pb_equals :: "pyval \<Rightarrow> policy_builder \<Rightarrow> policy_builder" where
  "pb_equals v b = pb_emit Op_EQ PNone (pb_constant v b)"

definition pb_between :: "pyval \<Rightarrow> pyval \<Rightarrow> policy_builder \<Rightarrow> policy_builder res" where
  "pb_between lo hi b = (if py_lt hi lo then value_error ''lower bound must not exceed upper bound''
     else Inr (pb_emit Op_BETWEEN PNone (pb_constant hi (pb_constant lo b))))"

definition pb_logical_not :: "policy_builder \<Rightarrow> policy_builder" where "pb_logical_not = pb_emit Op_NOT PNone"

definition pb_select :: "pyval \<Rightarrow> pyval \<Rightarrow> policy_builder \<Rightarrow> policy_builder" where
  "pb_select t f b = pb_emit Op_SELECT PNone (pb_constant f (pb_constant t b))"

definition pb_store_score :: "policy_builder \<Rightarrow> policy_builder" where "pb_store_score = pb_emit Op_STORE_SCORE PNone"
definition pb_store_severity :: "policy_builder \<Rightarrow> policy_builder" where "pb_store_severity = pb_emit Op_STORE_SEVERITY PNone"
definition pb_store_route :: "policy_builder \<Rightarrow> policy_builder" where "pb_store_route = pb_emit Op_STORE_ROUTE PNone"
definition pb_store_suppressed :: "policy_builder \<Rightarrow> policy_builder" where "pb_store_suppressed = pb_emit Op_STORE_SUPPRESS PNone"
definition pb_halt :: "policy_builder \<Rightarrow> policy_builder" where "pb_halt = pb_emit Op_HALT PNone"

definition missing_of :: "program_analysis \<Rightarrow> string list" where
  "missing_of a = filter (\<lambda>n. n \<notin> set (outputs_written a)) (sort OUTPUTS)"

definition pb_build :: "bool \<Rightarrow> policy_builder \<Rightarrow> program res" where
  "pb_build require_outputs b =
     (let ir = ensure_halt (pb_instructions b)
      in res_bind (analyze ir) (\<lambda>a.
        if require_outputs \<and> missing_of a \<noteq> []
        then value_error (''policy does not write outputs: '' @ join '', '' (missing_of a))
        else Inr ir))"

section \<open>Macros\<close>

fun weighted_terms :: "nat \<Rightarrow> (string \<times> pyval) list \<Rightarrow> policy_builder \<Rightarrow> policy_builder" where
  "weighted_terms i [] b = b"
| "weighted_terms i ((name, weight) # ts) b =
     (let b' = pb_multiply (pb_constant weight (pb_input name b))
      in weighted_terms (Suc i) ts (if i \<noteq> 0 then pb_add b' else b'))"

definition weighted_sum :: "(string \<times> pyval) list \<Rightarrow> program res" where
  "weighted_sum terms = (if terms = [] then value_error ''weighted_sum requires at least one term''
     else Inr (pb_instructions (weighted_terms 0 terms pb_new)))"

definition weighted_average :: "(string \<times> pyval) list \<Rightarrow> program res" where
  "weighted_average terms =
     res_bind (py_sum (map snd terms)) (\<lambda>total.
     if terms = [] then value_error ''weighted_average requires at least one term''
     else if num_eq total (PInt 0) then value_error ''weighted_average total weight must not be zero''
     else res_bind (weighted_sum terms) (\<lambda>ir. Inr (ir @ [Instruction Op_PUSH_CONST total, Instruction Op_DIV PNone])))"

fun joined_conditions :: "opcode \<Rightarrow> nat \<Rightarrow> program list \<Rightarrow> program" where
  "joined_conditions p i [] = []"
| "joined_conditions p i (c # cs) =
     c @ (if i \<noteq> 0 then [Instruction p PNone] else []) @ joined_conditions p (Suc i) cs"

definition all_conditions :: "program list \<Rightarrow> program" where
  "all_conditions cs = (if cs = [] then [Instruction Op_PUSH_CONST (PInt 1)] else joined_conditions Op_AND 0 cs)"

definition any_condition :: "program list \<Rightarrow> program" where
  "any_condition cs = (if cs = [] then [Instruction Op_PUSH_CONST (PInt 0)] else joined_conditions Op_OR 0 cs)"

definition input_at_least :: "string \<Rightarrow> pyval \<Rightarrow> program" where
  "input_at_least name v = [Instruction Op_LOAD_INPUT (PStr name), Instruction Op_PUSH_CONST v, Instruction Op_GTE PNone]"

definition input_at_most :: "string \<Rightarrow> pyval \<Rightarrow> program" where
  "input_at_most name v = [Instruction Op_LOAD_INPUT (PStr name), Instruction Op_PUSH_CONST v, Instruction Op_LTE PNone]"

definition input_between :: "string \<Rightarrow> pyval \<Rightarrow> pyval \<Rightarrow> program res" where
  "input_between name lo hi = (if py_lt hi lo then value_error ''lower bound must not exceed upper bound''
     else Inr [Instruction Op_LOAD_INPUT (PStr name), Instruction Op_PUSH_CONST lo, Instruction Op_PUSH_CONST hi,
       Instruction Op_BETWEEN PNone])"

text \<open>One threshold: add \<open>step\<close> to the code if the score below it has reached \<open>score\<close>.\<close>

definition band_step :: "pyval \<Rightarrow> pyval \<Rightarrow> program" where
  "band_step score step = [Instruction Op_OVER PNone, Instruction Op_PUSH_CONST score, Instruction Op_GTE PNone,
     Instruction Op_PUSH_CONST step, Instruction Op_MUL PNone, Instruction Op_ADD PNone]"

definition severity_bands :: "pyval \<Rightarrow> pyval \<Rightarrow> pyval \<Rightarrow> int \<Rightarrow> int \<Rightarrow> int \<Rightarrow> int \<Rightarrow> program res" where
  "severity_bands medium_score high_score critical_score low medium high critical =
     (if \<not> (py_le medium_score high_score \<and> py_le high_score critical_score)
      then value_error ''severity thresholds must be ordered''
      else Inr ([Instruction Op_PUSH_CONST (PInt low)]
        @ band_step medium_score (PInt (medium - low))
        @ band_step high_score (PInt (high - medium))
        @ band_step critical_score (PInt (critical - high))
        @ [Instruction Op_SWAP PNone, Instruction Op_DROP PNone]))"

abbreviation default_bands :: "program res" where
  "default_bands \<equiv> severity_bands (PInt 40) (PInt 65) (PInt 85) 1 2 3 4"

definition route_when :: "program \<Rightarrow> int \<Rightarrow> int \<Rightarrow> program" where
  "route_when condition true_route false_route = condition
     @ [Instruction Op_PUSH_CONST (PInt true_route), Instruction Op_PUSH_CONST (PInt false_route),
        Instruction Op_SELECT PNone, Instruction Op_STORE_ROUTE PNone]"

definition suppress_when :: "program \<Rightarrow> program" where
  "suppress_when condition = condition @ [Instruction Op_STORE_SUPPRESS PNone]"

definition standard_alert_policy :: "(string \<times> pyval) list \<Rightarrow> pyval \<Rightarrow> pyval \<Rightarrow> int \<Rightarrow> program res" where
  "standard_alert_policy terms score_scale suppress_below default_route =
     (if py_le score_scale (PInt 0) then value_error ''score_scale must be positive''
      else res_bind (weighted_average terms) (\<lambda>average.
        let b1 = pb_multiply (pb_constant score_scale (pb_extend average pb_new));
            b2 = pb_store_score (pb_emit Op_DUP PNone b1)
        in res_bind default_bands (\<lambda>bands.
          let b3 = pb_store_severity (pb_extend bands (pb_emit Op_DUP PNone b2));
              b4 = pb_store_suppressed (pb_emit Op_LT PNone (pb_constant suppress_below (pb_emit Op_DUP PNone b3)));
              b5 = pb_halt (pb_store_route (pb_constant (PInt default_route) (pb_emit Op_DROP PNone b4)))
          in pb_build True b5)))"

section \<open>Running macros\<close>

text \<open>The operations of a macro one after the other, without the bookkeeping of the interpreter.\<close>

definition run_ops :: "pow_fun \<Rightarrow> (string \<times> pyfloat) list \<Rightarrow> program \<Rightarrow> vm \<Rightarrow> vm res" where
  "run_ops pw inputs = run_until_halt (exec_op pw inputs) (\<lambda>_ m. Inr m)"

definition vm_data :: "vm \<Rightarrow> vm" where
  "vm_data m = m\<lparr>vm_max_depth := 0, vm_trace := [], vm_count := 0\<rparr>"

lemma vm_data_simps [simp]:
  "vm_stack (vm_data m) = vm_stack m" "vm_locals (vm_data m) = vm_locals m" "vm_score (vm_data m) = vm_score m"
  "vm_severity (vm_data m) = vm_severity m" "vm_route (vm_data m) = vm_route m"
  "vm_suppressed (vm_data m) = vm_suppressed m" "vm_data (vm_data m) = vm_data m"
  "vm_data (m\<lparr>vm_count := n\<rparr>) = vm_data m" "vm_data (m\<lparr>vm_trace := tr\<rparr>) = vm_data m"
  "vm_data (m\<lparr>vm_max_depth := n\<rparr>) = vm_data m"
  by (simp_all add: vm_data_def)

lemma vm_data_updates:
  "(vm_data m)\<lparr>vm_stack := xs\<rparr> = vm_data (m\<lparr>vm_stack := xs\<rparr>)"
  "(vm_data m)\<lparr>vm_locals := xs\<rparr> = vm_data (m\<lparr>vm_locals := xs\<rparr>)"
  "(vm_data m)\<lparr>vm_score := i\<rparr> = vm_data (m\<lparr>vm_score := i\<rparr>)"
  "(vm_data m)\<lparr>vm_severity := i\<rparr> = vm_data (m\<lparr>vm_severity := i\<rparr>)"
  "(vm_data m)\<lparr>vm_route := i\<rparr> = vm_data (m\<lparr>vm_route := i\<rparr>)"
  "(vm_data m)\<lparr>vm_suppressed := b\<rparr> = vm_data (m\<lparr>vm_suppressed := b\<rparr>)"
  by (simp_all add: vm_data_def)

definition data_res :: "vm res \<Rightarrow> vm res" where
  "data_res r = res_bind r (\<lambda>m. Inr (vm_data m))"

lemma data_res_simps [simp]: "data_res (Inr m) = Inr (vm_data m)" "data_res (Inl e) = Inl e"
  by (simp_all add: data_res_def)

lemma data_res_bind [simp]: "data_res (res_bind r f) = res_bind r (\<lambda>x. data_res (f x))"
  by (cases r) simp_all

lemma bind_data_res [simp]: "res_bind (data_res r) f = res_bind r (\<lambda>x. f (vm_data x))"
  by (cases r) simp_all

lemma push_data: "push f (vm_data m) = data_res (push f m)"
  by (simp add: push_def Let_def vm_data_updates)

lemma push_int_data: "push_int i (vm_data m) = data_res (push_int i m)"
  by (cases "float_of_int i") (simp_all add: push_int_def push_data)

lemma push_bool_data: "push_bool b (vm_data m) = data_res (push_bool b m)"
  by (simp add: push_bool_def push_data)

lemma unary_data: "unary_step p v (vm_data m) = data_res (unary_step p v m)"
proof -
  have "res_bind r (\<lambda>i. push_int i (vm_data m)) = data_res (res_bind r (\<lambda>i. push_int i m))" for r
    by (cases r) (simp_all add: push_int_data)
  then show ?thesis by (cases p) (simp_all add: unary_step_def push_data push_int_data push_bool_data)
qed

lemma pow_data: "pow_step pw a b (vm_data m) = data_res (pow_step pw a b m)"
  by (simp add: pow_step_def push_data split: sum.split)

lemma exec_op_data: "exec_op pw inputs ins (vm_data m) = data_res (exec_op pw inputs ins m)"
proof -
  note [simp] = push_data push_int_data push_bool_data unary_data pow_data vm_data_updates
  show ?thesis
    by (cases "ins_op ins"; cases "vm_stack m"; (cases "tl (vm_stack m)")?; (cases "tl (tl (vm_stack m))")?;
      simp add: exec_op_def op_tables Let_def pop_def pop_binary_def pop_ternary_def split: option.split)
qed

lemma exec_step_data:
  assumes "exec_step pw inputs mi ms ins m = Inr t"
  shows "exec_op pw inputs ins (vm_data m) = Inr (vm_data t)"
proof -
  let ?m = "m\<lparr>vm_count := Suc (vm_count m)\<rparr>"
  obtain u where u: "exec_op pw inputs ins ?m = Inr u" and t: "end_instruction ms ins (length (vm_stack m)) u = Inr t"
    using assms by (auto simp: exec_step_def begin_instruction_def res_simps split: if_splits)
  have "vm_data t = vm_data u" using t by (auto simp: end_instruction_def Let_def split: if_splits)
  then show ?thesis using exec_op_data [of pw inputs ins ?m] u by simp
qed

text \<open>The interpreter runs the operations: its answer carries the same data.\<close>

lemma exec_loop_data:
  "exec_loop pw inputs mi ms ir m = Inr t \<Longrightarrow> run_ops pw inputs ir (vm_data m) = Inr (vm_data t)"
proof (induction ir arbitrary: m)
  case (Cons ins ir)
  show ?case
  proof (cases "ins_op ins = Op_HALT")
    case True
    then show ?thesis using Cons.prems
      by (auto simp: exec_loop_def run_ops_def exec_halt_def begin_instruction_def res_simps Let_def split: if_splits)
  next
    case False
    then obtain u where u: "exec_step pw inputs mi ms ins m = Inr u" "exec_loop pw inputs mi ms ir u = Inr t"
      using Cons.prems by (auto simp: exec_loop_def res_simps)
    then show ?thesis using Cons.IH [OF u(2)] exec_step_data [OF u(1)] False by (simp add: run_ops_def)
  qed
qed (simp add: exec_loop_def run_ops_def)

lemma run_ops_Nil [simp]: "run_ops pw inputs [] m = Inr m"
  by (simp add: run_ops_def)

lemma run_ops_halt [simp]: "run_ops pw inputs (Instruction Op_HALT a # ir) m = Inr m"
  by (simp add: run_ops_def)

lemma run_ops_append:
  "\<forall>ins\<in>set xs. ins_op ins \<noteq> Op_HALT \<Longrightarrow> run_ops pw inputs (xs @ ys) m = res_bind (run_ops pw inputs xs m) (run_ops pw inputs ys)"
proof (induction xs arbitrary: m)
  case (Cons x xs)
  then show ?case by (cases "exec_op pw inputs x m") (simp_all add: run_ops_def)
qed simp

text \<open>One operation at the front of a macro, on a stack that is known.\<close>

named_theorems run_simps \<open>one operation of a macro\<close>

lemma run_push [run_simps]:
  "is_number v \<Longrightarrow> py_float v = Inr f \<Longrightarrow> fl_ok f \<Longrightarrow>
   run_ops pw inputs (Instruction Op_PUSH_CONST v # ir) m = run_ops pw inputs ir (m\<lparr>vm_stack := f # vm_stack m\<rparr>)"
  by (simp add: run_ops_def exec_op_def push_ok)

lemma run_binary [run_simps]:
  "p \<in> set BINARY_OPS \<Longrightarrow> vm_stack m = b # a # xs \<Longrightarrow> fl_ok (binary_value p a b) \<Longrightarrow>
   run_ops pw inputs (Instruction p PNone # ir) m = run_ops pw inputs ir (m\<lparr>vm_stack := binary_value p a b # xs\<rparr>)"
  by (auto simp: run_ops_def exec_op_def push_ok pop_binary_def pop_def BINARY_OPS_def)

lemma run_dup [run_simps]:
  "vm_stack m = a # xs \<Longrightarrow> fl_ok a \<Longrightarrow>
   run_ops pw inputs (Instruction Op_DUP PNone # ir) m = run_ops pw inputs ir (m\<lparr>vm_stack := a # a # xs\<rparr>)"
  by (simp add: run_ops_def exec_op_def push_ok pop_def op_tables)

lemma run_over [run_simps]:
  "vm_stack m = b # a # xs \<Longrightarrow> fl_ok a \<Longrightarrow> fl_ok b \<Longrightarrow>
   run_ops pw inputs (Instruction Op_OVER PNone # ir) m = run_ops pw inputs ir (m\<lparr>vm_stack := a # b # a # xs\<rparr>)"
  by (simp add: run_ops_def exec_op_def push_ok pop_binary_def pop_def op_tables)

lemma run_swap [run_simps]:
  "vm_stack m = b # a # xs \<Longrightarrow> fl_ok a \<Longrightarrow> fl_ok b \<Longrightarrow>
   run_ops pw inputs (Instruction Op_SWAP PNone # ir) m = run_ops pw inputs ir (m\<lparr>vm_stack := a # b # xs\<rparr>)"
  by (simp add: run_ops_def exec_op_def push_ok pop_binary_def pop_def op_tables)

lemma run_drop [run_simps]:
  "vm_stack m = a # xs \<Longrightarrow> run_ops pw inputs (Instruction Op_DROP PNone # ir) m = run_ops pw inputs ir (m\<lparr>vm_stack := xs\<rparr>)"
  by (simp add: run_ops_def exec_op_def pop_def op_tables)

lemma run_store [run_simps]:
  assumes "vm_stack m = a # xs" and "fl_ok a"
  shows "run_ops pw inputs (Instruction Op_STORE_SCORE PNone # ir) m
      = run_ops pw inputs ir (m\<lparr>vm_stack := xs, vm_score := clamp_int 0 100 (round_half_even (fl_val a))\<rparr>)"
    and "run_ops pw inputs (Instruction Op_STORE_SEVERITY PNone # ir) m
      = run_ops pw inputs ir (m\<lparr>vm_stack := xs, vm_severity := clamp_int 0 9 (round_half_even (fl_val a))\<rparr>)"
    and "run_ops pw inputs (Instruction Op_STORE_ROUTE PNone # ir) m
      = run_ops pw inputs ir (m\<lparr>vm_stack := xs, vm_route := clamp_int 0 255 (round_half_even (fl_val a))\<rparr>)"
    and "run_ops pw inputs (Instruction Op_STORE_SUPPRESS PNone # ir) m
      = run_ops pw inputs ir (m\<lparr>vm_stack := xs, vm_suppressed := fl_truthy a\<rparr>)"
  using assms by (simp_all add: run_ops_def exec_op_def pop_def op_tables round_ok)

section \<open>Severity bands\<close>

text \<open>Small integers are exact.\<close>

lemma small_fl_mul_bool: "\<bar>i\<bar> < 2 ^ 53 \<Longrightarrow> 0 \<le> i \<Longrightarrow> fl_mul (fl_of_bool b) (Fin (of_int i)) = Fin (if b then of_int i else 0)"
  using fl_round_of_int [of i]
  by (simp add: fl_mul_def fl_of_bool_def fl_round_signed_def)

lemma small_fl_add: "\<bar>i + j\<bar> < 2 ^ 53 \<Longrightarrow> fl_add (Fin (of_int i)) (Fin (of_int j)) = Fin (of_int (i + j))"
  using fl_round_of_int [of "i + j"] by (auto simp: fl_add_def fl_round_signed_def)

lemma py_float_small: "\<bar>i\<bar> < 2 ^ 53 \<Longrightarrow> py_float (PInt i) = Inr (Fin (of_int i))"
  by (simp add: float_of_int_small)

lemma run_band_step:
  assumes "vm_stack m = Fin (of_int k) # s # xs" and "fl_ok s" and "is_number th" and "py_float th = Inr f" and "fl_ok f"
    and "\<bar>k\<bar> < 2 ^ 51" and "0 \<le> d" and "d < 2 ^ 52"
  shows "run_ops pw inputs (band_step th (PInt d) @ ir) m =
    run_ops pw inputs ir (m\<lparr>vm_stack := Fin (of_int (if fl_le f s then k + d else k)) # s # xs\<rparr>)"
proof -
  have d: "py_float (PInt d) = Inr (Fin (of_int d))" "fl_ok (Fin (of_int d))" using assms(7,8)
    by (simp_all add: float_of_int_small fl_ok_of_int)
  have k: "fl_ok (Fin (of_int k))" using assms(6) by (simp add: fl_ok_of_int)
  have mul: "fl_mul (fl_of_bool b) (Fin (of_int d)) = Fin (of_int (if b then d else 0))" for b
    using small_fl_mul_bool [of d b] assms(7,8) by simp
  have okm: "fl_ok (Fin (of_int (if b then d else 0)))" for b using assms(7,8) by (intro fl_ok_of_int) simp
  have add: "fl_add (Fin (of_int k)) (Fin (of_int (if b then d else 0))) = Fin (of_int (if b then k + d else k))" for b
    using small_fl_add [of k "if b then d else 0"] assms(6,7,8) by (cases b) (auto simp: abs_if split: if_splits)
  have oka: "fl_ok (Fin (of_int (if b then k + d else k)))" for b
    using assms(6-8) by (intro fl_ok_of_int) (auto simp: abs_if split: if_splits)
  note steps = run_over [where m = m, OF assms(1,2) k]
    run_push [OF assms(3-5)] run_push [OF _ d]
    run_binary [of Op_GTE] run_binary [of Op_MUL] run_binary [of Op_ADD]
  show ?thesis
    unfolding band_step_def append_Cons append_Nil
    by (simp add: steps BINARY_OPS_def binary_value_def mul add okm oka del: of_int_add py_float.simps split del: if_split)
qed

definition band_of :: "pyfloat \<Rightarrow> pyfloat \<Rightarrow> pyfloat \<Rightarrow> int \<Rightarrow> int \<Rightarrow> int \<Rightarrow> int \<Rightarrow> pyfloat \<Rightarrow> int" where
  "band_of fm fh fc low medium high critical s =
     (if fl_le fc s then critical else if fl_le fh s then high else if fl_le fm s then medium else low)"

text \<open>Numbers whose double is usable as a threshold.\<close>

definition threshold :: "pyval \<Rightarrow> pyfloat \<Rightarrow> bool" where
  "threshold v f \<longleftrightarrow> is_number v \<and> py_float v = Inr f \<and> fl_ok f \<and> fl_eq (num_key v) f"

lemma threshold_order:
  assumes "threshold a f" and "threshold b g" and "py_le a b"
  shows "fl_le f g"
proof -
  have fin: "isfinite x \<and> fl_val x = fl_val h" if "fl_eq x h" "isfinite h" for x h
    using that by (cases x; cases h) auto
  show ?thesis
    using assms fin [of "num_key a" f] fin [of "num_key b" g] by (simp add: threshold_def py_le_def fl_le_finite)
qed

lemma threshold_int: "\<bar>i\<bar> < 2 ^ 53 \<Longrightarrow> threshold (PInt i) (Fin (of_int i))"
  by (simp add: threshold_def float_of_int_small fl_ok_of_int)

lemma fl_le_trans: "fl_le a b \<Longrightarrow> fl_le b c \<Longrightarrow> fl_ok a \<Longrightarrow> fl_ok b \<Longrightarrow> fl_ok c \<Longrightarrow> fl_le a c"
  by (simp add: fl_le_finite)

lemma run_severity_bands:
  assumes "severity_bands ms hs cs low medium high critical = Inr bands"
    and "threshold ms fm" "threshold hs fh" "threshold cs fc"
    and "- (2 ^ 50) \<le> low" "low \<le> medium" "medium \<le> high" "high \<le> critical" "critical \<le> 2 ^ 50"
    and "vm_stack m = s # xs" and "fl_ok s"
  shows "run_ops pw inputs (bands @ ir) m =
    run_ops pw inputs ir (m\<lparr>vm_stack := Fin (of_int (band_of fm fh fc low medium high critical s)) # xs\<rparr>)"
proof -
  have bands: "bands @ ir = Instruction Op_PUSH_CONST (PInt low) # band_step ms (PInt (medium - low))
      @ band_step hs (PInt (high - medium)) @ band_step cs (PInt (critical - high))
      @ Instruction Op_SWAP PNone # Instruction Op_DROP PNone # ir"
    using assms(1) by (auto simp: severity_bands_def split: if_splits)
  have le: "fl_le fm fh" "fl_le fh fc"
    using assms(1) threshold_order [OF assms(2,3)] threshold_order [OF assms(3,4)]
    by (auto simp: severity_bands_def split: if_splits)
  note r = assms(5-9)
  let ?k1 = "if fl_le fm s then low + (medium - low) else low"
  let ?k2 = "if fl_le fh s then ?k1 + (high - medium) else ?k1"
  let ?k3 = "if fl_le fc s then ?k2 + (critical - high) else ?k2"
  have k: "\<bar>low\<bar> < 2 ^ 51" "\<bar>?k1\<bar> < 2 ^ 51" "\<bar>?k2\<bar> < 2 ^ 51" "0 \<le> medium - low" "medium - low < 2 ^ 52"
    "0 \<le> high - medium" "high - medium < 2 ^ 52" "0 \<le> critical - high" "critical - high < 2 ^ 52" "\<bar>?k3\<bar> < 2 ^ 53"
    using r by (auto simp: abs_if)
  have t: "is_number ms" "py_float ms = Inr fm" "fl_ok fm" "is_number hs" "py_float hs = Inr fh" "fl_ok fh"
    "is_number cs" "py_float cs = Inr fc" "fl_ok fc" using assms(2-4) by (auto simp: threshold_def)
  have low: "is_number (PInt low)" "py_float (PInt low) = Inr (Fin (of_int low))" "fl_ok (Fin (of_int low))"
    using r by (simp_all add: float_of_int_small fl_ok_of_int)
  have code: "?k3 = band_of fm fh fc low medium high critical s"
    using fl_le_trans [OF le(1)] fl_le_trans [OF le(2)] t(3,6,9) assms(11) by (auto simp: band_of_def)
  have "run_ops pw inputs (bands @ ir) m = run_ops pw inputs (Instruction Op_SWAP PNone # Instruction Op_DROP PNone # ir)
     (m\<lparr>vm_stack := Fin (of_int ?k3) # s # xs\<rparr>)"
    unfolding bands run_push [OF low] assms(10)
    by (subst run_band_step [OF _ assms(11) t(1-3) k(1,4,5)], simp,
        subst run_band_step [OF _ assms(11) t(4-6) k(2,6,7)], simp,
        subst run_band_step [OF _ assms(11) t(7-9) k(3,8,9)], simp) simp
  also have "\<dots> = run_ops pw inputs ir (m\<lparr>vm_stack := Fin (of_int ?k3) # xs\<rparr>)"
    using assms(11) fl_ok_of_int [OF k(10)] by (simp add: run_swap run_drop del: of_int_add)
  finally show ?thesis unfolding code .
qed

text \<open>The severity macro computes the severity: whenever it is emitted for thresholds that are
  doubles and severities in ascending order, running it replaces the score on top of the stack
  by the code of the highest threshold the score has reached, and leaves the rest of the stack,
  the local registers and the outputs as they are.\<close>

theorem severity_bands_correct:
  assumes "severity_bands ms hs cs low medium high critical = Inr bands"
    and "threshold ms fm" and "threshold hs fh" and "threshold cs fc"
    and "- (2 ^ 50) \<le> low" and "low \<le> medium" and "medium \<le> high" and "high \<le> critical" and "critical \<le> 2 ^ 50"
    and "vm_stack m = s # xs" and "fl_ok s"
  shows "run_ops pw inputs bands m = Inr (m\<lparr>vm_stack := Fin (of_int (band_of fm fh fc low medium high critical s)) # xs\<rparr>)"
  using run_severity_bands [OF assms, of pw inputs "[]"] by simp

theorem severity_bands_correct_witness:
  "\<exists>bands. default_bands = Inr bands \<and>
     run_ops no_pow [] bands (vm_init\<lparr>vm_stack := [Fin 70]\<rparr>) = Inr (vm_init\<lparr>vm_stack := [Fin 3]\<rparr>)"
proof -
  have "is_ok default_bands" by code_simp
  then obtain bands where b: "default_bands = Inr bands" by (auto simp: is_ok_iff)
  have c: "threshold (PInt 40) (Fin 40)" "threshold (PInt 65) (Fin 65)" "threshold (PInt 85) (Fin 85)"
    using threshold_int [of 40] threshold_int [of 65] threshold_int [of 85] by simp_all
  have "fl_ok (Fin 70)" using fl_ok_of_int [of 70] by simp
  with severity_bands_correct [OF b c, of "vm_init\<lparr>vm_stack := [Fin 70]\<rparr>" "Fin 70" "[]" no_pow "[]"]
  show ?thesis by (intro exI [of _ bands]) (simp add: b band_of_def fl_le_finite)
qed

section \<open>The standard policy\<close>

definition net_effect :: "program \<Rightarrow> int" where
  "net_effect ir = sum_list (map (\<lambda>i. int (snd (STACK_EFFECTS (ins_op i))) - int (fst (STACK_EFFECTS (ins_op i)))) ir)"

lemma run_ops_frame:
  assumes "run_ops pw inputs ir m = Inr t" and "vm_inv m" and "\<forall>i\<in>set ir. ins_op i \<noteq> Op_HALT"
  shows "vm_inv t \<and> int (length (vm_stack t)) = int (length (vm_stack m)) + net_effect ir"
  using assms
proof (induction ir arbitrary: m)
  case (Cons i ir)
  then obtain u where u: "exec_op pw inputs i m = Inr u" "run_ops pw inputs ir u = Inr t"
    by (auto simp: run_ops_def res_simps)
  from exec_op_frame [OF u(1) Cons.prems(2)] Cons.prems(3) have f: "exec_frame i m u" by simp
  then have "vm_inv u" by (simp add: exec_frame_def)
  from Cons.IH [OF u(2) this] Cons.prems(3) f show ?case by (auto simp: exec_frame_def net_effect_def)
qed (simp add: net_effect_def)

fun term_ops :: "nat \<Rightarrow> (string \<times> pyval) list \<Rightarrow> program" where
  "term_ops i [] = []"
| "term_ops i ((name, weight) # ts) =
     [Instruction Op_LOAD_INPUT (PStr name), Instruction Op_PUSH_CONST weight, Instruction Op_MUL PNone]
     @ (if i \<noteq> 0 then [Instruction Op_ADD PNone] else []) @ term_ops (Suc i) ts"

lemmas builder_defs = pb_new_def pb_emit_def pb_extend_def pb_constant_def pb_input_def pb_add_def pb_multiply_def
  pb_store_score_def pb_store_severity_def pb_store_route_def pb_store_suppressed_def pb_halt_def

lemma weighted_terms_ops: "pb_instructions (weighted_terms i ts b) = pb_instructions b @ term_ops i ts"
  by (induction i ts b rule: weighted_terms.induct) (simp_all add: builder_defs Let_def)

lemma term_ops_facts:
  "net_effect (term_ops i ts) = (if i = 0 \<and> ts \<noteq> [] then 1 else 0)" "\<forall>x\<in>set (term_ops i ts). ins_op x \<noteq> Op_HALT"
  by (induction i ts rule: term_ops.induct) (auto simp: net_effect_def)

lemma weighted_averageD:
  assumes "weighted_average terms = Inr avg"
  obtains total where "py_sum (map snd terms) = Inr total" and "terms \<noteq> []"
    and "avg = term_ops 0 terms @ [Instruction Op_PUSH_CONST total, Instruction Op_DIV PNone]"
  using assms by (auto simp: weighted_average_def weighted_sum_def weighted_terms_ops pb_new_def res_simps split: if_splits)

definition policy_head :: "program \<Rightarrow> pyval \<Rightarrow> program" where
  "policy_head average scale = average @ [Instruction Op_PUSH_CONST scale, Instruction Op_MUL PNone]"

definition policy_tail :: "program \<Rightarrow> pyval \<Rightarrow> int \<Rightarrow> program" where
  "policy_tail bands suppress_below route =
     [Instruction Op_DUP PNone, Instruction Op_STORE_SCORE PNone, Instruction Op_DUP PNone] @ bands
     @ [Instruction Op_STORE_SEVERITY PNone, Instruction Op_DUP PNone, Instruction Op_PUSH_CONST suppress_below,
        Instruction Op_LT PNone, Instruction Op_STORE_SUPPRESS PNone, Instruction Op_DROP PNone,
        Instruction Op_PUSH_CONST (PInt route), Instruction Op_STORE_ROUTE PNone, Instruction Op_HALT PNone]"

lemma standard_policyD:
  assumes "standard_alert_policy terms scale sb route = Inr ir"
  obtains avg bands an where "weighted_average terms = Inr avg" and "default_bands = Inr bands"
    and "ir = policy_head avg scale @ policy_tail bands sb route" and "analyze ir = Inr an" and "missing_of an = []"
  using assms
  by (auto simp: standard_alert_policy_def Let_def pb_build_def res_simps builder_defs policy_head_def policy_tail_def
      ensure_halt_def split: if_splits)

lemma policy_head_facts:
  assumes "weighted_average terms = Inr avg"
  shows "net_effect (policy_head avg scale) = 1" "\<forall>i\<in>set (policy_head avg scale). ins_op i \<noteq> Op_HALT"
proof -
  obtain total where "terms \<noteq> []" "avg = term_ops 0 terms @ [Instruction Op_PUSH_CONST total, Instruction Op_DIV PNone]"
    using weighted_averageD [OF assms] by metis
  then show "net_effect (policy_head avg scale) = 1" "\<forall>i\<in>set (policy_head avg scale). ins_op i \<noteq> Op_HALT"
    using term_ops_facts [of 0 terms] by (auto simp: policy_head_def net_effect_def)
qed

definition standard_severity :: "rat \<Rightarrow> int" where
  "standard_severity s = (if 85 \<le> s then 4 else if 65 \<le> s then 3 else if 40 \<le> s then 2 else 1)"

lemma run_policy_tail:
  assumes "default_bands = Inr bands" and "threshold sb fb" and "\<bar>route\<bar> < 2 ^ 53" and "vm_stack m = [s]" and "fl_ok s"
    and "run_ops pw inputs (policy_tail bands sb route) m = Inr t"
  shows "vm_score t = clamp_int 0 100 (round_half_even (fl_val s)) \<and> vm_severity t = standard_severity (fl_val s)
    \<and> vm_suppressed t = (fl_val s < fl_val fb) \<and> vm_route t = clamp_int 0 255 route"
proof -
  have c: "threshold (PInt 40) (Fin 40)" "threshold (PInt 65) (Fin 65)" "threshold (PInt 85) (Fin 85)"
    using threshold_int [of 40] threshold_int [of 65] threshold_int [of 85] by simp_all
  have band: "band_of (Fin 40) (Fin 65) (Fin 85) 1 2 3 4 s = standard_severity (fl_val s)"
    using assms(5) by (auto simp: band_of_def fl_le_finite standard_severity_def)
  have ok: "fl_ok (Fin (of_int (standard_severity (fl_val s))))" "fl_ok (Fin (of_int route))"
    by (rule fl_ok_of_int, simp add: standard_severity_def) (rule fl_ok_of_int, rule assms(3))
  have cl: "clamp_int 0 9 (standard_severity (fl_val s)) = standard_severity (fl_val s)"
    by (simp add: clamp_int_def standard_severity_def)
  have lt: "fl_lt s fb \<longleftrightarrow> fl_val s < fl_val fb" using assms(2,5) by (simp add: threshold_def fl_lt_finite)
  have r: "py_float (PInt route) = Inr (Fin (of_int route))" using assms(3) by (simp add: float_of_int_small)
  note b = run_severity_bands [OF assms(1) c]
  from assms(6) show ?thesis
    using assms(2,4,5) ok
    by (simp add: policy_tail_def run_simps b band BINARY_OPS_def binary_value_def threshold_def r lt
        del: py_float.simps) (auto simp: cl)
qed

lemma missing_of_Nil: "missing_of an = [] \<Longrightarrow> set OUTPUTS \<subseteq> set (outputs_written an)"
  by (auto simp: missing_of_def filter_empty_conv)

text \<open>C27. The standard policy and what it decides.  Every program the builder returns is accepted by the
  analysis, which finds a write to each of the four outputs.  Every result of executing it, under
  whatever limits, comes from one score, the scaled weighted average of the inputs on top of the
  stack when the head of the program has run: the alert score is this score rounded and clamped to
  0 to 100, the severity is 1 below 40, 2 from 40, 3 from 65 and 4 from 85, the alert is suppressed
  exactly if the score is below the threshold, and the route is the given one clamped to a byte.\<close>

theorem standard_policy_outputs:
  assumes "standard_alert_policy terms scale sb route = Inr ir" and "threshold sb fb" and "\<bar>route\<bar> < 2 ^ 53"
  shows "(\<exists>an. analyze ir = Inr an \<and> {''alert_score'', ''severity_code'', ''routing_code'', ''suppressed''} \<subseteq> set (outputs_written an))
    \<and> (\<forall>pw inputs mi ms r. execute pw ir inputs mi ms = Inr r \<longrightarrow>
      (\<exists>avg ins m s. weighted_average terms = Inr avg \<and> normalize_inputs inputs = Inr ins
        \<and> run_ops pw ins (policy_head avg scale) vm_init = Inr m \<and> vm_stack m = [s] \<and> isfinite s
        \<and> alert_score r = clamp_int 0 100 (round_half_even (fl_val s)) \<and> severity_code r = standard_severity (fl_val s)
        \<and> suppressed r = (fl_val s < fl_val fb) \<and> routing_code r = clamp_int 0 255 route))"
proof -
  obtain avg bands an where p: "weighted_average terms = Inr avg" "default_bands = Inr bands"
    "ir = policy_head avg scale @ policy_tail bands sb route" "analyze ir = Inr an" "missing_of an = []"
    by (rule standard_policyD [OF assms(1)])
  have "\<exists>avg ins m s. weighted_average terms = Inr avg \<and> normalize_inputs inputs = Inr ins
    \<and> run_ops pw ins (policy_head avg scale) vm_init = Inr m \<and> vm_stack m = [s] \<and> isfinite s
    \<and> alert_score r = clamp_int 0 100 (round_half_even (fl_val s)) \<and> severity_code r = standard_severity (fl_val s)
    \<and> suppressed r = (fl_val s < fl_val fb) \<and> routing_code r = clamp_int 0 255 route"
    if run: "execute pw ir inputs mi ms = Inr r" for pw inputs mi ms r
  proof -
    obtain an ins m where e: "normalize_inputs inputs = Inr ins" "exec_loop pw ins mi ms ir vm_init = Inr m"
      "policy_result_of an m = Inr r" by (rule executeD [OF run])
    have "vm_data vm_init = vm_init" by (simp add: vm_data_def)
    then have "run_ops pw ins (policy_head avg scale @ policy_tail bands sb route) vm_init = Inr (vm_data m)"
      using exec_loop_data [OF e(2)] p(3) by simp
    then obtain m1 where h: "run_ops pw ins (policy_head avg scale) vm_init = Inr m1"
      and t: "run_ops pw ins (policy_tail bands sb route) m1 = Inr (vm_data m)"
      using run_ops_append [OF policy_head_facts(2) [OF p(1)]] by (auto simp: res_simps)
    have "vm_inv m1" "length (vm_stack m1) = 1"
      using run_ops_frame [OF h vm_inv_init policy_head_facts(2) [OF p(1)]] policy_head_facts(1) [OF p(1), of scale] by auto
    then obtain s where s: "vm_stack m1 = [s]" "fl_ok s"
      by (auto simp: vm_inv_def length_Suc_conv list_all_iff)
    from run_policy_tail [OF p(2) assms(2,3) s t]
    have "alert_score r = clamp_int 0 100 (round_half_even (fl_val s)) \<and> severity_code r = standard_severity (fl_val s)
      \<and> suppressed r = (fl_val s < fl_val fb) \<and> routing_code r = clamp_int 0 255 route"
      using e(3) by (auto simp: policy_result_of_def split: if_splits)
    then show ?thesis using p(1) e(1) h s by auto
  qed
  moreover have "set OUTPUTS = {''alert_score'', ''severity_code'', ''routing_code'', ''suppressed''}"
    by (auto simp: OUTPUTS_def)
  ultimately show ?thesis using p(4) missing_of_Nil [OF p(5)] by metis
qed

definition sample_terms :: "(string \<times> pyval) list" where
  "sample_terms = [(''watchlist_match'', PInt 3), (''novelty'', PInt 1)]"

theorem standard_policy_outputs_witness:
  "\<exists>ir r. standard_alert_policy sample_terms (PInt 100) (PInt 15) 1 = Inr ir \<and>
     execute no_pow ir sample_inputs 512 64 = Inr r \<and> alert_score r = 75 \<and> severity_code r = 3
     \<and> \<not> suppressed r \<and> routing_code r = 1"
proof -
  have "is_ok (standard_alert_policy sample_terms (PInt 100) (PInt 15) 1)" by code_simp
  then obtain ir where ir: "standard_alert_policy sample_terms (PInt 100) (PInt 15) 1 = Inr ir" by (auto simp: is_ok_iff)
  have n: "is_ok (normalize_inputs sample_inputs)" by code_simp
  then obtain ins where ins: "normalize_inputs sample_inputs = Inr ins" by (auto simp: is_ok_iff)
  have a: "is_ok (res_bind (standard_alert_policy sample_terms (PInt 100) (PInt 15) 1) (\<lambda>ir. analyze_ir ir 512 64))" by code_simp
  have x: "is_ok (res_bind (standard_alert_policy sample_terms (PInt 100) (PInt 15) 1) (\<lambda>ir.
      res_bind (normalize_inputs sample_inputs) (\<lambda>ins. exec_loop no_pow ins 512 64 ir vm_init)))" by code_simp
  obtain r where r: "execute no_pow ir sample_inputs 512 64 = Inr r"
    by (rule execute_returns [where pw = no_pow and ir = ir and mi = 512 and ms = 64, OF _ ins]) (use a x ins ir in simp_all)
  obtain avg ins' m s where o: "weighted_average sample_terms = Inr avg" "normalize_inputs sample_inputs = Inr ins'"
    "run_ops no_pow ins' (policy_head avg (PInt 100)) vm_init = Inr m" "vm_stack m = [s]"
    "alert_score r = clamp_int 0 100 (round_half_even (fl_val s))" "severity_code r = standard_severity (fl_val s)"
    "suppressed r = (fl_val s < 15)" "routing_code r = clamp_int 0 255 1"
    using standard_policy_outputs [OF ir threshold_int [of 15]] r by fastforce
  have "res_bind (weighted_average sample_terms) (\<lambda>avg. res_bind (normalize_inputs sample_inputs) (\<lambda>ins.
      res_bind (run_ops no_pow ins (policy_head avg (PInt 100)) vm_init) (\<lambda>m. Inr (vm_stack m)))) = Inr [Fin 75]"
    by code_simp
  then have "s = Fin 75" using o(1-4) by simp
  moreover have "round_half_even 75 = 75" using round_half_even_of_int [of 75] by simp
  ultimately show ?thesis using ir r o(5-8) by (auto simp: clamp_int_def standard_severity_def)
qed

section \<open>Conditions\<close>

text \<open>A program that only pushes one number, and which.\<close>

definition pushes_value :: "pow_fun \<Rightarrow> (string \<times> pyfloat) list \<Rightarrow> (program \<Rightarrow> pyfloat) \<Rightarrow> program \<Rightarrow> bool" where
  "pushes_value pw inputs v c \<longleftrightarrow> fl_ok (v c) \<and> (\<forall>i\<in>set c. ins_op i \<noteq> Op_HALT) \<and>
     (\<forall>m. run_ops pw inputs c m = Inr (m\<lparr>vm_stack := v c # vm_stack m\<rparr>))"

lemma run_joined:
  assumes "\<And>a b. binary_value p a b = fl_of_bool (h (fl_truthy a) (fl_truthy b))" and "p \<in> set BINARY_OPS"
    and "\<forall>c\<in>set cs. pushes_value pw inputs v c" and "vm_stack m = acc # xs" and "i \<noteq> 0" and "fl_ok acc"
  shows "\<exists>f. run_ops pw inputs (joined_conditions p i cs) m = Inr (m\<lparr>vm_stack := f # xs\<rparr>) \<and> fl_ok f
     \<and> fl_truthy f = foldl h (fl_truthy acc) (map (\<lambda>c. fl_truthy (v c)) cs)"
  using assms(3-6)
proof (induction cs arbitrary: i m acc)
  case Nil
  then show ?case by (intro exI [of _ acc]) (simp flip: Nil.prems(2))
next
  case (Cons c cs)
  let ?acc = "binary_value p acc (v c)"
  have c: "\<forall>i\<in>set c. ins_op i \<noteq> Op_HALT" "run_ops pw inputs c m = Inr (m\<lparr>vm_stack := v c # acc # xs\<rparr>)"
    using Cons.prems by (auto simp: pushes_value_def)
  have "run_ops pw inputs (joined_conditions p i (c # cs)) m
    = run_ops pw inputs (joined_conditions p (Suc i) cs) (m\<lparr>vm_stack := ?acc # xs\<rparr>)"
    using Cons.prems(3) run_binary [OF assms(2), of "m\<lparr>vm_stack := v c # acc # xs\<rparr>" "v c" acc xs] assms(1)
    by (simp add: run_ops_append [OF c(1)] c(2))
  moreover have "fl_ok ?acc" "fl_truthy ?acc = h (fl_truthy acc) (fl_truthy (v c))" by (simp_all add: assms(1))
  moreover have "\<forall>c\<in>set cs. pushes_value pw inputs v c" using Cons.prems(1) by simp
  ultimately show ?case using Cons.IH [of "m\<lparr>vm_stack := ?acc # xs\<rparr>" ?acc "Suc i"] by simp
qed

lemma run_first_joined:
  assumes "\<And>a b. binary_value p a b = fl_of_bool (h (fl_truthy a) (fl_truthy b))" and "p \<in> set BINARY_OPS"
    and "\<forall>x\<in>set (c # cs). pushes_value pw inputs v x"
  shows "\<exists>f. run_ops pw inputs (joined_conditions p 0 (c # cs)) m = Inr (m\<lparr>vm_stack := f # vm_stack m\<rparr>)
     \<and> fl_truthy f = foldl h (fl_truthy (v c)) (map (\<lambda>c. fl_truthy (v c)) cs)"
proof -
  have c: "\<forall>i\<in>set c. ins_op i \<noteq> Op_HALT" "run_ops pw inputs c m = Inr (m\<lparr>vm_stack := v c # vm_stack m\<rparr>)" "fl_ok (v c)"
    and cs: "\<forall>x\<in>set cs. pushes_value pw inputs v x"
    using assms(3) by (auto simp: pushes_value_def)
  from run_joined [OF assms(1,2) cs, of "m\<lparr>vm_stack := v c # vm_stack m\<rparr>" "v c" "vm_stack m" "Suc 0"] c(3)
  show ?thesis by (auto simp: run_ops_append [OF c(1)] c(2))
qed

lemma fold_and: "foldl (\<and>) a (map t cs) \<longleftrightarrow> a \<and> (\<forall>c\<in>set cs. t c)"
  and fold_or: "foldl (\<or>) a (map t cs) \<longleftrightarrow> a \<or> (\<exists>c\<in>set cs. t c)"
  by (induction cs arbitrary: a) auto

text \<open>The combinators of conditions mean what they say: for any list of programs that each
  push one number, the combined program pushes one number, which counts as true exactly if all,
  respectively some, of the numbers do; for the empty list that is true, respectively false.\<close>

theorem conditions_correct:
  assumes "\<forall>c\<in>set cs. pushes_value pw inputs v c"
  shows "\<exists>f g. run_ops pw inputs (all_conditions cs) m = Inr (m\<lparr>vm_stack := f # vm_stack m\<rparr>)
    \<and> (fl_truthy f \<longleftrightarrow> (\<forall>c\<in>set cs. fl_truthy (v c)))
    \<and> run_ops pw inputs (any_condition cs) m = Inr (m\<lparr>vm_stack := g # vm_stack m\<rparr>)
    \<and> (fl_truthy g \<longleftrightarrow> (\<exists>c\<in>set cs. fl_truthy (v c)))"
proof (cases cs)
  case Nil
  have "fl_ok (Fin 1)" "py_float (PInt 1) = Inr (Fin 1)" "py_float (PInt 0) = Inr (Fin 0)" "fl_ok (Fin 0)"
    using fl_ok_of_int [of 1] fl_ok_of_int [of 0] float_of_int_small [of 1] float_of_int_small [of 0] by simp_all
  then show ?thesis using Nil
    by (intro exI [of _ "Fin 1"] exI [of _ "Fin 0"])
      (simp add: all_conditions_def any_condition_def run_push fl_truthy_def del: py_float.simps)
next
  case (Cons c cs')
  have a: "binary_value Op_AND a b = fl_of_bool (fl_truthy a \<and> fl_truthy b)"
    "binary_value Op_OR a b = fl_of_bool (fl_truthy a \<or> fl_truthy b)" for a b
    by (simp_all add: binary_value_def)
  have p: "Op_AND \<in> set BINARY_OPS" "Op_OR \<in> set BINARY_OPS" by (simp_all add: BINARY_OPS_def)
  from run_first_joined [OF a(1) p(1) assms [unfolded Cons], of m] run_first_joined [OF a(2) p(2) assms [unfolded Cons], of m]
  show ?thesis unfolding Cons all_conditions_def any_condition_def by (auto simp: fold_and fold_or)
qed

theorem conditions_correct_witness:
  "\<exists>f. run_ops no_pow [] (all_conditions [[Instruction Op_PUSH_CONST (PInt 1)], [Instruction Op_PUSH_CONST (PInt 0)]]) vm_init
     = Inr (vm_init\<lparr>vm_stack := [f]\<rparr>) \<and> \<not> fl_truthy f"
proof -
  let ?v = "\<lambda>c. if c = [Instruction Op_PUSH_CONST (PInt 1)] then Fin 1 else Fin (0 :: rat)"
  let ?cs = "[[Instruction Op_PUSH_CONST (PInt 1)], [Instruction Op_PUSH_CONST (PInt 0)]]"
  have "fl_ok (Fin 1)" "py_float (PInt 1) = Inr (Fin 1)" "py_float (PInt 0) = Inr (Fin 0)" "fl_ok (Fin 0)"
    using fl_ok_of_int [of 1] fl_ok_of_int [of 0] float_of_int_small [of 1] float_of_int_small [of 0] by simp_all
  then have "\<forall>c\<in>set ?cs. pushes_value no_pow [] ?v c"
    by (simp add: pushes_value_def run_push del: py_float.simps)
  from conditions_correct [OF this, of vm_init] show ?thesis by (auto simp: fl_truthy_def)
qed

end
