(* ===== verification/VelatoCodec.thy ===== *)
theory VelatoCodec
  imports VelatoRuns
begin

text \<open>
  What the external forms of a program (MIDI notes, JSON items) share: a form encodes and
  decodes one instruction at a time, and decoding what was encoded gives the instruction back
  up to a normalisation of its operand.  The round trip of whole programs follows.
\<close>

section \<open>Programs that went through a form\<close>

text \<open>Decoding a sequence, and decoding it up to the first \<open>HALT\<close>.\<close>

fun decode_until_halt :: "('e \<Rightarrow> instruction res) \<Rightarrow> 'e list \<Rightarrow> program res" where
  "decode_until_halt dec [] = Inr []"
| "decode_until_halt dec (e # es) =
     res_bind (dec e) (\<lambda>ins. if ins_op ins = Op_HALT then Inr [ins]
       else res_bind (decode_until_halt dec es) (\<lambda>ir. Inr (ins # ir)))"

lemma has_halt_live_part: "has_halt ir \<Longrightarrow> live_part ir \<noteq> [] \<and> ins_op (last (live_part ir)) = Op_HALT"
  by (induction ir) (auto simp: has_halt_def)

lemma no_halt_live_part: "\<not> has_halt ir \<Longrightarrow> live_part ir = ir"
  by (induction ir) (auto simp: has_halt_def)

lemma length_ensure_halt_live_part:
  "length (ensure_halt (map f (live_part ir))) \<le> length ir + (if has_halt ir then 0 else 1)"
  if "\<And>ins. ins_op (f ins) = ins_op ins"
  using that has_halt_live_part [of ir] no_halt_live_part [of ir] length_live_part [of ir]
  by (auto simp: ensure_halt_def last_map)

locale instruction_codec =
  fixes enc :: "instruction \<Rightarrow> 'e res"
    and dec :: "'e \<Rightarrow> instruction res"
    and norm :: "instruction \<Rightarrow> instruction"
  assumes dec_enc: "enc ins = Inr e \<Longrightarrow> dec e = Inr (norm ins)"
    and norm_op: "ins_op (norm ins) = ins_op ins"
    and norm_valid: "validate_instruction ins = Inr () \<Longrightarrow> enc ins = Inr e \<Longrightarrow>
      validate_instruction (norm ins) = Inr ()"
begin

lemma decode_all:
  "res_map enc ir = Inr es \<Longrightarrow> res_map dec es = Inr (map norm ir)"
  by (induction ir arbitrary: es) (auto simp: res_simps dec_enc)

lemma decode_live:
  "res_map enc ir = Inr es \<Longrightarrow> decode_until_halt dec es = Inr (map norm (live_part ir))"
  by (induction ir arbitrary: es) (auto simp: res_simps dec_enc norm_op)

lemma normal_valid:
  "res_map enc ir = Inr es \<Longrightarrow> ins \<in> set ir \<Longrightarrow> validate_instruction ins = Inr () \<Longrightarrow>
   validate_instruction (norm ins) = Inr ()"
  by (induction ir arbitrary: es) (auto simp: res_simps norm_valid)

lemma normal_analyzed:
  assumes "res_map enc ir = Inr es" and "is_ok (analyze_ir ir mi ms)" and "0 \<le> ms"
  shows "is_ok (analyze_ir (map norm ir) mi ms)"
  using assms normal_valid [OF assms(1)]
  by (auto simp: analyze_ok_iff intro!: well_stacked_map norm_op)

lemma live_part_subset: "set (live_part ir) \<subseteq> set ir"
  by (induction ir) auto

lemma live_analyzed:
  assumes "res_map enc ir = Inr es" and "is_ok (analyze_ir ir mi ms)" and "0 \<le> ms"
    and "has_halt ir \<or> int (length ir) < mi"
  shows "is_ok (analyze_ir (ensure_halt (map norm (live_part ir))) mi ms)"
proof -
  let ?live = "map norm (live_part ir)"
  have "well_stacked ms 0 (live_part ir)"
    using assms(2,3) by (simp add: analyze_ok_iff well_stacked_live_part)
  then have "well_stacked ms 0 ?live"
    using normal_valid [OF assms(1)] live_part_subset norm_op by (auto intro!: well_stacked_map)
  then have "well_stacked ms 0 (ensure_halt ?live)"
    using assms(3) by (rule well_stacked_ensure_halt)
  moreover have "int (length (ensure_halt ?live)) \<le> mi"
    using length_ensure_halt_live_part [of norm ir] norm_op assms(2-4)
    by (auto simp: analyze_ok_iff split: if_splits)
  ultimately show ?thesis using assms(3) by (simp add: analyze_ok_iff ensure_halt_def)
qed

end

end
