(* ===== verification/PyBytes.thy ===== *)
theory PyBytes
  imports PyText
begin

text \<open>
  Bytes: strict UTF-8 decoding as \<open>bytes.decode\<close> does it, and Base64.  A byte is an integer
  from 0 to 255; a decoded text is kept as its code points, since it may lie outside the
  characters of \<open>string\<close>.
\<close>

type_synonym bytes = "int list"
type_synonym code_points = "int list"

definition is_bytes :: "bytes \<Rightarrow> bool" where
  "is_bytes bs = list_all (\<lambda>b. 0 \<le> b \<and> b < 256) bs"

section \<open>UTF-8\<close>

definition utf8_char :: "int \<Rightarrow> bytes" where
  "utf8_char n =
     (if n < 128 then [n]
      else if n < 2048 then [192 + n div 64, 128 + n mod 64]
      else if n < 65536 then [224 + n div 4096, 128 + n div 64 mod 64, 128 + n mod 64]
      else [240 + n div 262144, 128 + n div 4096 mod 64, 128 + n div 64 mod 64, 128 + n mod 64])"

definition utf8_bytes :: "code_points \<Rightarrow> bytes" where
  "utf8_bytes cs = concat (map utf8_char cs)"

definition is_cont :: "int \<Rightarrow> bool" where
  "is_cont b = (128 \<le> b \<and> b < 192)"

text \<open>The first character and what follows it; overlong forms, surrogates and code points beyond
  U+10FFFF are refused.\<close>

fun utf8_step :: "bytes \<Rightarrow> (int \<times> bytes) option" where
  "utf8_step [] = None"
| "utf8_step (a # bs) =
     (if 0 \<le> a \<and> a < 128 then Some (a, bs)
      else if 192 \<le> a \<and> a < 224 then
        (case bs of b # r \<Rightarrow>
           (let n = (a - 192) * 64 + (b - 128)
            in if is_cont b \<and> 128 \<le> n then Some (n, r) else None)
         | _ \<Rightarrow> None)
      else if 224 \<le> a \<and> a < 240 then
        (case bs of b # c # r \<Rightarrow>
           (let n = ((a - 224) * 64 + (b - 128)) * 64 + (c - 128)
            in if is_cont b \<and> is_cont c \<and> 2048 \<le> n \<and> \<not> (55296 \<le> n \<and> n < 57344)
               then Some (n, r) else None)
         | _ \<Rightarrow> None)
      else if 240 \<le> a \<and> a < 248 then
        (case bs of b # c # d # r \<Rightarrow>
           (let n = (((a - 240) * 64 + (b - 128)) * 64 + (c - 128)) * 64 + (d - 128)
            in if is_cont b \<and> is_cont c \<and> is_cont d \<and> 65536 \<le> n \<and> n < 1114112
               then Some (n, r) else None)
         | _ \<Rightarrow> None)
      else None)"

lemma utf8_step_shorter: "utf8_step bs = Some (n, r) \<Longrightarrow> length r < length bs"
  by (cases bs) (auto simp: Let_def split: if_splits list.splits)

function utf8_decode :: "bytes \<Rightarrow> code_points option" where
  "utf8_decode bs = (if bs = [] then Some []
     else case utf8_step bs of None \<Rightarrow> None
        | Some (n, r) \<Rightarrow> map_option (Cons n) (utf8_decode r))"
  by pat_completeness auto
termination
  by (relation "measure length") (auto dest: utf8_step_shorter)

declare utf8_decode.simps [simp del]

lemma div_mod_shift:
  fixes x y :: int
  shows "0 \<le> y \<Longrightarrow> y < k \<Longrightarrow> (x * k + y) div k = x" "0 \<le> y \<Longrightarrow> y < k \<Longrightarrow> (x * k + y) mod k = y"
  by simp_all

lemma div_64_64:
  fixes n :: int
  shows "n div 4096 = n div 64 div 64" "n div 262144 = n div 64 div 64 div 64"
  using zdiv_zmult2_eq [of 64 n 64] zdiv_zmult2_eq [of 64 "n div 64" 64] zdiv_zmult2_eq [of 4096 n 64]
  by simp_all

lemma utf8_char_2:
  assumes "192 \<le> a" "a < 224" "is_cont b" "128 \<le> (a - 192) * 64 + (b - 128)"
  shows "utf8_char ((a - 192) * 64 + (b - 128)) = [a, b]"
  using assms div_mod_shift [of "b - 128" 64 "a - 192"] by (simp add: utf8_char_def is_cont_def)

lemma utf8_char_3:
  assumes "224 \<le> a" "a < 240" "is_cont b" "is_cont c"
    and "2048 \<le> ((a - 224) * 64 + (b - 128)) * 64 + (c - 128)"
  shows "utf8_char (((a - 224) * 64 + (b - 128)) * 64 + (c - 128)) = [a, b, c]"
proof -
  let ?m = "(a - 224) * 64 + (b - 128)"
  let ?n = "?m * 64 + (c - 128)"
  have m: "?n div 64 = ?m" "?n mod 64 = c - 128"
    using div_mod_shift [of "c - 128" 64 ?m] assms(4) by (simp_all add: is_cont_def)
  have "?m div 64 = a - 224" "?m mod 64 = b - 128"
    using div_mod_shift [of "b - 128" 64 "a - 224"] assms(3) by (simp_all add: is_cont_def)
  then show ?thesis using assms m by (simp add: utf8_char_def is_cont_def div_64_64)
qed

lemma utf8_char_4:
  assumes "240 \<le> a" "is_cont b" "is_cont c" "is_cont d"
    and "65536 \<le> (((a - 240) * 64 + (b - 128)) * 64 + (c - 128)) * 64 + (d - 128)"
  shows "utf8_char ((((a - 240) * 64 + (b - 128)) * 64 + (c - 128)) * 64 + (d - 128)) = [a, b, c, d]"
proof -
  let ?l = "(a - 240) * 64 + (b - 128)"
  let ?m = "?l * 64 + (c - 128)"
  let ?n = "?m * 64 + (d - 128)"
  have n: "?n div 64 = ?m" "?n mod 64 = d - 128"
    using div_mod_shift [of "d - 128" 64 ?m] assms(4) by (simp_all add: is_cont_def)
  have m: "?m div 64 = ?l" "?m mod 64 = c - 128"
    using div_mod_shift [of "c - 128" 64 ?l] assms(3) by (simp_all add: is_cont_def)
  have l: "?l div 64 = a - 240" "?l mod 64 = b - 128"
    using div_mod_shift [of "b - 128" 64 "a - 240"] assms(2) by (simp_all add: is_cont_def)
  have "utf8_char ?n = [240 + ?n div 64 div 64 div 64, 128 + ?n div 64 div 64 mod 64, 128 + ?n div 64 mod 64, 128 + ?n mod 64]"
    using assms(5) by (simp only: utf8_char_def div_64_64) simp
  then show ?thesis by (simp only: n m l) simp
qed

lemma utf8_step_char: "utf8_step bs = Some (n, r) \<Longrightarrow> bs = utf8_char n @ r"
proof -
  assume "utf8_step bs = Some (n, r)"
  then consider a where "bs = a # r" "n = a" "a < 128"
    | a b where "bs = a # b # r" "192 \<le> a" "a < 224" "is_cont b" "n = (a - 192) * 64 + (b - 128)" "128 \<le> n"
    | a b c where "bs = a # b # c # r" "224 \<le> a" "a < 240" "is_cont b" "is_cont c"
        "n = ((a - 224) * 64 + (b - 128)) * 64 + (c - 128)" "2048 \<le> n"
    | a b c d where "bs = a # b # c # d # r" "240 \<le> a" "is_cont b" "is_cont c" "is_cont d"
        "n = (((a - 240) * 64 + (b - 128)) * 64 + (c - 128)) * 64 + (d - 128)" "65536 \<le> n"
    by (cases bs) (auto simp: Let_def split: if_splits list.splits)
  then show ?thesis
  proof cases
    case 1
    then show ?thesis by (simp add: utf8_char_def)
  next
    case 2
    then show ?thesis using utf8_char_2 [of a b] by simp
  next
    case 3
    then show ?thesis using utf8_char_3 [of a b c] by simp
  next
    case 4
    then show ?thesis using utf8_char_4 [of a b c d] by simp
  qed
qed

lemma utf8_decode_bytes: "utf8_decode bs = Some cs \<Longrightarrow> utf8_bytes cs = bs"
proof (induction bs arbitrary: cs rule: length_induct)
  case (1 bs)
  show ?case
  proof (cases "bs = []")
    case True
    then show ?thesis using 1 by (simp add: utf8_decode.simps utf8_bytes_def)
  next
    case False
    then obtain n r cs' where s: "utf8_step bs = Some (n, r)" "utf8_decode r = Some cs'" "cs = n # cs'"
      using "1.prems" by (subst (asm) utf8_decode.simps) (auto split: option.splits)
    from 1 utf8_step_shorter [OF s(1)] s(2) have "utf8_bytes cs' = r" by blast
    then show ?thesis using utf8_step_char [OF s(1)] s(3) by (simp add: utf8_bytes_def)
  qed
qed

section \<open>Base64\<close>

definition b64_alphabet :: string where
  "b64_alphabet = ''ABCDEFGHIJKLMNOPQRSTUVWXYZabcdefghijklmnopqrstuvwxyz0123456789+/''"

definition b64_char :: "int \<Rightarrow> char" where
  "b64_char i = b64_alphabet ! nat i"

fun position :: "'a \<Rightarrow> 'a list \<Rightarrow> int option" where
  "position x [] = None"
| "position x (y # ys) = (if x = y then Some 0 else map_option (\<lambda>i. i + 1) (position x ys))"

definition b64_index :: "char \<Rightarrow> int option" where
  "b64_index c = position c b64_alphabet"

fun b64encode :: "bytes \<Rightarrow> string" where
  "b64encode [] = []"
| "b64encode [a] = [b64_char (a div 4), b64_char (a mod 4 * 16), CHR ''='', CHR ''='']"
| "b64encode [a, b] =
     [b64_char (a div 4), b64_char (a mod 4 * 16 + b div 16), b64_char (b mod 16 * 4), CHR ''='']"
| "b64encode (a # b # c # bs) =
     b64_char (a div 4) # b64_char (a mod 4 * 16 + b div 16) # b64_char (b mod 16 * 4 + c div 64)
     # b64_char (c mod 64) # b64encode bs"

text \<open>The bytes of a run of alphabet positions; a rest of one position is an error, of two or
  three the last one or two bytes.\<close>

fun b64_groups :: "int list \<Rightarrow> bytes option" where
  "b64_groups [] = Some []"
| "b64_groups [x] = None"
| "b64_groups [x, y] = Some [x * 4 + y div 16]"
| "b64_groups [x, y, z] = Some [x * 4 + y div 16, y mod 16 * 16 + z div 4]"
| "b64_groups (x # y # z # w # r) =
     map_option (\<lambda>bs. [x * 4 + y div 16, y mod 16 * 16 + z div 4, z mod 4 * 64 + w] @ bs) (b64_groups r)"

primrec opt_all :: "'a option list \<Rightarrow> 'a list option" where
  "opt_all [] = Some []"
| "opt_all (x # xs) = Option.bind x (\<lambda>y. map_option (Cons y) (opt_all xs))"

text \<open>\<open>b64decode(s, validate=True)\<close>: alphabet characters and at most two \<open>=\<close> at the end; a
  last group of two or three characters needs its padding.\<close>

definition b64decode :: "string \<Rightarrow> bytes option" where
  "b64decode s =
     (let d = takeWhile (\<lambda>c. c \<noteq> CHR ''='') s; p = dropWhile (\<lambda>c. c \<noteq> CHR ''='') s;
          k = length d mod 4
      in if \<not> list_all (\<lambda>c. c = CHR ''='') p \<or> length p > 2 \<or> k = 2 \<and> length p < 2 \<or> k = 3 \<and> length p < 1
         then None
         else Option.bind (opt_all (map b64_index d)) b64_groups)"

lemma b64_index_char [simp]: "0 \<le> i \<Longrightarrow> i < 64 \<Longrightarrow> b64_index (b64_char i) = Some i"
proof -
  assume "0 \<le> i" "i < 64"
  then have "i \<in> set [0..63]" by simp
  moreover have "list_all (\<lambda>i. b64_index (b64_char i) = Some i) [0..63]" by code_simp
  ultimately show ?thesis by (simp add: list_all_iff)
qed

lemma b64_char_not_pad: "0 \<le> i \<Longrightarrow> i < 64 \<Longrightarrow> b64_char i \<noteq> CHR ''=''"
proof
  assume "0 \<le> i" "i < 64" "b64_char i = CHR ''=''"
  then have "b64_index (CHR ''='') = Some i" by (metis b64_index_char)
  moreover have "b64_index (CHR ''='') = None" by code_simp
  ultimately show False by simp
qed

text \<open>The positions and the number of padding characters of an encoding.\<close>

fun b64_positions :: "bytes \<Rightarrow> int list" where
  "b64_positions [] = []"
| "b64_positions [a] = [a div 4, a mod 4 * 16]"
| "b64_positions [a, b] = [a div 4, a mod 4 * 16 + b div 16, b mod 16 * 4]"
| "b64_positions (a # b # c # bs) =
     a div 4 # (a mod 4 * 16 + b div 16) # (b mod 16 * 4 + c div 64) # c mod 64 # b64_positions bs"

fun b64_pad :: "bytes \<Rightarrow> nat" where
  "b64_pad [] = 0"
| "b64_pad [a] = 2"
| "b64_pad [a, b] = 1"
| "b64_pad (a # b # c # bs) = b64_pad bs"

lemma b64encode_positions:
  "b64encode bs = map b64_char (b64_positions bs) @ replicate (b64_pad bs) (CHR ''='')"
  by (induction bs rule: b64encode.induct) (simp_all add: numeral_2_eq_2)

lemma b64_positions_range:
  "is_bytes bs \<Longrightarrow> \<forall>i\<in>set (b64_positions bs). 0 \<le> i \<and> i < 64"
proof (induction bs rule: b64_positions.induct)
  case (4 a b c bs)
  then have "a div 4 < 64" "b div 16 < 16" "c div 64 < 4"
    by (auto simp: is_bytes_def div_less_iff_less_mult)
  moreover have "a mod 4 < 4" "b mod 16 < 16" by simp_all
  ultimately show ?case using 4 by (auto simp: is_bytes_def)
next
  case (2 a)
  have "a mod 4 < 4" by simp
  then show ?case using 2 by (auto simp: is_bytes_def div_less_iff_less_mult)
next
  case (3 a b)
  have "a mod 4 < 4" "b mod 16 < 16" "b div 16 < 16" using 3 by (auto simp: is_bytes_def div_less_iff_less_mult)
  then show ?case using 3 by (auto simp: is_bytes_def div_less_iff_less_mult)
qed simp

lemma b64_groups_positions: "is_bytes bs \<Longrightarrow> b64_groups (b64_positions bs) = Some bs"
proof (induction bs rule: b64_positions.induct)
  case (4 a b c bs)
  have d: "(a mod 4 * 16 + b div 16) div 16 = a mod 4" "(a mod 4 * 16 + b div 16) mod 16 = b div 16"
    "(b mod 16 * 4 + c div 64) div 4 = b mod 16" "(b mod 16 * 4 + c div 64) mod 4 = c div 64"
    using 4 div_mod_shift [of "b div 16" 16 "a mod 4"] div_mod_shift [of "c div 64" 4 "b mod 16"]
    by (auto simp: is_bytes_def div_less_iff_less_mult)
  have "is_bytes bs" "b div 16 mod 16 = b div 16" "c div 64 mod 4 = c div 64"
    using 4 by (auto simp: is_bytes_def div_less_iff_less_mult)
  then show ?case using 4(1) by (simp add: d)
next
  case (3 a b)
  have "(a mod 4 * 16 + b div 16) div 16 = a mod 4" "(a mod 4 * 16 + b div 16) mod 16 = b div 16"
    using 3 div_mod_shift [of "b div 16" 16 "a mod 4"] by (auto simp: is_bytes_def div_less_iff_less_mult)
  then show ?case by (simp add: mult.commute)
qed (simp_all add: mult.commute)

lemma opt_all_map_Some: "(\<And>x. x \<in> set xs \<Longrightarrow> f x = Some (g x)) \<Longrightarrow> opt_all (map f xs) = Some (map g xs)"
  by (induction xs) auto

lemma b64_length: "length (b64_positions bs) mod 4 = (if b64_pad bs = 2 then 2 else if b64_pad bs = 1 then 3 else 0) \<and> b64_pad bs \<le> 2"
  by (induction bs rule: b64_positions.induct) auto

lemma b64decode_encode: "is_bytes bs \<Longrightarrow> b64decode (b64encode bs) = Some bs"
proof -
  assume b: "is_bytes bs"
  let ?d = "map b64_char (b64_positions bs)" and ?p = "replicate (b64_pad bs) (CHR ''='')"
  have np: "\<forall>c\<in>set ?d. c \<noteq> CHR ''=''" using b64_positions_range [OF b] b64_char_not_pad by auto
  have "?p = [] \<or> \<not> hd ?p \<noteq> CHR ''=''" by (cases "b64_pad bs") auto
  from takeWhile_dropWhile_split [OF np this]
  have s: "takeWhile (\<lambda>c. c \<noteq> CHR ''='') (b64encode bs) = ?d" "dropWhile (\<lambda>c. c \<noteq> CHR ''='') (b64encode bs) = ?p"
    by (simp_all add: b64encode_positions)
  have "opt_all (map b64_index ?d) = Some (b64_positions bs)"
    using opt_all_map_Some [of "b64_positions bs" "\<lambda>i. b64_index (b64_char i)" "\<lambda>i. i"] b64_positions_range [OF b]
    by (simp add: comp_def)
  then show ?thesis
    using b64_length [of bs] b64_groups_positions [OF b]
    by (auto simp: b64decode_def s Let_def list_all_iff split: if_splits)
qed

end
