(* ===== verification/VelatoMidi.thy ===== *)
theory VelatoMidi
  imports VelatoCodec PyBytes
begin

text \<open>
  Programs as MIDI files: \<open>parse_midi\<close>, \<open>compile_notes\<close> and \<open>encode_midi\<close> of
  \<open>services/velato-engine/engine.py\<close>.  Reading and writing the file itself is the library
  \<open>mido\<close>, the parameters \<open>mido_load\<close> and \<open>mido_save\<close>.
\<close>

section \<open>Files and notes\<close>

text \<open>The messages by \<open>msg.type\<close>; every type the source does not test is one constructor.  A
  message carries note, velocity, channel and delta time.\<close>

datatype midi_message =
    NoteOn int int int int
  | NoteOff int int int int
  | SysEx
  | OtherMessage

record midi_file =
  mf_type :: int
  mf_ticks_per_beat :: int
  mf_tracks :: "midi_message list list"

type_synonym midi_load = "bytes \<Rightarrow> midi_message list list res"
type_synonym midi_save = "midi_file \<Rightarrow> bytes res"

record midi_note =
  mn_note :: int
  mn_velocity :: int
  mn_channel :: int

section \<open>Reading\<close>

text \<open>One iteration over a message: the note limit is checked after each of them.\<close>

definition collect_note :: "int \<Rightarrow> midi_message \<Rightarrow> midi_note list \<Rightarrow> midi_note list res" where
  "collect_note max_notes msg notes =
     (if msg = SysEx then value_error ''SysEx is unsupported''
      else let notes' = (case msg of NoteOn n v c _ \<Rightarrow>
             if 0 < v then notes @ [\<lparr>mn_note = n, mn_velocity = v, mn_channel = c\<rparr>] else notes
             | _ \<Rightarrow> notes)
           in if int (length notes') > max_notes then value_error ''MIDI exceeds note limit''
              else Inr notes')"

fun collect_notes :: "int \<Rightarrow> midi_message list \<Rightarrow> midi_note list \<Rightarrow> midi_note list res" where
  "collect_notes max_notes [] notes = Inr notes"
| "collect_notes max_notes (msg # msgs) notes =
     res_bind (collect_note max_notes msg notes) (collect_notes max_notes msgs)"

definition parse_midi :: "midi_load \<Rightarrow> bytes \<Rightarrow> int \<Rightarrow> int \<Rightarrow> midi_note list res" where
  "parse_midi mido_load data max_bytes max_notes =
     (if int (length data) > max_bytes then value_error ''MIDI exceeds byte limit''
      else res_bind (mido_load data) (\<lambda>tracks.
        res_bind (collect_notes max_notes (concat tracks) []) (\<lambda>notes.
          if length notes < 2 then value_error ''program requires root and instruction notes''
          else Inr notes)))"

definition decode_operand :: "opcode \<Rightarrow> int \<Rightarrow> pyval res" where
  "decode_operand p velocity =
     (let operand = velocity - 1
      in if p = Op_PUSH_CONST then Inr (PInt operand)
         else if p = Op_LOAD_INPUT then
           (if operand < 0 \<or> operand \<ge> int (length INPUTS)
            then value_error ''invalid input register operand''
            else Inr (PStr (INPUTS ! nat operand)))
         else if p \<in> set LOCAL_OPS then
           (if operand < 0 \<or> operand \<ge> MAX_LOCALS
            then value_error ''invalid local register operand'' else Inr (PInt operand))
         else Inr PNone)"

text \<open>The body of the loop of \<open>compile_notes\<close> for one note; the interval is in 0..11.\<close>

definition compile_event :: "int \<Rightarrow> midi_note \<Rightarrow> instruction res" where
  "compile_event tonic event =
     (let interval = (mn_note event - tonic) mod 12
      in case map_of INSTRUCTION_BANKS (mn_channel event) of
           None \<Rightarrow> value_error (''unsupported instruction bank '' @ show_int (mn_channel event))
         | Some bank \<Rightarrow> (case map_of bank interval of
             None \<Rightarrow> Inl (Exn KeyError (show_int interval))
           | Some p \<Rightarrow> res_bind (decode_operand p (mn_velocity event)) (\<lambda>arg. Inr (Instruction p arg))))"

definition compile_notes :: "midi_note list \<Rightarrow> program res" where
  "compile_notes notes =
     (case notes of [] \<Rightarrow> Inl (Exn IndexError ''list index out of range'')
      | tonic # events \<Rightarrow>
          res_bind (decode_until_halt (compile_event (mn_note tonic)) events) (\<lambda>ir.
            res_bind (analyze (ensure_halt ir)) (\<lambda>_. Inr (ensure_halt ir))))"

section \<open>Writing\<close>

text \<open>\<open>INPUTS.index(s)\<close>\<close>

fun index_of :: "'a \<Rightarrow> 'a list \<Rightarrow> int option" where
  "index_of x [] = None"
| "index_of x (y # ys) = (if x = y then Some 0 else map_option ((+) 1) (index_of x ys))"

definition encode_velocity :: "instruction \<Rightarrow> int res" where
  "encode_velocity ins =
     (if ins_op ins = Op_PUSH_CONST then
        (if \<not> is_number (ins_arg ins) then value_error ''PUSH_CONST requires a numeric operand''
         else res_bind (py_float (ins_arg ins)) (\<lambda>v.
           if \<not> fl_is_integer v \<or> \<not> (0 \<le> fl_val v \<and> fl_val v \<le> 126)
           then value_error ''MIDI encoding supports integer constants from 0 to 126''
           else Inr (\<lfloor>fl_val v\<rfloor> + 1)))
      else if ins_op ins = Op_LOAD_INPUT then
        (case as_str (ins_arg ins) of None \<Rightarrow> value_error ''invalid input register''
         | Some s \<Rightarrow> (case index_of s INPUTS of None \<Rightarrow> value_error ''invalid input register''
             | Some i \<Rightarrow> Inr (i + 1)))
      else if ins_op ins \<in> set LOCAL_OPS then
        (case local_operand (ins_arg ins) of None \<Rightarrow> value_error ''invalid local register''
         | Some i \<Rightarrow> Inr (i + 1))
      else Inr 64)"

text \<open>\<open>mido.Message\<close> raises on a note, velocity or channel out of range.\<close>

definition message_fields_ok :: "int \<Rightarrow> int \<Rightarrow> int \<Rightarrow> bool" where
  "message_fields_ok n v c = (0 \<le> n \<and> n \<le> 127 \<and> 0 \<le> v \<and> v \<le> 127 \<and> 0 \<le> c \<and> c \<le> 15)"

definition note_pair :: "int \<Rightarrow> int \<Rightarrow> int \<Rightarrow> int \<Rightarrow> midi_message list res" where
  "note_pair note_ticks n v c =
     (if message_fields_ok n v c then Inr [NoteOn n v c 0, NoteOff n 0 c note_ticks]
      else value_error ''data byte must be in range 0..127'')"

text \<open>The note of one instruction relative to the root, and the two messages it becomes.\<close>

definition encode_event :: "int \<Rightarrow> instruction \<Rightarrow> midi_note res" where
  "encode_event root_note ins = (case op_encoding (ins_op ins) of (bank, interval) \<Rightarrow>
     res_bind (encode_velocity ins) (\<lambda>velocity.
       Inr \<lparr>mn_note = root_note + interval, mn_velocity = velocity, mn_channel = bank\<rparr>))"

definition note_messages :: "int \<Rightarrow> midi_note \<Rightarrow> midi_message list res" where
  "note_messages note_ticks e = note_pair note_ticks (mn_note e) (mn_velocity e) (mn_channel e)"

definition encode_track :: "program \<Rightarrow> int \<Rightarrow> int \<Rightarrow> midi_message list res" where
  "encode_track ir root_note note_ticks =
     res_bind (note_pair note_ticks root_note 64 0) (\<lambda>tonic.
       res_bind (res_map (\<lambda>ins. res_bind (encode_event root_note ins) (note_messages note_ticks)) ir)
         (\<lambda>pairs. Inr (tonic @ concat pairs)))"

definition encode_midi :: "midi_save \<Rightarrow> program \<Rightarrow> int \<Rightarrow> int \<Rightarrow> int \<Rightarrow> bytes res" where
  "encode_midi mido_save ir root_note ticks_per_beat note_ticks =
     res_bind (analyze ir) (\<lambda>_.
       if \<not> (0 \<le> root_note \<and> root_note \<le> 116) then value_error ''root note must be between 0 and 116''
       else if ticks_per_beat \<le> 0 \<or> note_ticks \<le> 0 then value_error ''MIDI timing values must be positive''
       else res_bind (encode_track ir root_note note_ticks) (\<lambda>track.
         mido_save \<lparr>mf_type = 0, mf_ticks_per_beat = ticks_per_beat, mf_tracks = [track]\<rparr>))"

section \<open>One instruction\<close>

text \<open>What an operand is after the round trip: constants and registers are integers, and an
  operation without operand has none.\<close>

definition midi_normal :: "instruction \<Rightarrow> instruction" where
  "midi_normal ins = Instruction (ins_op ins)
     (if ins_op ins = Op_PUSH_CONST then
        (case py_float (ins_arg ins) of Inr v \<Rightarrow> PInt \<lfloor>fl_val v\<rfloor> | Inl _ \<Rightarrow> PNone)
      else if ins_op ins = Op_LOAD_INPUT then ins_arg ins
      else if ins_op ins \<in> set LOCAL_OPS then
        (case as_int (ins_arg ins) of Some i \<Rightarrow> PInt i | None \<Rightarrow> PNone)
      else PNone)"

lemma midi_normal_op: "ins_op (midi_normal ins) = ins_op ins"
  by (simp add: midi_normal_def)

lemma index_of_bounds: "index_of x xs = Some i \<Longrightarrow> 0 \<le> i \<and> i < int (length xs) \<and> xs ! nat i = x"
proof (induction xs arbitrary: i)
  case (Cons y ys)
  show ?case
  proof (cases "x = y")
    case False
    then obtain j where "index_of x ys = Some j" "i = 1 + j" using Cons.prems by auto
    then show ?thesis using Cons.IH by (auto simp: nat_add_distrib)
  qed (use Cons.prems in auto)
qed simp

lemma encode_velocity_bounds: "encode_velocity ins = Inr v \<Longrightarrow> 1 \<le> v \<and> v \<le> 127"
proof -
  assume v: "encode_velocity ins = Inr v"
  have "i < 10" if "index_of s INPUTS = Some i" for s i
    using index_of_bounds [OF that] by (simp add: INPUTS_def)
  then show ?thesis
    using v index_of_bounds
    by (fastforce simp: encode_velocity_def res_simps local_operand_def MAX_LOCALS_def floor_le_iff
        split: if_splits option.splits)
qed

lemma decode_velocity:
  assumes "encode_velocity ins = Inr v"
  shows "decode_operand (ins_op ins) v = Inr (ins_arg (midi_normal ins))"
proof -
  have "ins_arg ins = PStr s" if "as_str (ins_arg ins) = Some s" for s
    using that by (cases "ins_arg ins") auto
  then show ?thesis
    using assms
    by (auto simp: encode_velocity_def decode_operand_def midi_normal_def res_simps local_operand_def
        LOCAL_OPS_def dest: index_of_bounds split: if_splits option.splits)
qed

lemma compile_encode_event:
  assumes "encode_event tonic ins = Inr e"
  shows "compile_event tonic e = Inr (midi_normal ins)"
proof -
  obtain v where v: "encode_velocity ins = Inr v"
    and e: "e = \<lparr>mn_note = tonic + snd (op_encoding (ins_op ins)), mn_velocity = v,
      mn_channel = fst (op_encoding (ins_op ins))\<rparr>"
    using assms by (auto simp: encode_event_def res_simps split: prod.splits)
  have m: "snd (op_encoding (ins_op ins)) mod 12 = snd (op_encoding (ins_op ins))"
    using op_encoding_bounds [of "ins_op ins"] by simp
  obtain bank where bank: "map_of INSTRUCTION_BANKS (fst (op_encoding (ins_op ins))) = Some bank"
    "map_of bank (snd (op_encoding (ins_op ins))) = Some (ins_op ins)"
    using bank_op_encoding [of "ins_op ins"] by (auto simp: bank_op_def bind_eq_Some_conv)
  have "Instruction (ins_op ins) (ins_arg (midi_normal ins)) = midi_normal ins"
    by (metis instruction.collapse midi_normal_op)
  then show ?thesis using decode_velocity [OF v] bank by (simp add: compile_event_def e m)
qed

lemma midi_normal_valid:
  assumes "validate_instruction ins = Inr ()" and "encode_event tonic ins = Inr e"
  shows "validate_instruction (midi_normal ins) = Inr ()"
proof -
  obtain v where v: "encode_velocity ins = Inr v"
    using assms(2) by (auto simp: encode_event_def res_simps split: prod.splits)
  have small: "float_of_int \<lfloor>fl_val f\<rfloor> = Inr (Fin (of_int \<lfloor>fl_val f\<rfloor>))"
    if "0 \<le> fl_val f" "fl_val f \<le> 126" for f
    using that by (intro float_of_int_small) (auto simp: abs_less_iff floor_less_iff less_floor_iff)
  show ?thesis
    using assms(1) v small
    by (auto simp: validate_instruction_def midi_normal_def encode_velocity_def local_operand_def
        LOCAL_OPS_def res_simps split: if_splits option.splits)
qed

text \<open>MIDI is a form of programs: relative to a root note, each instruction is one note.\<close>

interpretation midi: instruction_codec "encode_event tonic" "compile_event tonic" midi_normal
  for tonic
  by unfold_locales (auto simp: compile_encode_event midi_normal_op dest: midi_normal_valid)

section \<open>Whole programs\<close>

lemma encode_track_events:
  assumes "res_map (\<lambda>ins. res_bind (encode_event tonic ins) (note_messages ticks)) ir = Inr pairs"
  shows "\<exists>es. res_map (encode_event tonic) ir = Inr es \<and> res_map (note_messages ticks) es = Inr pairs
     \<and> (\<forall>e\<in>set es. 0 < mn_velocity e)"
  using assms
proof (induction ir arbitrary: pairs)
  case (Cons ins ir)
  obtain e p ps where e: "encode_event tonic ins = Inr e" "note_messages ticks e = Inr p"
    and ps: "res_map (\<lambda>ins. res_bind (encode_event tonic ins) (note_messages ticks)) ir = Inr ps"
    and pairs: "pairs = p # ps"
    using Cons.prems by (auto simp: res_simps)
  have "0 < mn_velocity e"
    using e(1) by (auto simp: encode_event_def res_simps split: prod.splits dest: encode_velocity_bounds)
  then show ?case using Cons.IH [OF ps] e pairs by auto
qed simp

lemma note_messages_Inr:
  "note_messages ticks e = Inr p \<longleftrightarrow>
   message_fields_ok (mn_note e) (mn_velocity e) (mn_channel e)
   \<and> p = [NoteOn (mn_note e) (mn_velocity e) (mn_channel e) 0, NoteOff (mn_note e) 0 (mn_channel e) ticks]"
  by (auto simp: note_messages_def note_pair_def)

lemma collect_notes_append:
  "collect_notes k (xs @ ys) ns = res_bind (collect_notes k xs ns) (collect_notes k ys)"
  by (induction xs arbitrary: ns) (auto simp: res_bind_assoc intro!: arg_cong2 [of _ _ _ _ res_bind])

lemma collect_pairs:
  assumes "res_map (note_messages ticks) es = Inr pairs" and "\<forall>e\<in>set es. 0 < mn_velocity e"
    and "int (length ns + length es) \<le> k"
  shows "collect_notes k (concat pairs) ns = Inr (ns @ es)"
  using assms
proof (induction es arbitrary: pairs ns)
  case (Cons e es)
  obtain p ps where p: "note_messages ticks e = Inr p" "res_map (note_messages ticks) es = Inr ps"
    "pairs = p # ps"
    using Cons.prems(1) by (auto simp: res_simps)
  have "collect_notes k p ns = Inr (ns @ [e])"
    using p(1) Cons.prems(2,3) by (simp add: note_messages_Inr collect_note_def)
  then show ?case using Cons.IH [OF p(2), of "ns @ [e]"] Cons.prems(2,3) p(3)
    by (simp add: collect_notes_append)
qed simp

text \<open>What the code relies on in \<open>mido\<close>: loading a file of one track that was saved gives
  the messages back, followed by the end-of-track meta message that saving adds.\<close>

fun message_valid :: "midi_message \<Rightarrow> bool" where
  "message_valid (NoteOn n v c t) = (message_fields_ok n v c \<and> 0 \<le> t)"
| "message_valid (NoteOff n v c t) = (message_fields_ok n v c \<and> 0 \<le> t)"
| "message_valid _ = True"

definition mido_faithful :: "midi_load \<Rightarrow> midi_save \<Rightarrow> bool" where
  "mido_faithful load save \<longleftrightarrow> (\<forall>ticks track data. list_all message_valid track \<longrightarrow>
     save \<lparr>mf_type = 0, mf_ticks_per_beat = ticks, mf_tracks = [track]\<rparr> = Inr data \<longrightarrow>
     load data = Inr [track @ [OtherMessage]])"

lemma encode_track_valid:
  assumes "encode_track ir tonic ticks = Inr track" and "0 \<le> ticks"
  shows "list_all message_valid track"
proof -
  obtain ps where tr: "message_fields_ok tonic 64 0" "track = [NoteOn tonic 64 0 0, NoteOff tonic 0 0 ticks] @ concat ps"
    and ps: "res_map (\<lambda>ins. res_bind (encode_event tonic ins) (note_messages ticks)) ir = Inr ps"
    using assms(1) by (auto simp: encode_track_def res_simps note_pair_def split: if_splits)
  obtain es where "res_map (note_messages ticks) es = Inr ps" using encode_track_events [OF ps] by blast
  then have "list_all message_valid (concat ps)"
    using assms(2) by (induction es arbitrary: ps) (auto simp: res_simps note_messages_Inr message_fields_ok_def)
  then show ?thesis using tr assms(2) by (simp add: message_fields_ok_def)
qed

lemma parse_encoded_track:
  assumes "encode_track ir tonic ticks = Inr track" and "load data = Inr [track @ [OtherMessage]]"
    and "int (length data) \<le> mb" and "int (length ir) < mn" and "ir \<noteq> []"
  shows "\<exists>es. res_map (encode_event tonic) ir = Inr es \<and>
     parse_midi load data mb mn = Inr (\<lparr>mn_note = tonic, mn_velocity = 64, mn_channel = 0\<rparr> # es)"
proof -
  let ?n = "\<lparr>mn_note = tonic, mn_velocity = 64, mn_channel = 0\<rparr>"
  obtain ps where tr: "track = [NoteOn tonic 64 0 0, NoteOff tonic 0 0 ticks] @ concat ps"
    and ps: "res_map (\<lambda>ins. res_bind (encode_event tonic ins) (note_messages ticks)) ir = Inr ps"
    using assms(1) by (auto simp: encode_track_def res_simps note_pair_def split: if_splits)
  obtain es where es: "res_map (encode_event tonic) ir = Inr es"
    "res_map (note_messages ticks) es = Inr ps" "\<forall>e\<in>set es. 0 < mn_velocity e"
    using encode_track_events [OF ps] by blast
  have l: "length es = length ir" using res_map_Inr_length [OF es(1)] .
  have "collect_notes mn (concat ps) [?n] = Inr (?n # es)"
    using collect_pairs [OF es(2,3), of "[?n]" mn] assms(4) l by simp
  then have "collect_notes mn (track @ [OtherMessage]) [] = Inr (?n # es)"
    using assms(4) l by (simp add: tr collect_notes_append collect_note_def)
  then show ?thesis using es(1) assms(2,3,5) l by (simp add: parse_midi_def)
qed

lemma compile_encoded:
  assumes "res_map (encode_event tonic) ir = Inr es" and "is_ok (analyze ir)"
  shows "compile_notes (\<lparr>mn_note = tonic, mn_velocity = 64, mn_channel = 0\<rparr> # es) =
    (if has_halt ir \<or> length ir < 512 then Inr (ensure_halt (map midi_normal (live_part ir)))
     else value_error ''instruction limit exceeded'')"
proof -
  let ?r = "ensure_halt (map midi_normal (live_part ir))"
  have c: "compile_notes (\<lparr>mn_note = tonic, mn_velocity = 64, mn_channel = 0\<rparr> # es) =
      res_bind (analyze ?r) (\<lambda>_. Inr ?r)"
    using midi.decode_live [OF assms(1)] by (simp add: compile_notes_def)
  show ?thesis
  proof (cases "has_halt ir \<or> length ir < 512")
    case True
    then have "is_ok (analyze ?r)"
      using midi.live_analyzed [OF assms, simplified]
      by (auto simp: DEFAULT_MAX_INSTRUCTIONS_def DEFAULT_MAX_STACK_def)
    then show ?thesis using c True by (auto simp: is_ok_iff)
  next
    case False
    then have l: "live_part ir = ir" and len: "512 \<le> length ir" by (auto simp: no_halt_live_part)
    have "ins_op (last ir) \<noteq> Op_HALT" using False len
      by (metis has_halt_def last_in_set list.size(3) not_numeral_le_zero)
    then have "length ?r = Suc (length ir)"
      using l len by (auto simp: ensure_halt_def last_map midi_normal_op)
    then have "analyze ?r = value_error ''instruction limit exceeded''"
      using len by (auto simp: analyze_ir_def DEFAULT_MAX_INSTRUCTIONS_def)
    then show ?thesis using c False by simp
  qed
qed

lemma midi_decode_encode:
  assumes "mido_faithful load save" and "encode_midi save ir tonic tpb ticks = Inr data"
    and "length data \<le> 128000"
  shows "\<exists>notes. parse_midi load data 128000 1024 = Inr notes \<and>
    compile_notes notes =
      (if has_halt ir \<or> length ir < 512 then Inr (ensure_halt (map midi_normal (live_part ir)))
       else value_error ''instruction limit exceeded'')"
proof -
  obtain track where a: "is_ok (analyze ir)" and ticks: "0 < ticks"
    and tr: "encode_track ir tonic ticks = Inr track"
    and sv: "save \<lparr>mf_type = 0, mf_ticks_per_beat = tpb, mf_tracks = [track]\<rparr> = Inr data"
    using assms(2) by (auto simp: encode_midi_def res_simps is_ok_iff split: if_splits)
  have ld: "load data = Inr [track @ [OtherMessage]]"
    using assms(1) sv encode_track_valid [OF tr] ticks unfolding mido_faithful_def by auto
  have l: "ir \<noteq> []" "length ir \<le> 512"
    using a analyze_ok_iff [of DEFAULT_MAX_STACK ir DEFAULT_MAX_INSTRUCTIONS]
    by (simp_all add: DEFAULT_MAX_STACK_def DEFAULT_MAX_INSTRUCTIONS_def)
  from parse_encoded_track [where load = load and data = data and mb = 128000 and mn = 1024, OF tr ld] l assms(3)
  show ?thesis using compile_encoded [OF _ a] by force
qed

text \<open>C5. A program written as a MIDI file reads back as itself: parsing and compiling the
  encoded file gives the part of the program that runs, closed by a HALT, with every operand
  normalised to the integer it stands for.  The one exception is a program of 512
  instructions without a HALT, which can be encoded but whose file is refused, because the
  HALT that compiling adds exceeds the limit.\<close>

theorem midi_roundtrip:
  assumes "mido_faithful load save" and "encode_midi save ir tonic tpb ticks = Inr data"
    and "length data \<le> 128000"
  shows "\<exists>notes. parse_midi load data 128000 1024 = Inr notes \<and>
    compile_notes notes =
      (if has_halt ir \<or> length ir < 512 then Inr (ensure_halt (map midi_normal (live_part ir)))
       else value_error ''instruction limit exceeded'')"
  using assms by (rule midi_decode_encode)

lemma encode_event_ok:
  assumes "encode_velocity ins = Inr v" and "0 \<le> tonic" and "tonic \<le> 116"
  shows "\<exists>e. encode_event tonic ins = Inr e \<and> message_fields_ok (mn_note e) (mn_velocity e) (mn_channel e)"
  using assms op_encoding_bounds [of "ins_op ins"] encode_velocity_bounds [OF assms(1)]
  by (auto simp: encode_event_def message_fields_ok_def split: prod.splits)

lemma encode_pairs_ok:
  assumes "\<forall>ins\<in>set ir. is_ok (encode_velocity ins)" and "0 \<le> tonic" and "tonic \<le> 116"
  shows "\<exists>ps. res_map (\<lambda>ins. res_bind (encode_event tonic ins) (note_messages ticks)) ir = Inr ps
     \<and> length (concat ps) = 2 * length ir"
  using assms(1)
proof (induction ir)
  case (Cons ins ir)
  obtain v where "encode_velocity ins = Inr v" using Cons.prems by (auto simp: is_ok_iff)
  from encode_event_ok [OF this assms(2,3)] Cons show ?case by (auto simp: note_messages_def note_pair_def)
qed simp

text \<open>An accepted program whose constants and registers fit in a velocity always has a MIDI
  file, whatever root from 0 to 116 and positive timing is chosen: all notes and velocities are
  in the range of MIDI, and there are two messages for the root and for each instruction.\<close>

theorem encode_midi_total:
  assumes "is_ok (analyze ir)" and "0 \<le> tonic" and "tonic \<le> 116" and "0 < tpb" and "0 < ticks"
    and "\<forall>ins\<in>set ir. is_ok (encode_velocity ins)"
  shows "\<exists>track. encode_midi save ir tonic tpb ticks
       = save \<lparr>mf_type = 0, mf_ticks_per_beat = tpb, mf_tracks = [track]\<rparr>
     \<and> length track = 2 * (length ir + 1) \<and> list_all message_valid track"
proof -
  from encode_pairs_ok [OF assms(6,2,3)] obtain ps where
    ps: "res_map (\<lambda>ins. res_bind (encode_event tonic ins) (note_messages ticks)) ir = Inr ps"
      "length (concat ps) = 2 * length ir" by blast
  have "message_fields_ok tonic 64 0" using assms(2,3) by (simp add: message_fields_ok_def)
  with ps have t: "encode_track ir tonic ticks
      = Inr ([NoteOn tonic 64 0 0, NoteOff tonic 0 0 ticks] @ concat ps)"
    by (simp add: encode_track_def note_pair_def)
  from encode_track_valid [OF t] ps(2) t assms(1-5) show ?thesis
    by (auto simp: encode_midi_def is_ok_iff)
qed

text \<open>A file format to exercise the round trip with: five numbers per note message.\<close>

fun toy_message :: "midi_message \<Rightarrow> bytes" where
  "toy_message (NoteOn n v c t) = [1, n, v, c, t]"
| "toy_message (NoteOff n v c t) = [2, n, v, c, t]"
| "toy_message SysEx = [3, 0, 0, 0, 0]"
| "toy_message OtherMessage = [4, 0, 0, 0, 0]"

fun toy_messages :: "bytes \<Rightarrow> midi_message list" where
  "toy_messages (k # n # v # c # t # bs) =
     (if k = 1 then NoteOn n v c t else if k = 2 then NoteOff n v c t
      else if k = 3 then SysEx else OtherMessage) # toy_messages bs"
| "toy_messages bs = []"

definition toy_save :: midi_save where
  "toy_save f = Inr (concat (map toy_message (concat (mf_tracks f))))"

definition toy_load :: midi_load where
  "toy_load bs = Inr [toy_messages bs @ [OtherMessage]]"

lemma toy_messages_message: "toy_messages (toy_message m @ bs) = m # toy_messages bs"
  by (cases m) auto

lemma toy_faithful: "mido_faithful toy_load toy_save"
proof -
  have "toy_messages (concat (map toy_message ms)) = ms" for ms
    by (induction ms) (auto simp: toy_messages_message)
  then show ?thesis by (simp add: mido_faithful_def toy_load_def toy_save_def)
qed

theorem midi_roundtrip_witness:
  "\<exists>data notes. encode_midi toy_save [Instruction Op_PUSH_CONST (PFloat (Fin 7)), Instruction Op_STORE_SCORE PNone] 60 480 120 = Inr data
    \<and> parse_midi toy_load data 128000 1024 = Inr notes
    \<and> compile_notes notes = Inr [Instruction Op_PUSH_CONST (PInt 7), Instruction Op_STORE_SCORE PNone, Instruction Op_HALT PNone]"
proof -
  let ?p = "[Instruction Op_PUSH_CONST (PFloat (Fin 7)), Instruction Op_STORE_SCORE PNone]"
  let ?d = "[1, 60, 64, 0, 0, 2, 60, 0, 0, 120, 1, 61, 8, 0, 0, 2, 61, 0, 0, 120, 1, 68, 64, 0, 0, 2, 68, 0, 0, 120]"
  have e: "encode_midi toy_save ?p 60 480 120 = Inr ?d" by code_simp
  have r: "ensure_halt (map midi_normal (live_part ?p)) =
    [Instruction Op_PUSH_CONST (PInt 7), Instruction Op_STORE_SCORE PNone, Instruction Op_HALT PNone]" by code_simp
  from midi_roundtrip [OF toy_faithful e] show ?thesis unfolding r using e by auto
qed

theorem encode_midi_total_witness:
  "\<exists>track. encode_midi toy_save [Instruction Op_LOAD_LOCAL (PInt 3), Instruction Op_DROP PNone] 116 480 120
       = toy_save \<lparr>mf_type = 0, mf_ticks_per_beat = 480, mf_tracks = [track]\<rparr>
     \<and> length track = 6 \<and> list_all message_valid track"
proof -
  let ?p = "[Instruction Op_LOAD_LOCAL (PInt 3), Instruction Op_DROP PNone]"
  have "is_ok (analyze ?p)" by code_simp
  moreover have "\<forall>ins\<in>set ?p. is_ok (encode_velocity ins)" by code_simp
  ultimately show ?thesis using encode_midi_total [of ?p 116 480 120 toy_save] by simp
qed

end
