(* ===== verification/VelatoAsm.thy ===== *)
theory VelatoAsm
  imports VelatoCodec
begin

text \<open>
  The textual forms of a program in \<open>services/velato-engine/engine.py\<close>: the assembly that
  \<open>parse_assembly\<close> reads, the listing that \<open>decompile\<close> writes, the JSON items of
  \<open>serialize_ir\<close> and \<open>deserialize_ir\<close> and their hash; also the built-in policy and the
  capabilities document.
\<close>

section \<open>Assembly lines\<close>

text \<open>\<open>_ASSEMBLY_LINE\<close>: an optional index with a colon, an operation name, and an optional
  operand ended by a comment or the end.  The operand group needs white space before it and
  one character that is not \<open>#\<close>; when two or more white-space characters precede a comment the
  last of them is that character.\<close>

definition is_op_char :: "char \<Rightarrow> bool" where
  "is_op_char c = (let n = (of_char c :: int) in 65 \<le> n \<and> n \<le> 90 \<or> c = CHR ''_'')"

definition skip_index :: "string \<Rightarrow> string" where
  "skip_index s = (let ds = takeWhile is_digit s; r = dropWhile is_digit s
     in if ds \<noteq> [] \<and> r \<noteq> [] \<and> hd r = CHR '':'' then lstrip (tl r) else s)"

definition match_operand :: "string \<Rightarrow> string option option" where
  "match_operand r =
     (let ws = takeWhile is_space r; t = dropWhile is_space r
      in if t = [] then Some None
         else if hd t = CHR ''#'' then Some (if length ws \<ge> 2 then Some [last ws] else None)
         else if ws = [] then None
         else Some (Some (rstrip (takeWhile (\<lambda>c. c \<noteq> CHR ''#'') t))))"

definition match_line :: "string \<Rightarrow> (string \<times> string option) option" where
  "match_line s =
     (let b = skip_index s; name = takeWhile is_op_char b
      in if name = [] then None
         else map_option (\<lambda>arg. (name, arg)) (match_operand (dropWhile is_op_char b)))"

text \<open>A group that did not take part, and one that is empty, are both false.\<close>

definition group_text :: "string option \<Rightarrow> string option" where
  "group_text g = (case g of Some (c # cs) \<Rightarrow> Some (c # cs) | _ \<Rightarrow> None)"

definition constant_operand :: "pyfloat \<Rightarrow> pyval" where
  "constant_operand v = (if fl_is_integer v then PInt \<lfloor>fl_val v\<rfloor> else PFloat v)"

definition line_error :: "string \<Rightarrow> nat \<Rightarrow> 'a res" where
  "line_error what n = value_error (what @ '' on line '' @ show_nat n)"

definition parse_operand :: "opcode \<Rightarrow> string option \<Rightarrow> nat \<Rightarrow> pyval res" where
  "parse_operand p raw_arg n =
     (case group_text raw_arg of
        None \<Rightarrow> Inr PNone
      | Some raw \<Rightarrow>
          if p = Op_LOAD_INPUT then Inr (PStr (strip raw))
          else if p \<in> set LOCAL_OPS then
            (case parse_int (strip raw) of Some i \<Rightarrow> Inr (PInt i)
             | None \<Rightarrow> line_error ''invalid local register'' n)
          else if p = Op_PUSH_CONST then
            (case parse_float (strip raw) of Some v \<Rightarrow> Inr (constant_operand v)
             | None \<Rightarrow> line_error ''invalid constant'' n)
          else line_error (op_value p @ '' does not accept an operand'') n)"

definition parse_line :: "string \<Rightarrow> nat \<Rightarrow> instruction res" where
  "parse_line line n =
     (case match_line line of
        None \<Rightarrow> line_error ''invalid assembly syntax'' n
      | Some (name, raw_arg) \<Rightarrow> (case op_of_value name of
          None \<Rightarrow> line_error ''unknown operation'' n
        | Some p \<Rightarrow> res_bind (parse_operand p raw_arg n) (\<lambda>arg. Inr (Instruction p arg))))"

definition is_comment_line :: "string \<Rightarrow> bool" where
  "is_comment_line line = (line = [] \<or> hd line = CHR ''#'')"

text \<open>The loop over the lines, numbered from one.\<close>

fun parse_lines :: "int \<Rightarrow> nat \<Rightarrow> string list \<Rightarrow> program \<Rightarrow> program res" where
  "parse_lines max_lines n [] ir = Inr ir"
| "parse_lines max_lines n (raw_line # ls) ir =
     (let line = strip raw_line
      in if is_comment_line line then parse_lines max_lines (Suc n) ls ir
         else if int (length ir) \<ge> max_lines then value_error ''assembly exceeds instruction limit''
         else res_bind (parse_line line n) (\<lambda>ins. parse_lines max_lines (Suc n) ls (ir @ [ins])))"

definition parse_assembly :: "string \<Rightarrow> int \<Rightarrow> program res" where
  "parse_assembly source max_lines =
     (if int (utf8_len source) > 128000 then value_error ''assembly exceeds byte limit''
      else res_bind (parse_lines max_lines 1 (splitlines source) []) (\<lambda>ir.
        res_bind (analyze (ensure_halt ir)) (\<lambda>_. Inr (ensure_halt ir))))"

section \<open>The listing\<close>

definition decompile_line :: "nat \<Rightarrow> instruction \<Rightarrow> string" where
  "decompile_line index ins =
     (let operand = (if ins_arg ins = PNone then [] else CHR '' '' # py_str (ins_arg ins))
      in case op_encoding (ins_op ins) of (bank, interval) \<Rightarrow>
        zero_pad 3 index @ '': '' @ op_value (ins_op ins) @ operand
        @ ''  # channel='' @ show_int bank @ '' interval='' @ show_int interval)"

definition decompile :: "program \<Rightarrow> string" where
  "decompile ir = join [CHR 0x0A] (map (\<lambda>(i, ins). decompile_line i ins) (enumerate 0 ir))"

section \<open>JSON items\<close>

definition serialize_instruction :: "instruction \<Rightarrow> pydict" where
  "serialize_instruction ins = [(''op'', PStr (op_value (ins_op ins))), (''arg'', ins_arg ins)]"

definition serialize_ir :: "program \<Rightarrow> pydict list" where
  "serialize_ir ir = map serialize_instruction ir"

definition deserialize_item :: "nat \<Rightarrow> pydict \<Rightarrow> instruction res" where
  "deserialize_item index item =
     (case Option.bind (dict_get item ''op'') (\<lambda>v. op_of_value (py_str v)) of
        None \<Rightarrow> value_error (''invalid operation at instruction '' @ show_nat index)
      | Some p \<Rightarrow> Inr (Instruction p (dict_get_or item ''arg'' PNone)))"

fun deserialize_items :: "nat \<Rightarrow> pydict list \<Rightarrow> program res" where
  "deserialize_items index [] = Inr []"
| "deserialize_items index (item # items) =
     res_bind (deserialize_item index item) (\<lambda>ins.
       res_bind (deserialize_items (Suc index) items) (\<lambda>ir. Inr (ins # ir)))"

definition deserialize_ir :: "pydict list \<Rightarrow> program res" where
  "deserialize_ir items = res_bind (deserialize_items 0 items) (\<lambda>ir.
     res_bind (analyze ir) (\<lambda>_. Inr ir))"

definition ir_sha256 :: "program \<Rightarrow> string" where
  "ir_sha256 ir = sha256_hex (json_dumps_sorted (PList (map PDict (serialize_ir ir))))"

section \<open>Built-in policy and capabilities\<close>

definition default_policy_ir :: program where
  "default_policy_ir =
     [Instruction Op_LOAD_INPUT (PStr ''watchlist_match''),
      Instruction Op_PUSH_CONST (PInt 40),
      Instruction Op_MUL PNone,
      Instruction Op_LOAD_INPUT (PStr ''novelty''),
      Instruction Op_PUSH_CONST (PInt 25),
      Instruction Op_MUL PNone,
      Instruction Op_ADD PNone,
      Instruction Op_LOAD_INPUT (PStr ''entity_relevance''),
      Instruction Op_PUSH_CONST (PInt 20),
      Instruction Op_MUL PNone,
      Instruction Op_ADD PNone,
      Instruction Op_LOAD_INPUT (PStr ''source_diversity''),
      Instruction Op_PUSH_CONST (PInt 15),
      Instruction Op_MUL PNone,
      Instruction Op_ADD PNone,
      Instruction Op_STORE_SCORE PNone,
      Instruction Op_PUSH_CONST (PInt 2),
      Instruction Op_STORE_SEVERITY PNone,
      Instruction Op_PUSH_CONST (PInt 1),
      Instruction Op_STORE_ROUTE PNone,
      Instruction Op_PUSH_CONST (PInt 0),
      Instruction Op_STORE_SUPPRESS PNone,
      Instruction Op_HALT PNone]"

definition capabilities :: pydict where
  "capabilities =
     [(''dialect_version'', PStr DIALECT_VERSION),
      (''inputs'', PList (map PStr INPUTS)),
      (''outputs'', PList (map PStr OUTPUTS)),
      (''limits'', PDict
        [(''max_instructions'', PInt DEFAULT_MAX_INSTRUCTIONS),
         (''max_stack'', PInt DEFAULT_MAX_STACK),
         (''local_registers'', PInt MAX_LOCALS),
         (''midi_banks'', PList (map PInt (sort (map fst INSTRUCTION_BANKS))))]),
      (''instruction_banks'', PDict (map (\<lambda>(bank, instructions).
         (show_int bank, PDict (map (\<lambda>(interval, p). (show_int interval, PStr (op_value p))) instructions)))
         INSTRUCTION_BANKS))]"

section \<open>Errors of the parser\<close>

lemma parse_float_ok: "parse_float s = Some v \<Longrightarrow> isfinite v \<Longrightarrow> fl_ok v"
  by (auto simp: parse_float_def Let_def fl_round_signed_def fl_ok_of_int [of 0, simplified] fl_round_ok
      split: prod.splits if_splits)

lemma constant_operand_fits:
  assumes "parse_float s = Some v"
  shows "constant_fits (Instruction Op_PUSH_CONST (constant_operand v))"
proof (cases "fl_is_integer v")
  case True
  then have "fl_ok v" using parse_float_ok [OF assms] by (simp add: fl_is_integer_def)
  from float_of_int_floor [OF this] show ?thesis
    using True by (simp add: constant_fits_def constant_operand_def)
qed (simp add: constant_fits_def constant_operand_def)

lemma line_error_value [simp]: "line_error w n = Inl e \<longleftrightarrow> e = Exn ValueError (w @ '' on line '' @ show_nat n)"
  "line_error w n \<noteq> Inr x"
  by (auto simp: line_error_def)

lemma parse_line_fits: "parse_line l n = Inr ins \<Longrightarrow> constant_fits ins"
  by (auto simp: parse_line_def parse_operand_def res_simps constant_operand_fits
      split: option.splits if_splits) (auto simp: constant_fits_def LOCAL_OPS_def)

lemma parse_line_error: "parse_line l n = Inl e \<Longrightarrow> exn_cls e = ValueError"
  by (auto simp: parse_line_def parse_operand_def res_simps split: option.splits if_splits)

lemma parse_lines_fits:
  "parse_lines ml n ls ir = Inr r \<Longrightarrow> \<forall>ins\<in>set ir. constant_fits ins \<Longrightarrow> \<forall>ins\<in>set r. constant_fits ins"
proof (induction ls arbitrary: n ir)
  case (Cons l ls)
  show ?case
  proof (cases "is_comment_line (strip l)")
    case False
    with Cons.prems(1) obtain ins where "parse_line (strip l) n = Inr ins"
      and "parse_lines ml (Suc n) ls (ir @ [ins]) = Inr r"
      by (auto simp: Let_def res_simps split: if_splits)
    then show ?thesis using Cons.IH [of "Suc n" "ir @ [ins]"] Cons.prems(2) parse_line_fits by auto
  qed (use Cons in \<open>simp add: Let_def\<close>)
qed simp

lemma parse_lines_error: "parse_lines ml n ls ir = Inl e \<Longrightarrow> exn_cls e = ValueError"
proof (induction ls arbitrary: n ir)
  case (Cons l ls)
  then show ?case by (auto simp: Let_def res_simps dest: parse_line_error split: if_splits)
qed simp

lemma assembly_value_error:
  assumes "parse_assembly source ml = Inl e"
  shows "is_value_error (exn_cls e)"
proof (cases "parse_lines ml 1 (splitlines source) []")
  case (Inl err)
  then show ?thesis using assms parse_lines_error [OF Inl]
    by (auto simp: parse_assembly_def split: if_splits)
next
  case (Inr ir)
  have "\<forall>ins\<in>set (ensure_halt ir). constant_fits ins"
    using parse_lines_fits [OF Inr] by (intro constant_fits_ensure_halt) simp
  then show ?thesis using assms Inr
    by (auto simp: parse_assembly_def res_simps dest: analyze_error split: if_splits)
qed

text \<open>A program the assembler returns is ready to run: it ends with HALT, is within 512
  instructions and needs at most 64 stack slots.\<close>

theorem parse_assembly_ready:
  assumes "parse_assembly source ml = Inr ir"
  shows "ir \<noteq> [] \<and> ins_op (last ir) = Op_HALT \<and> length ir \<le> 512 \<and> well_stacked 64 0 ir"
proof -
  obtain r where r: "ir = ensure_halt r" and a: "is_ok (analyze (ensure_halt r))"
    using assms by (auto simp: parse_assembly_def res_simps is_ok_iff split: if_splits)
  have "is_ok (analyze_ir ir 512 64)"
    using a r by (simp add: DEFAULT_MAX_INSTRUCTIONS_def DEFAULT_MAX_STACK_def)
  then have "ir \<noteq> [] \<and> length ir \<le> 512 \<and> well_stacked 64 0 ir" by (simp add: analyze_ok_iff)
  then show ?thesis by (simp add: r ensure_halt_def)
qed

text \<open>A listing with an index, a comment, an exponent and a missing HALT.\<close>

definition sample_source :: string where
  "sample_source = ''# demo'' @ [CHR 0x0A] @ ''001: PUSH_CONST 2.5e1 # x'' @ [CHR 0x0D, CHR 0x0A] @ ''  STORE_SCORE''"

theorem parse_assembly_ready_witness:
  "\<exists>ir. parse_assembly sample_source 1024 = Inr ir \<and> ins_op (last ir) = Op_HALT"
proof -
  have "parse_assembly sample_source 1024
    = Inr [Instruction Op_PUSH_CONST (PInt 25), Instruction Op_STORE_SCORE PNone, Instruction Op_HALT PNone]"
    by code_simp
  from parse_assembly_ready [OF this] this show ?thesis by blast
qed

section \<open>Lines\<close>

text \<open>The lines of a text, each with its newline, take at most one byte more than the text.\<close>

definition lines_len :: "string list \<Rightarrow> nat" where
  "lines_len ls = sum_list (map (\<lambda>l. utf8_len l + 1) ls)"

lemma lines_len_splitlines: "lines_len (splitlines s) \<le> utf8_len s + 1"
proof (induction s rule: length_induct)
  case (1 s)
  let ?l = "takeWhile (\<lambda>c. \<not> is_line_end c) s" and ?r = "dropWhile (\<lambda>c. \<not> is_line_end c) s"
  show ?case
  proof (cases "s = []")
    case False
    then obtain t where t: "splitlines s = ?l # splitlines t" "length t < length s"
      "?r = [] \<and> t = [] \<or> utf8_len t + 1 \<le> utf8_len ?r"
      by (rule splitlines_Cons_eq)
    have "utf8_len s = utf8_len ?l + utf8_len ?r"
      by (metis takeWhile_dropWhile_id utf8_len_append)
    moreover have "lines_len (splitlines t) \<le> utf8_len t + 1" using 1 t(2) by blast
    ultimately show ?thesis using t(1,3) by (auto simp: lines_len_def)
  qed (simp add: lines_len_def)
qed

lemma utf8_len_join: "ls \<noteq> [] \<Longrightarrow> utf8_len (join [CHR 0x0A] ls) + 1 = lines_len ls"
  by (induction ls) (auto simp: lines_len_def)

lemma lines_len_filter: "lines_len (filter P ls) \<le> lines_len ls"
  by (induction ls) (auto simp: lines_len_def)

section \<open>Comments\<close>

definition strip_comments :: "string \<Rightarrow> string" where
  "strip_comments source =
     join [CHR 0x0A] (filter (\<lambda>l. \<not> is_comment_line (strip l)) (splitlines source))"

lemma parse_line_ok_any: "parse_line l n = Inr ins \<Longrightarrow> parse_line l k = Inr ins"
  by (auto simp: parse_line_def parse_operand_def res_simps split: option.splits if_splits)

lemma parse_lines_filter:
  "parse_lines ml n ls ir = Inr r \<Longrightarrow>
   parse_lines ml k (filter (\<lambda>l. \<not> is_comment_line (strip l)) ls) ir = Inr r"
proof (induction ls arbitrary: n k ir)
  case (Cons l ls)
  show ?case
  proof (cases "is_comment_line (strip l)")
    case False
    with Cons.prems obtain ins where ins: "parse_line (strip l) n = Inr ins" "\<not> ml \<le> int (length ir)"
      and rest: "parse_lines ml (Suc n) ls (ir @ [ins]) = Inr r"
      by (auto simp: Let_def res_simps split: if_splits)
    from Cons.IH [OF rest, of "Suc k"] parse_line_ok_any [OF ins(1), of k] ins(2) False
    show ?thesis by simp
  qed (use Cons in \<open>simp add: Let_def\<close>)
qed simp

lemma not_comment_nonempty: "\<not> is_comment_line (strip l) \<Longrightarrow> l \<noteq> []"
  by (auto simp: is_comment_line_def strip_def lstrip_def rstrip_def)

text \<open>Comments and blank lines mean nothing: removing them from a source that assembles
  leaves the program the same.\<close>

theorem parse_assembly_comments:
  assumes "parse_assembly source ml = Inr ir"
  shows "parse_assembly (strip_comments source) ml = Inr ir"
proof -
  let ?ls = "filter (\<lambda>l. \<not> is_comment_line (strip l)) (splitlines source)"
  obtain r where a: "utf8_len source \<le> 128000" "parse_lines ml 1 (splitlines source) [] = Inr r"
    "ir = ensure_halt r" "is_ok (analyze ir)"
    using assms by (auto simp: parse_assembly_def res_simps is_ok_iff split: if_splits)
  have "splitlines (strip_comments source) = ?ls"
    unfolding strip_comments_def
    by (rule splitlines_join) (auto simp: splitlines_one_line dest: not_comment_nonempty)
  moreover have "utf8_len (strip_comments source) \<le> utf8_len source"
  proof (cases "?ls = []")
    case True
    then show ?thesis unfolding strip_comments_def True by simp
  next
    case False
    then show ?thesis
      using utf8_len_join [OF False] lines_len_splitlines [of source]
        lines_len_filter [of "\<lambda>l. \<not> is_comment_line (strip l)" "splitlines source"]
      unfolding strip_comments_def by linarith
  qed
  ultimately show ?thesis
    using a parse_lines_filter [OF a(2), of 1] by (auto simp: parse_assembly_def is_ok_iff)
qed

theorem parse_assembly_comments_witness:
  "parse_assembly (''001: PUSH_CONST 2.5e1 # x'' @ [CHR 0x0A] @ ''  STORE_SCORE'') 1024
   = Inr [Instruction Op_PUSH_CONST (PInt 25), Instruction Op_STORE_SCORE PNone, Instruction Op_HALT PNone]"
proof -
  have "parse_assembly sample_source 1024
    = Inr [Instruction Op_PUSH_CONST (PInt 25), Instruction Op_STORE_SCORE PNone, Instruction Op_HALT PNone]"
    by code_simp
  moreover have "strip_comments sample_source = ''001: PUSH_CONST 2.5e1 # x'' @ [CHR 0x0A] @ ''  STORE_SCORE''"
    by code_simp
  ultimately show ?thesis using parse_assembly_comments by metis
qed

section \<open>The listing and the assembler\<close>

lemma op_value_chars: "op_value p \<noteq> [] \<and> (\<forall>c\<in>set (op_value p). is_op_char c \<and> \<not> is_space c \<and> \<not> is_line_end c)"
proof -
  have "list_all (\<lambda>p. op_value p \<noteq> [] \<and> list_all (\<lambda>c. is_op_char c \<and> \<not> is_space c \<and> \<not> is_line_end c) (op_value p)) all_ops"
    by code_simp
  then show ?thesis using all_ops_complete by (auto simp: list_all_iff)
qed

lemma char_facts [simp]:
  "is_space (CHR '' '')" "\<not> is_op_char (CHR '' '')" "\<not> is_space (CHR ''#'')" "\<not> is_digit (CHR '':'')"
  "\<not> is_digit (CHR ''#'')" "\<not> is_space (CHR '':'')" "\<not> is_line_end (CHR '':'')" "\<not> is_line_end (CHR '' '')" "\<not> is_line_end (CHR ''#'')"
  by code_simp+

lemma one_line_tail_literals [simp]: "one_line ''  # channel=''" "one_line '' interval=''"
  by code_simp+

lemma skip_index_listing:
  assumes "\<forall>c\<in>set d. is_digit c" and "d \<noteq> []" and "s \<noteq> []" and "\<not> is_space (hd s)"
  shows "skip_index (d @ '': '' @ s) = s"
proof -
  have "takeWhile is_digit (d @ '': '' @ s) = d" "dropWhile is_digit (d @ '': '' @ s) = '': '' @ s"
    using takeWhile_dropWhile_split [OF assms(1), of "'': '' @ s"] by auto
  then show ?thesis using assms(2-4) by (cases s) (auto simp: skip_index_def lstrip_def)
qed

lemma match_operand_two_spaces: "match_operand (''  #'' @ t) = Some (Some '' '')"
  by (simp add: match_operand_def)

lemma match_line_listing:
  assumes "\<forall>c\<in>set d. is_digit c" and "d \<noteq> []"
  shows "match_line (d @ '': '' @ op_value p @ ''  #'' @ t) = Some (op_value p, Some '' '')"
proof -
  note v = op_value_chars [of p]
  have "takeWhile is_op_char (op_value p @ ''  #'' @ t) = op_value p"
    "dropWhile is_op_char (op_value p @ ''  #'' @ t) = ''  #'' @ t"
    using takeWhile_dropWhile_split [of "op_value p" is_op_char "''  #'' @ t"] v by auto
  moreover have "skip_index (d @ '': '' @ (op_value p @ ''  #'' @ t)) = op_value p @ ''  #'' @ t"
    using v by (intro skip_index_listing assms) auto
  ultimately show ?thesis
    using v by (simp add: match_line_def Let_def match_operand_two_spaces [simplified])
qed

lemma strip_listing:
  assumes "\<forall>c\<in>set d. is_digit c" and "d \<noteq> []"
  shows "strip (d @ s @ show_pos n) = d @ s @ show_pos n"
  using assms last_show_pos [of n] show_pos_nonempty [of n]
  by (intro strip_id) (auto simp: is_digit_not_space)

lemma listing_line_refused:
  assumes "ins_arg ins = PNone" and "ins_op ins \<notin> set OPERAND_OPS"
  shows "\<exists>e. parse_line (strip (decompile_line i ins)) n = Inl e" and "\<not> is_comment_line (strip (decompile_line i ins))"
proof -
  note z = zero_pad_digits [of 3 i] zero_pad_nonempty [of 3 i]
  obtain b k where e: "op_encoding (ins_op ins) = (b, k)" and k: "0 \<le> k"
    using op_encoding_bounds [of "ins_op ins"] by (cases "op_encoding (ins_op ins)") auto
  have line: "decompile_line i ins = zero_pad 3 i @ ('': '' @ op_value (ins_op ins) @ ''  #''
      @ '' channel='' @ show_int b @ '' interval='') @ show_pos k"
    using assms(1) k by (simp add: decompile_line_def e show_int_def)
  have s: "strip (decompile_line i ins) = decompile_line i ins"
    unfolding line by (rule strip_listing [OF z])
  have "match_line (decompile_line i ins) = Some (op_value (ins_op ins), Some '' '')"
    using match_line_listing [OF z, of "ins_op ins" "'' channel='' @ show_int b @ '' interval='' @ show_pos k"]
    by (simp add: line)
  then show "\<exists>e. parse_line (strip (decompile_line i ins)) n = Inl e"
    using assms(2) by (simp add: s parse_line_def parse_operand_def group_text_def OPERAND_OPS_def LOCAL_OPS_def line_error_def)
  show "\<not> is_comment_line (strip (decompile_line i ins))"
    unfolding s unfolding line using z by (cases "zero_pad 3 i") (auto simp: is_comment_line_def)
qed

lemma operand_one_line:
  assumes "validate_instruction ins = Inr ()"
  shows "one_line (py_str (ins_arg ins))"
proof -
  have inputs: "list_all one_line INPUTS" by code_simp
  have t: "one_line ''True''" "one_line ''False''" "one_line ''None''" by code_simp+
  have "is_number (ins_arg ins) \<or> ins_arg ins = PNone \<or> (\<exists>s. ins_arg ins = PStr s \<and> s \<in> set INPUTS)"
    using assms validate_push_const validate_load_input validate_local validate_no_operand as_int_is_number
    by (cases "ins_op ins \<in> set OPERAND_OPS") (force simp: OPERAND_OPS_def LOCAL_OPS_def)+
  then show ?thesis
    using inputs t by (cases "ins_arg ins") (auto simp: py_str_def one_line_show_int one_line_float_repr list_all_iff)
qed

lemma decompile_line_one_line:
  "validate_instruction ins = Inr () \<Longrightarrow> one_line (decompile_line i ins) \<and> decompile_line i ins \<noteq> []"
proof -
  assume v: "validate_instruction ins = Inr ()"
  have "one_line (op_value (ins_op ins))" using op_value_chars [of "ins_op ins"] by (simp add: one_line_def)
  then show ?thesis
    using operand_one_line [OF v] zero_pad_nonempty [of 3 i]
      one_line_tail_literals
    by (auto simp del: one_line_tail_literals simp: decompile_line_def one_line_show_int split: prod.splits)
qed

lemma splitlines_join_prefix:
  "\<forall>l\<in>set ls. one_line l \<and> l \<noteq> [] \<Longrightarrow> set ls \<subseteq> set (splitlines (join [CHR 0x0A] (ls @ rest)))"
  by (induction ls) (auto simp: splitlines_last splitlines_line)

lemma parse_lines_refused:
  "l \<in> set ls \<Longrightarrow> \<not> is_comment_line (strip l) \<Longrightarrow> \<forall>n. \<exists>e. parse_line (strip l) n = Inl e \<Longrightarrow>
   \<exists>e. parse_lines ml n ls ir = Inl e"
proof (induction ls arbitrary: n ir)
  case (Cons l' ls)
  show ?case
  proof (cases "l = l'")
    case True
    then obtain e where "parse_line (strip l') n = Inl e" using Cons.prems(3) by blast
    then show ?thesis using Cons.prems(2) True by (simp add: Let_def)
  next
    case False
    then have "l \<in> set ls" using Cons.prems(1) by simp
    from Cons.IH [OF this Cons.prems(2,3)] show ?thesis
      by (cases "parse_line (strip l') n") (auto simp: Let_def)
  qed
qed simp

lemma well_stacked_live_valid:
  "well_stacked ms d ir \<Longrightarrow> ins \<in> set (live_part ir) \<Longrightarrow> validate_instruction ins = Inr ()"
  by (induction ir arbitrary: d) (auto split: prod.splits if_splits)

lemma live_part_prefix: "\<exists>rest. ir = live_part ir @ rest"
  by (induction ir) auto

lemma live_part_operandless:
  assumes "ins \<in> set ir" and "ins_op ins \<notin> set OPERAND_OPS"
  shows "\<exists>ins'\<in>set (live_part ir). ins_op ins' \<notin> set OPERAND_OPS"
  using assms
proof (induction ir)
  case (Cons x ir)
  then show ?case by (cases "ins_op x = Op_HALT") (auto simp: OPERAND_OPS_def)
qed simp

text \<open>The listing of an accepted program is not assembly: if any of its instructions
  takes no operand (every program with a HALT has one), the assembler refuses the listing,
  because the two blanks before the comment are read as an operand.\<close>

theorem decompile_refused:
  assumes "is_ok (analyze ir)" and "\<exists>ins\<in>set ir. ins_op ins \<notin> set OPERAND_OPS"
  shows "\<not> is_ok (parse_assembly (decompile ir) ml)"
proof -
  have w: "well_stacked 64 0 ir"
    using assms(1) analyze_ok_iff [of DEFAULT_MAX_STACK ir] by (simp add: DEFAULT_MAX_STACK_def)
  obtain ins where ins: "ins \<in> set (live_part ir)" "ins_op ins \<notin> set OPERAND_OPS"
    using assms(2) live_part_operandless by blast
  obtain i where i: "i < length (live_part ir)" "ins = live_part ir ! i"
    using ins(1) by (auto simp: in_set_conv_nth)
  obtain rest where rest: "ir = live_part ir @ rest" using live_part_prefix by blast
  define line where "line = (\<lambda>(i, ins). decompile_line i ins)"
  let ?ls = "map line (enumerate 0 (live_part ir))"
  have d: "decompile ir = join [CHR 0x0A] (?ls @ map line (enumerate (length (live_part ir)) rest))"
    by (subst (1) rest) (simp add: decompile_def line_def enumerate_append_eq)
  have valid: "validate_instruction x = Inr ()" if "x \<in> set (live_part ir)" for x
    using well_stacked_live_valid [OF w that] .
  have "\<forall>l\<in>set ?ls. one_line l \<and> l \<noteq> []"
    using decompile_line_one_line valid by (auto simp: line_def in_set_enumerate_eq)
  from splitlines_join_prefix [OF this] have "set ?ls \<subseteq> set (splitlines (decompile ir))"
    unfolding d by blast
  moreover have "decompile_line i ins \<in> set ?ls"
    using i by (force simp: line_def in_set_enumerate_eq)
  ultimately have m: "decompile_line i ins \<in> set (splitlines (decompile ir))" by blast
  have "ins_arg ins = PNone" using valid [OF ins(1)] ins(2) by (rule validate_no_operand)
  from parse_lines_refused [OF m] listing_line_refused [OF this ins(2)]
  have "\<exists>e. parse_lines ml 1 (splitlines (decompile ir)) [] = Inl e" by blast
  then show ?thesis by (auto simp: parse_assembly_def)
qed

theorem decompile_refused_witness:
  "\<not> is_ok (parse_assembly (decompile default_policy_ir) 1024)"
proof -
  have "is_ok (analyze default_policy_ir)" by code_simp
  moreover have "\<exists>ins\<in>set default_policy_ir. ins_op ins \<notin> set OPERAND_OPS" by code_simp
  ultimately show ?thesis by (rule decompile_refused)
qed

section \<open>The JSON form\<close>

text \<open>JSON is a form of programs in which nothing is normalised.\<close>

interpretation json: instruction_codec
  "\<lambda>ins. Inr (serialize_instruction ins)" "deserialize_item k" "\<lambda>ins. ins"
  for k
  by unfold_locales
    (auto simp: serialize_instruction_def deserialize_item_def py_str_def dict_get_or_def)

lemma deserialize_items_res_map:
  "res_map (deserialize_item k) items = Inr ir \<Longrightarrow> deserialize_items j items = Inr ir"
proof (induction items arbitrary: j ir)
  case (Cons item items)
  then obtain ins rest where "deserialize_item k item = Inr ins" "res_map (deserialize_item k) items = Inr rest"
    "ir = ins # rest"
    by (auto simp: res_simps)
  moreover from this(1) have "deserialize_item j item = Inr ins"
    by (auto simp: deserialize_item_def split: option.splits)
  ultimately show ?case using Cons.IH by simp
qed simp

text \<open>C30. A serialised program reads back exactly as it was, dead code included, and the
  reader answers with the analysis of the program: it accepts what the analysis accepts and
  raises what the analysis raises.\<close>

theorem deserialize_serialize:
  "deserialize_ir (serialize_ir ir) = res_bind (analyze ir) (\<lambda>_. Inr ir)"
proof -
  have "res_map (\<lambda>ins. Inr (serialize_instruction ins)) ir = Inr (serialize_ir ir)"
    unfolding serialize_ir_def by (rule res_map_Inr_map) simp
  from json.decode_all [OF this, of 0] have "res_map (deserialize_item 0) (serialize_ir ir) = Inr ir" by simp
  from deserialize_items_res_map [OF this] show ?thesis by (simp add: deserialize_ir_def)
qed

text \<open>A constant too large for a float is not reported as a ValueError: reading such
  a program raises OverflowError, which the service does not catch.\<close>

theorem deserialize_overflow:
  "deserialize_ir [[(''op'', PStr ''PUSH_CONST''), (''arg'', PInt (2 ^ 1024))]]
   = Inl (Exn OverflowError ''int too large to convert to float'')"
proof -
  have "py_float (PInt (2 ^ 1024)) = Inl (Exn OverflowError ''int too large to convert to float'')"
    using fl_round_2_1024 by (simp add: float_of_int_def)
  then have "validate_instruction (Instruction Op_PUSH_CONST (PInt (2 ^ 1024)))
      = Inl (Exn OverflowError ''int too large to convert to float'')"
    unfolding validate_instruction_def by simp
  then have "analyze [Instruction Op_PUSH_CONST (PInt (2 ^ 1024))]
      = Inl (Exn OverflowError ''int too large to convert to float'')"
    by (simp add: analyze_ir_def analysis_step_def DEFAULT_MAX_INSTRUCTIONS_def del: power_numeral)
  then show ?thesis
    using op_of_value_value [of Op_PUSH_CONST]
    by (simp add: deserialize_ir_def deserialize_item_def py_str_def dict_get_or_def del: power_numeral)
qed

end
