(* ===== verification/VelatoService.thy ===== *)
theory VelatoService
  imports VelatoMidi VelatoAsm
begin

text \<open>
  \<open>services/velato-engine/app.py\<close>: the HTTP service that validates, assembles and simulates
  programs.  The MIDI file format is a parameter, as in \<open>VelatoMidi\<close>.
\<close>

section \<open>Requests\<close>

record assembly_request =
  ar_assembly :: string
  ar_root_note :: int

record simulation_request =
  sr_inputs :: "(string \<times> pyfloat) list"
  sr_midi_base64 :: "string option"
  sr_assembly :: "string option"

text \<open>The limits of the request models; a request outside them never reaches the endpoint.\<close>

definition midi_request_ok :: "string \<Rightarrow> bool" where
  "midi_request_ok s = (4 \<le> length s \<and> int (length s) \<le> 180000)"

definition assembly_request_ok :: "assembly_request \<Rightarrow> bool" where
  "assembly_request_ok r = (1 \<le> length (ar_assembly r) \<and> int (length (ar_assembly r)) \<le> 128000
     \<and> 0 \<le> ar_root_note r \<and> ar_root_note r \<le> 116)"

definition at_most :: "int \<Rightarrow> string option \<Rightarrow> bool" where
  "at_most n v = (case v of None \<Rightarrow> True | Some s \<Rightarrow> int (length s) \<le> n)"

definition simulation_request_ok :: "simulation_request \<Rightarrow> bool" where
  "simulation_request_ok r = (at_most 180000 (sr_midi_base64 r) \<and> at_most 128000 (sr_assembly r))"

section \<open>Endpoints\<close>

definition unprocessable :: "string \<Rightarrow> 'a res" where
  "unprocessable detail = Inl (Exn HTTPException (''422: '' @ detail))"

text \<open>\<open>try: r except classes as error: raise HTTPException(422, str(error))\<close>\<close>

definition client_error :: "(exn_class \<Rightarrow> bool) \<Rightarrow> 'a res \<Rightarrow> 'a res" where
  "client_error P r = (case r of Inr x \<Rightarrow> Inr x
     | Inl e \<Rightarrow> if P (exn_cls e) then unprocessable (exn_msg e) else Inl e)"

definition decode_midi :: "string \<Rightarrow> bytes res" where
  "decode_midi value = (case b64decode value of Some bs \<Rightarrow> Inr bs | None \<Rightarrow> unprocessable ''invalid MIDI base64'')"

definition compile_source :: "midi_load \<Rightarrow> bytes \<Rightarrow> (midi_note list \<times> program) res" where
  "compile_source load source =
     client_error (\<lambda>c. is_value_error c \<or> c = OSError \<or> c = EOFError)
       (res_bind (parse_midi load source 128000 1024) (\<lambda>notes.
        res_bind (compile_notes notes) (\<lambda>ir. Inr (notes, ir))))"

definition compile_assembly :: "string \<Rightarrow> program res" where
  "compile_assembly source = client_error is_value_error (parse_assembly source 1024)"

definition validate_input :: "(string \<times> pyfloat) list \<Rightarrow> string \<Rightarrow> (string \<times> pyval) res" where
  "validate_input inputs name = (case map_of inputs name of
     None \<Rightarrow> Inl (Exn KeyError name)
   | Some value \<Rightarrow> if fl_lt value (Fin 0) \<or> fl_lt (Fin 10000) value
       then unprocessable (''input '' @ name @ '' is outside allowed range'')
       else Inr (name, PFloat value))"

definition validate_inputs :: "(string \<times> pyfloat) list \<Rightarrow> pydict res" where
  "validate_inputs inputs =
     (let missing = filter (\<lambda>name. map_of inputs name = None) INPUTS
      in if missing \<noteq> [] then unprocessable (''missing inputs: '' @ join '', '' missing)
         else res_map (validate_input inputs) INPUTS)"

definition analysis_dump :: "program_analysis \<Rightarrow> pyval" where
  "analysis_dump a = PDict
     [(''instruction_count'', PInt (int (instruction_count a))), (''max_stack_depth'', PInt (int (max_stack_depth a))),
      (''final_stack_depth'', PInt (int (final_stack_depth a))),
      (''required_inputs'', PList (map PStr (required_inputs a))),
      (''local_registers'', PList (map PInt (local_registers a))),
      (''outputs_written'', PList (map PStr (outputs_written a))), (''warnings'', PList (map PStr (warnings a)))]"

definition result_dump :: "policy_result \<Rightarrow> pydict" where
  "result_dump r =
     [(''alert_score'', PInt (alert_score r)), (''severity_code'', PInt (severity_code r)),
      (''routing_code'', PInt (routing_code r)), (''suppressed'', PBool (suppressed r)),
      (''instructions_executed'', PInt (int (instructions_executed r))),
      (''max_stack_depth'', PInt (int (result_max_stack_depth r))), (''trace_hash'', PStr (trace_hash r))]"

definition ir_dump :: "program \<Rightarrow> pyval" where
  "ir_dump ir = PList (map PDict (serialize_ir ir))"

definition healthz :: pydict where
  "healthz = [(''status'', PStr ''ok''), (''version'', PStr ''1.1.0''), (''dialect_version'', PStr DIALECT_VERSION)]"

definition get_capabilities :: pydict where
  "get_capabilities = capabilities"

definition validate_program :: "midi_load \<Rightarrow> string \<Rightarrow> pydict res" where
  "validate_program load midi_base64 =
     res_bind (decode_midi midi_base64) (\<lambda>source.
     res_bind (compile_source load source) (\<lambda>(notes, ir).
     res_bind (analyze ir) (\<lambda>analysis.
       Inr [(''valid'', PBool True), (''compiler_version'', PStr DIALECT_VERSION),
         (''note_count'', PInt (int (length notes))), (''instruction_count'', PInt (int (length ir))),
         (''ir_sha256'', PStr (ir_sha256 ir)), (''source_sha256'', PStr (hexdigest (sha256 source))),
         (''analysis'', analysis_dump analysis), (''ir'', ir_dump ir), (''decompiled'', PStr (decompile ir))])))"

definition assemble_program :: "midi_save \<Rightarrow> assembly_request \<Rightarrow> pydict res" where
  "assemble_program save request =
     res_bind (compile_assembly (ar_assembly request)) (\<lambda>ir.
     res_bind (client_error is_value_error (encode_midi save ir (ar_root_note request) 480 120)) (\<lambda>midi.
     res_bind (analyze ir) (\<lambda>analysis.
       Inr [(''valid'', PBool True), (''compiler_version'', PStr DIALECT_VERSION),
         (''midi_base64'', PStr (b64encode midi)), (''midi_sha256'', PStr (hexdigest (sha256 midi))),
         (''ir_sha256'', PStr (ir_sha256 ir)), (''analysis'', analysis_dump analysis),
         (''ir'', ir_dump ir), (''decompiled'', PStr (decompile ir))])))"

definition nonempty :: "string option \<Rightarrow> string option" where
  "nonempty v = (case v of Some (c # s) \<Rightarrow> Some (c # s) | _ \<Rightarrow> None)"

text \<open>Which program a simulation runs: the posted one, the default file if it exists, or the
  built-in policy.  \<open>default_file\<close> is what reading the default file gives.\<close>

definition simulation_program ::
  "midi_load \<Rightarrow> bytes res option \<Rightarrow> simulation_request \<Rightarrow> (program \<times> string) res" where
  "simulation_program load default_file request =
     (case (nonempty (sr_midi_base64 request), nonempty (sr_assembly request)) of
        (Some _, Some _) \<Rightarrow> unprocessable ''provide either MIDI or assembly, not both''
      | (Some m, None) \<Rightarrow> res_bind (decode_midi m) (\<lambda>source.
          res_bind (compile_source load source) (\<lambda>(_, ir). Inr (ir, ''velato-midi'')))
      | (None, Some a) \<Rightarrow> res_bind (compile_assembly a) (\<lambda>ir. Inr (ir, ''velato-assembly''))
      | (None, None) \<Rightarrow> (case default_file of
          Some content \<Rightarrow> res_bind content (\<lambda>source.
            res_bind (compile_source load source) (\<lambda>(_, ir). Inr (ir, ''velato-midi-default'')))
        | None \<Rightarrow> Inr (default_policy_ir, ''fallback-rules'')))"

definition simulate ::
  "pow_fun \<Rightarrow> midi_load \<Rightarrow> bytes res option \<Rightarrow> simulation_request \<Rightarrow> pydict res" where
  "simulate math_pow load default_file request =
     res_bind (simulation_program load default_file request) (\<lambda>(ir, execution_engine).
     res_bind (validate_inputs (sr_inputs request)) (\<lambda>inputs.
     res_bind (client_error is_value_error
       (execute math_pow ir (PDict inputs) DEFAULT_MAX_INSTRUCTIONS DEFAULT_MAX_STACK)) (\<lambda>result.
     res_bind (analyze ir) (\<lambda>analysis.
       Inr (dict_merge (result_dump result)
         [(''execution_engine'', PStr execution_engine), (''compiler_version'', PStr DIALECT_VERSION),
          (''ir_sha256'', PStr (ir_sha256 ir)), (''analysis'', analysis_dump analysis),
          (''decompiled'', PStr (decompile ir))])))))"

section \<open>Which failures are client errors\<close>

text \<open>What is relied on in the MIDI library: the messages of a file it reads have fields in range, which
  the library checks when it builds a message.  Which exceptions it raises for a file it cannot
  read is left open.\<close>

definition messages_checked :: "midi_load \<Rightarrow> bool" where
  "messages_checked load \<longleftrightarrow> (\<forall>data tracks. load data = Inr tracks \<longrightarrow> (\<forall>t\<in>set tracks. list_all message_valid t))"

definition note_valid :: "midi_note \<Rightarrow> bool" where
  "note_valid n = message_fields_ok (mn_note n) (mn_velocity n) (mn_channel n)"

lemma note_valid_make [simp]:
  "note_valid \<lparr>mn_note = n, mn_velocity = v, mn_channel = c\<rparr> = message_fields_ok n v c"
  by (simp add: note_valid_def)

lemma collect_notes_valid:
  "collect_notes mn msgs ns = Inr r \<Longrightarrow> list_all message_valid msgs \<Longrightarrow> list_all note_valid ns \<Longrightarrow> list_all note_valid r"
proof (induction msgs arbitrary: ns)
  case (Cons m msgs)
  obtain ns' where c: "collect_note mn m ns = Inr ns'" "collect_notes mn msgs ns' = Inr r"
    using Cons.prems(1) by (auto simp: res_simps)
  then have "list_all note_valid ns'"
    using Cons.prems(2,3)
    by (cases m) (auto simp: collect_note_def Let_def split: if_splits)
  then show ?case using Cons.IH [OF c(2)] Cons.prems(2) by simp
qed simp

lemma collect_notes_error: "collect_notes mn msgs ns = Inl e \<Longrightarrow> exn_cls e = ValueError"
proof (induction msgs arbitrary: ns)
  case (Cons m msgs)
  then show ?case by (auto simp: res_simps collect_note_def Let_def split: if_splits midi_message.splits)
qed simp

lemma parse_midi_valid:
  assumes "parse_midi load data mb mn = Inr notes" and "messages_checked load"
  shows "list_all note_valid notes \<and> 2 \<le> length notes"
proof -
  obtain tracks where t: "load data = Inr tracks" "collect_notes mn (concat tracks) [] = Inr notes" "2 \<le> length notes"
    using assms(1) by (auto simp: parse_midi_def res_simps not_less split: if_splits)
  have "\<forall>t\<in>set tracks. list_all message_valid t" using assms(2) t(1) unfolding messages_checked_def by blast
  then have "list_all message_valid (concat tracks)" by (auto simp: list_all_iff)
  from collect_notes_valid [OF t(2) this] t(3) show ?thesis by simp
qed

lemma parse_midi_error:
  "parse_midi load data mb mn = Inl e \<Longrightarrow> is_value_error (exn_cls e) \<or> load data = Inl e"
  by (auto simp: parse_midi_def res_simps dest: collect_notes_error split: if_splits)

lemma banks_complete:
  assumes "map_of INSTRUCTION_BANKS channel = Some bank"
  shows "\<exists>p. map_of bank (i mod 12) = Some p"
proof -
  have "\<forall>b\<in>set (map snd INSTRUCTION_BANKS). \<forall>k\<in>set [0..11]. map_of b k \<noteq> None" by code_simp
  moreover have "bank \<in> set (map snd INSTRUCTION_BANKS)" using map_of_SomeD [OF assms] by force
  ultimately have "\<forall>k\<in>set [0..11]. map_of bank k \<noteq> None" by blast
  then have "map_of bank (i mod 12) \<noteq> None" by simp
  then show ?thesis by blast
qed

lemma compile_event_error:
  assumes "compile_event tonic e = Inl x"
  shows "exn_cls x = ValueError"
proof (cases "map_of INSTRUCTION_BANKS (mn_channel e)")
  case (Some bank)
  obtain p where "map_of bank ((mn_note e - tonic) mod 12) = Some p" using banks_complete [OF Some] by blast
  then show ?thesis using assms Some
    by (auto simp: compile_event_def decode_operand_def res_simps Let_def split: if_splits)
qed (use assms in \<open>auto simp: compile_event_def\<close>)

lemma compile_event_fits:
  assumes "compile_event tonic e = Inr ins" and "note_valid e"
  shows "constant_fits ins"
proof -
  have "\<bar>mn_velocity e - 1\<bar> < 2 ^ 53" using assms(2)
    by (auto simp: note_valid_def message_fields_ok_def abs_less_iff)
  from float_of_int_small [OF this] show ?thesis using assms(1)
    by (auto simp: compile_event_def decode_operand_def constant_fits_def res_simps Let_def
        split: if_splits option.splits)
qed

lemma decode_events:
  assumes "list_all note_valid es"
  shows "case decode_until_halt (compile_event tonic) es of Inl x \<Rightarrow> exn_cls x = ValueError
     | Inr ir \<Rightarrow> \<forall>ins\<in>set ir. constant_fits ins"
  using assms
proof (induction es)
  case (Cons e es)
  show ?case
  proof (cases "compile_event tonic e")
    case (Inl x)
    then show ?thesis using compile_event_error [OF Inl] by simp
  next
    case (Inr ins)
    then show ?thesis using compile_event_fits [OF Inr] Cons
      by (cases "decode_until_halt (compile_event tonic) es") auto
  qed
qed simp

lemma compile_notes_error:
  assumes "compile_notes ns = Inl x" and "list_all note_valid ns" and "ns \<noteq> []"
  shows "is_value_error (exn_cls x)"
proof -
  obtain tonic es where n: "ns = tonic # es" using assms(3) by (cases ns) auto
  have d: "case decode_until_halt (compile_event (mn_note tonic)) es of Inl x \<Rightarrow> exn_cls x = ValueError
     | Inr ir \<Rightarrow> \<forall>ins\<in>set ir. constant_fits ins" using assms(2) n by (intro decode_events) simp
  show ?thesis
  proof (cases "decode_until_halt (compile_event (mn_note tonic)) es")
    case (Inr ir)
    have "\<forall>ins\<in>set (ensure_halt ir). constant_fits ins"
      using d Inr by (intro constant_fits_ensure_halt) simp
    then show ?thesis using assms(1) Inr n by (auto simp: compile_notes_def res_simps dest: analyze_error)
  qed (use d assms(1) n in \<open>auto simp: compile_notes_def\<close>)
qed

text \<open>A program that was accepted passes the analysis.\<close>

lemma compile_notes_analyzed: "compile_notes notes = Inr ir \<Longrightarrow> is_ok (analyze ir)"
  by (auto simp: compile_notes_def res_simps is_ok_iff split: list.splits)

lemma parse_assembly_analyzed: "parse_assembly s n = Inr ir \<Longrightarrow> is_ok (analyze ir)"
  by (auto simp: parse_assembly_def res_simps is_ok_iff split: if_splits)

text \<open>What a stage of an endpoint promises: a result with \<open>P\<close>, a client error, or one of the exceptions
  \<open>A\<close> that no handler catches.\<close>

definition served :: "(exn \<Rightarrow> bool) \<Rightarrow> ('a \<Rightarrow> bool) \<Rightarrow> 'a res \<Rightarrow> bool" where
  "served A P r = (case r of Inr x \<Rightarrow> P x | Inl e \<Rightarrow> exn_cls e = HTTPException \<or> A e)"

named_theorems served_intros

lemma served_simps [simp]: "served A P (Inr x) = P x" "served A P (Inl e) = (exn_cls e = HTTPException \<or> A e)"
  "served A P (unprocessable d)"
  by (simp_all add: served_def unprocessable_def)

lemma served_bind [served_intros]:
  "served A Q r \<Longrightarrow> (\<And>x. r = Inr x \<Longrightarrow> Q x \<Longrightarrow> served A P (f x)) \<Longrightarrow> served A P (res_bind r f)"
  by (cases r) auto

lemma served_weaken: "served A P r \<Longrightarrow> (\<And>e. A e \<Longrightarrow> B e) \<Longrightarrow> served B P r"
  by (cases r) auto

lemma client_error_Inr [res_simps]: "client_error P r = Inr x \<longleftrightarrow> r = Inr x"
  by (cases r) (auto simp: client_error_def unprocessable_def)

lemma served_client_error:
  "(\<And>e. r = Inl e \<Longrightarrow> C (exn_cls e) \<or> A e) \<Longrightarrow> (\<And>x. r = Inr x \<Longrightarrow> P x) \<Longrightarrow> served A P (client_error C r)"
  by (cases r) (auto simp: client_error_def)

lemma served_decode_midi: "served A (\<lambda>_. True) (decode_midi s)"
  by (simp add: decode_midi_def split: option.split)

text \<open>The exceptions of the MIDI library that \<open>compile_source\<close> does not catch.\<close>

definition uncaught :: "exn \<Rightarrow> bool" where
  "uncaught e \<longleftrightarrow> \<not> is_value_error (exn_cls e) \<and> exn_cls e \<noteq> OSError \<and> exn_cls e \<noteq> EOFError"

lemma served_compile_source:
  assumes "messages_checked load"
  shows "served (\<lambda>e. load source = Inl e \<and> uncaught e) (\<lambda>(_, ir). is_ok (analyze ir)) (compile_source load source)"
proof -
  let ?r = "res_bind (parse_midi load source 128000 1024) (\<lambda>notes. res_bind (compile_notes notes) (\<lambda>ir. Inr (notes, ir)))"
  have "(is_value_error (exn_cls e) \<or> exn_cls e = OSError \<or> exn_cls e = EOFError) \<or> load source = Inl e \<and> uncaught e"
    if r: "?r = Inl e" for e
  proof (cases "parse_midi load source 128000 1024")
    case (Inr ns)
    then show ?thesis using r parse_midi_valid [OF Inr assms]
      by (auto simp: res_simps dest!: compile_notes_error)
  next
    case (Inl x)
    then show ?thesis using r parse_midi_error [OF Inl] by (auto simp: uncaught_def)
  qed
  then show ?thesis unfolding compile_source_def
    by (intro served_client_error) (auto simp: res_simps compile_notes_analyzed)
qed

lemma served_compile_assembly: "served A (\<lambda>ir. is_ok (analyze ir)) (compile_assembly source)"
  unfolding compile_assembly_def
  by (intro served_client_error) (auto simp: parse_assembly_analyzed dest: assembly_value_error)

text \<open>The MIDI file a simulation reads, if it reads one: the posted bytes, or the default file when
  nothing is posted.\<close>

definition midi_source :: "bytes res option \<Rightarrow> simulation_request \<Rightarrow> bytes res option" where
  "midi_source default_file request =
     (case (nonempty (sr_midi_base64 request), nonempty (sr_assembly request)) of
        (Some m, None) \<Rightarrow> map_option Inr (b64decode m)
      | (None, None) \<Rightarrow> default_file
      | _ \<Rightarrow> None)"

text \<open>The failures that are no client errors: the default file exists but cannot be read, or the MIDI
  library raises an exception of another class on the file.\<close>

definition server_failure :: "midi_load \<Rightarrow> bytes res option \<Rightarrow> simulation_request \<Rightarrow> exn \<Rightarrow> bool" where
  "server_failure load default_file request e \<longleftrightarrow> midi_source default_file request = Some (Inl e)
     \<or> (\<exists>source. midi_source default_file request = Some (Inr source) \<and> load source = Inl e \<and> uncaught e)"

lemma served_compiled:
  assumes "messages_checked load" and "midi_source default_file request = Some (Inr source)"
  shows "served (server_failure load default_file request) (\<lambda>(ir, _). is_ok (analyze ir))
    (res_bind (compile_source load source) (\<lambda>(_, ir). Inr (ir, tag)))"
proof (rule served_bind)
  show "served (server_failure load default_file request) (\<lambda>(_, ir). is_ok (analyze ir)) (compile_source load source)"
    using assms(2) by (intro served_weaken [OF served_compile_source [OF assms(1)]]) (auto simp: server_failure_def)
qed auto

lemma served_simulation_program:
  assumes "messages_checked load"
  shows "served (server_failure load default_file request) (\<lambda>(ir, _). is_ok (analyze ir))
    (simulation_program load default_file request)"
proof -
  let ?A = "server_failure load default_file request"
  have posted: "served ?A (\<lambda>(ir, _). is_ok (analyze ir)) (res_bind (decode_midi m) (\<lambda>source.
      res_bind (compile_source load source) (\<lambda>(_, ir). Inr (ir, tag))))"
    if "nonempty (sr_midi_base64 request) = Some m" "nonempty (sr_assembly request) = None" for m and tag :: string
  proof (cases "b64decode m")
    case (Some source)
    then have "midi_source default_file request = Some (Inr source)" using that by (simp add: midi_source_def)
    then show ?thesis using served_compiled [OF assms] Some by (simp add: decode_midi_def)
  qed (simp add: decode_midi_def unprocessable_def)
  have listed: "served ?A (\<lambda>(ir, _). is_ok (analyze ir))
      (res_bind (compile_assembly a) (\<lambda>ir. Inr (ir, tag)))" for a and tag :: string
    by (rule served_bind [OF served_compile_assembly]) auto
  have builtin: "is_ok (analyze default_policy_ir)" by code_simp
  have from_file: "served ?A (\<lambda>(ir, _). is_ok (analyze ir)) (res_bind content (\<lambda>source.
      res_bind (compile_source load source) (\<lambda>(_, ir). Inr (ir, tag))))"
    if "midi_source default_file request = Some content" for content and tag :: string
    using that served_compiled [OF assms] by (cases content) (auto simp: server_failure_def)
  show ?thesis
  proof (cases "nonempty (sr_midi_base64 request) = None \<and> nonempty (sr_assembly request) = None")
    case True
    then have "midi_source default_file request = default_file" by (simp add: midi_source_def)
    then show ?thesis using True from_file builtin
      unfolding simulation_program_def by (cases default_file) (simp_all only: option.case prod.case served_simps)
  next
    case False
    then show ?thesis using posted listed
      unfolding simulation_program_def
      by (cases "nonempty (sr_midi_base64 request)"; cases "nonempty (sr_assembly request)")
        (simp_all only: option.case prod.case served_simps simp_thms)
  qed
qed

text \<open>The validated inputs have every register, as a float.\<close>

lemma served_validate_inputs:
  "served A (\<lambda>d. \<forall>k\<in>set INPUTS. \<exists>v. dict_get d k = Some (PFloat v)) (validate_inputs inputs)"
proof -
  have entries: "served A (\<lambda>d. \<forall>k\<in>set ks. \<exists>v. dict_get d k = Some (PFloat v)) (res_map (validate_input inputs) ks)"
    if "\<forall>k\<in>set ks. map_of inputs k \<noteq> None" for ks
    using that
  proof (induction ks)
    case (Cons k ks)
    then obtain v where "map_of inputs k = Some v" by auto
    then have "served A (\<lambda>e. \<exists>v. e = (k, PFloat v)) (validate_input inputs k)"
      by (simp add: validate_input_def)
    then show ?case using Cons by (auto intro!: served_intros elim: served_bind)
  qed simp
  show ?thesis unfolding validate_inputs_def Let_def
    by (auto simp: filter_empty_conv intro: entries)
qed

lemma normalize_validated_error:
  assumes "\<forall>k\<in>set INPUTS. \<exists>v. dict_get d k = Some (PFloat v)" and "normalize_inputs (PDict d) = Inl e"
  shows "exn_cls e = ValueError"
proof -
  have "\<exists>k\<in>set ks. normalize_input v k = Inl e" if "res_map (normalize_input v) ks = Inl e" for v ks
    using that by (induction ks) (auto simp: res_simps)
  then obtain k where "k \<in> set INPUTS" "normalize_input (PDict d) k = Inl e"
    using assms(2) unfolding normalize_inputs_def by blast
  then show ?thesis using assms(1) by (force simp: normalize_input_def split: if_splits)
qed

lemma execute_validated_error:
  assumes "\<forall>k\<in>set INPUTS. \<exists>v. dict_get d k = Some (PFloat v)" and "is_ok (analyze ir)"
    and "execute pw ir (PDict d) 512 64 = Inl e"
  shows "is_value_error (exn_cls e)"
proof (cases "normalize_inputs (PDict d)")
  case (Inl x)
  then have "e = x" using assms(2,3)
    by (auto simp: execute_def is_ok_iff DEFAULT_MAX_INSTRUCTIONS_def DEFAULT_MAX_STACK_def)
  then show ?thesis using normalize_validated_error [OF assms(1) Inl] by simp
next
  case (Inr ins)
  have "runtime_error e" using assms(2) Inr
    by (intro execute_runtime_error [OF assms(3)])
       (auto simp: is_ok_iff DEFAULT_MAX_INSTRUCTIONS_def DEFAULT_MAX_STACK_def)
  then show ?thesis by (simp add: runtime_error_def)
qed

lemma served_execute:
  assumes "\<forall>k\<in>set INPUTS. \<exists>v. dict_get d k = Some (PFloat v)" and "is_ok (analyze ir)"
  shows "served A (\<lambda>r. \<exists>an. analyze ir = Inr an \<and> result_in_range an r)
    (client_error is_value_error (execute pw ir (PDict d) DEFAULT_MAX_INSTRUCTIONS DEFAULT_MAX_STACK))"
proof (rule served_client_error)
  fix e assume e: "execute pw ir (PDict d) DEFAULT_MAX_INSTRUCTIONS DEFAULT_MAX_STACK = Inl e"
  show "is_value_error (exn_cls e) \<or> A e"
    using execute_validated_error [OF assms] e
    by (simp add: DEFAULT_MAX_INSTRUCTIONS_def DEFAULT_MAX_STACK_def)
next
  fix r assume "execute pw ir (PDict d) DEFAULT_MAX_INSTRUCTIONS DEFAULT_MAX_STACK = Inr r"
  then show "\<exists>an. analyze ir = Inr an \<and> result_in_range an r"
    by (rule execute_in_range) (simp add: DEFAULT_MAX_STACK_def)
qed

text \<open>What a simulation answers: a score, a severity and a route in their ranges.\<close>

definition simulation_body_ok :: "pydict \<Rightarrow> bool" where
  "simulation_body_ok body \<longleftrightarrow>
     (\<exists>score severity route. dict_get body ''alert_score'' = Some (PInt score) \<and> 0 \<le> score \<and> score \<le> 100
        \<and> dict_get body ''severity_code'' = Some (PInt severity) \<and> 0 \<le> severity \<and> severity \<le> 9
        \<and> dict_get body ''routing_code'' = Some (PInt route) \<and> 0 \<le> route \<and> route \<le> 255)"

lemma simulation_body_okI:
  "result_in_range an r \<Longrightarrow> simulation_body_ok (dict_merge (result_dump r)
     [(''execution_engine'', v1), (''compiler_version'', v2), (''ir_sha256'', v3), (''analysis'', v4), (''decompiled'', v5)])"
  by (simp add: simulation_body_ok_def dict_merge_Cons result_dump_def result_in_range_def)


text \<open>The exception is a real one: a posted file of at most 128,000 bytes for which the MIDI library
  raises anything else, as it does for an unknown key signature, is not answered with status 422.\<close>

theorem unreadable_midi_escapes:
  assumes "midi_source None request = Some (Inr source)" and "length source \<le> 128000" and "load source = Inl e"
    and "uncaught e"
  shows "simulate pw load None request = Inl e"
proof -
  obtain m where m: "nonempty (sr_midi_base64 request) = Some m" "nonempty (sr_assembly request) = None" "b64decode m = Some source"
    using assms(1) by (auto simp: midi_source_def split: option.splits)
  have "parse_midi load source 128000 1024 = Inl e" using assms(2,3) by (simp add: parse_midi_def)
  then have "compile_source load source = Inl e" using assms(4) by (simp add: compile_source_def client_error_def uncaught_def)
  then show ?thesis using m by (simp add: simulate_def simulation_program_def decode_midi_def)
qed

text \<open>The example of the MIDI library reads every file into messages it has checked, and raises a
  \<open>KeyError\<close> for one file.\<close>

definition checking_load :: midi_load where
  "checking_load bs = (if bs = [0] then Inl (Exn KeyError ''key signature'')
     else if list_all message_valid (toy_messages bs) then Inr [toy_messages bs]
     else Inl (Exn OSError ''data byte must be in range 0..127''))"

lemma checking_messages: "messages_checked checking_load"
  by (simp add: messages_checked_def checking_load_def)


section \<open>Assembling, then validating\<close>

text \<open>A parsed instruction that a MIDI file can hold has the operand that reading it gives.\<close>

lemma parse_line_normal:
  assumes "parse_line l n = Inr ins" and "is_ok (encode_velocity ins)"
  shows "midi_normal ins = ins"
proof -
  obtain p a where ins: "ins = Instruction p a" by (cases ins)
  have c: "midi_normal (Instruction Op_PUSH_CONST (constant_operand v)) = Instruction Op_PUSH_CONST (constant_operand v)"
    if "parse_float x = Some v" "is_ok (encode_velocity (Instruction Op_PUSH_CONST (constant_operand v)))" for x v
  proof -
    have i: "fl_is_integer v"
      using that(2) by (auto simp: encode_velocity_def constant_operand_def is_ok_iff res_simps split: if_splits)
    then have "fl_ok v" using parse_float_ok [OF that(1)] by (simp add: fl_is_integer_def)
    from float_of_int_floor [OF this] show ?thesis using i by (simp add: midi_normal_def constant_operand_def)
  qed
  show ?thesis using assms unfolding ins
    by (auto simp: parse_line_def parse_operand_def res_simps c split: option.splits if_splits)
       (auto simp: midi_normal_def encode_velocity_def LOCAL_OPS_def local_operand_def split: option.splits)
qed

lemma parse_lines_normal:
  "parse_lines ml n ls ir = Inr r \<Longrightarrow> \<forall>ins\<in>set ir. is_ok (encode_velocity ins) \<longrightarrow> midi_normal ins = ins \<Longrightarrow>
   \<forall>ins\<in>set r. is_ok (encode_velocity ins) \<longrightarrow> midi_normal ins = ins"
proof (induction ls arbitrary: n ir)
  case (Cons l ls)
  show ?case
  proof (cases "is_comment_line (strip l)")
    case False
    with Cons.prems(1) obtain ins where "parse_line (strip l) n = Inr ins"
      and "parse_lines ml (Suc n) ls (ir @ [ins]) = Inr r"
      by (auto simp: Let_def res_simps split: if_splits)
    then show ?thesis using Cons.IH [of "Suc n" "ir @ [ins]"] Cons.prems(2) parse_line_normal by auto
  qed (use Cons in \<open>simp add: Let_def\<close>)
qed simp

lemma parse_assembly_normal:
  assumes "parse_assembly s ml = Inr ir"
  shows "has_halt ir \<and> (\<forall>ins\<in>set ir. is_ok (encode_velocity ins) \<longrightarrow> midi_normal ins = ins)"
proof -
  obtain r where r: "parse_lines ml 1 (splitlines s) [] = Inr r" "ir = ensure_halt r"
    using assms by (auto simp: parse_assembly_def res_simps split: if_splits)
  have "midi_normal (Instruction Op_HALT PNone) = Instruction Op_HALT PNone" by code_simp
  with parse_lines_normal [OF r(1)] show ?thesis using last_in_set
    by (auto simp: r(2) ensure_halt_def has_halt_def)
qed

fun message_time :: "midi_message \<Rightarrow> int" where
  "message_time (NoteOn n v c t) = t"
| "message_time (NoteOff n v c t) = t"
| "message_time _ = 0"

text \<open>What the endpoint relies on in \<open>mido\<close> besides the round trip: a file of at most 1026 note
  messages, each at most 120 ticks after the last, is a string of at most 128,000 bytes.\<close>

definition mido_compact :: "midi_save \<Rightarrow> bool" where
  "mido_compact save \<longleftrightarrow> (\<forall>track data. length track \<le> 1026 \<longrightarrow>
     list_all (\<lambda>m. message_valid m \<and> message_time m \<le> 120) track \<longrightarrow>
     save \<lparr>mf_type = 0, mf_ticks_per_beat = 480, mf_tracks = [track]\<rparr> = Inr data \<longrightarrow>
     is_bytes data \<and> length data \<le> 128000)"

lemma encode_track_size:
  assumes "encode_track ir tonic 120 = Inr track"
  shows "length track = 2 * (length ir + 1) \<and> list_all (\<lambda>m. message_time m \<le> 120) track
     \<and> (\<forall>ins\<in>set ir. is_ok (encode_velocity ins))"
proof -
  obtain ps where tr: "track = [NoteOn tonic 64 0 0, NoteOff tonic 0 0 120] @ concat ps"
    and ps: "res_map (\<lambda>ins. res_bind (encode_event tonic ins) (note_messages 120)) ir = Inr ps"
    using assms by (auto simp: encode_track_def res_simps note_pair_def split: if_splits)
  from ps have "length (concat ps) = 2 * length ir \<and> list_all (\<lambda>m. message_time m \<le> 120) (concat ps)
     \<and> (\<forall>ins\<in>set ir. is_ok (encode_velocity ins))"
    by (induction ir arbitrary: ps)
       (fastforce simp: res_simps note_messages_Inr encode_event_def is_ok_iff split: prod.splits)+
  then show ?thesis by (simp add: tr)
qed

lemma encode_midi_compact:
  assumes "mido_compact save" and "encode_midi save ir tonic 480 120 = Inr data"
  shows "is_bytes data \<and> length data \<le> 128000 \<and> (\<forall>ins\<in>set ir. is_ok (encode_velocity ins))"
proof -
  obtain track where a: "is_ok (analyze ir)" and tr: "encode_track ir tonic 120 = Inr track"
    and sv: "save \<lparr>mf_type = 0, mf_ticks_per_beat = 480, mf_tracks = [track]\<rparr> = Inr data"
    using assms(2) by (auto simp: encode_midi_def res_simps is_ok_iff split: if_splits)
  have "length ir \<le> 512"
    using a analyze_ok_iff [of DEFAULT_MAX_STACK ir DEFAULT_MAX_INSTRUCTIONS]
    by (simp add: DEFAULT_MAX_STACK_def DEFAULT_MAX_INSTRUCTIONS_def)
  then have "length track \<le> 1026" "list_all (\<lambda>m. message_valid m \<and> message_time m \<le> 120) track"
    using encode_track_size [OF tr] encode_track_valid [OF tr] by (auto simp: list_all_iff)
  then show ?thesis using assms(1) sv encode_track_size [OF tr] unfolding mido_compact_def by blast
qed

lemma assembleD:
  assumes "assemble_program save request = Inr body"
  obtains ir midi an where "parse_assembly (ar_assembly request) 1024 = Inr ir"
    and "encode_midi save ir (ar_root_note request) 480 120 = Inr midi" and "analyze ir = Inr an"
    and "dict_get body ''midi_base64'' = Some (PStr (b64encode midi))"
    and "dict_get body ''midi_sha256'' = Some (PStr (hexdigest (sha256 midi)))"
    and "dict_get body ''ir'' = Some (ir_dump ir)"
  using assms
  by (auto simp: assemble_program_def compile_assembly_def res_simps)

text \<open>C26. Assembling and then validating agree: the MIDI file the assemble endpoint answers is
  accepted by the validate endpoint, with the same checksum, and read back as exactly the
  instructions that were assembled, up to and including the first HALT; what follows a HALT is
  dropped.\<close>

theorem assemble_then_validate:
  assumes "mido_faithful load save" and "mido_compact save" and "assemble_program save request = Inr body"
  shows "\<exists>ir midi body'. compile_assembly (ar_assembly request) = Inr ir
    \<and> dict_get body ''ir'' = Some (ir_dump ir) \<and> dict_get body ''midi_base64'' = Some (PStr midi)
    \<and> validate_program load midi = Inr body'
    \<and> dict_get body' ''ir'' = Some (ir_dump (live_part ir))
    \<and> dict_get body' ''source_sha256'' = dict_get body ''midi_sha256''"
proof -
  obtain ir midi an where ir: "parse_assembly (ar_assembly request) 1024 = Inr ir"
    and midi: "encode_midi save ir (ar_root_note request) 480 120 = Inr midi" and an: "analyze ir = Inr an"
    and body: "dict_get body ''midi_base64'' = Some (PStr (b64encode midi))"
      "dict_get body ''midi_sha256'' = Some (PStr (hexdigest (sha256 midi)))"
      "dict_get body ''ir'' = Some (ir_dump ir)"
    using assms(3) by (rule assembleD)
  note small = encode_midi_compact [OF assms(2) midi]
  from midi_decode_encode [OF assms(1) midi] small obtain ns where
    ns: "parse_midi load midi 128000 1024 = Inr ns" and
    rd: "compile_notes ns = (if has_halt ir \<or> length ir < 512 then Inr (ensure_halt (map midi_normal (live_part ir)))
       else value_error ''instruction limit exceeded'')" by blast
  have halt: "has_halt ir" and norm: "\<forall>ins\<in>set ir. midi_normal ins = ins"
    using parse_assembly_normal [OF ir] small by auto
  have "map midi_normal (live_part ir) = live_part ir"
    using norm live_part_prefix [of ir] by (metis Un_iff map_idI set_append)
  then have "compile_notes ns = Inr (live_part ir)"
    using rd halt has_halt_live_part [OF halt] by (simp add: ensure_halt_def)
  moreover from compile_notes_analyzed [OF this] obtain an' where "analyze (live_part ir) = Inr an'"
    by (auto simp: is_ok_iff)
  ultimately have "\<exists>body'. validate_program load (b64encode midi) = Inr body'
      \<and> dict_get body' ''ir'' = Some (ir_dump (live_part ir))
      \<and> dict_get body' ''source_sha256'' = Some (PStr (hexdigest (sha256 midi)))"
    using ns small
    by (simp add: validate_program_def decode_midi_def b64decode_encode compile_source_def client_error_def)
  then show ?thesis using body ir by (auto simp: compile_assembly_def client_error_def)
qed

definition bounded_save :: midi_save where
  "bounded_save f = (if list_all (\<lambda>b. 0 \<le> b \<and> b < 256) (concat (map toy_message (concat (mf_tracks f))))
     then toy_save f else value_error ''time out of range'')"

lemma toy_message_length: "length (concat (map toy_message ms)) = 5 * length ms"
proof -
  have "length (toy_message m) = 5" for m by (cases m) auto
  then show ?thesis by (induction ms) auto
qed

lemma bounded_faithful: "mido_faithful toy_load bounded_save" "mido_compact bounded_save"
  using toy_faithful
  by (auto simp: mido_faithful_def mido_compact_def bounded_save_def toy_save_def is_bytes_def
      toy_message_length split: if_splits)

theorem assemble_then_validate_witness:
  "\<exists>ir midi body body'. assemble_program bounded_save
      \<lparr>ar_assembly = ''PUSH_CONST 7'' @ [CHR 0x0A] @ ''STORE_SCORE'', ar_root_note = 60\<rparr> = Inr body
    \<and> dict_get body ''midi_base64'' = Some (PStr midi) \<and> validate_program toy_load midi = Inr body'
    \<and> dict_get body' ''ir'' = Some (ir_dump (live_part ir))"
proof -
  let ?r = "\<lparr>ar_assembly = ''PUSH_CONST 7'' @ [CHR 0x0A] @ ''STORE_SCORE'', ar_root_note = 60\<rparr>"
  have e: "is_ok (res_bind (compile_assembly (ar_assembly ?r)) (\<lambda>ir.
      res_bind (client_error is_value_error (encode_midi bounded_save ir 60 480 120)) (\<lambda>_. analyze ir)))"
    by code_simp
  have "is_ok (assemble_program bounded_save ?r)"
    using e by (auto simp: assemble_program_def is_ok_iff res_simps)
  then obtain body where "assemble_program bounded_save ?r = Inr body" by (auto simp: is_ok_iff)
  from assemble_then_validate [OF bounded_faithful this] this show ?thesis by blast
qed

end
