(* ===== verification/Messaging.thy ===== *)
theory Messaging
  imports PyValue PyBytes
begin

text \<open>
  What a worker does to its surroundings: computations that read the clock, produce to Kafka,
  flush, commit offsets and call services.  Everything done is recorded in order in a log; how
  the surroundings answer is arbitrary.
\<close>

section \<open>Messages and effects\<close>

text \<open>What \<open>consumer.poll\<close> returned.\<close>

record kafka_message =
  km_topic :: "string option"
  km_partition :: "int option"
  km_offset :: "int option"
  km_key :: "bytes option"
  km_value :: "bytes option"
  km_headers :: "(string \<times> bytes option) list"

text \<open>The envelope of a dead letter (\<open>DlqEnvelope\<close>).  Texts decoded from bytes are code points.\<close>

datatype failed_event = FailedText "code_points option" | FailedJson pyval

record dlq_header =
  dh_name :: string
  dh_value :: code_points
  dh_encoding :: string

record dlq_envelope =
  dlq_origin :: string
  dlq_error_type :: string
  dlq_error :: string
  dlq_failed_at :: string
  dlq_source_topic :: "string option"
  dlq_source_partition :: "int option"
  dlq_source_offset :: "int option"
  dlq_key :: "code_points option"
  dlq_key_encoding :: string
  dlq_headers :: "dlq_header list"
  dlq_failed_event :: failed_event
  dlq_value_encoding :: string

text \<open>A produced value is recorded before its JSON text is built.\<close>

datatype payload = Json pyval | DeadLetter dlq_envelope

text \<open>\<open>producer.produce\<close>, \<open>producer.flush\<close> with the number of messages still pending and the
  error the broker reported, a synchronous \<open>consumer.commit\<close>, and a call of another service
  with its name and arguments.\<close>

datatype effect =
    Produced string "bytes option" payload
  | Flushed int "string option"
  | Committed kafka_message
  | Called string pyval

text \<open>The answers of the surroundings, by the number of interactions so far: the time and the
  random identifiers read, whether a \<open>produce\<close> or a \<open>commit\<close> raises, the outcome of a flush, the
  answer of a service; and the functions of the standard library that are only relied on as
  functions: \<open>json.loads\<close>, \<open>uuid.uuid5\<close> and \<open>urlparse\<close> (network location and path).\<close>

record env =
  env_now :: "nat \<Rightarrow> string"
  env_uuid4 :: "nat \<Rightarrow> string"
  env_produce :: "nat \<Rightarrow> exn option"
  env_flush :: "nat \<Rightarrow> int \<times> string option"
  env_commit :: "nat \<Rightarrow> exn option"
  env_call :: "nat \<Rightarrow> string \<Rightarrow> pyval \<Rightarrow> pyval res"
  env_json_loads :: "bytes option \<Rightarrow> pyval res"
  env_uuid5 :: "string \<Rightarrow> string"
  env_urlparse :: "string \<Rightarrow> (string \<times> string) res"

text \<open>\<open>w_cell\<close> is the variable that the closures of one call share.\<close>

record world =
  w_env :: env
  w_steps :: nat
  w_log :: "effect list"
  w_cell :: pyval

type_synonym 'a eff = "world \<Rightarrow> 'a res \<times> world"

text \<open>Surroundings in which the broker accepts and confirms everything.\<close>

definition broker_up :: "env \<Rightarrow> bool" where
  "broker_up e \<longleftrightarrow> (\<forall>n. env_produce e n = None \<and> env_commit e n = None \<and> env_flush e n = (0, None))"

section \<open>Sequencing\<close>

definition eff_return :: "'a \<Rightarrow> 'a eff" where
  "eff_return x w = (Inr x, w)"

definition eff_raise :: "exn \<Rightarrow> 'a eff" where
  "eff_raise e w = (Inl e, w)"

definition eff_lift :: "'a res \<Rightarrow> 'a eff" where
  "eff_lift r w = (r, w)"

definition eff_bind :: "'a eff \<Rightarrow> ('a \<Rightarrow> 'b eff) \<Rightarrow> 'b eff" where
  "eff_bind m f w = (case m w of (Inl e, w') \<Rightarrow> (Inl e, w') | (Inr x, w') \<Rightarrow> f x w')"

abbreviation eff_then :: "'a eff \<Rightarrow> 'b eff \<Rightarrow> 'b eff" where
  "eff_then m n \<equiv> eff_bind m (\<lambda>_. n)"

primrec eff_iter :: "('a \<Rightarrow> unit eff) \<Rightarrow> 'a list \<Rightarrow> unit eff" where
  "eff_iter f [] = eff_return ()"
| "eff_iter f (x # xs) = eff_then (f x) (eff_iter f xs)"

primrec eff_map :: "('a \<Rightarrow> 'b eff) \<Rightarrow> 'a list \<Rightarrow> 'b list eff" where
  "eff_map f [] = eff_return []"
| "eff_map f (x # xs) = eff_bind (f x) (\<lambda>y. eff_bind (eff_map f xs) (\<lambda>ys. eff_return (y # ys)))"

text \<open>\<open>try: m except E as error: h(error)\<close>\<close>

definition eff_catch :: "(exn_class \<Rightarrow> bool) \<Rightarrow> 'a eff \<Rightarrow> (exn \<Rightarrow> 'a eff) \<Rightarrow> 'a eff" where
  "eff_catch P m h w = (case m w of
     (Inl e, w') \<Rightarrow> if P (exn_cls e) then h e w' else (Inl e, w')
   | (Inr x, w') \<Rightarrow> (Inr x, w'))"

section \<open>Interactions\<close>

definition tick :: "world \<Rightarrow> world" where
  "tick w = w\<lparr>w_steps := Suc (w_steps w)\<rparr>"

definition record_effect :: "effect \<Rightarrow> world \<Rightarrow> world" where
  "record_effect e w = w\<lparr>w_steps := Suc (w_steps w), w_log := w_log w @ [e]\<rparr>"

definition now :: "string eff" where
  "now w = (Inr (env_now (w_env w) (w_steps w)), tick w)"

definition uuid4 :: "string eff" where
  "uuid4 w = (Inr (env_uuid4 (w_env w) (w_steps w)), tick w)"

definition uuid5 :: "string \<Rightarrow> string eff" where
  "uuid5 s w = (Inr (env_uuid5 (w_env w) s), w)"

definition json_loads :: "bytes option \<Rightarrow> pyval eff" where
  "json_loads v w = (env_json_loads (w_env w) v, w)"

definition urlparse :: "string \<Rightarrow> (string \<times> string) eff" where
  "urlparse s w = (env_urlparse (w_env w) s, w)"

definition produce :: "string \<Rightarrow> bytes option \<Rightarrow> payload \<Rightarrow> unit eff" where
  "produce topic key v w = (case env_produce (w_env w) (w_steps w) of
     Some e \<Rightarrow> (Inl e, tick w)
   | None \<Rightarrow> (Inr (), record_effect (Produced topic key v) w))"

definition flush :: "(int \<times> string option) eff" where
  "flush w = (let r = env_flush (w_env w) (w_steps w)
     in (Inr r, record_effect (Flushed (fst r) (snd r)) w))"

definition commit :: "kafka_message \<Rightarrow> unit eff" where
  "commit m w = (case env_commit (w_env w) (w_steps w) of
     Some e \<Rightarrow> (Inl e, tick w)
   | None \<Rightarrow> (Inr (), record_effect (Committed m) w))"

definition call_service :: "string \<Rightarrow> pyval \<Rightarrow> pyval eff" where
  "call_service name args w =
     (env_call (w_env w) (w_steps w) name args, record_effect (Called name args) w)"

definition set_cell :: "pyval \<Rightarrow> unit eff" where
  "set_cell v w = (Inr (), w\<lparr>w_cell := v\<rparr>)"

definition get_cell :: "pyval eff" where
  "get_cell w = (Inr (w_cell w), w)"

section \<open>Computations that commit nothing\<close>

text \<open>A computation is quiet if it only adds to the log, no commit among what it adds, and
  leaves the surroundings as they are.\<close>

fun is_commit :: "effect \<Rightarrow> bool" where
  "is_commit (Committed m) = True"
| "is_commit _ = False"

definition quiet :: "'a eff \<Rightarrow> bool" where
  "quiet m \<longleftrightarrow> (\<forall>w r w'. m w = (r, w') \<longrightarrow> w_env w' = w_env w \<and>
     (\<exists>es. w_log w' = w_log w @ es \<and> (\<forall>e\<in>set es. \<not> is_commit e)))"

named_theorems quiet_intros \<open>computations that commit nothing\<close>

lemma quietI:
  "(\<And>w r w'. m w = (r, w') \<Longrightarrow> w_env w' = w_env w \<and> (\<exists>es. w_log w' = w_log w @ es \<and> (\<forall>e\<in>set es. \<not> is_commit e)))
   \<Longrightarrow> quiet m"
  by (simp add: quiet_def)

lemma quietD:
  assumes "quiet m" and "m w = (r, w')"
  obtains es where "w_env w' = w_env w" and "w_log w' = w_log w @ es" and "\<forall>e\<in>set es. \<not> is_commit e"
  using assms unfolding quiet_def by blast

lemma quiet_pure:
  "(\<And>w. w_log (snd (m w)) = w_log w \<and> w_env (snd (m w)) = w_env w) \<Longrightarrow> quiet m"
  by (rule quietI) (metis append_Nil2 empty_iff list.set(1) snd_conv)

lemma quiet_simple [quiet_intros]:
  "quiet (eff_return x)" "quiet (eff_raise e)" "quiet (eff_lift r)" "quiet now" "quiet uuid4"
  "quiet (uuid5 s)" "quiet (json_loads v)" "quiet (urlparse s)" "quiet (set_cell c)" "quiet get_cell"
  by (rule quiet_pure;
      simp add: eff_return_def eff_raise_def eff_lift_def now_def uuid4_def uuid5_def json_loads_def
        urlparse_def set_cell_def get_cell_def tick_def)+

lemma quiet_record:
  "\<not> is_commit e \<Longrightarrow> w_env (record_effect e w) = w_env w \<and>
   (\<exists>es. w_log (record_effect e w) = w_log w @ es \<and> (\<forall>e\<in>set es. \<not> is_commit e))"
  by (simp add: record_effect_def)

lemma quiet_produce [quiet_intros]: "quiet (produce t k v)"
  by (rule quietI) (auto simp: produce_def tick_def quiet_record record_effect_def split: option.splits)

lemma quiet_flush [quiet_intros]: "quiet flush"
  by (rule quietI) (auto simp: flush_def Let_def record_effect_def)

lemma quiet_call [quiet_intros]: "quiet (call_service n a)"
  by (rule quietI) (auto simp: call_service_def record_effect_def)

lemma quiet_chain:
  assumes "quiet m" and "m w = (r, w1)" and "\<And>x. r = Inr x \<Longrightarrow> quiet (f x)"
    and "(case r of Inl e \<Rightarrow> (Inl e, w1) | Inr x \<Rightarrow> f x w1) = (r', w')"
  shows "w_env w' = w_env w \<and> (\<exists>es. w_log w' = w_log w @ es \<and> (\<forall>e\<in>set es. \<not> is_commit e))"
proof (cases r)
  case (Inl e)
  then show ?thesis using assms(1,2,4) by (auto elim: quietD)
next
  case (Inr x)
  obtain es where 1: "w_env w1 = w_env w" "w_log w1 = w_log w @ es" "\<forall>e\<in>set es. \<not> is_commit e"
    using quietD [OF assms(1,2)] .
  have "f x w1 = (r', w')" using assms(4) Inr by simp
  from quietD [OF assms(3) [OF Inr] this] obtain es' where
    2: "w_env w' = w_env w1" "w_log w' = w_log w1 @ es'" "\<forall>e\<in>set es'. \<not> is_commit e" .
  show ?thesis using 1 2 by (intro conjI exI [of _ "es @ es'"]) auto
qed

lemma quiet_bind [quiet_intros]:
  assumes "quiet m" and "\<And>x. quiet (f x)"
  shows "quiet (eff_bind m f)"
proof (rule quietI)
  fix w r w'
  assume b: "eff_bind m f w = (r, w')"
  obtain s w1 where m: "m w = (s, w1)" by fastforce
  from quiet_chain [where r' = r and w' = w', OF assms(1) m assms(2)] b m
  show "w_env w' = w_env w \<and> (\<exists>es. w_log w' = w_log w @ es \<and> (\<forall>e\<in>set es. \<not> is_commit e))"
    by (simp add: eff_bind_def split: sum.splits)
qed

lemma quiet_catch [quiet_intros]:
  assumes "quiet m" and "\<And>e. quiet (h e)"
  shows "quiet (eff_catch P m h)"
proof (rule quietI)
  fix w r w'
  assume b: "eff_catch P m h w = (r, w')"
  obtain s w1 where m: "m w = (s, w1)" by fastforce
  obtain es where 1: "w_env w1 = w_env w" "w_log w1 = w_log w @ es" "\<forall>e\<in>set es. \<not> is_commit e"
    using quietD [OF assms(1) m] .
  show "w_env w' = w_env w \<and> (\<exists>es. w_log w' = w_log w @ es \<and> (\<forall>e\<in>set es. \<not> is_commit e))"
  proof (cases "\<exists>e. s = Inl e \<and> P (exn_cls e)")
    case True
    then obtain e where "h e w1 = (r, w')" using b m by (auto simp: eff_catch_def)
    from quietD [OF assms(2) this] obtain es' where
      2: "w_env w' = w_env w1" "w_log w' = w_log w1 @ es'" "\<forall>e\<in>set es'. \<not> is_commit e" .
    show ?thesis using 1 2 by (intro conjI exI [of _ "es @ es'"]) auto
  next
    case False
    then have "w' = w1" using b m by (auto simp: eff_catch_def split: sum.splits if_splits)
    then show ?thesis using 1 by blast
  qed
qed

lemma quiet_iter [quiet_intros]: "(\<And>x. quiet (f x)) \<Longrightarrow> quiet (eff_iter f xs)"
  by (induction xs) (auto intro: quiet_intros)

lemma quiet_map [quiet_intros]: "(\<And>x. quiet (f x)) \<Longrightarrow> quiet (eff_map f xs)"
  by (induction xs) (auto intro!: quiet_intros)

lemma quiet_if [quiet_intros]: "quiet m \<Longrightarrow> quiet n \<Longrightarrow> quiet (if b then m else n)"
  by simp

lemma quiet_option [quiet_intros]:
  "quiet m \<Longrightarrow> (\<And>x. quiet (f x)) \<Longrightarrow> quiet (case v of None \<Rightarrow> m | Some x \<Rightarrow> f x)"
  by (cases v) auto

lemma quiet_prod [quiet_intros]: "(\<And>x y. quiet (f x y)) \<Longrightarrow> quiet (case v of (x, y) \<Rightarrow> f x y)"
  by (cases v) auto

section \<open>Running step by step\<close>

lemma eff_bind_run: "m w = (Inr x, w') \<Longrightarrow> eff_bind m f w = f x w'"
  by (simp add: eff_bind_def)

lemma eff_bind_raise: "m w = (Inl e, w') \<Longrightarrow> eff_bind m f w = (Inl e, w')"
  by (simp add: eff_bind_def)

lemma eff_bind_Inr [res_simps]:
  "eff_bind m f w = (Inr y, w'') \<longleftrightarrow> (\<exists>x w'. m w = (Inr x, w') \<and> f x w' = (Inr y, w''))"
  by (auto simp: eff_bind_def split: prod.splits sum.splits)

lemma eff_bind_Inl [res_simps]:
  "eff_bind m f w = (Inl e, w'') \<longleftrightarrow>
   m w = (Inl e, w'') \<or> (\<exists>x w'. m w = (Inr x, w') \<and> f x w' = (Inl e, w''))"
  by (auto simp: eff_bind_def split: prod.splits sum.splits)

lemma eff_run_simps [simp]:
  "eff_return x w = (Inr x, w)" "eff_raise e w = (Inl e, w)" "eff_lift r w = (r, w)"
  "json_loads v w = (env_json_loads (w_env w) v, w)"
  by (simp_all add: eff_return_def eff_raise_def eff_lift_def json_loads_def)

lemma tick_simps [simp]:
  "w_env (tick w) = w_env w" "w_log (tick w) = w_log w" "w_cell (tick w) = w_cell w"
  "w_env (record_effect e w) = w_env w" "w_log (record_effect e w) = w_log w @ [e]"
  "w_cell (record_effect e w) = w_cell w"
  by (simp_all add: tick_def record_effect_def)

section \<open>Computations that raise only certain exceptions\<close>

definition raises_only :: "env \<Rightarrow> (exn \<Rightarrow> bool) \<Rightarrow> 'a eff \<Rightarrow> bool" where
  "raises_only env P m \<longleftrightarrow> (\<forall>w e. w_env w = env \<longrightarrow> fst (m w) = Inl e \<longrightarrow> P e)"

named_theorems raises_intros \<open>which exceptions a computation can raise\<close>

lemma raises_onlyI: "(\<And>w e. w_env w = env \<Longrightarrow> fst (m w) = Inl e \<Longrightarrow> P e) \<Longrightarrow> raises_only env P m"
  by (simp add: raises_only_def)

lemma raises_onlyD: "raises_only env P m \<Longrightarrow> w_env w = env \<Longrightarrow> m w = (Inl e, w') \<Longrightarrow> P e"
  by (metis raises_only_def fst_conv)

lemma raises_simple [raises_intros]:
  "raises_only env P (eff_return x)" "P e \<Longrightarrow> raises_only env P (eff_raise e)"
  "(\<And>e. r = Inl e \<Longrightarrow> P e) \<Longrightarrow> raises_only env P (eff_lift r)"
  "raises_only env P now" "raises_only env P uuid4" "raises_only env P (uuid5 s)"
  "raises_only env P (set_cell c)" "raises_only env P get_cell" "raises_only env P flush"
  by (auto simp: raises_only_def now_def uuid4_def uuid5_def set_cell_def get_cell_def flush_def Let_def)

lemma raises_bind [raises_intros]:
  assumes "raises_only env P m" and "\<And>x. raises_only env P (f x)" and "quiet m"
  shows "raises_only env P (eff_bind m f)"
proof (rule raises_onlyI)
  fix w e
  assume w: "w_env w = env" and b: "fst (eff_bind m f w) = Inl e"
  obtain r w1 where m: "m w = (r, w1)" by fastforce
  have "w_env w1 = env" using quietD [OF assms(3) m] w by metis
  then show "P e" using b m w assms(1,2) by (cases r) (auto simp: eff_bind_def raises_only_def)
qed

lemma raises_catch [raises_intros]:
  assumes "raises_only env (\<lambda>e. Q (exn_cls e) \<or> P e) m" and "\<And>e. raises_only env P (h e)" and "quiet m"
  shows "raises_only env P (eff_catch Q m h)"
proof (rule raises_onlyI)
  fix w e
  assume w: "w_env w = env" and b: "fst (eff_catch Q m h w) = Inl e"
  obtain r w1 where m: "m w = (r, w1)" by fastforce
  have w1: "w_env w1 = env" using quietD [OF assms(3) m] w by metis
  show "P e"
  proof (cases r)
    case (Inl x)
    then have "Q (exn_cls x) \<or> P x" using assms(1) m w by (auto simp: raises_only_def)
    then show ?thesis
      using b m Inl assms(2) w1 by (auto simp: eff_catch_def raises_only_def split: if_splits)
  next
    case (Inr y)
    then show ?thesis using b m by (simp add: eff_catch_def)
  qed
qed

lemma raises_produce [raises_intros]: "broker_up env \<Longrightarrow> raises_only env P (produce t k v)"
  and raises_commit [raises_intros]: "broker_up env \<Longrightarrow> raises_only env P (commit m)"
  by (auto simp: raises_only_def broker_up_def produce_def commit_def)

lemma raises_iter [raises_intros]:
  "(\<And>x. raises_only env P (f x)) \<Longrightarrow> (\<And>x. quiet (f x)) \<Longrightarrow> raises_only env P (eff_iter f xs)"
  by (induction xs) (auto intro!: raises_intros)

lemma raises_if [raises_intros]:
  "raises_only env P m \<Longrightarrow> raises_only env P n \<Longrightarrow> raises_only env P (if b then m else n)"
  by simp

section \<open>What a computation writes to the log\<close>

text \<open>In given surroundings, every entry that the computation adds to the log satisfies \<open>P\<close>.\<close>

definition emits :: "env \<Rightarrow> (effect \<Rightarrow> bool) \<Rightarrow> 'a eff \<Rightarrow> bool" where
  "emits env P m \<longleftrightarrow> (\<forall>w r w'. w_env w = env \<longrightarrow> m w = (r, w') \<longrightarrow>
     w_env w' = env \<and> (\<exists>es. w_log w' = w_log w @ es \<and> (\<forall>e\<in>set es. P e)))"

named_theorems emits_intros \<open>what a computation writes to the log\<close>

lemma emitsI:
  "(\<And>w r w'. w_env w = env \<Longrightarrow> m w = (r, w') \<Longrightarrow>
     w_env w' = env \<and> (\<exists>es. w_log w' = w_log w @ es \<and> (\<forall>e\<in>set es. P e))) \<Longrightarrow> emits env P m"
  unfolding emits_def by blast

lemma emitsD:
  assumes "emits env P m" and "m w = (r, w')" and "w_env w = env"
  obtains es where "w_env w' = env" and "w_log w' = w_log w @ es" and "\<forall>e\<in>set es. P e"
  using assms unfolding emits_def by blast

lemma emits_weaken: "emits env P m \<Longrightarrow> (\<And>e. P e \<Longrightarrow> Q e) \<Longrightarrow> emits env Q m"
  by (rule emitsI) (metis emitsD)

lemma emits_pure:
  "(\<And>w. w_log (snd (m w)) = w_log w \<and> w_env (snd (m w)) = w_env w) \<Longrightarrow> emits env P m"
  by (rule emitsI) (metis append_Nil2 empty_iff list.set(1) snd_conv)

lemma emits_simple [emits_intros]:
  "emits env P (eff_return x)" "emits env P (eff_raise e)" "emits env P (eff_lift r)" "emits env P now"
  "emits env P uuid4" "emits env P (uuid5 s)" "emits env P (json_loads v)" "emits env P (set_cell c)"
  "emits env P get_cell" "emits env P (urlparse u)"
  by (rule emits_pure;
      simp add: eff_return_def eff_raise_def eff_lift_def now_def uuid4_def uuid5_def json_loads_def
        urlparse_def set_cell_def get_cell_def tick_def)+

lemma emits_produce [emits_intros]: "P (Produced t k v) \<Longrightarrow> emits env P (produce t k v)"
  by (rule emitsI) (auto simp: produce_def tick_def record_effect_def split: option.splits)

lemma emits_flush [emits_intros]: "(\<And>n x. P (Flushed n x)) \<Longrightarrow> emits env P flush"
  by (rule emitsI) (auto simp: flush_def Let_def record_effect_def)

lemma emits_call [emits_intros]: "P (Called n a) \<Longrightarrow> emits env P (call_service n a)"
  by (rule emitsI) (auto simp: call_service_def record_effect_def)

text \<open>The continuation is only met with the values the first computation can return.\<close>

lemma emits_bind_value:
  assumes "emits env P m" and "\<And>x w w'. w_env w = env \<Longrightarrow> m w = (Inr x, w') \<Longrightarrow> emits env P (f x)"
  shows "emits env P (eff_bind m f)"
proof (rule emitsI)
  fix w r w'
  assume w: "w_env w = env" and b: "eff_bind m f w = (r, w')"
  obtain s w1 where m: "m w = (s, w1)" by fastforce
  obtain es where 1: "w_env w1 = env" "w_log w1 = w_log w @ es" "\<forall>e\<in>set es. P e"
    using emitsD [OF assms(1) m w] .
  show "w_env w' = env \<and> (\<exists>es. w_log w' = w_log w @ es \<and> (\<forall>e\<in>set es. P e))"
  proof (cases s)
    case (Inl e)
    then show ?thesis using 1 b m by (auto simp: eff_bind_def)
  next
    case (Inr x)
    then have "f x w1 = (r, w')" using b m by (simp add: eff_bind_def)
    from emitsD [OF assms(2) [OF w m [unfolded Inr]] this 1(1)] obtain es' where
      2: "w_env w' = env" "w_log w' = w_log w1 @ es'" "\<forall>e\<in>set es'. P e" .
    show ?thesis using 1 2 by (intro conjI exI [of _ "es @ es'"]) auto
  qed
qed

lemma emits_bind [emits_intros]:
  "emits env P m \<Longrightarrow> (\<And>x. emits env P (f x)) \<Longrightarrow> emits env P (eff_bind m f)"
  by (rule emits_bind_value)

lemma emits_lift_bind:
  "(\<And>x. r = Inr x \<Longrightarrow> emits env P (f x)) \<Longrightarrow> emits env P (eff_bind (eff_lift r) f)"
  by (rule emits_bind_value [OF emits_simple(3)]) (simp add: eff_lift_def)

lemma emits_decoded:
  "emits env P (f source) \<Longrightarrow> env_json_loads env v = Inr source \<Longrightarrow> emits env P (eff_bind (json_loads v) f)"
  by (rule emits_bind_value [OF emits_simple(7)]) auto

lemma emits_iter [emits_intros]: "(\<And>x. x \<in> set xs \<Longrightarrow> emits env P (f x)) \<Longrightarrow> emits env P (eff_iter f xs)"
  by (induction xs) (auto intro: emits_intros)

lemma emits_if [emits_intros]:
  "(b \<Longrightarrow> emits env P m) \<Longrightarrow> (\<not> b \<Longrightarrow> emits env P n) \<Longrightarrow> emits env P (if b then m else n)"
  by simp

lemma emits_catch [emits_intros]:
  assumes "emits env P m" and "\<And>e. emits env P (h e)"
  shows "emits env P (eff_catch Q m h)"
proof (rule emitsI)
  fix w r w'
  assume w: "w_env w = env" and b: "eff_catch Q m h w = (r, w')"
  obtain s w1 where m: "m w = (s, w1)" by fastforce
  obtain es where 1: "w_env w1 = env" "w_log w1 = w_log w @ es" "\<forall>e\<in>set es. P e"
    using emitsD [OF assms(1) m w] .
  show "w_env w' = env \<and> (\<exists>es. w_log w' = w_log w @ es \<and> (\<forall>e\<in>set es. P e))"
  proof (cases "\<exists>e. s = Inl e \<and> Q (exn_cls e)")
    case True
    then obtain e where "h e w1 = (r, w')" using b m by (auto simp: eff_catch_def)
    from emitsD [OF assms(2) this 1(1)] obtain es' where
      2: "w_env w' = env" "w_log w' = w_log w1 @ es'" "\<forall>e\<in>set es'. P e" .
    show ?thesis using 1 2 by (intro conjI exI [of _ "es @ es'"]) auto
  next
    case False
    then have "w' = w1" using b m by (auto simp: eff_catch_def split: sum.splits if_splits)
    then show ?thesis using 1 by blast
  qed
qed

section \<open>Computations that end with a flush\<close>

text \<open>When the computation returns, a flush was the last thing it did, and its answer was not
  looked at.\<close>

definition ends_flush :: "'a eff \<Rightarrow> bool" where
  "ends_flush m \<longleftrightarrow> (\<forall>w x w'. m w = (Inr x, w') \<longrightarrow>
     (\<exists>w1. w_env w1 = w_env w \<and> w' = snd (flush w1)))"

lemma ends_flush_flush: "ends_flush (eff_then flush (eff_return x))"
  unfolding ends_flush_def
proof (intro allI impI)
  fix w y w'
  assume "eff_then flush (eff_return x) w = (Inr y, w')"
  then have "w' = snd (flush w)" by (auto simp: eff_bind_def split: prod.splits sum.splits)
  then show "\<exists>w1. w_env w1 = w_env w \<and> w' = snd (flush w1)" by blast
qed

lemma ends_flush_bind:
  assumes "quiet m" and "\<And>x. ends_flush (f x)"
  shows "ends_flush (eff_bind m f)"
  unfolding ends_flush_def
proof (intro allI impI)
  fix w y w'
  assume "eff_bind m f w = (Inr y, w')"
  then obtain x w0 where m: "m w = (Inr x, w0)" and f: "f x w0 = (Inr y, w')" by (auto simp: eff_bind_Inr)
  have "w_env w0 = w_env w" using quietD [OF assms(1) m] by metis
  then show "\<exists>w1. w_env w1 = w_env w \<and> w' = snd (flush w1)"
    using assms(2) [of x] f unfolding ends_flush_def by metis
qed

section \<open>Surroundings for the examples\<close>

definition calm_env :: "(bytes option \<Rightarrow> pyval res) \<Rightarrow> env" where
  "calm_env loads = \<lparr>env_now = (\<lambda>_. ''2026-01-01T00:00:00+00:00''), env_uuid4 = (\<lambda>_. ''uuid''),
     env_produce = (\<lambda>_. None), env_flush = (\<lambda>_. (0, None)), env_commit = (\<lambda>_. None),
     env_call = (\<lambda>_ _ _. Inr PNone), env_json_loads = loads, env_uuid5 = (\<lambda>s. s),
     env_urlparse = (\<lambda>s. Inr (s, s))\<rparr>"

definition fresh_world :: "env \<Rightarrow> world" where
  "fresh_world e = \<lparr>w_env = e, w_steps = 0, w_log = [], w_cell = PNone\<rparr>"

lemma fresh_world_simps [simp]: "w_env (fresh_world e) = e" "w_log (fresh_world e) = []"
  by (simp_all add: fresh_world_def)

lemma calm_broker_up [simp]: "broker_up (calm_env loads)"
  by (simp add: broker_up_def calm_env_def)

definition message_of :: "string \<Rightarrow> bytes \<Rightarrow> kafka_message" where
  "message_of topic v = \<lparr>km_topic = Some topic, km_partition = Some 0, km_offset = Some 0, km_key = None,
     km_value = Some v, km_headers = []\<rparr>"

text \<open>A decoder that knows one text.\<close>

definition loads_one :: "pyval \<Rightarrow> bytes option \<Rightarrow> pyval res" where
  "loads_one v b = (if b = Some [1] then Inr v else Inl (Exn JSONDecodeError ''Expecting value''))"

end
