(* ===== verification/PoisonMessage.thy ===== *)
theory PoisonMessage
  imports Messaging
begin

text \<open>
  \<open>services/python_common/poison_message.py\<close>: a failing message is either isolated in the
  dead-letter topic and committed, or left uncommitted for a retry.  The locale \<open>worker\<close> states
  what the helper needs of a worker's own processing; the consumer loop with restarts is
  analysed inside it.
\<close>

section \<open>The envelope\<close>

definition MAX_ERROR_MESSAGE_LENGTH :: nat where "MAX_ERROR_MESSAGE_LENGTH = 500"

definition decode_bytes :: "bytes option \<Rightarrow> code_points option \<times> string" where
  "decode_bytes v = (case v of
     None \<Rightarrow> (None, ''utf-8'')
   | Some bs \<Rightarrow> (case utf8_decode bs of
       Some cs \<Rightarrow> (Some cs, ''utf-8'')
     | None \<Rightarrow> (Some (map of_char (b64encode bs)), ''base64'')))"

definition decode_header :: "string \<times> bytes option \<Rightarrow> dlq_header" where
  "decode_header h = (case decode_bytes (snd h) of (value, encoding) \<Rightarrow>
     \<lparr>dh_name = fst h, dh_value = (case value of Some cs \<Rightarrow> cs | None \<Rightarrow> []), dh_encoding = encoding\<rparr>)"

definition decode_headers :: "(string \<times> bytes option) list \<Rightarrow> dlq_header list" where
  "decode_headers hs = map decode_header hs"

text \<open>\<open>type(error).__name__\<close>\<close>

fun exn_class_name :: "exn_class \<Rightarrow> string" where
  "exn_class_name ValueError = ''ValueError''"
| "exn_class_name UnicodeDecodeError = ''UnicodeDecodeError''"
| "exn_class_name JSONDecodeError = ''JSONDecodeError''"
| "exn_class_name ValidationError = ''ValidationError''"
| "exn_class_name PermanentMutationError = ''PermanentMutationError''"
| "exn_class_name ExpoDeviceNotRegisteredError = ''ExpoDeviceNotRegisteredError''"
| "exn_class_name KeyError = ''KeyError''"
| "exn_class_name IndexError = ''IndexError''"
| "exn_class_name TypeError = ''TypeError''"
| "exn_class_name AttributeError = ''AttributeError''"
| "exn_class_name AssertionError = ''AssertionError''"
| "exn_class_name OverflowError = ''OverflowError''"
| "exn_class_name ZeroDivisionError = ''ZeroDivisionError''"
| "exn_class_name OSError = ''OSError''"
| "exn_class_name EOFError = ''EOFError''"
| "exn_class_name RuntimeError = ''RuntimeError''"
| "exn_class_name DlqPublishError = ''DlqPublishError''"
| "exn_class_name HTTPStatusError = ''HTTPStatusError''"
| "exn_class_name HTTPException = ''HTTPException''"
| "exn_class_name ServiceError = ''ServiceError''"

definition build_dlq_envelope ::
  "kafka_message \<Rightarrow> exn \<Rightarrow> string \<Rightarrow> pyval option \<Rightarrow> dlq_envelope eff" where
  "build_dlq_envelope message error origin failed_event =
     (case (decode_bytes (km_value message), decode_bytes (km_key message)) of
        ((value_text, value_encoding), (key_text, key_encoding)) \<Rightarrow>
          eff_bind now (\<lambda>failed_at. eff_return
            \<lparr>dlq_origin = origin, dlq_error_type = exn_class_name (exn_cls error),
             dlq_error = take MAX_ERROR_MESSAGE_LENGTH (exn_msg error), dlq_failed_at = failed_at,
             dlq_source_topic = km_topic message, dlq_source_partition = km_partition message,
             dlq_source_offset = km_offset message, dlq_key = key_text, dlq_key_encoding = key_encoding,
             dlq_headers = decode_headers (km_headers message),
             dlq_failed_event = (case failed_event of Some v \<Rightarrow> FailedJson v | None \<Rightarrow> FailedText value_text),
             dlq_value_encoding = value_encoding\<rparr>))"

section \<open>Publishing and handling\<close>

definition publish_to_dlq :: "string \<Rightarrow> bytes option \<Rightarrow> dlq_envelope \<Rightarrow> unit eff" where
  "publish_to_dlq topic key envelope =
     eff_then (produce topic key (DeadLetter envelope))
       (eff_bind flush (\<lambda>(pending, delivery_error).
         if pending > 0 then eff_raise (Exn DlqPublishError
           (''timed out waiting for DLQ delivery confirmation to '' @ str_repr topic @ '' (''
             @ show_int pending @ '' message(s) still undelivered)''))
         else (case delivery_error of
             Some err \<Rightarrow> eff_raise (Exn DlqPublishError
               (''DLQ publish to '' @ str_repr topic @ '' failed: '' @ err))
           | None \<Rightarrow> eff_return ())))"

text \<open>\<open>failed_event\<close> and \<open>key_of\<close> (\<open>dlq_key\<close> in the source) are the optional callables; an event that is \<open>None\<close> counts as
  not given.\<close>

definition isolate ::
  "kafka_message \<Rightarrow> string \<Rightarrow> string \<Rightarrow> pyval eff option \<Rightarrow> bytes option eff option \<Rightarrow> exn \<Rightarrow> unit eff" where
  "isolate message dlq_topic origin failed_event key_of error =
     eff_bind (case failed_event of
         None \<Rightarrow> eff_return None
       | Some f \<Rightarrow> eff_bind f (\<lambda>v. eff_return (if v = PNone then None else Some v))) (\<lambda>fe.
     eff_bind (build_dlq_envelope message error origin fe) (\<lambda>envelope.
     eff_bind (case key_of of None \<Rightarrow> eff_return (km_key message) | Some k \<Rightarrow> k) (\<lambda>key.
       publish_to_dlq dlq_topic key envelope)))"

definition handle_message ::
  "kafka_message \<Rightarrow> string \<Rightarrow> unit eff \<Rightarrow> string \<Rightarrow> pyval eff option \<Rightarrow> bytes option eff option \<Rightarrow> unit eff" where
  "handle_message message dlq_topic process origin failed_event key_of =
     eff_then (eff_catch is_value_error process (isolate message dlq_topic origin failed_event key_of))
       (commit message)"

section \<open>Decoding loses nothing\<close>

text \<open>Reading a field of the envelope back with the encoding it names.\<close>

definition encode_field :: "code_points option \<times> string \<Rightarrow> bytes option option" where
  "encode_field f = (case f of
     (None, _) \<Rightarrow> Some None
   | (Some cs, encoding) \<Rightarrow>
       if encoding = ''utf-8'' then Some (Some (utf8_bytes cs))
       else map_option Some (b64decode (map char_of cs)))"

lemma char_of_of_char_map: "map char_of (map of_char s :: int list) = s"
  by (induction s) auto

text \<open>The dead letter keeps the message: the key and the value can be read back byte for
  byte from their text and the encoding named beside it, whether or not they were UTF-8.\<close>

theorem dlq_field_roundtrip:
  assumes "list_all is_bytes (case v of Some bs \<Rightarrow> [bs] | None \<Rightarrow> [])"
  shows "encode_field (decode_bytes v) = Some v"
proof (cases v)
  case (Some bs)
  then have b: "is_bytes bs" using assms by simp
  show ?thesis
  proof (cases "utf8_decode bs")
    case None
    then show ?thesis
      using b64decode_encode [OF b] char_of_of_char_map [of "b64encode bs"]
      by (simp add: Some decode_bytes_def encode_field_def del: map_map)
  next
    case (Some cs)
    then show ?thesis using \<open>v = Some bs\<close> utf8_decode_bytes [OF Some]
      by (simp add: decode_bytes_def encode_field_def)
  qed
qed (simp add: decode_bytes_def encode_field_def)

theorem dlq_field_roundtrip_witness:
  "decode_bytes (Some [255, 254]) = (Some (map of_char ''//4=''), ''base64'')
   \<and> encode_field (Some (map of_char ''//4=''), ''base64'') = Some (Some [255, 254])"
proof -
  have d: "decode_bytes (Some [255, 254]) = (Some (map of_char ''//4=''), ''base64'')" by code_simp
  have "list_all is_bytes [[255, 254]]" by code_simp
  then show ?thesis using dlq_field_roundtrip [of "Some [255, 254]"] d by simp
qed

section \<open>What handling a message amounts to\<close>

text \<open>The abstract contract: the verdict on a message and whether it may be committed.\<close>

datatype verdict = Handled | Isolated | Retry

text \<open>Whether the log entries show a dead letter that the broker confirmed.\<close>

definition confirmed_dlq :: "string \<Rightarrow> effect list \<Rightarrow> bool" where
  "confirmed_dlq topic es =
     (case rev es of Flushed pending None # Produced t _ (DeadLetter _) # _ \<Rightarrow> pending \<le> 0 \<and> t = topic | _ \<Rightarrow> False)"

lemma quiet_build [quiet_intros]: "quiet (build_dlq_envelope m e origin fe)"
  by (cases "decode_bytes (km_value m)"; cases "decode_bytes (km_key m)")
    (auto simp: build_dlq_envelope_def intro!: quiet_intros)

lemma quiet_publish_to_dlq [quiet_intros]: "quiet (publish_to_dlq t k v)"
  unfolding publish_to_dlq_def by (auto intro!: quiet_intros split: prod.splits option.splits)

definition quiet_option :: "'a eff option \<Rightarrow> bool" where
  "quiet_option f = (case f of None \<Rightarrow> True | Some g \<Rightarrow> quiet g)"

lemma quiet_isolate:
  assumes "quiet_option fe" and "quiet_option k"
  shows "quiet (isolate m t origin fe k e)"
  unfolding isolate_def
  using assms by (cases fe; cases k) (auto simp: quiet_option_def intro!: quiet_intros)

lemma publish_to_dlq_ok:
  assumes "publish_to_dlq t k v w = (Inr (), w')"
  shows "\<exists>n. w_log w' = w_log w @ [Produced t k (DeadLetter v), Flushed n None] \<and> n \<le> 0"
  using assms
  by (auto simp: publish_to_dlq_def res_simps produce_def flush_def Let_def split: option.splits if_splits prod.splits)

lemma isolate_ok:
  assumes "isolate m t origin fe k e w = (Inr (), w')" and "quiet_option fe" and "quiet_option k"
  shows "\<exists>es. w_log w' = w_log w @ es \<and> confirmed_dlq t es \<and> (\<forall>e\<in>set es. \<not> is_commit e)"
proof -
  from assms(1) obtain key env w1 where p: "publish_to_dlq t key env w1 = (Inr (), w')"
    and pre: "(eff_bind (case fe of None \<Rightarrow> eff_return None
         | Some f \<Rightarrow> eff_bind f (\<lambda>v. eff_return (if v = PNone then None else Some v))) (\<lambda>fe.
       eff_bind (build_dlq_envelope m e origin fe) (\<lambda>envelope.
       eff_bind (case k of None \<Rightarrow> eff_return (km_key m) | Some k \<Rightarrow> k) (\<lambda>key. eff_return (key, envelope))))) w
       = (Inr (key, env), w1)"
    by (auto simp: isolate_def res_simps)
  have "quiet (eff_bind (case fe of None \<Rightarrow> eff_return None
         | Some f \<Rightarrow> eff_bind f (\<lambda>v. eff_return (if v = PNone then None else Some v))) (\<lambda>fe.
       eff_bind (build_dlq_envelope m e origin fe) (\<lambda>envelope.
       eff_bind (case k of None \<Rightarrow> eff_return (km_key m) | Some k \<Rightarrow> k) (\<lambda>key. eff_return (key, envelope)))))"
    using assms(2,3) by (cases fe; cases k) (auto simp: quiet_option_def intro!: quiet_intros)
  from quietD [OF this pre] obtain es where es: "w_log w1 = w_log w @ es" "\<forall>e\<in>set es. \<not> is_commit e" .
  obtain n where "w_log w' = w_log w1 @ [Produced t key (DeadLetter env), Flushed n None]" "n \<le> 0"
    using publish_to_dlq_ok [OF p] by blast
  then show ?thesis using es
    by (intro exI [of _ "es @ [Produced t key (DeadLetter env), Flushed n None]"])
      (auto simp: confirmed_dlq_def)
qed

text \<open>What the log says after one call: the entries of the processing, those of the isolation
  when there was one, and at the end the commit when the call returned.\<close>

lemma handle_message_log:
  assumes "handle_message m t process origin fe k w = (r, w')"
    and "quiet process" and "quiet_option fe" and "quiet_option k"
  obtains v es where "w_env w' = w_env w" and "\<forall>e\<in>set es. \<not> is_commit e"
    and "v = Handled \<longrightarrow> fst (process w) = Inr ()"
    and "v = Isolated \<longrightarrow> (\<exists>e. fst (process w) = Inl e \<and> is_value_error (exn_cls e)) \<and> confirmed_dlq t es"
    and "w_log w' = w_log w @ es @ (if v = Retry then [] else [Committed m])"
    and "v = Retry \<longleftrightarrow> r \<noteq> Inr ()"
proof -
  let ?c = "eff_catch is_value_error process (isolate m t origin fe k)"
  obtain s w1 where c: "?c w = (s, w1)" by fastforce
  have q: "quiet ?c" using assms(2) quiet_isolate [OF assms(3,4)] by (intro quiet_intros)
  from quietD [OF q c] obtain es where es: "w_env w1 = w_env w" "w_log w1 = w_log w @ es"
    "\<forall>e\<in>set es. \<not> is_commit e" .
  show thesis
  proof (cases s)
    case (Inl e)
    then have "r = Inl e" "w' = w1" using assms(1) c by (auto simp: handle_message_def eff_bind_def)
    then show thesis using that [of es Retry] es by simp
  next
    case (Inr u)
    then have run: "commit m w1 = (r, w')" using assms(1) c by (simp add: handle_message_def eff_bind_def)
    show thesis
    proof (cases "env_commit (w_env w1) (w_steps w1)")
      case (Some e)
      then have "r = Inl e" "w_env w' = w_env w1" "w_log w' = w_log w1"
        using run by (auto simp: commit_def)
      then show thesis using that [of es Retry] es by simp
    next
      case None
      then have r: "r = Inr ()" "w_env w' = w_env w1" "w_log w' = w_log w1 @ [Committed m]"
        using run by (auto simp: commit_def)
      show thesis
      proof (cases "fst (process w)")
        case (Inr x)
        then show thesis using that [of es Handled] es r by simp
      next
        case (Inl e)
        obtain w0 where p: "process w = (Inl e, w0)" using Inl by (metis prod.collapse)
        then have v: "is_value_error (exn_cls e)" and i: "isolate m t origin fe k e w0 = (Inr (), w1)"
          using c \<open>s = Inr u\<close> by (auto simp: eff_catch_def split: if_splits)
        from quietD [OF assms(2) p] obtain es0 where es0: "w_log w0 = w_log w @ es0" .
        from isolate_ok [OF i assms(3,4)] obtain es1 where
          es1: "w_log w1 = w_log w0 @ es1" "confirmed_dlq t es1" by blast
        have "es = es0 @ es1" using es(2) es0 es1(1) by simp
        moreover from es1(2) have "confirmed_dlq t (es0 @ es1)"
          by (auto simp: confirmed_dlq_def split: list.splits effect.splits option.splits payload.splits)
        ultimately show thesis using that [of es Isolated] es r Inl v by simp
      qed
    qed
  qed
qed

text \<open>The log entries end with a dead letter of this message for this error, which the broker
  confirmed.\<close>

definition dead_lettered :: "string \<Rightarrow> kafka_message \<Rightarrow> exn \<Rightarrow> effect list \<Rightarrow> bool" where
  "dead_lettered topic m e es \<longleftrightarrow> (\<exists>es0 key v n. es = es0 @ [Produced topic key (DeadLetter v), Flushed n None] \<and> n \<le> 0
     \<and> dlq_source_topic v = km_topic m \<and> dlq_source_partition v = km_partition m \<and> dlq_source_offset v = km_offset m
     \<and> (dlq_key v, dlq_key_encoding v) = decode_bytes (km_key m)
     \<and> dlq_error_type v = exn_class_name (exn_cls e))"

lemma dead_lettered_append: "dead_lettered t m e es \<Longrightarrow> dead_lettered t m e (es0 @ es)"
  unfolding dead_lettered_def by (metis append_assoc)

lemma build_dlq_envelope_fields:
  assumes "build_dlq_envelope m e origin x w = (Inr v, w')"
  shows "w_log w' = w_log w" and "dlq_source_topic v = km_topic m" and "dlq_source_partition v = km_partition m"
    and "dlq_source_offset v = km_offset m" and "(dlq_key v, dlq_key_encoding v) = decode_bytes (km_key m)"
    and "dlq_error_type v = exn_class_name (exn_cls e)"
  using assms
  by (auto simp: build_dlq_envelope_def res_simps now_def eff_return_def tick_def split: prod.splits)

lemma isolate_dead_lettered:
  assumes "isolate m t origin fe k e w = (Inr (), w')" and "quiet_option fe" and "quiet_option k"
  obtains es where "w_log w' = w_log w @ es" and "dead_lettered t m e es"
proof -
  let ?first = "(case fe of None \<Rightarrow> eff_return None | Some f \<Rightarrow> eff_bind f (\<lambda>v. eff_return (if v = PNone then None else Some v)))"
  let ?key = "(case k of None \<Rightarrow> eff_return (km_key m) | Some g \<Rightarrow> g)"
  obtain x w1 v w2 key w3 where first: "?first w = (Inr x, w1)" and v: "build_dlq_envelope m e origin x w1 = (Inr v, w2)"
    and key: "?key w2 = (Inr key, w3)" and p: "publish_to_dlq t key v w3 = (Inr (), w')"
    using assms(1) unfolding isolate_def eff_bind_Inr [where f = "\<lambda>fe. eff_bind _ _"] by (auto simp only: eff_bind_Inr)
  have q: "quiet ?first" "quiet ?key"
    using assms(2,3) by (cases fe; auto simp: quiet_option_def intro!: quiet_intros)
      (use assms(3) in \<open>cases k; auto simp: quiet_option_def intro!: quiet_intros\<close>)
  obtain es1 where 1: "w_log w1 = w_log w @ es1" using quietD [OF q(1) first] by metis
  obtain es2 where 2: "w_log w3 = w_log w2 @ es2" using quietD [OF q(2) key] by metis
  obtain n where 3: "w_log w' = w_log w3 @ [Produced t key (DeadLetter v), Flushed n None]" "n \<le> 0"
    using publish_to_dlq_ok [OF p] by blast
  show thesis
  proof (rule that)
    show "w_log w' = w_log w @ (es1 @ es2) @ [Produced t key (DeadLetter v), Flushed n None]"
      using 1 2 3(1) build_dlq_envelope_fields(1) [OF v] by simp
    show "dead_lettered t m e ((es1 @ es2) @ [Produced t key (DeadLetter v), Flushed n None])"
      unfolding dead_lettered_def using 3(2) build_dlq_envelope_fields(2-) [OF v] by blast
  qed
qed

text \<open>A call that committed either processed the message or isolated it, in that very run.\<close>

lemma handle_message_committed:
  assumes "handle_message m t process origin fe k w = (Inr (), w')"
    and "quiet process" and "quiet_option fe" and "quiet_option k"
  obtains (processed) w1 where "process w = (Inr (), w1)" and "w_log w' = w_log w1 @ [Committed m]"
  | (isolated) e w1 es where "process w = (Inl e, w1)" and "is_value_error (exn_cls e)"
      and "w_log w' = w_log w1 @ es @ [Committed m]" and "dead_lettered t m e es"
proof -
  obtain u w2 where c: "eff_catch is_value_error process (isolate m t origin fe k) w = (Inr u, w2)"
    and "commit m w2 = (Inr (), w')"
    using assms(1) by (auto simp: handle_message_def res_simps)
  then have log: "w_log w' = w_log w2 @ [Committed m]"
    by (auto simp: commit_def split: option.splits)
  obtain r w1 where p: "process w = (r, w1)" by fastforce
  show thesis
  proof (cases r)
    case (Inr x)
    then show thesis using processed p c log by (simp add: eff_catch_def)
  next
    case (Inl e)
    then have e: "is_value_error (exn_cls e)" and "isolate m t origin fe k e w1 = (Inr (), w2)"
      using p c by (auto simp: eff_catch_def split: if_splits)
    from isolate_dead_lettered [OF this(2) assms(3,4)] obtain es where
      "w_log w2 = w_log w1 @ es" "dead_lettered t m e es" .
    then show thesis using isolated [of e w1 es] p Inl e log by simp
  qed
qed

section \<open>The consumer loop\<close>

text \<open>What one \<open>poll\<close> gives, and the loop of every worker's \<open>main\<close>: a transport error stops the
  process, and so does an exception of the handler.\<close>

datatype poll_result = NoMessage | TransportError string | Polled kafka_message

fun consume_loop :: "(kafka_message \<Rightarrow> unit eff) \<Rightarrow> poll_result list \<Rightarrow> unit eff" where
  "consume_loop handle [] = eff_return ()"
| "consume_loop handle (p # ps) = (case p of
     NoMessage \<Rightarrow> consume_loop handle ps
   | TransportError e \<Rightarrow> eff_raise (Exn RuntimeError e)
   | Polled m \<Rightarrow> eff_then (handle m) (consume_loop handle ps))"

text \<open>The life of a consumer on one partition, restarts included: the broker delivers from the
  committed position, a message that raises stops the process, and the restarted process starts
  again at the committed position.\<close>

record consumer =
  cs_next :: nat
  cs_world :: world

inductive consumer_step :: "(kafka_message \<Rightarrow> unit eff) \<Rightarrow> kafka_message list \<Rightarrow> consumer \<Rightarrow> consumer \<Rightarrow> bool"
  for handle :: "kafka_message \<Rightarrow> unit eff" and msgs :: "kafka_message list" where
  commits: "\<lbrakk>cs_next s < length msgs; handle (msgs ! cs_next s) (cs_world s) = (Inr (), w)\<rbrakk> \<Longrightarrow>
    consumer_step handle msgs s \<lparr>cs_next = Suc (cs_next s), cs_world = w\<rparr>"
| crashes: "\<lbrakk>cs_next s < length msgs; handle (msgs ! cs_next s) (cs_world s) = (Inl e, w)\<rbrakk> \<Longrightarrow>
    consumer_step handle msgs s \<lparr>cs_next = cs_next s, cs_world = w\<lparr>w_cell := PNone\<rparr>\<rparr>"
| idles: "consumer_step handle msgs s s"

inductive consumer_run :: "(kafka_message \<Rightarrow> unit eff) \<Rightarrow> kafka_message list \<Rightarrow> consumer \<Rightarrow> consumer \<Rightarrow> bool"
  for handle :: "kafka_message \<Rightarrow> unit eff" and msgs :: "kafka_message list" where
  start: "consumer_run handle msgs s s"
| further: "\<lbrakk>consumer_run handle msgs s t; consumer_step handle msgs t u\<rbrakk> \<Longrightarrow> consumer_run handle msgs s u"

definition consumer_init :: "env \<Rightarrow> consumer" where
  "consumer_init e = \<lparr>cs_next = 0, cs_world = fresh_world e\<rparr>"

lemma raises_weaken: "raises_only env P m \<Longrightarrow> (\<And>e. P e \<Longrightarrow> Q e) \<Longrightarrow> raises_only env Q m"
  unfolding raises_only_def by blast

lemma publish_to_dlq_up: "broker_up env \<Longrightarrow> raises_only env P (publish_to_dlq t k v)"
  unfolding raises_only_def publish_to_dlq_def
  by (auto simp: eff_bind_def produce_def flush_def broker_up_def Let_def)

lemma isolate_up:
  assumes "broker_up env" and "quiet_option fe" and "quiet_option k"
    and "\<And>f. fe = Some f \<Longrightarrow> raises_only env P f" and "\<And>f. k = Some f \<Longrightarrow> raises_only env P f"
  shows "raises_only env P (isolate m t origin fe k e)"
proof -
  have "raises_only env P (build_dlq_envelope m e origin x)" for x
    by (cases "decode_bytes (km_value m)"; cases "decode_bytes (km_key m)")
      (auto simp: build_dlq_envelope_def intro!: raises_intros quiet_intros)
  then show ?thesis
    unfolding isolate_def using assms
    by (cases fe; cases k) (auto simp: quiet_option_def intro!: raises_intros quiet_intros publish_to_dlq_up)
qed

text \<open>What the helper needs of a worker: its own processing and the two callables commit
  nothing.  What it gives: every committed message was processed or is a confirmed dead letter,
  commits happen once and in order, and a message cannot block its partition unless its
  processing raises something else than a value error.\<close>

locale worker =
  fixes process :: "kafka_message \<Rightarrow> unit eff"
    and dlq_topic :: "kafka_message \<Rightarrow> string"
    and origin :: string
    and failed_event :: "pyval eff option"
    and key_of :: "bytes option eff option"
  assumes process_quiet: "quiet (process m)"
    and failed_event_quiet: "quiet_option failed_event"
    and key_quiet: "quiet_option key_of"
begin

lemma handled:
  assumes "handle_message m (dlq_topic m) (process m) origin failed_event key_of w = (r, w')"
  obtains v es where "w_env w' = w_env w" and "\<forall>e\<in>set es. \<not> is_commit e"
    and "v = Handled \<longrightarrow> fst (process m w) = Inr ()"
    and "v = Isolated \<longrightarrow> (\<exists>e. fst (process m w) = Inl e \<and> is_value_error (exn_cls e)) \<and> confirmed_dlq (dlq_topic m) es"
    and "w_log w' = w_log w @ es @ (if v = Retry then [] else [Committed m])"
    and "v = Retry \<longleftrightarrow> r \<noteq> Inr ()"
  by (rule handle_message_log [OF assms process_quiet failed_event_quiet key_quiet])

text \<open>Safety of the whole life of a consumer: commits happen once and in order, and behind each
  of them stands one attempt, made in a state the consumer really was in, whose entries are a
  part of the log.\<close>

abbreviation (input) handler :: "kafka_message \<Rightarrow> unit eff" where
  "handler \<equiv> (\<lambda>m. handle_message m (dlq_topic m) (process m) origin failed_event key_of)"

definition accounted :: "kafka_message list \<Rightarrow> env \<Rightarrow> consumer \<Rightarrow> nat \<Rightarrow> bool" where
  "accounted msgs env s i \<longleftrightarrow> (\<exists>t w rest. consumer_run handler msgs (consumer_init env) t \<and> cs_next t = i
     \<and> w_env (cs_world t) = env \<and> handler (msgs ! i) (cs_world t) = (Inr (), w)
     \<and> w_log (cs_world s) = w_log w @ rest)"

lemma accounted_later:
  "accounted msgs env s i \<Longrightarrow> w_log (cs_world u) = w_log (cs_world s) @ es \<Longrightarrow> accounted msgs env u i"
  unfolding accounted_def by auto

lemma run_safe:
  assumes "consumer_run handler msgs (consumer_init env) s"
  shows "cs_next s \<le> length msgs \<and> w_env (cs_world s) = env
    \<and> filter is_commit (w_log (cs_world s)) = map Committed (take (cs_next s) msgs)
    \<and> (\<forall>i<cs_next s. accounted msgs env s i)"
  using assms
proof (induction "consumer_init env" s)
  case start
  then show ?case by (simp add: consumer_init_def fresh_world_def)
next
  case (further t u)
  from further(3) show ?case
  proof cases
    case (commits w)
    let ?m = "msgs ! cs_next t"
    obtain v es where h: "w_env w = w_env (cs_world t)" "\<forall>e\<in>set es. \<not> is_commit e"
      "w_log w = w_log (cs_world t) @ es @ (if v = Retry then [] else [Committed ?m])" "v = Retry \<longleftrightarrow> Inr () \<noteq> (Inr () :: unit res)"
      using handled [OF commits(3)] by metis
    have tk: "take (Suc (cs_next t)) msgs = take (cs_next t) msgs @ [?m]"
      using commits(2) by (rule take_Suc_conv_app_nth)
    have "filter is_commit es = []" using h(2) by (simp add: filter_empty_conv)
    then have "filter is_commit (w_log w) = map Committed (take (Suc (cs_next t)) msgs)"
      using further(2) h(3,4) tk by auto
    moreover have "accounted msgs env u (cs_next t)"
      unfolding accounted_def using further(1,2) commits(1,3) by (intro exI [of _ t] exI [of _ w]) simp
    moreover have "accounted msgs env u i" if "i < cs_next t" for i
      using further(2) that h(3) commits(1) by (intro accounted_later [of msgs env t i u]) auto
    ultimately show ?thesis using commits(1,2) h(1) further(2) by (auto simp: less_Suc_eq)
  next
    case (crashes e w)
    obtain v es where h: "w_env w = w_env (cs_world t)" "\<forall>e\<in>set es. \<not> is_commit e"
      "w_log w = w_log (cs_world t) @ es @ (if v = Retry then [] else [Committed (msgs ! cs_next t)])"
      "v = Retry \<longleftrightarrow> Inl e \<noteq> (Inr () :: unit res)"
      using handled [OF crashes(3)] by metis
    then have log: "w_log (cs_world u) = w_log (cs_world t) @ es" using crashes(1) by simp
    moreover have "filter is_commit es = []" using h(2) by (simp add: filter_empty_conv)
    moreover have "accounted msgs env u i" if "i < cs_next t" for i
      using further(2) that log by (intro accounted_later [of msgs env t i u]) auto
    ultimately show ?thesis using further(2) crashes(1) h(1) by simp
  next
    case idles
    then show ?thesis using further(2) by simp
  qed
qed

text \<open>The attempt behind a commit processed the message or isolated it.\<close>

lemma accountedE:
  assumes "accounted msgs env s i"
  obtains (processed) t w rest where "consumer_run handler msgs (consumer_init env) t" and "cs_next t = i"
      and "w_env (cs_world t) = env" and "process (msgs ! i) (cs_world t) = (Inr (), w)"
      and "w_log (cs_world s) = w_log w @ Committed (msgs ! i) # rest"
  | (isolated) t e w es rest where "consumer_run handler msgs (consumer_init env) t" and "cs_next t = i"
      and "w_env (cs_world t) = env" and "process (msgs ! i) (cs_world t) = (Inl e, w)" and "is_value_error (exn_cls e)"
      and "w_log (cs_world s) = w_log w @ es @ Committed (msgs ! i) # rest" and "dead_lettered (dlq_topic (msgs ! i)) (msgs ! i) e es"
proof -
  obtain t w rest where a: "consumer_run handler msgs (consumer_init env) t" "cs_next t = i" "w_env (cs_world t) = env"
    and h: "handler (msgs ! i) (cs_world t) = (Inr (), w)" and log: "w_log (cs_world s) = w_log w @ rest"
    using assms unfolding accounted_def by blast
  from h process_quiet failed_event_quiet key_quiet show thesis
    by (rule handle_message_committed) (use processed isolated a log in \<open>fastforce+\<close>)
qed

text \<open>A message whose processing always raises something else than a value error holds up its
  partition for ever.\<close>

lemma run_stuck:
  assumes "consumer_run (\<lambda>m. handle_message m (dlq_topic m) (process m) origin failed_event key_of) (m # msgs)
      (consumer_init env) s"
    and "\<And>w. w_env w = env \<Longrightarrow> \<exists>e. fst (process m w) = Inl e \<and> \<not> is_value_error (exn_cls e)"
  shows "cs_next s = 0 \<and> filter is_commit (w_log (cs_world s)) = [] \<and> w_env (cs_world s) = env"
  using assms(1)
proof (induction "consumer_init env" s)
  case start
  then show ?case by (simp add: consumer_init_def)
next
  case (further t u)
  from further(3) show ?case
  proof cases
    case (commits w)
    obtain e w1 where p: "process m (cs_world t) = (Inl e, w1)" and e: "\<not> is_value_error (exn_cls e)"
      using assms(2) further(2) by (metis prod.collapse)
    then show ?thesis using commits(3) further(2)
      by (simp add: handle_message_def eff_bind_def eff_catch_def)
  next
    case (crashes e w)
    obtain e' w1 where p: "process m (cs_world t) = (Inl e', w1)" and e': "\<not> is_value_error (exn_cls e')"
      using assms(2) further(2) by (metis prod.collapse)
    then have w: "w = w1" using crashes(3) further(2)
      by (simp add: handle_message_def eff_bind_def eff_catch_def)
    obtain es where "w_env w1 = w_env (cs_world t)" "w_log w1 = w_log (cs_world t) @ es" "\<forall>e\<in>set es. \<not> is_commit e"
      using quietD [OF process_quiet p] .
    moreover from this(3) have "filter is_commit es = []" by (simp add: filter_empty_conv)
    ultimately show ?thesis using further(2) crashes(1) w by simp
  next
    case idles
    then show ?thesis using further(2) by simp
  qed
qed

text \<open>Progress: with the broker up, a batch is consumed and committed in order up to its end, or
  up to the first message whose processing raises something else than a value error.\<close>

lemma batch_prefix:
  assumes "broker_up env"
    and "\<And>m. raises_only env (\<lambda>e. is_value_error (exn_cls e) \<or> P m e) (process m)"
    and "\<And>f. failed_event = Some f \<Longrightarrow> raises_only env (\<lambda>_. False) f"
    and "\<And>f. key_of = Some f \<Longrightarrow> raises_only env (\<lambda>_. False) f"
    and "w_env w = env" and "consume_loop handler (map Polled msgs) w = (r, w')"
  shows "\<exists>k\<le>length msgs. filter is_commit (w_log w') = filter is_commit (w_log w) @ map Committed (take k msgs)
    \<and> (r = Inr () \<and> k = length msgs \<or> k < length msgs \<and> (\<exists>e. r = Inl e \<and> P (msgs ! k) e))"
  using assms(5,6)
proof (induction msgs arbitrary: w)
  case (Cons m msgs)
  obtain q w1 where h: "handler m w = (q, w1)" by fastforce
  obtain v es where 1: "w_env w1 = env" "\<forall>e\<in>set es. \<not> is_commit e" "v = Retry \<longleftrightarrow> q \<noteq> Inr ()"
    "w_log w1 = w_log w @ es @ (if v = Retry then [] else [Committed m])"
    using handled [OF h] Cons.prems(1) by metis
  then have none: "filter is_commit es = []" by (simp add: filter_empty_conv)
  show ?case
  proof (cases q)
    case (Inl e)
    have "raises_only env (P m) (isolate m (dlq_topic m) origin failed_event key_of x)" for x
      by (rule isolate_up [OF assms(1) failed_event_quiet key_quiet])
        (rule raises_weaken [OF assms(3)] raises_weaken [OF assms(4)], assumption, simp)+
    then have "raises_only env (P m) (handler m)"
      unfolding handle_message_def using assms(2)
      by (intro raises_bind raises_catch raises_commit [OF assms(1)] quiet_catch process_quiet
          quiet_isolate failed_event_quiet key_quiet)
    then have "P m e" using raises_onlyD Cons.prems(1) h Inl by metis
    moreover have "r = Inl e" "w' = w1" using Cons.prems(2) h Inl by (simp_all add: eff_bind_raise)
    ultimately show ?thesis using 1 none Inl by (intro exI [of _ 0]) simp
  next
    case (Inr u)
    then have "consume_loop handler (map Polled msgs) w1 = (r, w')" using Cons.prems(2) h by (simp add: eff_bind_run)
    from Cons.IH [OF 1(1) this] obtain k where k: "k \<le> length msgs"
      "filter is_commit (w_log w') = filter is_commit (w_log w1) @ map Committed (take k msgs)"
      "r = Inr () \<and> k = length msgs \<or> k < length msgs \<and> (\<exists>e. r = Inl e \<and> P (msgs ! k) e)" by blast
    then show ?thesis using 1 none Inr by (intro exI [of _ "Suc k"]) auto
  qed
qed simp

end

end
