(* ===== verification/Events.thy ===== *)
theory Events
  imports PoisonMessage Sha256
begin

text \<open>
  Vocabulary of the event-producing workers: reading fields of decoded JSON, dictionary
  displays whose entries may raise, text clean-up with regular expressions over character
  classes, and the envelope around every event.
\<close>

section \<open>Fields and displays\<close>

abbreviation field :: "pyval \<Rightarrow> string \<Rightarrow> pyval res" where
  "field v k \<equiv> py_getitem v k"

text \<open>\<open>v.get(k)\<close>\<close>

abbreviation get_field :: "pyval \<Rightarrow> string \<Rightarrow> pyval res" where
  "get_field v k \<equiv> py_get v k PNone"

text \<open>A display \<open>{k1: e1, k2: e2}\<close> evaluates its entries in order.\<close>

definition res_dict :: "(string \<times> pyval res) list \<Rightarrow> pydict res" where
  "res_dict = res_map (\<lambda>(k, r). res_bind r (\<lambda>v. Inr (k, v)))"

definition const :: "pyval \<Rightarrow> pyval res" where
  "const v = Inr v"

text \<open>\<open>a | b\<close> where \<open>b\<close> is a display\<close>

definition py_or_dict :: "pyval \<Rightarrow> pydict \<Rightarrow> pydict res" where
  "py_or_dict v d = (case v of PDict a \<Rightarrow> Inr (dict_merge a d)
     | _ \<Rightarrow> Inl (Exn TypeError ''unsupported operand type(s) for |''))"

text \<open>A text method on a value that may be no text.\<close>

definition the_str :: "string \<Rightarrow> pyval \<Rightarrow> string res" where
  "the_str attribute v = (case v of PStr s \<Rightarrow> Inr s
     | _ \<Rightarrow> Inl (Exn AttributeError (type_name v @ '' object has no attribute '' @ attribute)))"

text \<open>A list or a dictionary cannot be looked up in a set or a dictionary.\<close>

definition hashable :: "pyval \<Rightarrow> bool" where
  "hashable v = (case v of PList _ \<Rightarrow> False | PDict _ \<Rightarrow> False | _ \<Rightarrow> True)"

text \<open>\<open>int(v)\<close>\<close>

definition py_int :: "pyval \<Rightarrow> int res" where
  "py_int v = (case v of
     PInt i \<Rightarrow> Inr i
   | PBool b \<Rightarrow> Inr (if b then 1 else 0)
   | PFloat f \<Rightarrow> int_of_float rat_trunc f
   | PStr s \<Rightarrow> (case parse_int s of Some i \<Rightarrow> Inr i
       | None \<Rightarrow> value_error (''invalid literal for int() with base 10: '' @ str_repr s))
   | _ \<Rightarrow> Inl (Exn TypeError (''int() argument must be a string, a bytes-like object or a real number, not ''
       @ CHR 0x27 # type_name v @ [CHR 0x27])))"

text \<open>\<open>for x in v\<close>\<close>

definition py_iter :: "pyval \<Rightarrow> pyval list res" where
  "py_iter v = (case v of
     PList xs \<Rightarrow> Inr xs
   | PDict d \<Rightarrow> Inr (map (\<lambda>kv. PStr (fst kv)) d)
   | PStr s \<Rightarrow> Inr (map (\<lambda>c. PStr [c]) s)
   | _ \<Rightarrow> Inl (Exn TypeError (CHR 0x27 # type_name v @ CHR 0x27 # '' object is not iterable'')))"

lemma res_dict_Nil [simp]: "res_dict [] = Inr []"
  by (simp add: res_dict_def)

lemma res_dict_Cons [simp]:
  "res_dict ((k, r) # xs) = res_bind r (\<lambda>v. res_bind (res_dict xs) (\<lambda>d. Inr ((k, v) # d)))"
  by (cases r) (simp_all add: res_dict_def)

lemma const_simp [simp]: "const v = Inr v"
  by (simp add: const_def)

section \<open>Envelopes\<close>

text \<open>The envelope of the claim and entity workers; they differ in the origin and in the last part
  of the idempotency key.\<close>

definition worker_envelope ::
  "string \<Rightarrow> string \<Rightarrow> pyval \<Rightarrow> string \<Rightarrow> pyval \<Rightarrow> pyval \<Rightarrow> string \<Rightarrow> pydict eff" where
  "worker_envelope origin version source event_type key payload stage =
     eff_bind now (\<lambda>t. eff_bind uuid4 (\<lambda>u. eff_lift (res_dict
       [(''event_id'', const (PStr u)),
        (''event_type'', const (PStr event_type)),
        (''schema_version'', const (PInt 1)),
        (''tenant_id'', field source ''tenant_id''),
        (''occurred_at'', py_get source ''occurred_at'' (PStr t)),
        (''ingested_at'', const (PStr t)),
        (''correlation_id'', field source ''correlation_id''),
        (''causation_id'', field source ''event_id''),
        (''origin'', const (PStr origin)),
        (''processing_stage'', const (PStr stage)),
        (''idempotency_key'', const (PStr (event_type @ '':'' @ py_str key @ version))),
        (''payload'', const payload)])))"

text \<open>\<open>producer.produce(topic, key=key.encode(), value=json.dumps(event).encode())\<close>\<close>

definition publish_event :: "string \<Rightarrow> pyval \<Rightarrow> pydict \<Rightarrow> unit eff" where
  "publish_event topic key event =
     eff_bind (eff_lift (the_str ''encode'' key)) (\<lambda>k. produce topic (Some (utf8_encode k)) (Json (PDict event)))"

definition common_properties :: "pyval \<Rightarrow> pydict eff" where
  "common_properties source =
     eff_bind now (\<lambda>t. eff_lift (res_dict
       [(''tenant_id'', field source ''tenant_id''), (''observed_at'', get_field source ''occurred_at''),
        (''created_at'', const (PStr t)), (''updated_at'', const (PStr t))]))"

lemma quiet_worker_envelope [quiet_intros]: "quiet (worker_envelope origin ver src ty k p st)"
  unfolding worker_envelope_def by (intro quiet_intros)

lemma quiet_publish_event [quiet_intros]: "quiet (publish_event t k e)"
  unfolding publish_event_def by (intro quiet_intros)

lemma quiet_common_properties [quiet_intros]: "quiet (common_properties s)"
  unfolding common_properties_def by (intro quiet_intros)

section \<open>Replacing runs of characters\<close>

text \<open>\<open>re.sub(r"[...]+", r, s)\<close>: every maximal run of characters of the class becomes \<open>r\<close>.\<close>

fun sub_runs :: "(char \<Rightarrow> bool) \<Rightarrow> string \<Rightarrow> bool \<Rightarrow> string \<Rightarrow> string" where
  "sub_runs P r inside [] = []"
| "sub_runs P r inside (c # s) =
     (if P c then (if inside then [] else r) @ sub_runs P r True s else c # sub_runs P r False s)"

text \<open>\<open>re.sub(r"[...]", r, s)\<close> for one character at a time.\<close>

definition sub_chars :: "(char \<Rightarrow> bool) \<Rightarrow> char \<Rightarrow> string \<Rightarrow> string" where
  "sub_chars P r s = map (\<lambda>c. if P c then r else c) s"

definition is_lower_alnum :: "char \<Rightarrow> bool" where
  "is_lower_alnum c = (let n = (of_char c :: int) in 97 \<le> n \<and> n \<le> 122 \<or> 48 \<le> n \<and> n \<le> 57)"

lemma sub_runs_set: "c \<in> set (sub_runs P r b s) \<Longrightarrow> c \<in> set r \<or> c \<in> set s \<and> \<not> P c"
  by (induction P r b s rule: sub_runs.induct) (auto split: if_splits)

end
