(* ===== verification/Http.thy ===== *)
theory Http
  imports Events
begin

text \<open>
  Calls of other services: HTTP requests with their status and JSON body, and objects read from
  the store.  What the services answer is arbitrary.
\<close>

section \<open>HTTP\<close>

text \<open>A response as the services hand it over: the status code, and the decoded body unless the
  body is not JSON.\<close>

record http_response =
  hr_status :: int
  hr_json :: "pyval res"

definition response_of :: "pyval \<Rightarrow> http_response" where
  "response_of v =
     \<lparr>hr_status = (case field v ''status_code'' of Inr (PInt n) \<Rightarrow> n | _ \<Rightarrow> 500),
      hr_json = (case field v ''json'' of Inr j \<Rightarrow> Inr j | Inl _ \<Rightarrow> Inl (Exn JSONDecodeError ''Expecting value''))\<rparr>"

definition http_request :: "string \<Rightarrow> string \<Rightarrow> pyval \<Rightarrow> pyval \<Rightarrow> http_response eff" where
  "http_request verb url headers body =
     eff_bind (call_service (verb @ '' '' @ url) (PDict [(''headers'', headers), (''json'', body)]))
       (\<lambda>v. eff_return (response_of v))"

text \<open>\<open>response.raise_for_status()\<close>: only the 2xx codes pass.\<close>

definition raise_for_status :: "http_response \<Rightarrow> unit res" where
  "raise_for_status r = res_guard (200 \<le> hr_status r \<and> hr_status r < 300)
     (Exn HTTPStatusError (''status '' @ show_int (hr_status r)))"

text \<open>The configuration the workers read from their environment.\<close>

record http_config =
  control_plane_url :: string
  internal_token :: string
  expo_push_url :: string

definition internal_headers :: "http_config \<Rightarrow> pyval" where
  "internal_headers cfg = PDict [(''X-SignalChord-Internal-Token'', PStr (internal_token cfg))]"

lemma quiet_http_request [quiet_intros]: "quiet (http_request verb url h b)"
  unfolding http_request_def by (intro quiet_intros)

lemma emits_http_request [emits_intros]:
  "P (Called (verb @ '' '' @ url) (PDict [(''headers'', h), (''json'', b)])) \<Longrightarrow> emits env P (http_request verb url h b)"
  unfolding http_request_def by (intro emits_intros)

section \<open>Objects\<close>

text \<open>An object read up to a limit: how many bytes came and the text they decode to, if they are
  UTF-8.\<close>

record stored_body =
  sb_length :: int
  sb_text :: "string option"

definition body_of :: "pyval \<Rightarrow> stored_body" where
  "body_of v =
     \<lparr>sb_length = (case field v ''length'' of Inr (PInt n) \<Rightarrow> n | _ \<Rightarrow> 0),
      sb_text = (case field v ''text'' of Inr (PStr s) \<Rightarrow> Some s | _ \<Rightarrow> None)\<rparr>"

definition decode_body :: "stored_body \<Rightarrow> string res" where
  "decode_body b = (case sb_text b of Some s \<Rightarrow> Inr s
     | None \<Rightarrow> Inl (Exn UnicodeDecodeError ''invalid utf-8''))"

definition lstrip_slash :: "string \<Rightarrow> string" where
  "lstrip_slash s = dropWhile (\<lambda>c. c = CHR ''/'') s"

section \<open>Surroundings for the examples\<close>

definition sample_config :: http_config where
  "sample_config = \<lparr>control_plane_url = ''http://control-plane:3000'', internal_token = ''token'',
     expo_push_url = ''https://exp.host/--/api/v2/push/send''\<rparr>"

text \<open>Surroundings in which every service answers with the same status and body.\<close>

definition answering_env :: "pyval \<Rightarrow> int \<Rightarrow> pyval \<Rightarrow> env" where
  "answering_env event status body = (calm_env (loads_one event))
     \<lparr>env_call := (\<lambda>_ _ _. Inr (PDict [(''status_code'', PInt status), (''json'', body)]))\<rparr>"

end
