(* ===== verification/AlertProjector.thy ===== *)
theory AlertProjector
  imports Http
begin

text \<open>
  \<open>services/alert-projector/worker.py\<close>: created alerts are handed to the control plane.
\<close>

definition ALERT_INPUT_TOPIC :: string where "ALERT_INPUT_TOPIC = ''alert.created.v1''"
definition ALERT_DLQ_TOPIC :: string where "ALERT_DLQ_TOPIC = ALERT_INPUT_TOPIC @ ''.dlq''"

definition alert_project :: "http_config \<Rightarrow> pyval \<Rightarrow> unit eff" where
  "alert_project cfg event =
     eff_bind (http_request ''POST'' (control_plane_url cfg @ ''/internal/v1/alerts'') (internal_headers cfg) event)
       (\<lambda>response. eff_lift (raise_for_status response))"

definition alert_process :: "http_config \<Rightarrow> kafka_message \<Rightarrow> unit eff" where
  "alert_process cfg message = eff_bind (json_loads (km_value message)) (alert_project cfg)"

definition alert_handle :: "http_config \<Rightarrow> kafka_message \<Rightarrow> unit eff" where
  "alert_handle cfg message =
     handle_message message ALERT_DLQ_TOPIC (alert_process cfg message) ''alert-projector'' None None"

lemma quiet_alert_process: "quiet (alert_process cfg m)"
  unfolding alert_process_def alert_project_def by (intro quiet_intros)

interpretation alert: worker "alert_process cfg" "\<lambda>_. ALERT_DLQ_TOPIC" "''alert-projector''" None None for cfg
  by unfold_locales (simp_all add: quiet_alert_process quiet_option_def)

definition alert_call :: "http_config \<Rightarrow> pyval \<Rightarrow> string \<times> pyval" where
  "alert_call cfg event = (''POST '' @ control_plane_url cfg @ ''/internal/v1/alerts'',
     PDict [(''headers'', internal_headers cfg), (''json'', event)])"

text \<open>The call was answered with a code that counts as success.\<close>

definition acknowledged :: "world \<Rightarrow> string \<times> pyval \<Rightarrow> bool" where
  "acknowledged w c = (case env_call (w_env w) (w_steps w) (fst c) (snd c) of
     Inr v \<Rightarrow> 200 \<le> hr_status (response_of v) \<and> hr_status (response_of v) < 300 | Inl e \<Rightarrow> False)"

lemma alert_process_run:
  assumes "env_json_loads (w_env w) (km_value m) = Inr event"
  shows "snd (alert_process cfg m w) = record_effect (Called (fst (alert_call cfg event)) (snd (alert_call cfg event))) w"
    and "fst (alert_process cfg m w) = Inr () \<longleftrightarrow> acknowledged w (alert_call cfg event)"
    and "fst (alert_process cfg m w) = Inl e \<Longrightarrow> is_value_error (exn_cls e) \<Longrightarrow>
       env_call (w_env w) (w_steps w) (fst (alert_call cfg event)) (snd (alert_call cfg event)) = Inl e"
  using assms
  by (auto simp: alert_process_def alert_project_def http_request_def call_service_def eff_bind_def alert_call_def
      eff_lift_def acknowledged_def raise_for_status_def res_guard_def split: sum.splits prod.splits if_splits)

text \<open>An alert is committed only when it is dealt with: either the control plane has
  acknowledged exactly this event in one call, or a value error stopped it and the message is a
  confirmed dead letter; whatever else goes wrong, nothing is committed and the alert is
  delivered again.\<close>

theorem alert_commit_acknowledged:
  assumes "alert_handle cfg m w = (r, w')"
  shows "if r = Inr () then
      (\<exists>event. env_json_loads (w_env w) (km_value m) = Inr event \<and> acknowledged w (alert_call cfg event)
        \<and> w_log w' = w_log w @ [Called (fst (alert_call cfg event)) (snd (alert_call cfg event)), Committed m])
      \<or> (\<exists>e. fst (alert_process cfg m w) = Inl e \<and> is_value_error (exn_cls e)
        \<and> (\<exists>es. w_log w' = w_log w @ es @ [Committed m] \<and> confirmed_dlq ALERT_DLQ_TOPIC es))
    else filter is_commit (w_log w') = filter is_commit (w_log w)"
proof -
  obtain v es where h: "\<forall>e\<in>set es. \<not> is_commit e" "v = Handled \<longrightarrow> fst (alert_process cfg m w) = Inr ()"
    "v = Isolated \<longrightarrow> (\<exists>e. fst (alert_process cfg m w) = Inl e \<and> is_value_error (exn_cls e)) \<and> confirmed_dlq ALERT_DLQ_TOPIC es"
    "w_log w' = w_log w @ es @ (if v = Retry then [] else [Committed m])" "v = Retry \<longleftrightarrow> r \<noteq> Inr ()"
    using alert.handled [OF assms [unfolded alert_handle_def]] by metis
  show ?thesis
  proof (cases v)
    case Handled
    then have p: "fst (alert_process cfg m w) = Inr ()" and r: "r = Inr ()" using h by auto
    then obtain event where ev: "env_json_loads (w_env w) (km_value m) = Inr event"
      by (cases "env_json_loads (w_env w) (km_value m)") (auto simp: alert_process_def eff_bind_def)
    have "w_log w' = w_log (snd (alert_process cfg m w)) @ [Committed m]"
      using assms p r by (cases "alert_process cfg m w")
        (auto simp: alert_handle_def handle_message_def eff_bind_def eff_catch_def commit_def split: option.splits)
    then show ?thesis using r ev p alert_process_run [OF ev, where cfg = cfg] by auto
  next
    case Isolated
    then show ?thesis using h by auto
  next
    case Retry
    then show ?thesis using h(1,4,5) by (simp add: filter_empty_conv)
  qed
qed

theorem alert_commit_acknowledged_witness:
  "(\<exists>es. w_log (snd (alert_handle sample_config (message_of ALERT_INPUT_TOPIC [1])
      (fresh_world (answering_env PNone 201 PNone)))) = es @ [Committed (message_of ALERT_INPUT_TOPIC [1])])
   \<and> filter is_commit (w_log (snd (alert_handle sample_config (message_of ALERT_INPUT_TOPIC [1])
      (fresh_world (answering_env PNone 503 PNone))))) = []"
proof
  let ?m = "message_of ALERT_INPUT_TOPIC [1]"
  let ?w = "fresh_world (answering_env PNone 201 PNone)" and ?v = "fresh_world (answering_env PNone 503 PNone)"
  have "is_ok (fst (alert_handle sample_config ?m ?w))" "\<not> is_ok (fst (alert_handle sample_config ?m ?v))" by code_simp+
  then have ok: "fst (alert_handle sample_config ?m ?w) = Inr ()" "fst (alert_handle sample_config ?m ?v) \<noteq> Inr ()"
    by (auto simp: is_ok_iff)
  from alert_commit_acknowledged [OF surjective_pairing, of sample_config ?m ?w] ok(1)
  show "\<exists>es. w_log (snd (alert_handle sample_config ?m ?w)) = es @ [Committed ?m]"
    by (metis append.assoc append_Cons append_Nil)
  from alert_commit_acknowledged [OF surjective_pairing, of sample_config ?m ?v] ok(2)
  show "filter is_commit (w_log (snd (alert_handle sample_config ?m ?v))) = []" by simp
qed

end
