(* ===== verification/NotificationWorker.thy ===== *)
theory NotificationWorker
  imports Http
begin

text \<open>
  \<open>services/notification-worker/worker.py\<close>: an alert is pushed to every registered target of a
  tenant, and the control plane is told what became of each.
\<close>

section \<open>The worker\<close>

definition NOTIFICATION_INPUT_TOPIC :: string where "NOTIFICATION_INPUT_TOPIC = ''notification.requested.v1''"
definition NOTIFICATION_DLQ_TOPIC :: string where "NOTIFICATION_DLQ_TOPIC = NOTIFICATION_INPUT_TOPIC @ ''.dlq''"

text \<open>\<open>payload.get("summary") or "..."\<close>\<close>

definition py_or :: "pyval \<Rightarrow> pyval \<Rightarrow> pyval" where
  "py_or a b = (if truthy a then a else b)"

definition expo_message :: "pyval \<Rightarrow> pyval \<Rightarrow> pydict res" where
  "expo_message payload token = res_dict
     [(''to'', const token),
      (''title'', field payload ''title''),
      (''body'', res_bind (get_field payload ''summary'') (\<lambda>v.
         Inr (py_or v (PStr ''A SignalChord alert requires your attention.'')))),
      (''priority'', res_bind (py_get payload ''severity_code'' (PInt 0)) (\<lambda>v. res_bind (py_int v) (\<lambda>n.
         Inr (PStr (if n \<ge> 2 then ''high'' else ''default''))))),
      (''channelId'', const (PStr ''alerts'')),
      (''data'', res_bind (res_dict
         [(''alert_id'', field payload ''alert_id''), (''stable_alert_id'', get_field payload ''stable_alert_id''),
          (''deep_link'', res_bind (field payload ''alert_id'') (\<lambda>v. Inr (PStr (''signalchord://alert/'' @ py_str v))))])
         (\<lambda>d. Inr (PDict d)))]"

definition delivery_url :: "http_config \<Rightarrow> pyval \<Rightarrow> string" where
  "delivery_url cfg delivery_id = control_plane_url cfg @ ''/internal/v1/notification_targets/'' @ py_str delivery_id"

definition update_delivery :: "http_config \<Rightarrow> pyval \<Rightarrow> string \<Rightarrow> pydict \<Rightarrow> unit eff" where
  "update_delivery cfg delivery_id status extra =
     eff_bind (http_request ''PATCH'' (delivery_url cfg delivery_id) (internal_headers cfg)
         (PDict (dict_merge [(''status'', PStr status)] extra)))
       (\<lambda>response. eff_lift (raise_for_status response))"

text \<open>\<open>data.get(k) if isinstance(data, dict) else None\<close>\<close>

definition get_if_dict :: "pyval \<Rightarrow> string \<Rightarrow> pyval" where
  "get_if_dict v k = (case v of PDict d \<Rightarrow> dict_get_or d k PNone | _ \<Rightarrow> PNone)"

text \<open>What the provider's answer means: the identifier of the message, or an error.\<close>

definition provider_result :: "pyval \<Rightarrow> pyval res" where
  "provider_result data =
     (let provider_error = get_if_dict data ''message''
      in if truthy provider_error then
           (if get_if_dict (get_if_dict data ''details'') ''error'' = PStr ''DeviceNotRegistered''
            then Inl (Exn ExpoDeviceNotRegisteredError (py_str provider_error))
            else Inl (Exn RuntimeError (py_str provider_error)))
         else Inr (get_if_dict data ''id''))"

definition PLATFORMS :: "string list" where
  "PLATFORMS = [''expo'', ''ios'', ''android'']"

definition check_platform :: "pyval \<Rightarrow> unit res" where
  "check_platform platform =
     (if \<not> hashable platform then Inl (Exn TypeError ''unhashable type'')
      else res_guard (\<exists>p\<in>set PLATFORMS. platform = PStr p)
        (Exn ValueError (''unsupported notification platform '' @ py_str platform)))"

text \<open>The body of the \<open>try\<close>: push to the provider and report the delivery.\<close>

definition push_target :: "http_config \<Rightarrow> pyval \<Rightarrow> pyval \<Rightarrow> pyval \<Rightarrow> unit eff" where
  "push_target cfg payload target delivery_id =
     eff_bind (eff_lift (res_bind (field target ''platform'') (\<lambda>platform.
         res_bind (check_platform platform) (\<lambda>_.
         res_bind (field target ''token'') (expo_message payload))))) (\<lambda>message.
     eff_bind (http_request ''POST'' (expo_push_url cfg) (PDict []) (PDict message)) (\<lambda>provider.
     eff_bind (eff_lift (res_bind (raise_for_status provider) (\<lambda>_. res_bind (hr_json provider) (\<lambda>j.
         res_bind (py_get j ''data'' (PDict [])) provider_result)))) (\<lambda>provider_id.
     update_delivery cfg delivery_id ''delivered'' [(''provider_message_id'', provider_id)])))"

text \<open>One round of the loop; the handler catches every exception, reports it and raises it again.\<close>

definition deliver_target :: "http_config \<Rightarrow> pyval \<Rightarrow> pyval \<Rightarrow> unit eff" where
  "deliver_target cfg payload target =
     eff_bind (eff_lift (field target ''delivery_id'')) (\<lambda>delivery_id.
     eff_catch (\<lambda>_. True) (push_target cfg payload target delivery_id)
       (\<lambda>error. eff_then (update_delivery cfg delivery_id ''failed'' [(''last_error'', PStr (take 2000 (exn_msg error)))])
          (eff_raise error)))"

definition fetch_targets :: "http_config \<Rightarrow> pyval \<Rightarrow> pyval \<Rightarrow> pyval list eff" where
  "fetch_targets cfg event payload =
     eff_bind (eff_lift (res_dict [(''tenant_id'', field event ''tenant_id''), (''event_id'', field event ''event_id''),
         (''alert_id'', field payload ''alert_id'')])) (\<lambda>request.
     eff_bind (http_request ''POST'' (control_plane_url cfg @ ''/internal/v1/notification_targets'')
         (internal_headers cfg) (PDict request)) (\<lambda>response.
     eff_lift (res_bind (raise_for_status response) (\<lambda>_. res_bind (hr_json response) (\<lambda>j.
         res_bind (py_get j ''targets'' (PList [])) py_iter)))))"

definition deliver :: "http_config \<Rightarrow> pyval \<Rightarrow> unit eff" where
  "deliver cfg event =
     eff_bind (eff_lift (field event ''payload'')) (\<lambda>payload.
     eff_bind (fetch_targets cfg event payload) (eff_iter (deliver_target cfg payload)))"

definition notification_process :: "http_config \<Rightarrow> kafka_message \<Rightarrow> unit eff" where
  "notification_process cfg message = eff_bind (json_loads (km_value message)) (deliver cfg)"

definition notification_handle :: "http_config \<Rightarrow> kafka_message \<Rightarrow> unit eff" where
  "notification_handle cfg message =
     handle_message message NOTIFICATION_DLQ_TOPIC (notification_process cfg message) ''notification-worker'' None None"

section \<open>The worker keeps the contract of the helper\<close>

lemma quiet_update_delivery [quiet_intros]: "quiet (update_delivery cfg d s f)"
  unfolding update_delivery_def by (intro quiet_intros)

lemma quiet_deliver_target [quiet_intros]: "quiet (deliver_target cfg p t)"
  unfolding deliver_target_def push_target_def by (intro quiet_intros)

lemma quiet_notification_process: "quiet (notification_process cfg m)"
  unfolding notification_process_def deliver_def fetch_targets_def by (intro quiet_intros)

interpretation notification: worker "notification_process cfg" "\<lambda>_. NOTIFICATION_DLQ_TOPIC"
    "''notification-worker''" None None for cfg
  by unfold_locales (simp_all add: quiet_notification_process quiet_option_def)

section \<open>Reports\<close>

text \<open>The call that reports a status for a delivery.\<close>

definition reports :: "http_config \<Rightarrow> pyval \<Rightarrow> string \<Rightarrow> effect \<Rightarrow> bool" where
  "reports cfg delivery_id status e = (case e of
     Called name (PDict a) \<Rightarrow> name = ''PATCH '' @ delivery_url cfg delivery_id \<and>
       (case dict_get_or a ''json'' PNone of PDict b \<Rightarrow> dict_get_or b ''status'' PNone = PStr status | _ \<Rightarrow> False)
   | _ \<Rightarrow> False)"

lemma update_delivery_log:
  assumes "wf_dict extra" and "dict_get extra ''status'' = None"
  shows "\<exists>e. w_log (snd (update_delivery cfg d status extra w)) = w_log w @ [e] \<and> reports cfg d status e"
  using assms
  by (auto simp: update_delivery_def http_request_def call_service_def eff_bind_def eff_lift_def reports_def
      dict_get_or_def dict_get_merge split: sum.splits prod.splits)

lemma update_delivery_run:
  assumes "update_delivery cfg d status extra w = (r, w')" and "wf_dict extra" and "dict_get extra ''status'' = None"
  obtains e where "w_log w' = w_log w @ [e]" and "reports cfg d status e"
  using update_delivery_log [OF assms(2,3), of cfg d status w] assms(1) by auto

text \<open>What a delivered report may rest on, told from the answer itself: a status in 200 to 299 and a JSON
  object whose \<open>data\<close>, when it is an object, has no error message.\<close>

definition push_succeeded :: "pyval \<Rightarrow> bool" where
  "push_succeeded answer \<longleftrightarrow> (\<exists>status body. field answer ''status_code'' = Inr (PInt status) \<and> 200 \<le> status \<and> status < 300
     \<and> field answer ''json'' = Inr (PDict body)
     \<and> (\<forall>d x. dict_get body ''data'' = Some (PDict d) \<longrightarrow> dict_get d ''message'' = Some x \<longrightarrow> \<not> truthy x))"

text \<open>A message for this target and this alert, and the call that pushes it.\<close>

definition push_message :: "pyval \<Rightarrow> pyval \<Rightarrow> pydict \<Rightarrow> bool" where
  "push_message payload target message \<longleftrightarrow>
     (\<exists>platform. field target ''platform'' = Inr (PStr platform) \<and> platform \<in> {''expo'', ''ios'', ''android''})
     \<and> (\<exists>token. field target ''token'' = Inr token \<and> dict_get message ''to'' = Some token)
     \<and> (\<exists>title. field payload ''title'' = Inr title \<and> dict_get message ''title'' = Some title)
     \<and> (\<exists>alert data. field payload ''alert_id'' = Inr alert \<and> dict_get message ''data'' = Some (PDict data)
          \<and> dict_get data ''alert_id'' = Some alert)"

definition push_args :: "pydict \<Rightarrow> pyval" where
  "push_args message = PDict [(''headers'', PDict []), (''json'', PDict message)]"

lemma message_for_target:
  assumes "res_bind (field t ''platform'') (\<lambda>platform. res_bind (check_platform platform) (\<lambda>_.
    res_bind (field t ''token'') (expo_message p))) = Inr message"
  shows "push_message p t message"
  using assms
  by (auto simp: res_simps check_platform_def PLATFORMS_def expo_message_def push_message_def split: if_splits)

lemma answer_succeeded:
  assumes "res_bind (raise_for_status (response_of v)) (\<lambda>_. res_bind (hr_json (response_of v)) (\<lambda>j.
       res_bind (py_get j ''data'' (PDict [])) provider_result)) = Inr i"
  shows "push_succeeded v"
proof -
  obtain j data where j: "200 \<le> hr_status (response_of v)" "hr_status (response_of v) < 300" "hr_json (response_of v) = Inr j"
    "py_get j ''data'' (PDict []) = Inr data" "provider_result data = Inr i"
    using assms by (auto simp: res_simps raise_for_status_def)
  from j(1,2) obtain n where n: "field v ''status_code'' = Inr (PInt n)" "200 \<le> n" "n < 300"
    by (auto simp: response_of_def split: sum.splits pyval.splits)
  from j(3,4) obtain body where body: "field v ''json'' = Inr (PDict body)" "data = dict_get_or body ''data'' (PDict [])"
    by (cases j) (auto simp: response_of_def split: sum.splits)
  have "\<not> truthy x" if "dict_get body ''data'' = Some (PDict d)" "dict_get d ''message'' = Some x" for d x
    using j(5) body(2) that by (auto simp: provider_result_def get_if_dict_def dict_get_or_def Let_def split: if_splits)
  then show ?thesis using n body(1) unfolding push_succeeded_def by blast
qed

text \<open>The three ways the body of the \<open>try\<close> can go: nothing is pushed, the push was not accepted, or it
  was and the report of the delivery follows it directly.\<close>

lemma push_target_run:
  assumes "push_target cfg p t d w = (r, w')"
  obtains (refused) e where "r = Inl e" and "w' = w"
  | (rejected) e c where "r = Inl e" and "w_log w' = w_log w @ [c]" and "\<not> reports cfg d ''delivered'' c"
  | (pushed) message answer e where "w_log w' = w_log w @ [Called (''POST '' @ expo_push_url cfg) (push_args message), e]"
      and "reports cfg d ''delivered'' e" and "push_message p t message"
      and "env_call (w_env w) (w_steps w) (''POST '' @ expo_push_url cfg) (push_args message) = Inr answer"
      and "push_succeeded answer"
proof (cases "res_bind (field t ''platform'') (\<lambda>platform. res_bind (check_platform platform) (\<lambda>_.
    res_bind (field t ''token'') (expo_message p)))")
  case (Inl e)
  then have "r = Inl e" "w' = w" using assms by (auto simp: push_target_def eff_bind_def eff_lift_def)
  then show thesis by (rule refused)
next
  case (Inr message)
  let ?a = "push_args message" and ?n = "''POST '' @ expo_push_url cfg"
  let ?read = "\<lambda>v. res_bind (raise_for_status (response_of v)) (\<lambda>_.
       res_bind (hr_json (response_of v)) (\<lambda>j. res_bind (py_get j ''data'' (PDict [])) provider_result))"
  have no: "\<not> reports cfg d ''delivered'' (Called ?n ?a)" by (simp add: reports_def push_args_def)
  obtain b w1 where call: "call_service ?n ?a w = (b, w1)" by fastforce
  then have w1: "w_log w1 = w_log w @ [Called ?n ?a]" and b: "b = env_call (w_env w) (w_steps w) ?n ?a"
    by (auto simp: call_service_def)
  have run: "push_target cfg p t d w = (case b of Inl e \<Rightarrow> (Inl e, w1) | Inr v \<Rightarrow> (case ?read v of Inl e \<Rightarrow> (Inl e, w1)
      | Inr i \<Rightarrow> update_delivery cfg d ''delivered'' [(''provider_message_id'', i)] w1))"
    using Inr call
    by (simp add: push_target_def eff_bind_def eff_lift_def http_request_def eff_return_def push_args_def split: sum.split)
  show thesis
  proof (cases "\<exists>v i. b = Inr v \<and> ?read v = Inr i")
    case True
    then obtain v i where v: "b = Inr v" "?read v = Inr i" by blast
    then have "update_delivery cfg d ''delivered'' [(''provider_message_id'', i)] w1 = (r, w')" using assms run by simp
    then obtain e where e: "w_log w' = w_log w1 @ [e]" "reports cfg d ''delivered'' e"
      by (rule update_delivery_run) (simp_all add: wf_dict_def)
    show thesis
      by (rule pushed [of message e v]) (use e w1 b v message_for_target [OF Inr] answer_succeeded in simp_all)
  next
    case False
    then have "\<exists>e. (r, w') = (Inl e, w1)" using assms run by (auto split: sum.splits)
    then show thesis using rejected w1 no by blast
  qed
qed

lemma reports_one_status: "reports cfg d ''failed'' e \<Longrightarrow> \<not> reports cfg d ''delivered'' e"
  by (cases e) (auto simp: reports_def split: pyval.splits)

text \<open>The entries of a round with a delivered report: the push of a message for this target, which was
  answered with success, directly followed by the only such report.\<close>

definition delivery_backed :: "http_config \<Rightarrow> pyval \<Rightarrow> pyval \<Rightarrow> pyval \<Rightarrow> world \<Rightarrow> effect list \<Rightarrow> bool" where
  "delivery_backed cfg payload target d w es \<longleftrightarrow> (\<exists>message answer x rest.
     es = Called (''POST '' @ expo_push_url cfg) (push_args message) # x # rest
     \<and> reports cfg d ''delivered'' x \<and> (\<forall>y\<in>set rest. \<not> reports cfg d ''delivered'' y)
     \<and> push_message payload target message
     \<and> env_call (w_env w) (w_steps w) (''POST '' @ expo_push_url cfg) (push_args message) = Inr answer
     \<and> push_succeeded answer)"

lemma deliver_target_run:
  assumes "deliver_target cfg p t w = (r, w')" and "field t ''delivery_id'' = Inr d"
  obtains es e where "w_log w' = w_log w @ es @ [e]"
    and "reports cfg d (if r = Inr () then ''delivered'' else ''failed'') e"
    and "(\<exists>x\<in>set (es @ [e]). reports cfg d ''delivered'' x) \<longrightarrow> delivery_backed cfg p t d w (es @ [e])"
proof -
  obtain s w1 where push: "push_target cfg p t d w = (s, w1)" by fastforce
  show thesis
  proof (cases s)
    case (Inr u)
    then have r: "r = Inr ()" "w' = w1"
      using assms push by (simp_all add: deliver_target_def eff_bind_def eff_catch_def)
    from push show thesis
    proof (cases rule: push_target_run)
      case (pushed message answer e)
      then have "delivery_backed cfg p t d w [Called (''POST '' @ expo_push_url cfg) (push_args message), e]"
        by (auto simp: delivery_backed_def)
      then show thesis using that [of "[Called (''POST '' @ expo_push_url cfg) (push_args message)]" e] pushed(1,2) r by simp
    qed (simp_all add: Inr)
  next
    case (Inl x)
    let ?u = "update_delivery cfg d ''failed'' [(''last_error'', PStr (take 2000 (exn_msg x)))]"
    have h: "eff_then ?u (eff_raise x) w1 = (r, w')"
      using assms push unfolding Inl by (simp add: deliver_target_def eff_bind_run [where m = "eff_lift (Inr d)"] eff_catch_def)
    obtain q w2 where u: "?u w1 = (q, w2)" by fastforce
    have r: "r \<noteq> Inr ()" "w' = w2" using h by (cases q, auto simp: eff_bind_def u)+
    from u obtain e where e: "w_log w2 = w_log w1 @ [e]" "reports cfg d ''failed'' e"
      by (rule update_delivery_run) (simp_all add: wf_dict_def)
    note nd = reports_one_status [OF e(2)]
    from push show thesis
    proof (cases rule: push_target_run)
      case (refused y)
      show thesis by (rule that [of "[]" e]) (use refused e r nd in simp_all)
    next
      case (rejected y c)
      show thesis by (rule that [of "[c]" e]) (use rejected e r nd in simp_all)
    next
      case (pushed message answer y)
      then have "delivery_backed cfg p t d w [Called (''POST '' @ expo_push_url cfg) (push_args message), y, e]"
        using nd by (auto simp: delivery_backed_def)
      then show thesis
        using that [of "[Called (''POST '' @ expo_push_url cfg) (push_args message), y]" e] pushed(1) e r by simp
    qed
  qed
qed

text \<open>C32. The control plane is never told that a notification was delivered unless the provider
  accepted it: each round of the loop ends with exactly one report of the outcome, which says
  delivered if the round succeeded and failed otherwise.  A delivered report is sent at most once
  in a round, directly after the push of a message that carries the token of this target and the
  title and identifier of this alert, for a platform that is supported, and only when that very
  call was answered with a 2xx status and a JSON object whose data, when it is an object, has no
  error message.\<close>

theorem delivery_report_honest:
  assumes "deliver_target cfg payload target w = (r, w')" and "field target ''delivery_id'' = Inr d"
  shows "\<exists>es e. w_log w' = w_log w @ es @ [e] \<and> reports cfg d (if r = Inr () then ''delivered'' else ''failed'') e \<and>
    ((\<exists>x\<in>set (es @ [e]). reports cfg d ''delivered'' x) \<longrightarrow> delivery_backed cfg payload target d w (es @ [e]))"
  using deliver_target_run [OF assms] by metis

definition sample_target :: pyval where
  "sample_target = PDict [(''delivery_id'', PStr ''d1''), (''platform'', PStr ''ios''), (''token'', PStr ''t1'')]"

definition sample_notification :: pydict where
  "sample_notification = [(''tenant_id'', PStr ''tenant-a''), (''event_id'', PStr ''e1''),
     (''payload'', PDict [(''alert_id'', PStr ''a1''), (''title'', PStr ''Alert''), (''severity_code'', PInt 3)])]"

definition sample_payload :: pyval where
  "sample_payload = PDict [(''alert_id'', PStr ''a1''), (''title'', PStr ''Alert''), (''severity_code'', PInt 3)]"

theorem delivery_report_honest_witness:
  "(\<exists>es e. w_log (snd (deliver_target sample_config sample_payload sample_target
      (fresh_world (answering_env PNone 503 PNone)))) = es @ [e] \<and> reports sample_config (PStr ''d1'') ''failed'' e)
   \<and> (\<exists>es. w_log (snd (deliver_target sample_config sample_payload sample_target
      (fresh_world (answering_env PNone 200 (PDict []))))) = es
      \<and> delivery_backed sample_config sample_payload sample_target (PStr ''d1'') (fresh_world (answering_env PNone 200 (PDict []))) es)"
proof
  let ?run = "\<lambda>n b. deliver_target sample_config sample_payload sample_target (fresh_world (answering_env PNone n b))"
  have d: "field sample_target ''delivery_id'' = Inr (PStr ''d1'')" by (simp add: sample_target_def)
  have "\<not> is_ok (fst (?run 503 PNone))" by code_simp
  then have "fst (?run 503 PNone) \<noteq> Inr ()" by (auto simp: is_ok_iff)
  with delivery_report_honest [OF surjective_pairing d, of sample_config sample_payload "fresh_world (answering_env PNone 503 PNone)"]
  show "\<exists>es e. w_log (snd (?run 503 PNone)) = es @ [e] \<and> reports sample_config (PStr ''d1'') ''failed'' e"
    by (auto simp flip: append_assoc)
  have "is_ok (fst (?run 200 (PDict [])))" by code_simp
  then have "fst (?run 200 (PDict [])) = Inr ()" by (simp add: is_ok_iff)
  with delivery_report_honest [OF surjective_pairing d, of sample_config sample_payload "fresh_world (answering_env PNone 200 (PDict []))"]
  show "\<exists>es. w_log (snd (?run 200 (PDict []))) = es
      \<and> delivery_backed sample_config sample_payload sample_target (PStr ''d1'') (fresh_world (answering_env PNone 200 (PDict []))) es"
    by auto
qed

section \<open>What a commit means\<close>

lemma deliver_targets_run:
  assumes "eff_iter (deliver_target cfg p) ts w = (Inr (), w')"
  shows "\<exists>es. w_log w' = w_log w @ es \<and>
    (\<forall>t\<in>set ts. \<exists>d. field t ''delivery_id'' = Inr d \<and> (\<exists>e\<in>set es. reports cfg d ''delivered'' e))"
  using assms
proof (induction ts arbitrary: w)
  case (Cons t ts)
  then obtain w1 where t: "deliver_target cfg p t w = (Inr (), w1)" and ts: "eff_iter (deliver_target cfg p) ts w1 = (Inr (), w')"
    by (auto simp: eff_bind_Inr)
  then obtain d where d: "field t ''delivery_id'' = Inr d" by (auto simp: deliver_target_def res_simps eff_lift_def)
  from deliver_target_run [OF t d] obtain es e where
    1: "w_log w1 = w_log w @ es @ [e]" "reports cfg d (if (Inr () :: unit res) = Inr () then ''delivered'' else ''failed'') e"
    by blast
  from Cons.IH [OF ts] obtain es' where
    2: "w_log w' = w_log w1 @ es'"
      "\<forall>t\<in>set ts. \<exists>d. field t ''delivery_id'' = Inr d \<and> (\<exists>e\<in>set es'. reports cfg d ''delivered'' e)" by blast
  show ?case using 1 2 d by (intro exI [of _ "es @ [e] @ es'"]) fastforce
qed simp

text \<open>C31. A notification is committed only when it is dealt with: every target that the control
  plane listed for it was reported as delivered, or the message is a confirmed dead letter.\<close>

theorem notification_commit_complete:
  assumes "notification_handle cfg m w = (Inr (), w')"
  shows "\<exists>es. w_log w' = w_log w @ es @ [Committed m] \<and>
    (confirmed_dlq NOTIFICATION_DLQ_TOPIC es \<or>
     (\<exists>event payload targets w1. env_json_loads (w_env w) (km_value m) = Inr event \<and> field event ''payload'' = Inr payload
        \<and> fetch_targets cfg event payload w = (Inr targets, w1)
        \<and> (\<forall>t\<in>set targets. \<exists>d. field t ''delivery_id'' = Inr d \<and> (\<exists>e\<in>set es. reports cfg d ''delivered'' e))))"
proof -
  from notification.handled [OF assms [unfolded notification_handle_def]] obtain v es where
    h: "v = Handled \<longrightarrow> fst (notification_process cfg m w) = Inr ()"
      "v = Isolated \<longrightarrow> confirmed_dlq NOTIFICATION_DLQ_TOPIC es"
      "w_log w' = w_log w @ es @ (if v = Retry then [] else [Committed m])" "v \<noteq> Retry" by metis
  show ?thesis
  proof (cases v)
    case Handled
    then obtain w0 where p: "notification_process cfg m w = (Inr (), w0)" using h(1) by (metis prod.collapse)
    then obtain event payload targets w1 where
      f: "env_json_loads (w_env w) (km_value m) = Inr event" "field event ''payload'' = Inr payload"
        "fetch_targets cfg event payload w = (Inr targets, w1)"
      and ts: "eff_iter (deliver_target cfg payload) targets w1 = (Inr (), w0)"
      by (auto simp: notification_process_def deliver_def res_simps eff_lift_def)
    have "quiet (fetch_targets cfg event payload)" unfolding fetch_targets_def by (intro quiet_intros)
    from quietD [OF this f(3)] obtain es0 where es0: "w_log w1 = w_log w @ es0" .
    from deliver_targets_run [OF ts] obtain es1 where
      es1: "w_log w0 = w_log w1 @ es1" "\<forall>t\<in>set targets. \<exists>d. field t ''delivery_id'' = Inr d \<and> (\<exists>e\<in>set es1. reports cfg d ''delivered'' e)"
      by blast
    have "w_log w' = w_log w0 @ [Committed m]"
      using assms p by (auto simp: notification_handle_def handle_message_def eff_bind_def eff_catch_def commit_def split: option.splits)
    then have "w_log w' = w_log w @ (es0 @ es1) @ [Committed m]" using es0 es1(1) by simp
    moreover have "\<forall>t\<in>set targets. \<exists>d. field t ''delivery_id'' = Inr d \<and> (\<exists>e\<in>set (es0 @ es1). reports cfg d ''delivered'' e)"
      using es1(2) by fastforce
    ultimately show ?thesis using f by blast
  next
    case Isolated
    then show ?thesis using h by auto
  next
    case Retry
    then show ?thesis using h(4) by simp
  qed
qed

text \<open>Surroundings with two registered targets and a given answer of the push provider.\<close>

definition second_target :: pyval where
  "second_target = PDict [(''delivery_id'', PStr ''d2''), (''platform'', PStr ''expo''), (''token'', PStr ''t2'')]"

definition push_env :: "pyval \<Rightarrow> env" where
  "push_env data = (calm_env (loads_one (PDict sample_notification)))
     \<lparr>env_call := (\<lambda>n name args. Inr (PDict [(''status_code'', PInt 200), (''json'',
        if name = ''POST '' @ expo_push_url sample_config then PDict [(''data'', data)]
        else PDict [(''targets'', PList [sample_target, second_target])])]))\<rparr>"

definition push_accepted :: pyval where
  "push_accepted = PDict [(''id'', PStr ''x1'')]"

definition device_gone :: pyval where
  "device_gone = PDict [(''message'', PStr ''not registered''),
     (''details'', PDict [(''error'', PStr ''DeviceNotRegistered'')])]"

definition notification_message :: kafka_message where
  "notification_message = message_of NOTIFICATION_INPUT_TOPIC [1]"

theorem notification_commit_complete_witness:
  "\<exists>es. w_log (snd (notification_handle sample_config notification_message (fresh_world (push_env push_accepted))))
     = es @ [Committed notification_message] \<and> (\<exists>e\<in>set es. reports sample_config (PStr ''d2'') ''delivered'' e)"
proof -
  let ?w = "fresh_world (push_env push_accepted)"
  let ?r = "notification_handle sample_config notification_message ?w"
  have "is_ok (fst ?r)" by code_simp
  then have r: "?r = (Inr (), snd ?r)" by (auto simp: is_ok_iff prod_eq_iff)
  obtain es where es: "w_log (snd ?r) = es @ [Committed notification_message]"
    using notification_commit_complete [OF r] by auto
  have "list_ex (reports sample_config (PStr ''d2'') ''delivered'') (butlast (w_log (snd ?r)))" by code_simp
  then show ?thesis using es by (auto simp: list_ex_iff)
qed

section \<open>One dead device hides the others\<close>

lemma isolate_no_call:
  assumes "isolate m t origin None None e w = (r, w')"
  shows "\<exists>es. w_log w' = w_log w @ es \<and> (\<forall>x\<in>set es. case x of Called _ _ \<Rightarrow> False | _ \<Rightarrow> True)"
proof -
  have "emits (w_env w) (\<lambda>x. case x of Called _ _ \<Rightarrow> False | _ \<Rightarrow> True) (isolate m t origin None None e)"
    by (cases "decode_bytes (km_value m)"; cases "decode_bytes (km_key m)")
      (auto simp: isolate_def build_dlq_envelope_def publish_to_dlq_def intro!: emits_intros split: option.splits prod.splits)
  from emitsD [OF this assms refl] show ?thesis by blast
qed

text \<open>A device that is no longer registered stops the delivery to all targets listed after
  it, for good: the loop ends there, the message goes to the dead-letter topic and is committed,
  and no service is called again, so the later targets are neither pushed nor reported.\<close>

theorem dead_device_hides_rest:
  assumes "env_json_loads (w_env w) (km_value m) = Inr event" and "field event ''payload'' = Inr payload"
    and "fetch_targets cfg event payload w = (Inr (before @ [target] @ rest), w1)"
    and "eff_iter (deliver_target cfg payload) before w1 = (Inr (), w2)"
    and "deliver_target cfg payload target w2 = (Inl (Exn ExpoDeviceNotRegisteredError msg), w3)"
    and "broker_up (w_env w)"
  shows "\<exists>es. notification_handle cfg m w = (Inr (), snd (notification_handle cfg m w))
    \<and> w_log (snd (notification_handle cfg m w)) = w_log w3 @ es @ [Committed m]
    \<and> (\<forall>x\<in>set es. case x of Called _ _ \<Rightarrow> False | _ \<Rightarrow> True) \<and> confirmed_dlq NOTIFICATION_DLQ_TOPIC es"
proof -
  let ?e = "Exn ExpoDeviceNotRegisteredError msg"
  have it: "eff_iter f xs v = (Inr (), v') \<Longrightarrow> f x v' = (Inl e, v'') \<Longrightarrow> eff_iter f (xs @ x # ys) v = (Inl e, v'')"
    for f :: "pyval \<Rightarrow> unit eff" and xs x ys v v' v'' e
    by (induction xs arbitrary: v) (auto simp: eff_bind_Inr eff_bind_Inl)
  have p: "notification_process cfg m w = (Inl ?e, w3)"
    using assms(1-3) it [OF assms(4,5), of rest]
    by (simp add: notification_process_def deliver_def eff_bind_def)
  have env: "w_env w3 = w_env w" using quietD [OF quiet_notification_process p] by metis
  obtain r w4 where i: "isolate m NOTIFICATION_DLQ_TOPIC ''notification-worker'' None None ?e w3 = (r, w4)" by fastforce
  have "raises_only (w_env w) (\<lambda>_. False) (isolate m NOTIFICATION_DLQ_TOPIC ''notification-worker'' None None ?e)"
    using assms(6) by (intro isolate_up) (simp_all add: quiet_option_def)
  then have "r = Inr ()" using raises_onlyD [OF _ env] i by (cases r) auto
  then have i: "isolate m NOTIFICATION_DLQ_TOPIC ''notification-worker'' None None ?e w3 = (Inr (), w4)" using i by simp
  from isolate_ok [OF i] obtain es where es: "w_log w4 = w_log w3 @ es" "confirmed_dlq NOTIFICATION_DLQ_TOPIC es"
    by (auto simp: quiet_option_def)
  have "quiet (isolate m NOTIFICATION_DLQ_TOPIC ''notification-worker'' None None ?e)"
    by (rule quiet_isolate) (simp_all add: quiet_option_def)
  from quietD [OF this i] env have "w_env w4 = w_env w" by simp
  then have "notification_handle cfg m w = (Inr (), record_effect (Committed m) w4)"
    using assms(6) p i by (simp add: notification_handle_def handle_message_def eff_bind_def eff_catch_def commit_def broker_up_def)
  moreover have "\<forall>x\<in>set es. case x of Called _ _ \<Rightarrow> False | _ \<Rightarrow> True" using isolate_no_call [OF i] es(1) by auto
  ultimately show ?thesis using es by auto
qed

theorem dead_device_hides_rest_witness:
  "\<exists>es. fst (notification_handle sample_config notification_message (fresh_world (push_env device_gone))) = Inr ()
     \<and> w_log (snd (notification_handle sample_config notification_message (fresh_world (push_env device_gone))))
       = es @ [Committed notification_message]
     \<and> (\<forall>s. \<forall>e\<in>set es. \<not> reports sample_config (PStr ''d2'') s e)"
proof -
  let ?w = "fresh_world (push_env device_gone)" and ?m = notification_message and ?e = "PDict sample_notification"
  let ?f = "fetch_targets sample_config ?e sample_payload ?w"
  let ?d = "deliver_target sample_config sample_payload sample_target (snd ?f)"
  have l: "env_json_loads (w_env ?w) (km_value ?m) = Inr ?e"
    by (simp add: push_env_def calm_env_def loads_one_def message_of_def notification_message_def)
  have p: "field ?e ''payload'' = Inr sample_payload" by (simp add: sample_notification_def sample_payload_def)
  have "fst ?f = Inr ([] @ [sample_target] @ [second_target])" by code_simp
  then have f: "?f = (Inr ([] @ [sample_target] @ [second_target]), snd ?f)" by (metis prod.collapse)
  have "fst ?d = Inl (Exn ExpoDeviceNotRegisteredError ''not registered'')" by code_simp
  then have d: "?d = (Inl (Exn ExpoDeviceNotRegisteredError ''not registered''), snd ?d)" by (metis prod.collapse)
  have n: "eff_iter (deliver_target sample_config sample_payload) [] (snd ?f) = (Inr (), snd ?f)" by simp
  have up: "broker_up (w_env ?w)" by (simp add: push_env_def calm_env_def broker_up_def)
  obtain es where es: "w_log (snd (notification_handle sample_config ?m ?w)) = w_log (snd ?d) @ es @ [Committed ?m]"
    "\<forall>x\<in>set es. case x of Called _ _ \<Rightarrow> False | _ \<Rightarrow> True"
    "fst (notification_handle sample_config ?m ?w) = Inr ()"
    using dead_device_hides_rest [OF l p f n d up] by (metis fst_conv)
  have "list_all (\<lambda>e. case e of Called n _ \<Rightarrow> n \<noteq> ''PATCH '' @ delivery_url sample_config (PStr ''d2'') | _ \<Rightarrow> True) (w_log (snd ?d))"
    by code_simp
  then have "\<not> reports sample_config (PStr ''d2'') s e" if "e \<in> set (w_log (snd ?d) @ es)" for s e
    using that es(2) by (cases e) (auto simp: list_all_iff reports_def split: pyval.splits)
  then show ?thesis using es(1,3) by (intro exI [of _ "w_log (snd ?d) @ es"]) auto
qed

end
