(* ===== verification/ClaimIntelligence.thy ===== *)
theory ClaimIntelligence
  imports Events
begin

text \<open>
  \<open>services/claim-intelligence\<close>: claims are clustered by their normalised proposition
  (\<open>engine.py\<close>) and become a clustered claim and four graph mutations (\<open>worker.py\<close>).
\<close>

section \<open>Clustering\<close>

record clustered_claim =
  cc_cluster_id :: string
  cc_normalized :: string
  cc_stance :: string

definition normalize_claim :: "string \<Rightarrow> string" where
  "normalize_claim proposition =
     strip (sub_runs is_space '' '' False
       (sub_chars (\<lambda>c. \<not> is_lower_alnum c \<and> \<not> is_space c) (CHR '' '') (casefold proposition)))"

definition NEGATIVE_TOKENS :: "string list" where
  "NEGATIVE_TOKENS = [''denied'', ''not'', ''never'', ''no'']"

definition sha24 :: "string \<Rightarrow> string" where
  "sha24 s = take 24 (sha256_hex s)"

definition cluster_claim :: "string \<Rightarrow> clustered_claim" where
  "cluster_claim proposition =
     (let normalized = normalize_claim proposition
      in \<lparr>cc_cluster_id = ''claim-cluster:'' @ sha24 normalized, cc_normalized = normalized,
          cc_stance = (if \<exists>t\<in>set NEGATIVE_TOKENS. t \<in> set (split_ws normalized) then ''negative'' else ''positive'')\<rparr>)"

section \<open>Graph mutations\<close>

definition claim_envelope :: "pyval \<Rightarrow> string \<Rightarrow> pyval \<Rightarrow> pyval \<Rightarrow> string \<Rightarrow> pydict eff" where
  "claim_envelope = worker_envelope ''claim-intelligence'' '':claim-intelligence:1.0.0''"

definition upsert_claim_mutation :: "pyval \<Rightarrow> pyval \<Rightarrow> pydict \<Rightarrow> string \<Rightarrow> string \<Rightarrow> pydict res" where
  "upsert_claim_mutation payload claim_id common cluster_id normalized =
     res_bind (res_dict
       [(''proposition'', field payload ''proposition''), (''normalized_proposition'', const (PStr normalized)),
        (''cluster_id'', const (PStr cluster_id)), (''confidence'', field payload ''confidence''),
        (''status'', const (PStr ''candidate'')), (''extraction_model'', get_field payload ''extraction_model''),
        (''extraction_version'', get_field payload ''extraction_version'')]) (\<lambda>d.
     Inr [(''mutation_type'', PStr ''upsert_claim''), (''stable_id'', claim_id), (''properties'', PDict (dict_merge common d))])"

definition upsert_evidence_mutation :: "pyval \<Rightarrow> pydict \<Rightarrow> pyval \<Rightarrow> pyval res \<Rightarrow> pydict res" where
  "upsert_evidence_mutation evidence common document_id confidence =
     res_bind (field evidence ''evidence_id'') (\<lambda>evidence_id.
     res_bind (res_dict
       [(''document_id'', const document_id), (''start_offset'', field evidence ''start_offset''),
        (''end_offset'', field evidence ''end_offset''), (''span_hash'', field evidence ''span_hash''),
        (''kind'', const (PStr ''model_extraction'')), (''confidence'', confidence)]) (\<lambda>d.
     Inr [(''mutation_type'', PStr ''upsert_evidence''), (''stable_id'', evidence_id),
       (''properties'', PDict (dict_merge common d))]))"

definition link_mutation :: "string \<Rightarrow> string \<Rightarrow> pyval \<Rightarrow> pyval \<Rightarrow> pydict \<Rightarrow> pydict \<Rightarrow> pydict" where
  "link_mutation mutation_type stable_id from_id to_id common d =
     [(''mutation_type'', PStr mutation_type), (''stable_id'', PStr stable_id), (''from_id'', from_id),
      (''to_id'', to_id), (''properties'', PDict (dict_merge common d))]"

text \<open>\<open>graph_mutations\<close>: the keyed mutations in the order of the list.\<close>

definition claim_graph_mutations :: "pyval \<Rightarrow> pyval \<Rightarrow> string \<Rightarrow> string \<Rightarrow> (pyval \<times> pydict) list eff" where
  "claim_graph_mutations source payload cluster_id normalized =
     eff_bind (eff_lift (field payload ''claim_id'')) (\<lambda>claim_id.
     eff_bind (eff_lift (field payload ''document_id'')) (\<lambda>document_id.
     eff_bind (eff_lift (field payload ''evidence'')) (\<lambda>evidence.
     eff_bind (common_properties source) (\<lambda>common.
     let article_id = ''article:'' @ py_str document_id in
     eff_lift (
       res_bind (upsert_claim_mutation payload claim_id common cluster_id normalized) (\<lambda>m1.
       res_bind (field evidence ''evidence_id'') (\<lambda>evidence_id.
       res_bind (upsert_evidence_mutation evidence common document_id (field payload ''confidence'')) (\<lambda>m2.
       res_bind (field payload ''confidence'') (\<lambda>confidence.
       let k3 = ''article-claim:'' @ article_id @ '':'' @ py_str claim_id;
           k4 = ''evidence-claim:'' @ py_str evidence_id @ '':'' @ py_str claim_id
       in Inr
         [(claim_id, m1), (evidence_id, m2),
          (PStr k3, link_mutation ''link_article_claim'' k3 (PStr article_id) claim_id common [(''confidence'', confidence)]),
          (PStr k4, link_mutation ''link_evidence_claim'' k4 evidence_id claim_id common [(''confidence'', confidence)])])))))))))"

section \<open>The worker\<close>

definition publish_claim_mutation :: "pyval \<Rightarrow> pyval \<times> pydict \<Rightarrow> unit eff" where
  "publish_claim_mutation source km =
     eff_bind (claim_envelope source ''graph.mutation-requested.v1'' (fst km) (PDict (snd km)) ''graph-mutation-build'')
       (publish_event ''graph.mutation-requested.v1'' (fst km))"

definition claim_process :: "kafka_message \<Rightarrow> unit eff" where
  "claim_process message =
     eff_bind (json_loads (km_value message)) (\<lambda>source.
     eff_bind (eff_lift (field source ''payload'')) (\<lambda>payload.
     eff_bind (eff_lift (res_bind (field payload ''proposition'') (the_str ''casefold''))) (\<lambda>proposition.
     let clustered = cluster_claim proposition in
     eff_bind (eff_lift (py_or_dict payload
        [(''cluster_id'', PStr (cc_cluster_id clustered)),
         (''normalized_proposition'', PStr (cc_normalized clustered)),
         (''stance'', PStr (cc_stance clustered))])) (\<lambda>clustered_payload.
     eff_bind (claim_envelope source ''claim.clustered.v1'' (PStr (cc_cluster_id clustered))
         (PDict clustered_payload) ''claim-clustering'') (\<lambda>event.
     eff_then (publish_event ''claim.clustered.v1'' (PStr (cc_cluster_id clustered)) event)
     (eff_bind (claim_graph_mutations source payload (cc_cluster_id clustered) (cc_normalized clustered)) (\<lambda>mutations.
      eff_then (eff_iter (publish_claim_mutation source) mutations)
      (eff_then flush (eff_return ()))))))))) "

definition CLAIM_DLQ_TOPIC :: string where "CLAIM_DLQ_TOPIC = ''claim.extracted.v1.dlq''"

definition claim_handle :: "kafka_message \<Rightarrow> unit eff" where
  "claim_handle message =
     handle_message message CLAIM_DLQ_TOPIC (claim_process message) ''claim-intelligence'' None None"

section \<open>Normalisation\<close>

text \<open>Texts of words of lower-case letters and digits separated by single blanks.\<close>

fun clean_from :: "bool \<Rightarrow> string \<Rightarrow> bool" where
  "clean_from blank [] = (\<not> blank)"
| "clean_from blank (c # s) =
     (if c = CHR '' '' then \<not> blank \<and> clean_from True s else is_lower_alnum c \<and> clean_from False s)"

definition clean :: "string \<Rightarrow> bool" where
  "clean s \<longleftrightarrow> s = [] \<or> clean_from True s"

lemma casefold_char_lower: "is_lower_alnum c \<Longrightarrow> casefold_char c = [c]"
  by (auto simp: is_lower_alnum_def casefold_char_def Let_def ord_c_le)

lemma casefold_blank [simp]: "casefold_char (CHR '' '') = [CHR '' '']"
  by code_simp

lemma lower_alnum_not_space: "is_lower_alnum c \<Longrightarrow> \<not> is_space c"
  by (auto simp: is_lower_alnum_def is_space_code Let_def)

lemma blank_space [simp]: "is_space (CHR '' '')" "\<not> is_lower_alnum (CHR '' '')"
  by code_simp+

lemma clean_casefold: "clean_from b s \<Longrightarrow> casefold s = s"
  by (induction b s rule: clean_from.induct) (auto simp: casefold_def casefold_char_lower split: if_splits)

lemma clean_sub_chars: "clean_from b s \<Longrightarrow> sub_chars (\<lambda>c. \<not> is_lower_alnum c \<and> \<not> is_space c) (CHR '' '') s = s"
  by (induction b s rule: clean_from.induct) (auto simp: sub_chars_def split: if_splits)

lemma clean_sub_runs: "clean_from b s \<Longrightarrow> sub_runs is_space '' '' b s = s"
  by (induction b s rule: clean_from.induct) (auto dest: lower_alnum_not_space split: if_splits)

lemma clean_hd_last: "clean_from True s \<Longrightarrow> s \<noteq> [] \<and> \<not> is_space (hd s) \<and> \<not> is_space (last s)"
proof -
  have "clean_from b s \<Longrightarrow> s \<noteq> [] \<longrightarrow> \<not> is_space (last s)" for b
    by (induction b s rule: clean_from.induct) (auto dest: lower_alnum_not_space split: if_splits)
  moreover assume "clean_from True s"
  ultimately show ?thesis by (cases s) (auto dest: lower_alnum_not_space split: if_splits)
qed

lemma clean_sub_runs_True: "clean_from True s \<Longrightarrow> sub_runs is_space '' '' False s = s"
  using clean_sub_runs [of True s] by (cases s) (auto dest: lower_alnum_not_space split: if_splits)

lemma normalize_clean: "clean s \<Longrightarrow> normalize_claim s = s"
proof (cases "s = []")
  case True
  then show ?thesis
    by (simp add: normalize_claim_def casefold_def sub_chars_def strip_def lstrip_def rstrip_def)
next
  case False
  assume "clean s"
  then have c: "clean_from True s" using False by (simp add: clean_def)
  then show ?thesis
    using clean_hd_last [OF c]
    by (simp add: normalize_claim_def clean_casefold [OF c] clean_sub_chars [OF c]
        clean_sub_runs_True [OF c] strip_id)
qed

text \<open>What replacing the runs leaves: no two blanks in a row.\<close>

fun single_blanks :: "bool \<Rightarrow> string \<Rightarrow> bool" where
  "single_blanks blank [] = True"
| "single_blanks blank (c # s) =
     (if c = CHR '' '' then \<not> blank \<and> single_blanks True s else is_lower_alnum c \<and> single_blanks False s)"

lemma sub_runs_single:
  "\<forall>c\<in>set s. is_lower_alnum c \<or> is_space c \<Longrightarrow> single_blanks b (sub_runs is_space '' '' b s)"
  by (induction is_space "'' ''" b s rule: sub_runs.induct) auto

lemma single_blanks_lstrip: "single_blanks b s \<Longrightarrow> single_blanks True (lstrip s)"
proof (cases s)
  case (Cons c u)
  assume s: "single_blanks b s"
  show ?thesis
  proof (cases "c = CHR '' ''")
    case True
    then have "single_blanks True u" using s Cons by (simp split: if_splits)
    then show ?thesis using Cons True
      by (cases u) (auto simp: lstrip_def dest: lower_alnum_not_space split: if_splits)
  next
    case False
    then show ?thesis using s Cons by (auto simp: lstrip_def dest: lower_alnum_not_space)
  qed
qed (simp add: lstrip_def)

lemma single_blanks_end:
  "single_blanks b s \<Longrightarrow> s = [] \<or> clean_from b s \<or> (\<exists>u. s = u @ '' '' \<and> (u = [] \<or> clean_from b u))"
proof (induction s arbitrary: b)
  case (Cons c s)
  show ?case
  proof (cases "c = CHR '' ''")
    case True
    then have "single_blanks True s" "\<not> b" using Cons.prems by (auto split: if_splits)
    from Cons.IH [OF this(1)] show ?thesis
    proof (elim disjE exE conjE)
      fix u
      assume "s = u @ '' ''" "clean_from True u"
      then have "c # s = (c # u) @ '' ''" "clean_from b (c # u)" using True \<open>\<not> b\<close> by simp_all
      then show ?thesis by blast
    next
      assume "s = []"
      then have "c # s = [] @ '' ''" using True by simp
      then show ?thesis by blast
    next
      fix u
      assume "s = u @ '' ''" "u = []"
      then show ?thesis using \<open>single_blanks True s\<close> by simp
    qed (use True \<open>\<not> b\<close> in simp)
  next
    case False
    then have p: "single_blanks False s" "is_lower_alnum c" using Cons.prems by (auto split: if_splits)
    from Cons.IH [OF p(1)] show ?thesis
    proof (elim disjE exE conjE)
      fix u
      assume "s = u @ '' ''" "clean_from False u"
      then have "c # s = (c # u) @ '' ''" "clean_from b (c # u)" using False p by simp_all
      then show ?thesis by blast
    next
      fix u
      assume "s = u @ '' ''" "u = []"
      then have "c # s = [c] @ '' ''" "clean_from b [c]" using False p by simp_all
      then show ?thesis by blast
    qed (use False p in simp_all)
  qed
qed simp

lemma rstrip_blank: "rstrip (u @ '' '') = rstrip u"
  by (simp add: rstrip_def)

lemma rstrip_clean: "clean_from b u \<Longrightarrow> rstrip u = u"
proof -
  assume "clean_from b u"
  then have "u = [] \<or> \<not> is_space (last u)"
    by (induction b u rule: clean_from.induct) (auto dest: lower_alnum_not_space split: if_splits)
  then have "dropWhile is_space (rev u) = rev u" by (auto simp: dropWhile_eq_self_iff hd_rev)
  then show ?thesis by (simp add: rstrip_def)
qed

lemma rstrip_Nil [simp]: "rstrip [] = []" "rstrip '' '' = []"
  by (simp_all add: rstrip_def)

lemma single_blanks_strip: "single_blanks b s \<Longrightarrow> clean (strip s)"
  using single_blanks_end [OF single_blanks_lstrip, of b s]
  by (auto simp: strip_def clean_def rstrip_blank rstrip_clean)

lemma normalize_is_clean: "clean (normalize_claim x)"
proof -
  let ?s = "sub_chars (\<lambda>c. \<not> is_lower_alnum c \<and> \<not> is_space c) (CHR '' '') (casefold x)"
  have "\<forall>c\<in>set ?s. is_lower_alnum c \<or> is_space c" by (auto simp: sub_chars_def)
  from single_blanks_strip [OF sub_runs_single [OF this, of False]] show ?thesis
    by (simp add: normalize_claim_def)
qed

lemma casefold_idem: "casefold (casefold s) = casefold s"
proof -
  have "list_all (\<lambda>i. casefold (casefold_char (char_of i)) = casefold_char (char_of i)) [0..(255::int)]"
    by code_simp
  moreover have "c = char_of (of_char c :: int) \<and> (of_char c :: int) \<in> set [0..255]" for c
  proof -
    have "(of_char c :: int) = of_char c mod 256" by simp
    then have "0 \<le> (of_char c :: int)" "(of_char c :: int) < 256" by (metis pos_mod_sign zero_less_numeral, metis pos_mod_bound zero_less_numeral)
    then show ?thesis by simp
  qed
  ultimately have c: "casefold (casefold_char c) = casefold_char c" for c
    unfolding list_all_iff by metis
  have "casefold (a @ b) = casefold a @ casefold b" for a b by (simp add: casefold_def)
  then have "casefold (concat (map casefold_char s)) = concat (map casefold_char s)"
    by (induction s) (auto simp: c, simp add: casefold_def)
  then show ?thesis by (simp add: casefold_def)
qed

text \<open>The cluster of a claim does not depend on letter case, punctuation or spacing that
  normalisation removes: the normal form is made of lower-case words separated by single blanks,
  normalising it again changes nothing, and the claim, its case folding and its normal form have
  the same cluster identifier and the same stance.\<close>

theorem cluster_claim_stable:
  "clean (normalize_claim x) \<and> cluster_claim (normalize_claim x) = cluster_claim x
   \<and> cluster_claim (casefold x) = cluster_claim x"
  by (simp add: cluster_claim_def normalize_is_clean normalize_clean)
    (simp add: normalize_claim_def casefold_idem)

section \<open>The worker keeps the contract of the helper\<close>

lemma quiet_claim_process: "quiet (claim_process m)"
  unfolding claim_process_def claim_graph_mutations_def publish_claim_mutation_def claim_envelope_def Let_def
  by (intro quiet_intros)

interpretation claim: worker claim_process "\<lambda>_. CLAIM_DLQ_TOPIC" "''claim-intelligence''" None None
  by unfold_locales (simp_all add: quiet_claim_process quiet_option_def)

end
