(* ===== verification/EntityResolution.thy ===== *)
theory EntityResolution
  imports ClaimIntelligence
begin

text \<open>
  \<open>services/entity-resolution\<close>: mentions are resolved to entities (\<open>resolver.py\<close>) and resolved
  mentions and relationships become graph mutations (\<open>worker.py\<close>).
\<close>

section \<open>Resolving a mention\<close>

definition DEFAULT_ALIASES :: "(string \<times> string) list" where
  "DEFAULT_ALIASES = [(''acme corporation'', ''company:acme''),
     (''northstar labs'', ''organization:northstar-labs''), (''berlin'', ''location:berlin'')]"

record candidate =
  ca_entity_id :: string
  ca_display_name :: string
  ca_score :: pyfloat
  ca_reasons :: "string list"

record resolution =
  rs_mention_id :: pyval
  rs_accepted :: "string option"
  rs_candidates :: "candidate list"
  rs_requires_review :: bool

text \<open>\<open>cleaned[:96] or sha256(value)[:24]\<close>\<close>

definition slug :: "string \<Rightarrow> string" where
  "slug value =
     (let cleaned = strip_chars ''-'' (sub_runs (\<lambda>c. \<not> is_lower_alnum c) ''-'' False (casefold value))
      in if take 96 cleaned = [] then sha24 value else take 96 cleaned)"

definition alias_key :: "string \<Rightarrow> string" where
  "alias_key text = join '' '' (split_ws (casefold text))"

definition resolve :: "pyval \<Rightarrow> string \<Rightarrow> (string \<times> string) list \<Rightarrow> resolution" where
  "resolve mention_id text aliases = (case map_of aliases (alias_key text) of
     Some entity_id \<Rightarrow>
       \<lparr>rs_mention_id = mention_id, rs_accepted = Some entity_id,
        rs_candidates = [\<lparr>ca_entity_id = entity_id, ca_display_name = text, ca_score = Fin 1,
          ca_reasons = [''exact normalized alias'']\<rparr>],
        rs_requires_review = False\<rparr>
   | None \<Rightarrow>
       \<lparr>rs_mention_id = mention_id, rs_accepted = None, rs_candidates = [], rs_requires_review = True\<rparr>)"

text \<open>\<open>candidate.model_dump(mode="json")\<close>\<close>

definition candidate_dump :: "candidate \<Rightarrow> pyval" where
  "candidate_dump c = PDict [(''entity_id'', PStr (ca_entity_id c)), (''display_name'', PStr (ca_display_name c)),
     (''score'', PFloat (ca_score c)), (''reasons'', PList (map PStr (ca_reasons c)))]"

definition REVIEW_THRESHOLD :: pyfloat where
  "REVIEW_THRESHOLD = fl_round (9 / 10)"

text \<open>The outcome for a mention: the entity, the status and whether it needs a review.  The entity
  type is only used as a text when no alias matched.\<close>

definition decide_entity :: "resolution \<Rightarrow> pyval \<Rightarrow> string \<Rightarrow> pyfloat \<Rightarrow> (string \<times> string \<times> bool) res" where
  "decide_entity result entity_type text confidence = (case rs_accepted result of
     Some entity_id \<Rightarrow> Inr (entity_id, ''model_verified'', rs_requires_review result)
   | None \<Rightarrow>
       if fl_le REVIEW_THRESHOLD confidence
       then res_bind (the_str ''casefold'' entity_type) (\<lambda>t.
         Inr (casefold t @ '':'' @ slug text, ''model_verified'', False))
       else (case entity_type of
           PStr t \<Rightarrow> Inr (''candidate:'' @ sha24 (t @ '':'' @ text), ''candidate'', True)
         | _ \<Rightarrow> Inl (Exn TypeError ''unsupported operand type(s) for +'')))"

text \<open>A text field of a pydantic model.\<close>

definition model_text :: "string \<Rightarrow> pyval \<Rightarrow> unit res" where
  "model_text name v = (case v of PStr _ \<Rightarrow> Inr () | _ \<Rightarrow> Inl (Exn ValidationError name))"

definition resolution_dict ::
  "pyval \<Rightarrow> pyval \<Rightarrow> pyval \<Rightarrow> string \<Rightarrow> pyfloat \<Rightarrow> resolution \<Rightarrow> string \<times> string \<times> bool \<Rightarrow> pydict res" where
  "resolution_dict payload mention_id entity_type text confidence result outcome =
     (case outcome of (entity_id, status, requires_review) \<Rightarrow> res_dict
        [(''mention_id'', const mention_id), (''document_id'', field payload ''document_id''),
         (''entity_id'', const (PStr entity_id)), (''entity_type'', const entity_type),
         (''display_name'', const (PStr text)), (''confidence'', const (PFloat confidence)),
         (''status'', const (PStr status)), (''requires_review'', const (PBool requires_review)),
         (''alternatives'', const (PList (map candidate_dump (rs_candidates result)))),
         (''evidence'', field payload ''evidence''),
         (''extraction_model'', get_field payload ''extraction_model''),
         (''extraction_version'', get_field payload ''extraction_version'')])"

text \<open>\<open>payload.get("confidence", 0)\<close> as a float.\<close>

definition resolve_mention :: "pyval \<Rightarrow> pydict res" where
  "resolve_mention payload =
     res_bind (field payload ''mention_id'') (\<lambda>mention_id.
     res_bind (field payload ''text'') (\<lambda>text_value.
     res_bind (field payload ''entity_type'') (\<lambda>entity_type.
     res_bind (py_get payload ''confidence'' (PInt 0)) (\<lambda>cv.
     res_bind (py_float cv) (\<lambda>confidence.
     res_bind (the_str ''casefold'' text_value) (\<lambda>text.
     res_bind (model_text ''mention_id'' mention_id) (\<lambda>_.
     let result = resolve mention_id text DEFAULT_ALIASES in
     res_bind (decide_entity result entity_type text confidence)
       (resolution_dict payload mention_id entity_type text confidence result))))))))"

section \<open>Graph events\<close>

definition PREDICATE_MUTATIONS :: "(string \<times> string) list" where
  "PREDICATE_MUTATIONS = [(''PARTNERED_WITH'', ''link_partnered_with''), (''ACQUIRED'', ''link_acquired''),
     (''INVESTED_IN'', ''link_invested_in''), (''COMPETES_WITH'', ''link_competes_with''),
     (''REGULATES'', ''link_regulates''), (''AFFECTS'', ''link_affects''), (''RELATED_TO'', ''link_related_to'')]"

definition entity_envelope :: "pyval \<Rightarrow> string \<Rightarrow> pyval \<Rightarrow> pyval \<Rightarrow> string \<Rightarrow> pydict eff" where
  "entity_envelope = worker_envelope ''entity-resolution'' '':resolver:1.0.0''"

definition upsert_entity_mutation :: "pyval \<Rightarrow> pydict \<Rightarrow> pydict res" where
  "upsert_entity_mutation r common =
     res_bind (field r ''entity_id'') (\<lambda>entity_id.
     res_bind (field r ''entity_type'') (\<lambda>entity_type.
     res_bind (res_dict
       [(''display_name'', field r ''display_name''),
        (''normalized_name'', res_bind (field r ''display_name'') (\<lambda>v.
            res_bind (the_str ''casefold'' v) (\<lambda>s. Inr (PStr (casefold s))))),
        (''confidence'', field r ''confidence''), (''status'', field r ''status''),
        (''extraction_model'', get_field r ''extraction_model''),
        (''extraction_version'', get_field r ''extraction_version'')]) (\<lambda>d.
     Inr [(''mutation_type'', PStr ''upsert_entity''), (''stable_id'', entity_id), (''entity_type'', entity_type),
       (''properties'', PDict (dict_merge common d))])))"

definition link_mentions_properties :: "pyval \<Rightarrow> pyval \<Rightarrow> pydict res" where
  "link_mentions_properties r evidence_id = res_dict
     [(''mention_id'', field r ''mention_id''), (''confidence'', field r ''confidence''),
      (''status'', field r ''status''), (''evidence_id'', const evidence_id)]"

text \<open>\<open>graph_events\<close>\<close>

definition resolution_mutations :: "pyval \<Rightarrow> pydict \<Rightarrow> (pyval \<times> pydict) list res" where
  "resolution_mutations r common =
     res_bind (field r ''document_id'') (\<lambda>document_id.
     res_bind (field r ''entity_id'') (\<lambda>entity_id.
     res_bind (field r ''evidence'') (\<lambda>evidence.
     let article_id = ''article:'' @ py_str document_id in
     res_bind (upsert_entity_mutation r common) (\<lambda>m1.
     res_bind (field evidence ''evidence_id'') (\<lambda>evidence_id.
     res_bind (upsert_evidence_mutation evidence common document_id (field r ''confidence'')) (\<lambda>m2.
     res_bind (field r ''mention_id'') (\<lambda>mention_id.
     res_bind (link_mentions_properties r evidence_id) (\<lambda>d3.
     res_bind (field r ''confidence'') (\<lambda>confidence.
     let k3 = ''mentions:'' @ article_id @ '':'' @ py_str entity_id @ '':'' @ py_str mention_id;
         s3 = ''mentions:'' @ py_str mention_id;
         k4 = ''evidence-entity:'' @ py_str evidence_id @ '':'' @ py_str entity_id
     in Inr
       [(entity_id, m1), (evidence_id, m2),
        (PStr k3, link_mutation ''link_mentions'' s3 (PStr article_id) entity_id common d3),
        (PStr k4, link_mutation ''link_evidence_entity'' k4 evidence_id entity_id common
           [(''confidence'', confidence)])])))))))))"

definition entity_graph_events :: "pyval \<Rightarrow> pyval \<Rightarrow> (pyval \<times> pydict) list eff" where
  "entity_graph_events source r =
     eff_bind (eff_lift (res_bind (field r ''document_id'') (\<lambda>_. res_bind (field r ''entity_id'') (\<lambda>_.
       field r ''evidence'')))) (\<lambda>_.
     eff_bind (common_properties source) (\<lambda>common. eff_lift (resolution_mutations r common)))"

text \<open>A side of a relation: the mention with the document and the model of the relation.\<close>

definition relation_side :: "pyval \<Rightarrow> string \<Rightarrow> pyval res" where
  "relation_side payload side =
     res_bind (field payload side) (\<lambda>v.
     res_bind (res_dict
       [(''document_id'', field payload ''document_id''),
        (''extraction_model'', get_field payload ''extraction_model''),
        (''extraction_version'', get_field payload ''extraction_version'')]) (\<lambda>d.
     res_bind (py_or_dict v d) (\<lambda>r. Inr (PDict r))))"

definition relation_mutation_type :: "pyval \<Rightarrow> string" where
  "relation_mutation_type predicate = (case predicate of
     PStr s \<Rightarrow> (case map_of PREDICATE_MUTATIONS s of Some t \<Rightarrow> t | None \<Rightarrow> ''link_related_to'')
   | _ \<Rightarrow> ''link_related_to'')"

definition relation_mutation ::
  "pyval \<Rightarrow> pyval \<Rightarrow> string \<Rightarrow> pyval \<Rightarrow> pydict \<Rightarrow> pydict \<Rightarrow> pydict \<Rightarrow> pydict res" where
  "relation_mutation source payload mutation_type relationship_id subject object common =
     res_bind (field (PDict subject) ''entity_id'') (\<lambda>from_id.
     res_bind (field (PDict object) ''entity_id'') (\<lambda>to_id.
     res_bind (res_dict
       [(''confidence'', field payload ''confidence''), (''status'', const (PStr ''candidate'')),
        (''evidence_id'', res_bind (field payload ''evidence'') (\<lambda>e. field e ''evidence_id'')),
        (''extraction_model'', get_field payload ''extraction_model''),
        (''extraction_version'', get_field payload ''extraction_version''),
        (''valid_from'', get_field source ''occurred_at'')]) (\<lambda>d.
     Inr [(''mutation_type'', PStr mutation_type), (''stable_id'', relationship_id), (''from_id'', from_id),
       (''to_id'', to_id), (''properties'', PDict (dict_merge common d))])))"

definition relation_graph_events :: "pyval \<Rightarrow> pyval \<Rightarrow> (pyval \<times> pydict) list eff" where
  "relation_graph_events source payload =
     eff_bind (eff_lift (relation_side payload ''subject'')) (\<lambda>subject_payload.
     eff_bind (eff_lift (relation_side payload ''object'')) (\<lambda>object_payload.
     eff_bind (eff_lift (resolve_mention subject_payload)) (\<lambda>subject.
     eff_bind (eff_lift (resolve_mention object_payload)) (\<lambda>object.
     eff_bind (common_properties source) (\<lambda>common.
     eff_bind (eff_lift (field payload ''relationship_id'')) (\<lambda>relationship_id.
     eff_bind (eff_lift (field payload ''predicate'')) (\<lambda>predicate.
     eff_then (eff_lift (res_guard (hashable predicate) (Exn TypeError ''unhashable type'')))
     (eff_bind (entity_graph_events source (PDict subject)) (\<lambda>es1.
     eff_bind (entity_graph_events source (PDict object)) (\<lambda>es2.
     eff_bind (eff_lift (relation_mutation source payload (relation_mutation_type predicate) relationship_id
         subject object common)) (\<lambda>m.
     eff_return (es1 @ es2 @ [(relationship_id, m)]))))))))))))"

section \<open>The worker\<close>

definition publish_entity_mutation :: "pyval \<Rightarrow> pyval \<times> pydict \<Rightarrow> unit eff" where
  "publish_entity_mutation source km =
     eff_bind (entity_envelope source ''graph.mutation-requested.v1'' (fst km) (PDict (snd km)) ''graph-mutation-build'')
       (publish_event ''graph.mutation-requested.v1'' (fst km))"

definition publish_resolution :: "pyval \<Rightarrow> (pyval \<times> pydict) list eff" where
  "publish_resolution source =
     eff_bind (eff_lift (res_bind (field source ''payload'') resolve_mention)) (\<lambda>r.
     eff_bind (eff_lift (field (PDict r) ''entity_id'')) (\<lambda>entity_id.
     eff_bind (entity_envelope source ''entity.resolved.v1'' entity_id (PDict r) ''entity-resolution'') (\<lambda>event.
     eff_then (publish_event ''entity.resolved.v1'' entity_id event)
       (entity_graph_events source (PDict r)))))"

definition entity_process :: "kafka_message \<Rightarrow> unit eff" where
  "entity_process message =
     eff_bind (json_loads (km_value message)) (\<lambda>source.
     eff_bind (eff_lift (field source ''event_type'')) (\<lambda>event_type.
     eff_bind (if event_type = PStr ''entity.mention-extracted.v1'' then publish_resolution source
         else eff_bind (eff_lift (field source ''payload'')) (relation_graph_events source)) (\<lambda>mutations.
     eff_then (eff_iter (publish_entity_mutation source) mutations)
       (eff_then flush (eff_return ())))))"

text \<open>\<open>f"{message.topic()}.dlq"\<close>\<close>

definition source_dlq_topic :: "kafka_message \<Rightarrow> string" where
  "source_dlq_topic message = (case km_topic message of Some t \<Rightarrow> t | None \<Rightarrow> ''None'') @ ''.dlq''"

definition entity_handle :: "kafka_message \<Rightarrow> unit eff" where
  "entity_handle message =
     handle_message message (source_dlq_topic message) (entity_process message) ''entity-resolution'' None None"

section \<open>Properties of the resolver\<close>

lemma sub_runs_dash:
  "c \<in> set (sub_runs (\<lambda>c. \<not> is_lower_alnum c) ''-'' b s) \<Longrightarrow> is_lower_alnum c \<or> c = CHR ''-''"
  using sub_runs_set [of c "\<lambda>c. \<not> is_lower_alnum c" "''-''" b s] by auto

lemma strip_chars_subset: "c \<in> set (strip_chars cs s) \<Longrightarrow> c \<in> set s"
  by (auto simp: strip_chars_def dest!: set_dropWhileD)

lemma length_sha24: "length (sha24 s) = 24"
  by (simp add: sha24_def length_sha256_hex)

text \<open>A slug is short, not empty, and safe in an identifier unless it is the fallback hash.\<close>

lemma slug_shape:
  "slug v \<noteq> [] \<and> length (slug v) \<le> 96 \<and> (slug v = sha24 v \<or> (\<forall>c\<in>set (slug v). is_lower_alnum c \<or> c = CHR ''-''))"
proof -
  let ?c = "strip_chars ''-'' (sub_runs (\<lambda>c. \<not> is_lower_alnum c) ''-'' False (casefold v))"
  show ?thesis
  proof (cases "take 96 ?c = []")
    case True
    then have "slug v = sha24 v" unfolding slug_def Let_def by simp
    moreover have "sha24 v \<noteq> []" "length (sha24 v) \<le> 96" using length_sha24 [of v] by auto
    ultimately show ?thesis by simp
  next
    case False
    then have "slug v = take 96 ?c" unfolding slug_def Let_def by simp
    moreover have "\<forall>c\<in>set (take 96 ?c). is_lower_alnum c \<or> c = CHR ''-''"
      using strip_chars_subset sub_runs_dash by (blast dest: in_set_takeD)
    ultimately show ?thesis using False by simp
  qed
qed

lemma decide_entity_Inr:
  assumes "decide_entity r ty tx cf = Inr (e, s, q)" and "r = resolve mid tx al"
  shows "(s = ''model_verified'' \<and> \<not> q \<or> s = ''candidate'' \<and> q)
    \<and> (map_of al (alias_key tx) \<noteq> None \<longrightarrow> map_of al (alias_key tx) = Some e \<and> s = ''model_verified'')
    \<and> (s = ''candidate'' \<longrightarrow> \<not> fl_le REVIEW_THRESHOLD cf)"
  using assms
  by (auto simp: decide_entity_def resolve_def res_simps the_str_def split: option.splits if_splits pyval.splits)

lemma resolve_mentionD:
  assumes "resolve_mention payload = Inr r"
  obtains mid ty tx cf e s q where
    "field payload ''text'' = Inr (PStr tx)"
    "decide_entity (resolve (PStr mid) tx DEFAULT_ALIASES) ty tx cf = Inr (e, s, q)"
    "dict_get r ''mention_id'' = Some (PStr mid)" "dict_get r ''entity_id'' = Some (PStr e)"
    "dict_get r ''entity_type'' = Some ty" "field payload ''entity_type'' = Inr ty"
    "dict_get r ''status'' = Some (PStr s)" "dict_get r ''requires_review'' = Some (PBool q)"
    "dict_get r ''confidence'' = Some (PFloat cf)" "field payload ''mention_id'' = Inr (PStr mid)"
    "dict_get r ''display_name'' = Some (PStr tx)"
    "\<exists>d. field payload ''document_id'' = Inr d \<and> dict_get r ''document_id'' = Some d"
    "\<exists>d. field payload ''evidence'' = Inr d \<and> dict_get r ''evidence'' = Some d"
    "dict_get r ''extraction_model'' \<noteq> None" "dict_get r ''extraction_version'' \<noteq> None"
proof -
  obtain mid tv ty cv cf tx out u where a: "field payload ''mention_id'' = Inr mid" "field payload ''text'' = Inr tv"
    "field payload ''entity_type'' = Inr ty" "py_get payload ''confidence'' (PInt 0) = Inr cv" "py_float cv = Inr cf"
    "the_str ''casefold'' tv = Inr tx" "model_text ''mention_id'' mid = Inr u"
    "decide_entity (resolve mid tx DEFAULT_ALIASES) ty tx cf = Inr out"
    "resolution_dict payload mid ty tx cf (resolve mid tx DEFAULT_ALIASES) out = Inr r"
    using assms unfolding resolve_mention_def Let_def res_bind_Inr_iff by blast
  obtain m where m: "mid = PStr m" using a(7) by (auto simp: model_text_def split: pyval.splits)
  have t: "tv = PStr tx" using a(6) by (auto simp: the_str_def split: pyval.splits)
  obtain e s q where out: "out = (e, s, q)" by (cases out) auto
  from a(9) show thesis
    unfolding resolution_dict_def out m prod.case res_dict_Cons res_dict_Nil const_simp
    by (auto simp: res_simps intro!: that [of tx m ty cf e s q, OF _ _ _ _ _ a(3)] simp: a(1,2,8) [unfolded m t out])
qed

text \<open>Resolving a mention never leaves it undecided: it is verified and needs no review, or it
  is a candidate that needs one and then its confidence was below the threshold; a known alias
  decides the entity whatever the confidence and the mention's type.\<close>

theorem resolve_mention_decides:
  assumes "resolve_mention payload = Inr r"
  shows "\<exists>tx e s q cf. field payload ''text'' = Inr (PStr tx) \<and> dict_get r ''entity_id'' = Some (PStr e)
    \<and> dict_get r ''status'' = Some (PStr s) \<and> dict_get r ''requires_review'' = Some (PBool q)
    \<and> dict_get r ''confidence'' = Some (PFloat cf)
    \<and> (s = ''model_verified'' \<and> \<not> q \<or> s = ''candidate'' \<and> q \<and> \<not> fl_le REVIEW_THRESHOLD cf)
    \<and> (map_of DEFAULT_ALIASES (alias_key tx) \<noteq> None \<longrightarrow>
        map_of DEFAULT_ALIASES (alias_key tx) = Some e \<and> s = ''model_verified'')"
proof -
  obtain mid ty tx cf e s q where
    m: "field payload ''text'' = Inr (PStr tx)" "decide_entity (resolve (PStr mid) tx DEFAULT_ALIASES) ty tx cf = Inr (e, s, q)"
    "dict_get r ''entity_id'' = Some (PStr e)" "dict_get r ''status'' = Some (PStr s)"
    "dict_get r ''requires_review'' = Some (PBool q)" "dict_get r ''confidence'' = Some (PFloat cf)"
    by (rule resolve_mentionD [OF assms]) blast
  from m decide_entity_Inr [OF m(2) refl] show ?thesis by blast
qed

definition sample_mention :: pydict where
  "sample_mention = [(''mention_id'', PStr ''m1''), (''text'', PStr ''ACME  Corporation''),
     (''entity_type'', PStr ''Company''), (''confidence'', PFloat (Fin (1 / 2))), (''document_id'', PStr ''d1''),
     (''evidence'', PDict [(''evidence_id'', PStr ''ev1''), (''start_offset'', PInt 0), (''end_offset'', PInt 3),
        (''span_hash'', PStr ''h'')])]"

theorem resolve_mention_decides_witness:
  "\<exists>r. resolve_mention (PDict sample_mention) = Inr r \<and> dict_get r ''entity_id'' = Some (PStr ''company:acme'')"
proof -
  have "is_ok (resolve_mention (PDict sample_mention))" by code_simp
  then obtain r where r: "resolve_mention (PDict sample_mention) = Inr r" by (auto simp: is_ok_iff)
  have "field (PDict sample_mention) ''text'' = Inr (PStr ''ACME  Corporation'')" by code_simp
  moreover have "map_of DEFAULT_ALIASES (alias_key ''ACME  Corporation'') = Some ''company:acme''" by code_simp
  ultimately show ?thesis using resolve_mention_decides [OF r] r by auto
qed

section \<open>The worker keeps the contract of the helper\<close>

lemma quiet_entity_graph_events [quiet_intros]: "quiet (entity_graph_events s r)"
  unfolding entity_graph_events_def by (intro quiet_intros)

lemma quiet_entity_process: "quiet (entity_process m)"
  unfolding entity_process_def publish_resolution_def publish_entity_mutation_def entity_envelope_def
    relation_graph_events_def
  by (intro quiet_intros)

interpretation entity: worker entity_process source_dlq_topic "''entity-resolution''" None None
  by unfold_locales (simp_all add: quiet_entity_process quiet_option_def)

end
