(* ===== verification/SearchProjector.thy ===== *)
theory SearchProjector
  imports Http EntityResolution
begin

text \<open>
  \<open>services/search-projector/worker.py\<close>: articles, entities and claims are written to the search
  index, and a takedown removes the articles of a source.
\<close>

section \<open>The worker\<close>

definition MAX_TEXT_BYTES :: int where "MAX_TEXT_BYTES = 5000000"

text \<open>\<open>urlparse(uri)\<close> and \<open>parsed.path.lstrip("/")\<close> for a value that may be no text: something
  empty is parsed as bytes, whose \<open>lstrip\<close> refuses a text.\<close>

definition parse_object_uri :: "pyval \<Rightarrow> (string \<times> string) eff" where
  "parse_object_uri uri = (case uri of
     PStr s \<Rightarrow> eff_bind (urlparse s) (\<lambda>(netloc, path). eff_return (netloc, lstrip_slash path))
   | _ \<Rightarrow> if truthy uri then eff_raise (Exn AttributeError (type_name uri @ '' object has no attribute decode''))
          else eff_raise (Exn TypeError ''a bytes-like object is required''))"

definition search_load_text :: "pyval \<Rightarrow> string eff" where
  "search_load_text uri =
     eff_bind (parse_object_uri uri) (\<lambda>(bucket, key).
     eff_bind (call_service ''s3.get_object'' (PDict [(''Bucket'', PStr bucket), (''Key'', PStr key),
         (''read'', PInt (MAX_TEXT_BYTES + 1))])) (\<lambda>response.
     let body = body_of response in
     eff_lift (if sb_length body > MAX_TEXT_BYTES then value_error ''document exceeds search projection limit''
       else decode_body body)))"

text \<open>\<open>client.index\<close>: the identifier is the tenant and the key.\<close>

definition document_id :: "pyval \<Rightarrow> pyval \<Rightarrow> string" where
  "document_id tenant_id key = py_str tenant_id @ '':'' @ py_str key"

definition index_document :: "string \<Rightarrow> pyval \<Rightarrow> pyval \<Rightarrow> pydict \<Rightarrow> pyval eff" where
  "index_document index tenant_id key body = call_service ''opensearch.index''
     (PDict [(''index'', PStr index), (''id'', PStr (document_id tenant_id key)), (''body'', PDict body),
        (''refresh'', PBool False)])"

definition index_article :: "pyval \<Rightarrow> pyval \<Rightarrow> pyval \<Rightarrow> string \<Rightarrow> unit eff" where
  "index_article event payload tenant_id content =
     eff_bind (eff_lift (field payload ''document_id'')) (\<lambda>key.
     eff_bind (eff_lift (res_dict
        [(''tenant_id'', const tenant_id), (''document_id'', field payload ''document_id''),
         (''source_id'', get_field payload ''source_id''), (''title'', get_field payload ''title''),
         (''canonical_url'', get_field payload ''canonical_url''), (''content'', const (PStr content)),
         (''published_at'', get_field payload ''published_at''), (''observed_at'', get_field event ''occurred_at'')])) (\<lambda>body.
     eff_then (index_document ''signalchord-articles'' tenant_id key body) (eff_return ())))"

definition takedown_body :: "pyval \<Rightarrow> pyval \<Rightarrow> pydict" where
  "takedown_body tenant_id source_id =
     [(''query'', PDict [(''bool'', PDict [(''filter'', PList
        [PDict [(''term'', PDict [(''tenant_id'', tenant_id)])],
         PDict [(''term'', PDict [(''source_id'', source_id)])]])])])]"

definition delete_source :: "pyval \<Rightarrow> pyval \<Rightarrow> unit eff" where
  "delete_source payload tenant_id =
     eff_bind (eff_lift (field payload ''source_id'')) (\<lambda>source_id.
     eff_then (call_service ''opensearch.delete_by_query'' (PDict
         [(''index'', PStr ''signalchord-articles''), (''body'', PDict (takedown_body tenant_id source_id)),
          (''refresh'', PBool True), (''conflicts'', PStr ''proceed'')]))
       (eff_return ()))"

definition index_entity :: "pyval \<Rightarrow> pyval \<Rightarrow> unit eff" where
  "index_entity payload tenant_id =
     eff_bind (eff_lift (field payload ''entity_id'')) (\<lambda>key.
     eff_bind (eff_lift (res_dict
        [(''tenant_id'', const tenant_id), (''stable_id'', field payload ''entity_id''),
         (''display_name'', field payload ''display_name''), (''entity_type'', field payload ''entity_type''),
         (''confidence'', field payload ''confidence''), (''status'', field payload ''status'')])) (\<lambda>body.
     eff_then (index_document ''signalchord-entities'' tenant_id key body) (eff_return ())))"

definition index_claim :: "pyval \<Rightarrow> pyval \<Rightarrow> unit eff" where
  "index_claim payload tenant_id =
     eff_bind (eff_lift (field payload ''claim_id'')) (\<lambda>key.
     eff_bind (eff_lift (res_dict
        [(''tenant_id'', const tenant_id), (''claim_id'', field payload ''claim_id''),
         (''cluster_id'', field payload ''cluster_id''), (''proposition'', field payload ''proposition''),
         (''stance'', field payload ''stance''), (''confidence'', field payload ''confidence'')])) (\<lambda>body.
     eff_then (index_document ''signalchord-claims'' tenant_id key body) (eff_return ())))"

text \<open>Any other type of event is ignored.\<close>

definition search_project :: "pyval \<Rightarrow> unit eff" where
  "search_project event =
     eff_bind (eff_lift (field event ''payload'')) (\<lambda>payload.
     eff_bind (eff_lift (field event ''event_type'')) (\<lambda>event_type.
     eff_bind (eff_lift (field event ''tenant_id'')) (\<lambda>tenant_id.
     if event_type = PStr ''document.normalized.v1'' then
       eff_bind (eff_lift (field payload ''clean_text_object_uri'')) (\<lambda>uri.
       eff_bind (search_load_text uri) (index_article event payload tenant_id))
     else if event_type = PStr ''source.takedown.requested.v1'' then delete_source payload tenant_id
     else if event_type = PStr ''entity.resolved.v1'' then index_entity payload tenant_id
     else if event_type = PStr ''claim.clustered.v1'' then index_claim payload tenant_id
     else eff_return ())))"

definition search_process :: "kafka_message \<Rightarrow> unit eff" where
  "search_process message = eff_bind (json_loads (km_value message)) search_project"

definition search_handle :: "kafka_message \<Rightarrow> unit eff" where
  "search_handle message =
     handle_message message (source_dlq_topic message) (search_process message) ''search-projector'' None None"

section \<open>The indexes\<close>

definition keyword_type :: pyval where "keyword_type = PDict [(''type'', PStr ''keyword'')]"
definition plain_type :: "string \<Rightarrow> pyval" where "plain_type t = PDict [(''type'', PStr t)]"

definition text_with_keyword :: pyval where
  "text_with_keyword = PDict [(''type'', PStr ''text''), (''fields'', PDict [(''keyword'', keyword_type)])]"

definition INDEX_MAPPINGS :: "(string \<times> pydict) list" where
  "INDEX_MAPPINGS =
     [(''signalchord-articles'', [(''tenant_id'', keyword_type), (''document_id'', keyword_type),
        (''source_id'', keyword_type), (''title'', text_with_keyword), (''canonical_url'', keyword_type),
        (''content'', plain_type ''text''), (''published_at'', plain_type ''date''), (''observed_at'', plain_type ''date'')]),
      (''signalchord-entities'', [(''tenant_id'', keyword_type), (''stable_id'', keyword_type),
        (''display_name'', text_with_keyword), (''entity_type'', keyword_type), (''confidence'', plain_type ''float''),
        (''status'', keyword_type)]),
      (''signalchord-claims'', [(''tenant_id'', keyword_type), (''claim_id'', keyword_type),
        (''cluster_id'', keyword_type), (''proposition'', plain_type ''text''), (''stance'', keyword_type),
        (''confidence'', plain_type ''float'')])]"

definition ensure_index :: "string \<times> pydict \<Rightarrow> unit eff" where
  "ensure_index im =
     eff_bind (call_service ''opensearch.indices.exists'' (PDict [(''index'', PStr (fst im))])) (\<lambda>exists.
     if truthy exists then eff_return ()
     else eff_then (call_service ''opensearch.indices.create'' (PDict [(''index'', PStr (fst im)),
         (''body'', PDict [(''mappings'', PDict [(''properties'', PDict (snd im))])])]))
       (eff_return ()))"

definition ensure_indexes :: "unit eff" where
  "ensure_indexes = eff_iter ensure_index INDEX_MAPPINGS"

section \<open>Every access is scoped to the tenant\<close>

text \<open>What a call may be for a tenant: reading the object store, writing a document that names the
  tenant under an identifier that starts with it, or deleting what a query finds in which the
  term of the tenant is one of the filters.\<close>

definition index_call_scoped :: "pyval \<Rightarrow> pydict \<Rightarrow> bool" where
  "index_call_scoped tenant a \<longleftrightarrow>
     (\<exists>b. dict_get a ''body'' = Some (PDict b) \<and> dict_get b ''tenant_id'' = Some tenant) \<and>
     (\<exists>k. dict_get a ''id'' = Some (PStr (py_str tenant @ CHR '':'' # k)))"

definition delete_call_scoped :: "pyval \<Rightarrow> pydict \<Rightarrow> bool" where
  "delete_call_scoped tenant a \<longleftrightarrow> (\<exists>body query b filters.
     dict_get a ''body'' = Some (PDict body) \<and> dict_get body ''query'' = Some (PDict query)
     \<and> dict_get query ''bool'' = Some (PDict b) \<and> dict_get b ''filter'' = Some (PList filters)
     \<and> PDict [(''term'', PDict [(''tenant_id'', tenant)])] \<in> set filters)"

definition scoped_call :: "pyval \<Rightarrow> effect \<Rightarrow> bool" where
  "scoped_call tenant e = (case e of
     Called n (PDict a) \<Rightarrow> n = ''s3.get_object'' \<or> n = ''opensearch.index'' \<and> index_call_scoped tenant a
       \<or> n = ''opensearch.delete_by_query'' \<and> delete_call_scoped tenant a
   | _ \<Rightarrow> False)"

lemma quiet_search_process: "quiet (search_process m)"
  unfolding search_process_def search_project_def search_load_text_def parse_object_uri_def index_article_def
    delete_source_def index_entity_def index_claim_def index_document_def Let_def
  by (auto intro!: quiet_intros split: pyval.splits)

interpretation search: worker search_process source_dlq_topic "''search-projector''" None None
  by unfold_locales (simp_all add: quiet_search_process quiet_option_def)

lemma emits_index_document:
  "dict_get body ''tenant_id'' = Some tenant \<Longrightarrow> emits env (scoped_call tenant) (index_document i tenant key body)"
  unfolding index_document_def
  by (intro emits_intros) (auto simp: scoped_call_def index_call_scoped_def document_id_def)

lemma takedown_scoped: "dict_get a ''body'' = Some (PDict (takedown_body tenant source_id)) \<Longrightarrow> delete_call_scoped tenant a"
  by (simp add: delete_call_scoped_def takedown_body_def)

lemma emits_load_text: "emits env (scoped_call tenant) (search_load_text uri)"
  unfolding search_load_text_def parse_object_uri_def Let_def
  by (auto simp: scoped_call_def intro!: emits_intros split: pyval.splits prod.splits)

lemma emits_indexing:
  "emits env (scoped_call tenant) (index_article event payload tenant content)"
  "emits env (scoped_call tenant) (index_entity payload tenant)"
  "emits env (scoped_call tenant) (index_claim payload tenant)"
  "emits env (scoped_call tenant) (delete_source payload tenant)"
  unfolding index_article_def index_entity_def index_claim_def delete_source_def
  by (intro emits_lift_bind emits_bind emits_index_document emits_intros;
      auto simp: res_simps scoped_call_def intro: takedown_scoped)+

lemma emits_search_process:
  assumes "env_json_loads env (km_value m) = Inr event" and "field event ''tenant_id'' = Inr tenant"
  shows "emits env (scoped_call tenant) (search_process m)"
  unfolding search_process_def search_project_def
  by (intro emits_decoded [OF _ assms(1)] emits_bind [OF emits_simple(3)] emits_lift_bind emits_if
      emits_bind [OF emits_load_text])
    (use assms(2) in \<open>auto intro: emits_indexing emits_simple\<close>)

text \<open>C34. The search index is isolated between tenants: whatever an event contains, every call that
  processing it makes reads the object store, writes one document that carries the tenant of the
  event under an identifier that starts with this tenant, or deletes by a query whose filters,
  which must all hold, include the term of this tenant.\<close>

theorem search_calls_scoped:
  assumes "env_json_loads (w_env w) (km_value m) = Inr event" and "field event ''tenant_id'' = Inr tenant"
  shows "\<exists>es. w_log (snd (search_process m w)) = w_log w @ es \<and> (\<forall>e\<in>set es. scoped_call tenant e)"
  using emitsD [OF emits_search_process [OF assms] surjective_pairing refl] by metis

definition sample_takedown :: pydict where
  "sample_takedown = [(''event_type'', PStr ''source.takedown.requested.v1''), (''tenant_id'', PStr ''tenant-a''),
     (''payload'', PDict [(''source_id'', PStr ''s1''), (''tenant_id'', PStr ''tenant-b'')])]"

theorem search_calls_scoped_witness:
  "let log = w_log (snd (search_process (message_of ''source.takedown.requested.v1'' [1])
      (fresh_world (calm_env (loads_one (PDict sample_takedown))))))
   in length log = 1 \<and> (\<forall>e\<in>set log. scoped_call (PStr ''tenant-a'') e)"
proof -
  let ?m = "message_of ''source.takedown.requested.v1'' [1]"
  let ?w = "fresh_world (calm_env (loads_one (PDict sample_takedown)))"
  have l: "env_json_loads (w_env ?w) (km_value ?m) = Inr (PDict sample_takedown)"
    by (simp add: calm_env_def loads_one_def message_of_def)
  have t: "field (PDict sample_takedown) ''tenant_id'' = Inr (PStr ''tenant-a'')" by (simp add: sample_takedown_def)
  have "length (w_log (snd (search_process ?m ?w))) = 1" by code_simp
  with search_calls_scoped [OF l t] show ?thesis by (simp add: Let_def)
qed

text \<open>The document that an index call of the log writes.\<close>

definition written_document :: "effect \<Rightarrow> string option" where
  "written_document e = (case e of
     Called n (PDict a) \<Rightarrow> if n = ''opensearch.index'' then Option.bind (dict_get a ''id'') as_str else None
   | _ \<Rightarrow> None)"

lemma colon_split: "a @ CHR '':'' # b = c @ CHR '':'' # d \<Longrightarrow> CHR '':'' \<notin> set a \<Longrightarrow> CHR '':'' \<notin> set c \<Longrightarrow> a = c \<and> b = d"
  by (induction a arbitrary: c) (case_tac [!] c, auto)

lemma written_document_scoped:
  assumes "scoped_call (PStr t) e" and "written_document e = Some i"
  shows "\<exists>k. i = t @ CHR '':'' # k"
proof -
  have "py_str (PStr t) = t" by (simp add: py_str_def)
  then show ?thesis
    using assms by (auto simp: written_document_def scoped_call_def index_call_scoped_def
        split: effect.splits pyval.splits if_splits)
qed

text \<open>One tenant never overwrites a document of another: when two events of tenants whose
  names contain no colon make the projector write documents with the same identifier, they are
  events of the same tenant.\<close>

theorem search_documents_separate:
  assumes "env_json_loads (w_env w) (km_value m) = Inr event" and "field event ''tenant_id'' = Inr (PStr t)"
    and "env_json_loads (w_env w') (km_value m') = Inr event'" and "field event' ''tenant_id'' = Inr (PStr t')"
    and "CHR '':'' \<notin> set t" and "CHR '':'' \<notin> set t'"
    and "w_log w = []" and "w_log w' = []"
    and "e \<in> set (w_log (snd (search_process m w)))" and "e' \<in> set (w_log (snd (search_process m' w')))"
    and "written_document e = Some i" and "written_document e' = Some i"
  shows "t = t'"
proof -
  have "scoped_call (PStr t) e"
    using emitsD [OF emits_search_process [OF assms(1,2)] surjective_pairing refl] assms(7,9) by (metis append_Nil)
  moreover have "scoped_call (PStr t') e'"
    using emitsD [OF emits_search_process [OF assms(3,4)] surjective_pairing refl] assms(8,10) by (metis append_Nil)
  ultimately obtain k k' where "i = t @ CHR '':'' # k" "i = t' @ CHR '':'' # k'"
    using written_document_scoped assms(11,12) by meson
  then show ?thesis using colon_split assms(5,6) by blast
qed

definition sample_claim_event :: "string \<Rightarrow> pydict" where
  "sample_claim_event t = [(''event_type'', PStr ''claim.clustered.v1''), (''tenant_id'', PStr t),
     (''payload'', PDict [(''claim_id'', PStr ''c1''), (''cluster_id'', PStr ''k1''), (''proposition'', PStr ''p''),
        (''stance'', PStr ''positive''), (''confidence'', PInt 1)])]"

theorem search_documents_separate_witness:
  "\<exists>e i. e \<in> set (w_log (snd (search_process (message_of ''claim.clustered.v1'' [1])
       (fresh_world (calm_env (loads_one (PDict (sample_claim_event ''a''))))))))
     \<and> written_document e = Some i \<and> (\<forall>t. CHR '':'' \<notin> set t \<and> t \<noteq> ''a'' \<longrightarrow>
       \<not> (\<exists>e'\<in>set (w_log (snd (search_process (message_of ''claim.clustered.v1'' [1])
            (fresh_world (calm_env (loads_one (PDict (sample_claim_event t)))))))). written_document e' = Some i))"
proof -
  let ?m = "message_of ''claim.clustered.v1'' [1]"
  let ?w = "\<lambda>t. fresh_world (calm_env (loads_one (PDict (sample_claim_event t))))"
  have l: "env_json_loads (w_env (?w t)) (km_value ?m) = Inr (PDict (sample_claim_event t))" for t
    by (simp add: calm_env_def loads_one_def message_of_def)
  have f: "field (PDict (sample_claim_event t)) ''tenant_id'' = Inr (PStr t)" for t by (simp add: sample_claim_event_def)
  have "list_ex (\<lambda>e. written_document e = Some ''a:c1'') (w_log (snd (search_process ?m (?w ''a''))))" by code_simp
  then obtain e where e: "e \<in> set (w_log (snd (search_process ?m (?w ''a''))))" "written_document e = Some ''a:c1''"
    by (auto simp: list_ex_iff)
  have a: "CHR '':'' \<notin> set ''a''" by simp
  have "t = ''a''" if "CHR '':'' \<notin> set t" "e' \<in> set (w_log (snd (search_process ?m (?w t))))" "written_document e' = Some ''a:c1''" for t e'
    using search_documents_separate [OF l f l f a that(1) fresh_world_simps(2) fresh_world_simps(2) e(1) that(2) e(2) that(3)] by simp
  then show ?thesis using e by blast
qed

end
