(* ===== verification/Regex.thy ===== *)
theory Regex
  imports PyText
begin

text \<open>
  Python's \<open>re\<close> for the expressions the services use: greedy, backtracking matching, as the list of
  the positions where a match can end, the preferred one first.  The second half is the reading
  of an expression as a relation between positions, and the facts about \<open>finditer\<close>.
\<close>

section \<open>Expressions and matching\<close>

text \<open>A character of a class, and its greedy repetition; a sequence, an alternative, between zero
  and \<open>n\<close> greedy repetitions; \<open>\b\<close> on texts
  and on bytes; \<open>$\<close>, and \<open>^\<close> of a text and of its lines.\<close>

datatype regex =
    Class "char \<Rightarrow> bool"
  | Star_Class "char \<Rightarrow> bool"
  | Then regex regex
  | Either regex regex
  | Up_To nat regex
  | Boundary
  | Byte_Boundary
  | Text_End
  | Text_Start
  | Line_Start
  | Nothing

text \<open>\<open>\w\<close>: letters, digits and numbers of every kind, and the underscore.\<close>

definition is_word :: "char \<Rightarrow> bool" where
  "is_word c = (let n = ord_c c
     in 48 \<le> n \<and> n \<le> 57 \<or> 65 \<le> n \<and> n \<le> 90 \<or> 97 \<le> n \<and> n \<le> 122 \<or> n = 95
      \<or> n \<in> {170, 178, 179, 181, 185, 186, 188, 189, 190} \<or> 192 \<le> n \<and> n \<noteq> 215 \<and> n \<noteq> 247)"

definition word_at :: "string \<Rightarrow> nat \<Rightarrow> bool" where
  "word_at s i = (i < length s \<and> is_word (s ! i))"

definition at_boundary :: "string \<Rightarrow> nat \<Rightarrow> bool" where
  "at_boundary s i = ((i \<noteq> 0 \<and> word_at s (i - 1)) \<noteq> word_at s i)"

text \<open>In a pattern of bytes only the letters of ASCII, digits and the underscore make words.\<close>

definition is_byte_word :: "char \<Rightarrow> bool" where
  "is_byte_word c = (let n = (of_char c :: int)
     in 48 \<le> n \<and> n \<le> 57 \<or> 65 \<le> n \<and> n \<le> 90 \<or> 97 \<le> n \<and> n \<le> 122 \<or> n = 95)"

definition byte_word_at :: "string \<Rightarrow> nat \<Rightarrow> bool" where
  "byte_word_at s i = (i < length s \<and> is_byte_word (s ! i))"

definition at_byte_boundary :: "string \<Rightarrow> nat \<Rightarrow> bool" where
  "at_byte_boundary s i = ((i \<noteq> 0 \<and> byte_word_at s (i - 1)) \<noteq> byte_word_at s i)"

definition at_line_start :: "string \<Rightarrow> nat \<Rightarrow> bool" where
  "at_line_start s i = (i = 0 \<or> i \<le> length s \<and> s ! (i - 1) = CHR 0x0A)"

definition at_text_end :: "string \<Rightarrow> nat \<Rightarrow> bool" where
  "at_text_end s i = (i = length s \<or> Suc i = length s \<and> s ! i = CHR 0x0A)"

primrec up_to :: "(nat \<Rightarrow> nat list) \<Rightarrow> nat \<Rightarrow> nat \<Rightarrow> nat list" where
  "up_to f 0 i = [i]"
| "up_to f (Suc n) i = concat (map (up_to f n) (f i)) @ [i]"

primrec ends :: "string \<Rightarrow> regex \<Rightarrow> nat \<Rightarrow> nat list" where
  "ends s (Class P) i = (if i < length s \<and> P (s ! i) then [Suc i] else [])"
| "ends s (Star_Class P) i = rev [i ..< Suc (i + length (takeWhile P (drop i s)))]"
| "ends s (Then a b) i = concat (map (ends s b) (ends s a i))"
| "ends s (Either a b) i = ends s a i @ ends s b i"
| "ends s (Up_To n a) i = up_to (ends s a) n i"
| "ends s Boundary i = (if at_boundary s i then [i] else [])"
| "ends s Byte_Boundary i = (if at_byte_boundary s i then [i] else [])"
| "ends s Text_Start i = (if i = 0 then [i] else [])"
| "ends s Line_Start i = (if at_line_start s i then [i] else [])"
| "ends s Text_End i = (if at_text_end s i then [i] else [])"
| "ends s Nothing i = [i]"

text \<open>\<open>finditer\<close> of an expression that never matches the empty text: the spans, left to right.\<close>

function find_from :: "regex \<Rightarrow> string \<Rightarrow> nat \<Rightarrow> (nat \<times> nat) list" where
  "find_from r s i =
     (if length s \<le> i then []
      else case ends s r i of
        [] \<Rightarrow> find_from r s (Suc i)
      | e # _ \<Rightarrow> if i < e then (i, e) # find_from r s e else find_from r s (Suc i))"
  by pat_completeness auto
termination
  by (relation "measure (\<lambda>(r, s, i). length s - i)") auto

declare find_from.simps [simp del]

definition finditer :: "regex \<Rightarrow> string \<Rightarrow> (nat \<times> nat) list" where
  "finditer r s = find_from r s 0"

text \<open>\<open>s[i:j]\<close>\<close>

definition text_at :: "string \<Rightarrow> nat \<times> nat \<Rightarrow> string" where
  "text_at s p = take (snd p - fst p) (drop (fst p) s)"

definition findall :: "regex \<Rightarrow> string \<Rightarrow> string list" where
  "findall r s = map (text_at s) (finditer r s)"

section \<open>Derived expressions\<close>

definition plus_class :: "(char \<Rightarrow> bool) \<Rightarrow> regex" where
  "plus_class P = Then (Class P) (Star_Class P)"

definition optional :: "regex \<Rightarrow> regex" where
  "optional a = Up_To 1 a"

primrec exactly :: "string \<Rightarrow> regex" where
  "exactly [] = Nothing"
| "exactly (c # s) = (if s = [] then Class (\<lambda>d. d = c) else Then (Class (\<lambda>d. d = c)) (exactly s))"

text \<open>A text of small letters under \<open>re.I\<close>.\<close>

primrec any_case :: "string \<Rightarrow> regex" where
  "any_case [] = Nothing"
| "any_case (c # s) = (if s = [] then Class (\<lambda>d. lower_char d = c) else Then (Class (\<lambda>d. lower_char d = c)) (any_case s))"

fun one_of :: "regex list \<Rightarrow> regex" where
  "one_of [] = Nothing"
| "one_of [a] = a"
| "one_of (a # as) = Either a (one_of as)"

text \<open>\<open>a{1,n}\<close>\<close>

definition one_to :: "nat \<Rightarrow> regex \<Rightarrow> regex" where
  "one_to n a = Then a (Up_To (n - 1) a)"

section \<open>Expressions as relations\<close>

inductive matches :: "string \<Rightarrow> regex \<Rightarrow> nat \<Rightarrow> nat \<Rightarrow> bool" for s where
  m_class: "i < length s \<Longrightarrow> P (s ! i) \<Longrightarrow> matches s (Class P) i (Suc i)"
| m_star: "i \<le> j \<Longrightarrow> j \<le> length s \<or> j = i \<Longrightarrow> (\<And>k. i \<le> k \<Longrightarrow> k < j \<Longrightarrow> P (s ! k)) \<Longrightarrow> matches s (Star_Class P) i j"
| m_then: "matches s a i j \<Longrightarrow> matches s b j k \<Longrightarrow> matches s (Then a b) i k"
| m_left: "matches s a i j \<Longrightarrow> matches s (Either a b) i j"
| m_right: "matches s b i j \<Longrightarrow> matches s (Either a b) i j"
| m_zero: "matches s (Up_To n a) i i"
| m_more: "matches s a i j \<Longrightarrow> matches s (Up_To n a) j k \<Longrightarrow> matches s (Up_To (Suc n) a) i k"
| m_boundary: "at_boundary s i \<Longrightarrow> matches s Boundary i i"
| m_byte_boundary: "at_byte_boundary s i \<Longrightarrow> matches s Byte_Boundary i i"
| m_text_start: "matches s Text_Start 0 0"
| m_line_start: "at_line_start s i \<Longrightarrow> matches s Line_Start i i"
| m_end: "at_text_end s i \<Longrightarrow> matches s Text_End i i"
| m_nothing: "matches s Nothing i i"

inductive_simps matches_simps [simp]:
  "matches s (Class P) i j" "matches s (Star_Class P) i j" "matches s (Then a b) i j"
  "matches s (Either a b) i j" "matches s Boundary i j" "matches s Text_End i j" "matches s Nothing i j"
  "matches s (Up_To 0 a) i j" "matches s (Up_To (Suc n) a) i j" "matches s Byte_Boundary i j" "matches s Line_Start i j"
  "matches s Text_Start i j"

lemma up_to_matches:
  assumes "\<And>i j. j \<in> set (f i) \<longleftrightarrow> matches s a i j"
  shows "j \<in> set (up_to f n i) \<longleftrightarrow> matches s (Up_To n a) i j"
  by (induction n arbitrary: i) (auto simp: assms)

lemma run_length_iff:
  "j \<le> i + length (takeWhile P (drop i s)) \<longleftrightarrow> (j \<le> i \<or> j \<le> length s \<and> (\<forall>k. i \<le> k \<and> k < j \<longrightarrow> P (s ! k)))"
proof (cases "i \<le> length s")
  case True
  let ?t = "drop i s" and ?n = "length (takeWhile P (drop i s))"
  have n: "?n \<le> length ?t" by (rule length_takeWhile_le)
  have in_run: "P (s ! k)" if "i \<le> k" "k < i + ?n" for k
  proof -
    have "P (takeWhile P ?t ! (k - i))" using that by (metis le_add_diff_inverse nat_add_left_cancel_less nth_mem set_takeWhileD)
    then show ?thesis using that n by (simp add: takeWhile_nth)
  qed
  have stop: "\<not> P (s ! (i + ?n))" if "i + ?n < length s"
    using nth_length_takeWhile [of P ?t] that True by simp
  show ?thesis
  proof
    assume j: "j \<le> i + ?n"
    then show "j \<le> i \<or> j \<le> length s \<and> (\<forall>k. i \<le> k \<and> k < j \<longrightarrow> P (s ! k))"
      using in_run n True by auto
  next
    assume "j \<le> i \<or> j \<le> length s \<and> (\<forall>k. i \<le> k \<and> k < j \<longrightarrow> P (s ! k))"
    then show "j \<le> i + ?n" using stop by (metis le_add1 le_trans less_le_trans not_le)
  qed
qed auto

text \<open>The matcher finds exactly the matches of the relation.\<close>

lemma ends_matches: "j \<in> set (ends s r i) \<longleftrightarrow> matches s r i j"
proof (induction r arbitrary: i j)
  case (Star_Class P)
  then show ?case using run_length_iff [of j i P s] by (auto simp: less_Suc_eq_le)
next
  case (Up_To n a)
  then show ?case by (simp add: up_to_matches)
qed auto

section \<open>Bounds\<close>

lemma matches_bounds: "matches s r i j \<Longrightarrow> i \<le> j \<and> (i \<le> length s \<longrightarrow> j \<le> length s)"
  by (induction rule: matches.induct) auto

text \<open>Expressions that cannot match the empty text.\<close>

fun consuming :: "regex \<Rightarrow> bool" where
  "consuming (Class P) = True"
| "consuming (Then a b) = (consuming a \<or> consuming b)"
| "consuming (Either a b) = (consuming a \<and> consuming b)"
| "consuming _ = False"

lemma consuming_advances: "matches s r i j \<Longrightarrow> consuming r \<Longrightarrow> i < j"
proof (induction rule: matches.induct)
  case (m_then a i j b k)
  then show ?case using matches_bounds [OF m_then(1)] matches_bounds [OF m_then(2)] by auto
qed auto

section \<open>Finding all matches\<close>

text \<open>Spans in the order of the text, not overlapping, from \<open>i\<close> up to \<open>n\<close>.\<close>

fun spans_from :: "nat \<Rightarrow> nat \<Rightarrow> (nat \<times> nat) list \<Rightarrow> bool" where
  "spans_from i n [] = True"
| "spans_from i n ((a, b) # ps) = (i \<le> a \<and> a < b \<and> b \<le> n \<and> spans_from b n ps)"

lemma spans_from_weaken: "spans_from j n ps \<Longrightarrow> i \<le> j \<Longrightarrow> spans_from i n ps"
  by (cases ps) auto

lemma spans_from_in: "spans_from i n ps \<Longrightarrow> (a, b) \<in> set ps \<Longrightarrow> i \<le> a \<and> a < b \<and> b \<le> n"
  by (induction i n ps rule: spans_from.induct) auto

lemma spans_from_apart:
  "spans_from i n ps \<Longrightarrow> k < l \<Longrightarrow> l < length ps \<Longrightarrow> snd (ps ! k) \<le> fst (ps ! l)"
proof (induction i n ps arbitrary: k l rule: spans_from.induct)
  case (2 i n a b ps)
  show ?case
  proof (cases k)
    case 0
    have "ps ! (l - 1) \<in> set ps" using 2(3,4) by (intro nth_mem) auto
    then have "b \<le> fst (ps ! (l - 1))"
      using 2(2) spans_from_in [of b n ps "fst (ps ! (l - 1))" "snd (ps ! (l - 1))"] by auto
    then show ?thesis using 0 2(3) by (simp add: nth_Cons')
  next
    case (Suc k')
    then show ?thesis using 2(1) [of k' "l - 1"] 2(2-4) by (auto simp: nth_Cons')
  qed
qed simp

lemma find_from_spans: "spans_from i (length s) (find_from r s i)"
proof (induction r s i rule: find_from.induct)
  case (1 r s i)
  show ?case
  proof (cases "length s \<le> i")
    case False
    show ?thesis
    proof (cases "ends s r i")
      case Nil
      then show ?thesis using 1(1) [OF False Nil] False
        by (simp add: find_from.simps [of r s i] spans_from_weaken [of "Suc i"])
    next
      case (Cons e es)
      then have "matches s r i e" using ends_matches [of e s r i] by simp
      then have "e \<le> length s" using matches_bounds False by auto
      then show ?thesis using 1(2,3) [OF False Cons] False Cons
        by (auto simp: find_from.simps [of r s i] intro: spans_from_weaken [of "Suc i"])
    qed
  qed (simp add: find_from.simps)
qed

lemma find_from_matches: "(a, b) \<in> set (find_from r s i) \<Longrightarrow> matches s r a b"
proof (induction r s i rule: find_from.induct)
  case (1 r s i)
  show ?case
  proof (cases "length s \<le> i")
    case False
    show ?thesis
    proof (cases "ends s r i")
      case Nil
      then show ?thesis using 1 False by (simp add: find_from.simps [of r s i])
    next
      case (Cons e es)
      then have "matches s r i e" using ends_matches [of e s r i] by simp
      then show ?thesis using 1 False Cons by (auto simp: find_from.simps [of r s i] split: if_splits)
    qed
  qed (use 1 in \<open>simp add: find_from.simps\<close>)
qed

text \<open>No match is missed: where one could start, a found span starts or runs on.\<close>

lemma find_from_complete:
  "matches s r j k \<Longrightarrow> consuming r \<Longrightarrow> i \<le> j \<Longrightarrow> j < length s \<Longrightarrow> \<exists>(a, b)\<in>set (find_from r s i). a \<le> j \<and> j < b"
proof (induction r s i rule: find_from.induct)
  case (1 r s i)
  have i: "\<not> length s \<le> i" using 1(6,7) by simp
  show ?case
  proof (cases "ends s r i")
    case Nil
    then have "i \<noteq> j" using 1(4) ends_matches [of k s r i] by auto
    then show ?thesis using 1(1) [OF i Nil 1(4,5) _ 1(7)] 1(6) Nil i by (simp add: find_from.simps [of r s i])
  next
    case (Cons e es)
    then have "i < e" using ends_matches [of e s r i] consuming_advances [OF _ 1(5)] by simp
    show ?thesis
    proof (cases "j < e")
      case True
      then show ?thesis using \<open>i < e\<close> Cons i 1(6) by (simp add: find_from.simps [of r s i])
    next
      case False
      then show ?thesis using 1(2) [OF i Cons \<open>i < e\<close> 1(4,5) _ 1(7)] \<open>i < e\<close> Cons i
        by (simp add: find_from.simps [of r s i])
    qed
  qed
qed

lemma finditer_spans: "spans_from 0 (length s) (finditer r s)"
  by (simp add: finditer_def find_from_spans)

lemma finditer_matches: "(a, b) \<in> set (finditer r s) \<Longrightarrow> matches s r a b"
  by (simp add: finditer_def find_from_matches)

lemma finditer_bounds: "(a, b) \<in> set (finditer r s) \<Longrightarrow> a < b \<and> b \<le> length s"
  using spans_from_in [OF finditer_spans] by blast

lemma finditer_complete:
  "matches s r j k \<Longrightarrow> consuming r \<Longrightarrow> j < length s \<Longrightarrow> \<exists>(a, b)\<in>set (finditer r s). a \<le> j \<and> j < b"
  by (simp add: finditer_def find_from_complete)

lemma length_text_at: "a \<le> b \<Longrightarrow> b \<le> length s \<Longrightarrow> length (text_at s (a, b)) = b - a"
  by (simp add: text_at_def)

lemma text_at_nth: "k < b - a \<Longrightarrow> b \<le> length s \<Longrightarrow> text_at s (a, b) ! k = s ! (a + k)"
  by (simp add: text_at_def)

end
