(* ===== verification/NlpExtract.thy ===== *)
theory NlpExtract
  imports Regex Events
begin

text \<open>
  \<open>services/nlp-pipeline/app.py\<close>: the extraction of mentions, claims, relations, topics and an
  embedding from a document by regular expressions and word lists.  What is shown: mentions do
  not overlap and none is missed, evidence spans are exactly the text they point to, claims are
  sentences, and relations refer to extracted mentions.
\<close>

section \<open>Data\<close>

record document =
  doc_id :: string
  doc_text :: string
  doc_language :: "string option"

record evidence =
  ev_id :: string
  ev_document_id :: string
  ev_start :: nat
  ev_end :: nat
  ev_span_hash :: string

record mention =
  me_id :: string
  me_text :: string
  me_type :: string
  me_confidence :: pyfloat
  me_evidence :: evidence

record claim =
  cl_id :: string
  cl_proposition :: string
  cl_stance :: string
  cl_confidence :: pyfloat
  cl_evidence :: evidence

record relation =
  re_id :: string
  re_subject :: string
  re_predicate :: string
  re_object :: string
  re_confidence :: pyfloat
  re_evidence :: evidence

record extraction =
  ex_language :: string
  ex_model :: string
  ex_version :: string
  ex_embedding_model :: string
  ex_mentions :: "mention list"
  ex_claims :: "claim list"
  ex_relations :: "relation list"
  ex_topics :: "string list"
  ex_embedding :: "pyfloat list"

text \<open>The checks of the document model.\<close>

definition make_document :: "pyval \<Rightarrow> string \<Rightarrow> pyval \<Rightarrow> document res" where
  "make_document document_id text language_hint =
     (case document_id of
       PStr i \<Rightarrow>
         if text = [] \<or> 2000000 < int (length text) then Inl (Exn ValidationError ''text'')
         else (case language_hint of
             PNone \<Rightarrow> Inr \<lparr>doc_id = i, doc_text = text, doc_language = None\<rparr>
           | PStr l \<Rightarrow> Inr \<lparr>doc_id = i, doc_text = text, doc_language = Some l\<rparr>
           | _ \<Rightarrow> Inl (Exn ValidationError ''language_hint''))
     | _ \<Rightarrow> Inl (Exn ValidationError ''document_id''))"

section \<open>Patterns\<close>

definition is_upper :: "char \<Rightarrow> bool" where
  "is_upper c = (65 \<le> ord_c c \<and> ord_c c \<le> 90)"

definition is_small :: "char \<Rightarrow> bool" where
  "is_small c = (97 \<le> ord_c c \<and> ord_c c \<le> 122)"

definition is_name_char :: "char \<Rightarrow> bool" where
  "is_name_char c = (is_word c \<or> c \<in> set ''&.-'')"

definition is_terminator :: "char \<Rightarrow> bool" where
  "is_terminator c = (c \<in> set ''.!?'')"

text \<open>\<open>[A-Z][\w&.-]+(?:\s+|$)\<close>\<close>

definition name_part :: regex where
  "name_part = Then (Class is_upper) (Then (plus_class is_name_char) (Either (plus_class is_space) Text_End))"

definition named :: "nat \<Rightarrow> regex list \<Rightarrow> regex" where
  "named n suffixes = Then Boundary (Then (one_to n name_part) (Then (one_of suffixes) Boundary))"

definition dotted :: "regex \<Rightarrow> regex" where
  "dotted a = Then a (optional (exactly ''.''))"

definition COMPANY :: regex where
  "COMPANY = named 4 [dotted (exactly ''Inc''), dotted (Then (exactly ''Corp'') (optional (exactly ''oration''))),
     dotted (exactly ''Ltd''), exactly ''LLC'', exactly ''PLC'']"

definition ORGANIZATION :: regex where
  "ORGANIZATION = named 4 [Then (exactly ''Lab'') (optional (exactly ''s'')), exactly ''University'',
     exactly ''Institute'', exactly ''Association'', exactly ''Foundation'']"

definition AGENCY :: regex where
  "AGENCY = named 5 (map exactly [''Agency'', ''Commission'', ''Ministry'', ''Authority'', ''Department''])"

text \<open>\<open>[A-Z][a-z]+(?:[-'][A-Z][a-z]+)?\<close>\<close>

definition person_name :: regex where
  "person_name = Then (Class is_upper) (Then (plus_class is_small)
     (optional (Then (Class (\<lambda>c. c \<in> {CHR 0x27, CHR ''-''})) (Then (Class is_upper) (plus_class is_small)))))"

definition PERSON :: regex where
  "PERSON = Then Boundary (Then person_name (Then (plus_class is_space) (Then person_name Boundary)))"

definition LOCATION :: regex where
  "LOCATION = Then Boundary (Then (one_of (map exactly [''Berlin'', ''Karlsruhe'', ''London'', ''Paris'', ''Singapore'',
     ''New York'', ''Brussels'', ''Cologne'', ''Munich'', ''Tokyo'', ''Washington''])) Boundary)"

definition CLAIM_VERBS :: "regex list" where
  "CLAIM_VERBS = [any_case ''announced'', any_case ''said'', any_case ''reported'',
     Then (any_case ''plan'') (optional (any_case ''s'')), Then (any_case ''expect'') (optional (any_case ''s'')),
     any_case ''denied'', any_case ''confirmed'', any_case ''claimed'', any_case ''warned'', any_case ''agreed'']"

definition CLAIM :: regex where
  "CLAIM = Then (Star_Class (\<lambda>c. \<not> is_terminator c)) (Then (one_of CLAIM_VERBS)
     (Then (Star_Class (\<lambda>c. \<not> is_terminator c)) (Class is_terminator)))"

definition SENTENCE :: regex where
  "SENTENCE = Then (plus_class (\<lambda>c. \<not> is_terminator c)) (optional (Class is_terminator))"

text \<open>The sets of words are only searched, so their order does not matter.\<close>

definition TOPIC_KEYWORDS :: "(string \<times> string list) list" where
  "TOPIC_KEYWORDS =
     [(''partnerships'', [''partnership'', ''partnered'', ''collaboration'', ''alliance'']),
      (''mergers-and-acquisitions'', [''acquired'', ''acquisition'', ''merger'', ''takeover'']),
      (''investment'', [''invested'', ''funding'', ''financing'', ''venture'']),
      (''regulation'', [''regulates'', ''regulation'', ''authority'', ''commission'']),
      (''technology'', [''technology'', ''software'', ''platform'', ''artificial intelligence'', ''ai'']),
      (''logistics'', [''logistics'', ''shipping'', ''supply chain'', ''warehouse''])]"

definition RELATION_KEYWORDS :: "(string \<times> string list) list" where
  "RELATION_KEYWORDS =
     [(''PARTNERED_WITH'', [''partnership'', ''partnered'', ''collaboration'', ''alliance'']),
      (''ACQUIRED'', [''acquired'', ''acquisition'', ''bought'']),
      (''INVESTED_IN'', [''invested'', ''investment'', ''funding'']),
      (''COMPETES_WITH'', [''competes'', ''rival'', ''competitor'']),
      (''REGULATES'', [''regulates'', ''sanctioned'', ''approved'']),
      (''AFFECTS'', [''affects'', ''impacts'', ''disrupted''])]"

definition NEGATIVE :: "string list" where
  "NEGATIVE = [''denied'', ''not'', ''never'', ''no'', ''warned'', ''failed'']"

definition POSITIVE :: "string list" where
  "POSITIVE = [''confirmed'', ''agreed'', ''announced'', ''expects'', ''plans'']"

section \<open>Extraction\<close>

definition evidence_of :: "string \<Rightarrow> string \<Rightarrow> nat \<times> nat \<Rightarrow> evidence" where
  "evidence_of document_id text sp =
     \<lparr>ev_id = ''ev:'' @ document_id @ '':'' @ show_nat (fst sp) @ '':'' @ show_nat (snd sp),
      ev_document_id = document_id, ev_start = fst sp, ev_end = snd sp,
      ev_span_hash = sha256_hex (text_at text sp)\<rparr>"

text \<open>\<open>round(x, 6)\<close>: the nearest multiple of a millionth, ties to even, as the nearest float.\<close>

definition round6 :: "pyfloat \<Rightarrow> pyfloat" where
  "round6 x = fl_round_signed (fl_neg_bit x) (of_int (round_half_even (fl_val x * 1000000)) / 1000000)"

text \<open>One token of the embedding: the first two bytes of its digest choose the component, the
  third the sign.\<close>

definition embed_token :: "nat \<Rightarrow> pyfloat list \<Rightarrow> string \<Rightarrow> pyfloat list" where
  "embed_token dimensions vs token =
     (let digest = sha256 (utf8_encode token);
          index = nat ((digest ! 0 * 256 + digest ! 1) mod int dimensions);
          sign = (if digest ! 2 mod 2 = 0 then Fin 1 else Fin (- 1))
      in vs[index := fl_add (vs ! index) sign])"

text \<open>The sum of the squares of integers is exact, in whichever way it is added up.\<close>

definition hash_embedding :: "string \<Rightarrow> nat \<Rightarrow> pyfloat list" where
  "hash_embedding text dimensions =
     (let vs = foldl (embed_token dimensions) (replicate dimensions (Fin 0))
            (findall (plus_class is_lower_alnum) (casefold text));
          root = fl_sqrt (foldl fl_add (Fin 0) (map (\<lambda>v. fl_mul v v) vs));
          len = (if fl_truthy root then root else Fin 1)
      in map (\<lambda>v. round6 (fl_div v len)) vs)"

definition stance_of :: "string \<Rightarrow> string" where
  "stance_of text =
     (let tokens = findall (plus_class is_small) (casefold text)
      in if \<exists>t\<in>set tokens. t \<in> set NEGATIVE then ''negative''
         else if \<exists>t\<in>set tokens. t \<in> set POSITIVE then ''positive''
         else ''neutral'')"

text \<open>A candidate: its span, type, text and confidence.\<close>

record found =
  fo_span :: "nat \<times> nat"
  fo_type :: string
  fo_text :: string
  fo_confidence :: pyfloat

definition PATTERNS :: "(string \<times> regex \<times> pyfloat) list" where
  "PATTERNS = [(''Company'', COMPANY, fl_round (94 / 100)), (''GovernmentAgency'', AGENCY, fl_round (93 / 100)),
     (''Organization'', ORGANIZATION, fl_round (91 / 100)), (''Location'', LOCATION, fl_round (97 / 100)),
     (''Person'', PERSON, fl_round (83 / 100))]"

definition find_candidates :: "string \<Rightarrow> found list" where
  "find_candidates text = concat (map (\<lambda>(ty, pattern, confidence).
     map (\<lambda>sp. \<lparr>fo_span = sp, fo_type = ty, fo_text = strip (text_at text sp), fo_confidence = confidence\<rparr>)
       (finditer pattern text)) PATTERNS)"

text \<open>The sort key: start, longest first, most confident first.\<close>

definition candidate_key :: "found \<Rightarrow> rat list" where
  "candidate_key c = [of_nat (fst (fo_span c)), - of_nat (snd (fo_span c) - fst (fo_span c)), - fl_val (fo_confidence c)]"

definition overlaps :: "nat \<times> nat \<Rightarrow> nat \<times> nat \<Rightarrow> bool" where
  "overlaps p q = (fst p < snd q \<and> snd p > fst q)"

definition mention_of :: "document \<Rightarrow> found \<Rightarrow> mention" where
  "mention_of doc c =
     (let ev = evidence_of (doc_id doc) (doc_text doc) (fo_span c)
      in \<lparr>me_id = ''mention:'' @ ev_id ev, me_text = fo_text c, me_type = fo_type c,
          me_confidence = fo_confidence c, me_evidence = ev\<rparr>)"

text \<open>The loop over the sorted candidates: one that overlaps an accepted span is dropped.\<close>

fun accept_candidates :: "(nat \<times> nat) list \<Rightarrow> found list \<Rightarrow> found list" where
  "accept_candidates accepted [] = []"
| "accept_candidates accepted (c # cs) =
     (if \<exists>q\<in>set accepted. overlaps (fo_span c) q then accept_candidates accepted cs
      else c # accept_candidates (accepted @ [fo_span c]) cs)"

definition extract_mentions :: "document \<Rightarrow> mention list" where
  "extract_mentions doc =
     map (mention_of doc) (accept_candidates [] (sort_key candidate_key (find_candidates (doc_text doc))))"

definition claim_of :: "document \<Rightarrow> nat \<times> nat \<Rightarrow> claim" where
  "claim_of doc sp =
     (let ev = evidence_of (doc_id doc) (doc_text doc) sp;
          proposition = join '' '' (split_ws (text_at (doc_text doc) sp))
      in \<lparr>cl_id = ''claim:'' @ take 24 (ev_span_hash ev), cl_proposition = proposition,
          cl_stance = stance_of proposition, cl_confidence = fl_round (78 / 100), cl_evidence = ev\<rparr>)"

definition extract_claims :: "document \<Rightarrow> claim list" where
  "extract_claims doc = map (claim_of doc) (finditer CLAIM (doc_text doc))"

definition mentions_word :: "string \<Rightarrow> string list \<Rightarrow> bool" where
  "mentions_word lowered keywords = (\<exists>k\<in>set keywords. contains lowered k)"

definition predicate_of :: "string \<Rightarrow> string option" where
  "predicate_of lowered = map_option fst (List.find (\<lambda>(_, keywords). mentions_word lowered keywords) RELATION_KEYWORDS)"

definition in_span :: "nat \<times> nat \<Rightarrow> mention \<Rightarrow> bool" where
  "in_span sp m = (ev_start (me_evidence m) \<ge> fst sp \<and> ev_end (me_evidence m) \<le> snd sp)"

definition make_relation :: "document \<Rightarrow> nat \<times> nat \<Rightarrow> mention \<Rightarrow> string \<Rightarrow> mention \<Rightarrow> relation" where
  "make_relation doc sp subject predicate obj =
     (let ev = evidence_of (doc_id doc) (doc_text doc) sp;
          relation_hash = take 24 (sha256_hex (me_id subject @ '':'' @ predicate @ '':'' @ me_id obj @ '':'' @ ev_span_hash ev))
      in \<lparr>re_id = ''relationship:'' @ relation_hash, re_subject = me_id subject, re_predicate = predicate,
          re_object = me_id obj, re_confidence = fl_round (74 / 100), re_evidence = ev\<rparr>)"

definition sentence_relation :: "document \<Rightarrow> mention list \<Rightarrow> nat \<times> nat \<Rightarrow> relation list" where
  "sentence_relation doc mentions sp =
     (case filter (in_span sp) mentions of
        subject # obj # _ \<Rightarrow>
          (case predicate_of (casefold (text_at (doc_text doc) sp)) of
            None \<Rightarrow> [] | Some predicate \<Rightarrow> [make_relation doc sp subject predicate obj])
      | _ \<Rightarrow> [])"

definition extract_relations :: "document \<Rightarrow> mention list \<Rightarrow> relation list" where
  "extract_relations doc mentions = concat (map (sentence_relation doc mentions) (finditer SENTENCE (doc_text doc)))"

definition classify_topics :: "string \<Rightarrow> string list" where
  "classify_topics text =
     sort (map fst (filter (\<lambda>(_, keywords). mentions_word (casefold text) keywords) TOPIC_KEYWORDS))"

definition clean_text :: "string \<Rightarrow> string" where
  "clean_text text = join '' '' (split_ws text)"

definition language_of :: "document \<Rightarrow> string" where
  "language_of doc = (case doc_language doc of Some (c # l) \<Rightarrow> c # l | _ \<Rightarrow> ''en'')"

definition opt_text :: "string option \<Rightarrow> pyval" where
  "opt_text v = (case v of None \<Rightarrow> PNone | Some s \<Rightarrow> PStr s)"

definition extract_all :: "document \<Rightarrow> extraction res" where
  "extract_all doc =
     res_bind (make_document (PStr (doc_id doc)) (clean_text (doc_text doc)) (opt_text (doc_language doc))) (\<lambda>normalized.
       let mentions = extract_mentions normalized
       in Inr \<lparr>ex_language = language_of doc, ex_model = ''signalchord-rules'', ex_version = ''1.0.0'',
          ex_embedding_model = ''signalchord-hash-embedding-1'', ex_mentions = mentions,
          ex_claims = extract_claims normalized, ex_relations = extract_relations normalized mentions,
          ex_topics = classify_topics (doc_text normalized),
          ex_embedding = hash_embedding (doc_text normalized) 32\<rparr>)"

definition extract_endpoint :: "document \<Rightarrow> extraction res" where
  "extract_endpoint doc = extract_all doc"

section \<open>Mentions\<close>

lemma accept_subset: "set (accept_candidates acc cs) \<subseteq> set cs"
  by (induction acc cs rule: accept_candidates.induct) auto

lemma accept_new: "c \<in> set (accept_candidates acc cs) \<Longrightarrow> q \<in> set acc \<Longrightarrow> \<not> overlaps (fo_span c) q"
  by (induction acc cs rule: accept_candidates.induct) (auto split: if_splits)

lemma accept_apart: "sorted_wrt (\<lambda>c d. \<not> overlaps (fo_span d) (fo_span c)) (accept_candidates acc cs)"
proof (induction acc cs rule: accept_candidates.induct)
  case (2 acc c cs)
  then show ?case using accept_new [of _ "acc @ [fo_span c]" cs "fo_span c"] by simp
qed simp

lemma accept_sorted_wrt:
  "sorted_wrt R cs \<Longrightarrow> sorted_wrt R (accept_candidates acc cs)"
proof (induction acc cs rule: accept_candidates.induct)
  case (2 acc c cs)
  then show ?case using accept_subset [of "acc @ [fo_span c]" cs] by auto
qed simp

text \<open>What drops a candidate was accepted before it, so in a sorted list it sorts no later.\<close>

lemma accept_complete_before:
  assumes "c \<in> set cs" and "overlaps (fo_span c) (fo_span c)" and "sorted_wrt R cs" and "R c c"
  shows "(\<exists>q\<in>set acc. overlaps (fo_span c) q)
    \<or> (\<exists>d\<in>set (accept_candidates acc cs). overlaps (fo_span c) (fo_span d) \<and> R d c)"
  using assms by (induction acc cs rule: accept_candidates.induct) auto

lemma candidate_key_start: "candidate_key c \<le> candidate_key d \<Longrightarrow> fst (fo_span c) \<le> fst (fo_span d)"
  by (auto simp: candidate_key_def)

lemma find_candidatesD:
  assumes "c \<in> set (find_candidates text)"
  obtains pattern where "(fo_type c, pattern, fo_confidence c) \<in> set PATTERNS"
    and "fo_span c \<in> set (finditer pattern text)" and "fo_text c = strip (text_at text (fo_span c))"
  using assms by (auto simp: find_candidates_def)

lemma candidate_bounds:
  assumes "c \<in> set (find_candidates text)"
  shows "fst (fo_span c) < snd (fo_span c) \<and> snd (fo_span c) \<le> length text"
  using assms by (rule find_candidatesD) (metis finditer_bounds prod.collapse)

definition accepted_candidates :: "document \<Rightarrow> found list" where
  "accepted_candidates doc = accept_candidates [] (sort_key candidate_key (find_candidates (doc_text doc)))"

lemma extract_mentions_accepted: "extract_mentions doc = map (mention_of doc) (accepted_candidates doc)"
  by (simp add: extract_mentions_def accepted_candidates_def)

lemma accepted_found: "c \<in> set (accepted_candidates doc) \<Longrightarrow> c \<in> set (find_candidates (doc_text doc))"
  using accept_subset by (fastforce simp: accepted_candidates_def)

lemma accepted_ordered:
  "sorted_wrt (\<lambda>c d. snd (fo_span c) \<le> fst (fo_span d)) (accepted_candidates doc)"
proof -
  let ?cs = "accepted_candidates doc"
  have "sorted_wrt (\<lambda>c d. candidate_key c \<le> candidate_key d) (sort_key candidate_key (find_candidates (doc_text doc)))"
    using sorted_sort_key [of candidate_key "find_candidates (doc_text doc)"] by (simp add: sorted_map)
  then have "sorted_wrt (\<lambda>c d. candidate_key c \<le> candidate_key d) ?cs"
    unfolding accepted_candidates_def by (rule accept_sorted_wrt)
  moreover have "sorted_wrt (\<lambda>c d. \<not> overlaps (fo_span d) (fo_span c)) ?cs"
    using accept_apart by (simp add: accepted_candidates_def)
  ultimately show ?thesis
    unfolding sorted_wrt_iff_nth_less
  proof (intro allI impI)
    fix k l
    assume "\<forall>i j. i < j \<longrightarrow> j < length ?cs \<longrightarrow> candidate_key (?cs ! i) \<le> candidate_key (?cs ! j)"
      and "\<forall>i j. i < j \<longrightarrow> j < length ?cs \<longrightarrow> \<not> overlaps (fo_span (?cs ! j)) (fo_span (?cs ! i))"
      and kl: "k < l" "l < length ?cs"
    then have "fst (fo_span (?cs ! k)) \<le> fst (fo_span (?cs ! l))" "\<not> overlaps (fo_span (?cs ! l)) (fo_span (?cs ! k))"
      using candidate_key_start by blast+
    moreover have "fst (fo_span (?cs ! l)) < snd (fo_span (?cs ! l))"
      using kl candidate_bounds [OF accepted_found] nth_mem by blast
    ultimately show "snd (fo_span (?cs ! k)) \<le> fst (fo_span (?cs ! l))" by (auto simp: overlaps_def)
  qed
qed

text \<open>The span of a piece of evidence, and evidence that points at its text.\<close>

definition evidence_span :: "evidence \<Rightarrow> nat \<times> nat" where
  "evidence_span ev = (ev_start ev, ev_end ev)"

definition evidence_ok :: "document \<Rightarrow> evidence \<Rightarrow> bool" where
  "evidence_ok doc ev \<longleftrightarrow> ev_document_id ev = doc_id doc \<and> ev_start ev < ev_end ev \<and> ev_end ev \<le> length (doc_text doc)
     \<and> ev_span_hash ev = sha256_hex (text_at (doc_text doc) (evidence_span ev))"

lemma evidence_of_span [simp]: "evidence_span (evidence_of d t p) = p" "ev_start (evidence_of d t p) = fst p"
    "ev_end (evidence_of d t p) = snd p"
  by (simp_all add: evidence_span_def evidence_of_def)

lemma evidence_of_ok:
  "fst p < snd p \<Longrightarrow> snd p \<le> length (doc_text doc) \<Longrightarrow> evidence_ok doc (evidence_of (doc_id doc) (doc_text doc) p)"
  by (simp add: evidence_ok_def) (simp add: evidence_of_def)

lemma mention_of_evidence [simp]: "me_evidence (mention_of doc c) = evidence_of (doc_id doc) (doc_text doc) (fo_span c)"
    "me_type (mention_of doc c) = fo_type c" "me_text (mention_of doc c) = fo_text c"
    "me_confidence (mention_of doc c) = fo_confidence c"
  by (simp_all add: mention_of_def Let_def)

text \<open>C10. Mentions are what they claim to be: in the order of the text and not overlapping, each with
  evidence whose offsets and hash describe a part of the text that the pattern of its type
  matches, and with that part, stripped, as its text.\<close>

theorem mentions_sound:
  "sorted_wrt (\<lambda>m n. ev_end (me_evidence m) \<le> ev_start (me_evidence n)) (extract_mentions doc)
   \<and> list_all (\<lambda>m. evidence_ok doc (me_evidence m)
       \<and> me_text m = strip (text_at (doc_text doc) (evidence_span (me_evidence m)))
       \<and> list_ex (\<lambda>(ty, pattern, confidence). ty = me_type m \<and> confidence = me_confidence m
           \<and> matches (doc_text doc) pattern (ev_start (me_evidence m)) (ev_end (me_evidence m))) PATTERNS)
     (extract_mentions doc)"
proof
  show "sorted_wrt (\<lambda>m n. ev_end (me_evidence m) \<le> ev_start (me_evidence n)) (extract_mentions doc)"
    using accepted_ordered by (simp add: extract_mentions_accepted sorted_wrt_map)
next
  have "evidence_ok doc (me_evidence (mention_of doc c))
       \<and> fo_text c = strip (text_at (doc_text doc) (fo_span c))
       \<and> (\<exists>pattern. (fo_type c, pattern, fo_confidence c) \<in> set PATTERNS
           \<and> matches (doc_text doc) pattern (fst (fo_span c)) (snd (fo_span c)))"
    if "c \<in> set (accepted_candidates doc)" for c
  proof -
    note c = accepted_found [OF that]
    from c obtain pattern where "(fo_type c, pattern, fo_confidence c) \<in> set PATTERNS"
      "fo_span c \<in> set (finditer pattern (doc_text doc))" "fo_text c = strip (text_at (doc_text doc) (fo_span c))"
      by (rule find_candidatesD)
    then show ?thesis using candidate_bounds [OF c] finditer_matches [of "fst (fo_span c)" "snd (fo_span c)"]
      by (auto simp: evidence_of_ok)
  qed
  then show "list_all (\<lambda>m. evidence_ok doc (me_evidence m)
       \<and> me_text m = strip (text_at (doc_text doc) (evidence_span (me_evidence m)))
       \<and> list_ex (\<lambda>(ty, pattern, confidence). ty = me_type m \<and> confidence = me_confidence m
           \<and> matches (doc_text doc) pattern (ev_start (me_evidence m)) (ev_end (me_evidence m))) PATTERNS)
     (extract_mentions doc)"
    by (fastforce simp: extract_mentions_accepted list_all_iff list_ex_iff)
qed

lemma patterns_consuming: "(ty, pattern, confidence) \<in> set PATTERNS \<Longrightarrow> consuming pattern"
proof -
  have "list_all (\<lambda>p. consuming (fst (snd p))) PATTERNS" by code_simp
  then show "(ty, pattern, confidence) \<in> set PATTERNS \<Longrightarrow> consuming pattern" by (fastforce simp: list_all_iff)
qed

lemma candidate_listed:
  assumes "(ty, pattern, confidence) \<in> set PATTERNS" and "p \<in> set (finditer pattern text)"
  shows "\<lparr>fo_span = p, fo_type = ty, fo_text = strip (text_at text p), fo_confidence = confidence\<rparr> \<in> set (find_candidates text)"
  unfolding find_candidates_def set_concat set_map
  by (rule UN_I [OF imageI [OF assms(1)]]) (use assms(2) in simp)

text \<open>An accepted mention is preferred to a span with a confidence: it begins earlier, or at the same
  place and reaches further, or it is the same span with at least that confidence.\<close>

definition preferred :: "mention \<Rightarrow> nat \<times> nat \<Rightarrow> pyfloat \<Rightarrow> bool" where
  "preferred m p confidence \<longleftrightarrow> ev_start (me_evidence m) < fst p
     \<or> ev_start (me_evidence m) = fst p \<and> (snd p < ev_end (me_evidence m)
          \<or> ev_end (me_evidence m) = snd p \<and> fl_val confidence \<le> fl_val (me_confidence m))"

lemma preferred_key:
  assumes "candidate_key d \<le> candidate_key c" and "fst (fo_span c) < snd (fo_span c)" and "fst (fo_span d) < snd (fo_span d)"
  shows "preferred (mention_of doc d) (fo_span c) (fo_confidence c)"
proof -
  have "(of_nat (fst (fo_span d)) :: rat) < of_nat (fst (fo_span c)) \<or> fst (fo_span d) = fst (fo_span c)
      \<and> ((of_nat (snd (fo_span c) - fst (fo_span c)) :: rat) < of_nat (snd (fo_span d) - fst (fo_span d))
         \<or> snd (fo_span d) - fst (fo_span d) = snd (fo_span c) - fst (fo_span c) \<and> fl_val (fo_confidence c) \<le> fl_val (fo_confidence d))"
    using assms(1) by (auto simp: candidate_key_def)
  then show ?thesis using assms(2,3) by (auto simp: preferred_def)
qed

text \<open>C17. No mention is lost but to a better one: wherever the pattern of a type matches, a span of that
  pattern around the place is a mention or overlaps an accepted mention that is preferred to it,
  because it begins earlier, or begins there and is longer, or has the same span and at least its
  confidence.\<close>

theorem mentions_complete:
  assumes "(ty, pattern, confidence) \<in> set PATTERNS" and "matches (doc_text doc) pattern j k"
    and "j < length (doc_text doc)"
  shows "\<exists>a b m. matches (doc_text doc) pattern a b \<and> a \<le> j \<and> j < b \<and> m \<in> set (extract_mentions doc)
    \<and> overlaps (a, b) (evidence_span (me_evidence m)) \<and> preferred m (a, b) confidence"
proof -
  obtain a b where ab: "(a, b) \<in> set (finditer pattern (doc_text doc))" "a \<le> j" "j < b"
    using finditer_complete [OF assms(2) patterns_consuming [OF assms(1)] assms(3)] by blast
  let ?c = "\<lparr>fo_span = (a, b), fo_type = ty, fo_text = strip (text_at (doc_text doc) (a, b)), fo_confidence = confidence\<rparr>"
  have c: "?c \<in> set (sort_key candidate_key (find_candidates (doc_text doc)))"
    using candidate_listed [OF assms(1) ab(1)] by simp
  have self: "overlaps (fo_span ?c) (fo_span ?c)" using ab by (simp add: overlaps_def)
  have "sorted_wrt (\<lambda>c d. candidate_key c \<le> candidate_key d) (sort_key candidate_key (find_candidates (doc_text doc)))"
    using sorted_sort_key [of candidate_key "find_candidates (doc_text doc)"] by (simp add: sorted_map)
  from accept_complete_before [OF c self this order_refl, of "[]"] obtain d where
    d: "d \<in> set (accepted_candidates doc)" "overlaps (a, b) (fo_span d)" "candidate_key d \<le> candidate_key ?c"
    by (auto simp: accepted_candidates_def)
  have "preferred (mention_of doc d) (a, b) confidence"
    using preferred_key [OF d(3), of doc] candidate_bounds [OF accepted_found [OF d(1)]] ab by simp
  moreover have "mention_of doc d \<in> set (extract_mentions doc)"
    "overlaps (a, b) (evidence_span (me_evidence (mention_of doc d)))"
    using d(1,2) by (simp_all add: extract_mentions_accepted)
  ultimately show ?thesis using ab(2,3) finditer_matches [OF ab(1)] by blast
qed

definition sample_document :: document where
  "sample_document = \<lparr>doc_id = ''d1'', doc_text = ''Foo Labs in Berlin said so.'', doc_language = None\<rparr>"

theorem mentions_complete_witness:
  "\<exists>a b m. matches (doc_text sample_document) LOCATION a b \<and> a \<le> 12 \<and> 12 < b \<and> m \<in> set (extract_mentions sample_document)
    \<and> overlaps (a, b) (evidence_span (me_evidence m)) \<and> preferred m (a, b) (fl_round (97 / 100))"
proof (rule mentions_complete [where ty = "''Location''" and k = 18])
  show "(''Location'', LOCATION, fl_round (97 / 100)) \<in> set PATTERNS" unfolding PATTERNS_def list.set by blast
  have "List.member (ends (doc_text sample_document) LOCATION 12) 18" by code_simp
  then show "matches (doc_text sample_document) LOCATION 12 18" by (simp only: ends_matches List.member_iff)
  show "12 < length (doc_text sample_document)" by code_simp
qed

section \<open>Claims\<close>

lemma terminator_lower: "is_terminator c \<Longrightarrow> lower_char c = c"
  by (auto simp: is_terminator_def lower_char_def Let_def ord_c_def)

lemma any_case_span:
  "matches s (any_case w) i j \<Longrightarrow> list_all (\<lambda>c. \<not> is_terminator c) w \<Longrightarrow> i \<le> k \<Longrightarrow> k < j \<Longrightarrow> \<not> is_terminator (s ! k)"
proof (induction w arbitrary: i)
  case (Cons c w)
  have first: "\<not> is_terminator (s ! i)" if "lower_char (s ! i) = c"
    using terminator_lower [of "s ! i"] that Cons.prems(2) by auto
  show ?case
  proof (cases "w = []")
    case True
    then show ?thesis using Cons.prems first by (auto simp: less_Suc_eq)
  next
    case False
    then have "lower_char (s ! i) = c" "matches s (any_case w) (Suc i) j" using Cons.prems(1) by auto
    then show ?thesis using first Cons.IH [of "Suc i"] Cons.prems by (cases "k = i") auto
  qed
qed auto

lemma up_to_one_span: "matches s (optional a) i j \<longleftrightarrow> j = i \<or> matches s a i j"
  by (auto simp: optional_def)

text \<open>Between two positions no sentence ends.\<close>

definition runs_on :: "string \<Rightarrow> nat \<Rightarrow> nat \<Rightarrow> bool" where
  "runs_on s i j = (\<forall>k. i \<le> k \<and> k < j \<longrightarrow> \<not> is_terminator (s ! k))"

lemma runs_on_trans: "runs_on s i j \<Longrightarrow> runs_on s j k \<Longrightarrow> runs_on s i k"
  unfolding runs_on_def by (metis not_le)

lemma runs_on_refl: "runs_on s i i"
  by (auto simp: runs_on_def)

lemma any_case_runs_on: "matches s (any_case w) i j \<Longrightarrow> list_all (\<lambda>c. \<not> is_terminator c) w \<Longrightarrow> runs_on s i j"
  by (auto simp: runs_on_def dest: any_case_span)

lemma then_optional_runs_on:
  assumes "matches s (Then (any_case v) (optional (any_case w))) i j"
    and "list_all (\<lambda>c. \<not> is_terminator c) v" and "list_all (\<lambda>c. \<not> is_terminator c) w"
  shows "runs_on s i j"
proof -
  obtain k where k: "matches s (any_case v) i k" "j = k \<or> matches s (any_case w) k j"
    using assms(1) unfolding matches_simps(3) up_to_one_span by blast
  have "runs_on s i k" "runs_on s k j"
    using any_case_runs_on [OF k(1) assms(2)] k(2) any_case_runs_on [OF _ assms(3)] runs_on_refl by blast+
  then show ?thesis by (rule runs_on_trans)
qed

lemma claim_verb_runs_on:
  assumes "matches s (one_of CLAIM_VERBS) i j"
  shows "runs_on s i j"
  using assms unfolding CLAIM_VERBS_def one_of.simps matches_simps(4)
  by (elim disjE) ((rule then_optional_runs_on, assumption, code_simp, code_simp) | (rule any_case_runs_on, assumption, code_simp))+

lemma claim_span:
  assumes "matches s CLAIM a b"
  shows "a < b \<and> runs_on s a (b - 1) \<and> is_terminator (s ! (b - 1))"
proof -
  let ?n = "\<lambda>c. \<not> is_terminator c"
  obtain i j k where m: "matches s (Star_Class ?n) a i" "matches s (one_of CLAIM_VERBS) i j"
      "matches s (Star_Class ?n) j k" "matches s (Class is_terminator) k b"
    using assms by (auto simp: CLAIM_def simp del: matches_simps(2,4))
  have star: "runs_on s i j" if "matches s (Star_Class ?n) i j" for i j
    using that by (auto simp: runs_on_def)
  have "runs_on s a k" using star [OF m(1)] claim_verb_runs_on [OF m(2)] star [OF m(3)] runs_on_trans by blast
  moreover have "a \<le> k" using matches_bounds [OF m(1)] matches_bounds [OF m(2)] matches_bounds [OF m(3)] by linarith
  ultimately show ?thesis using m(4) by auto
qed

lemma claim_of_fields [simp]:
  "cl_evidence (claim_of doc p) = evidence_of (doc_id doc) (doc_text doc) p"
  "cl_id (claim_of doc p) = ''claim:'' @ take 24 (sha256_hex (text_at (doc_text doc) p))"
  by (simp_all add: claim_of_def Let_def) (simp add: evidence_of_def)

lemma spans_from_sorted: "spans_from i n ps \<Longrightarrow> sorted_wrt (\<lambda>p q. snd p \<le> fst q) ps"
  using spans_from_apart by (simp add: sorted_wrt_iff_nth_less)

text \<open>What the evidence of a claim is: text that ends with the end of a sentence and has none
  before.\<close>

definition sentence_evidence :: "document \<Rightarrow> evidence \<Rightarrow> bool" where
  "sentence_evidence doc ev \<longleftrightarrow> evidence_ok doc ev \<and> runs_on (doc_text doc) (ev_start ev) (ev_end ev - 1)
     \<and> is_terminator (doc_text doc ! (ev_end ev - 1))"

text \<open>Claims are whole ends of sentences, in the order of the text and not overlapping: the
  evidence of each ends with the mark that ends a sentence and contains no other, its hash is
  that of exactly this text, and the claim's identifier is made from the hash.\<close>

theorem claims_sound:
  "sorted_wrt (\<lambda>c d. ev_end (cl_evidence c) \<le> ev_start (cl_evidence d)) (extract_claims doc)
   \<and> list_all (\<lambda>c. sentence_evidence doc (cl_evidence c)
       \<and> cl_id c = ''claim:'' @ take 24 (ev_span_hash (cl_evidence c))) (extract_claims doc)"
proof
  show "sorted_wrt (\<lambda>c d. ev_end (cl_evidence c) \<le> ev_start (cl_evidence d)) (extract_claims doc)"
    using spans_from_sorted [OF finditer_spans] by (simp add: extract_claims_def sorted_wrt_map)
  have "sentence_evidence doc (cl_evidence (claim_of doc (a, b)))" if "(a, b) \<in> set (finditer CLAIM (doc_text doc))" for a b
    using claim_span [OF finditer_matches [OF that]] finditer_bounds [OF that]
    by (simp add: sentence_evidence_def evidence_of_ok)
  then show "list_all (\<lambda>c. sentence_evidence doc (cl_evidence c)
       \<and> cl_id c = ''claim:'' @ take 24 (ev_span_hash (cl_evidence c))) (extract_claims doc)"
    by (auto simp: extract_claims_def list_all_iff) (simp add: evidence_of_def)
qed

section \<open>Identifiers and relations\<close>

lemma of_digits_snoc: "of_digits (ds @ [d]) = 10 * of_digits ds + d"
  by (simp add: of_digits_def)

lemma digit_of_char: "0 \<le> d \<Longrightarrow> d < 10 \<Longrightarrow> digit_of (digit_char d) = d"
proof -
  assume "0 \<le> d" "d < 10"
  moreover have "list_all (\<lambda>d. digit_of (digit_char d) = d) [0..9]" by code_simp
  ultimately show ?thesis by (simp add: list_all_iff)
qed

lemma of_digits_show_pos: "0 \<le> n \<Longrightarrow> of_digits (map digit_of (show_pos n)) = n"
proof (induction n rule: show_pos.induct)
  case (1 n)
  show ?case
  proof (cases "n < 10")
    case True
    then show ?thesis using 1(2) digit_of_char [of n] by (subst show_pos.simps) (simp add: of_digits_def)
  next
    case False
    then show ?thesis using 1 digit_of_char [of "n mod 10"] by (subst show_pos.simps) (simp add: of_digits_snoc)
  qed
qed

lemma show_nat_inj: "show_nat m = show_nat n \<longleftrightarrow> m = n"
  by (metis of_digits_show_pos of_nat_0_le_iff of_nat_eq_iff show_nat_def)

lemma show_nat_colon: "CHR '':'' \<notin> set (show_nat n)"
proof -
  have "\<not> is_digit (CHR '':'')" by code_simp
  then show ?thesis using show_pos_digits [of "int n"] unfolding show_nat_def by blast
qed

lemma colon_prefix: "a @ CHR '':'' # b = c @ CHR '':'' # d \<Longrightarrow> CHR '':'' \<notin> set a \<Longrightarrow> CHR '':'' \<notin> set c \<Longrightarrow> a = c"
  by (induction a arbitrary: c) (auto simp: Cons_eq_append_conv)

lemma mention_id_start:
  assumes "me_id (mention_of doc c) = me_id (mention_of doc d)"
  shows "fst (fo_span c) = fst (fo_span d)"
proof -
  have "show_nat (fst (fo_span c)) @ CHR '':'' # show_nat (snd (fo_span c))
      = show_nat (fst (fo_span d)) @ CHR '':'' # show_nat (snd (fo_span d))"
    using assms by (simp add: mention_of_def evidence_of_def Let_def)
  from colon_prefix [OF this show_nat_colon show_nat_colon] show ?thesis by (simp only: show_nat_inj)
qed

text \<open>A relation between two of the mentions \<open>ms\<close>, within the sentence that is its evidence.\<close>

definition relation_ok :: "document \<Rightarrow> mention list \<Rightarrow> relation \<Rightarrow> bool" where
  "relation_ok doc ms r \<longleftrightarrow> evidence_ok doc (re_evidence r) \<and>
     (\<exists>m\<in>set ms. \<exists>n\<in>set ms. me_id m = re_subject r \<and> me_id n = re_object r
       \<and> ev_start (re_evidence r) \<le> ev_start (me_evidence m) \<and> ev_end (me_evidence m) \<le> ev_start (me_evidence n)
       \<and> ev_end (me_evidence n) \<le> ev_end (re_evidence r))"

lemma distinct_sorted_wrt: "distinct xs \<longleftrightarrow> sorted_wrt (\<noteq>) xs"
  by (induction xs) auto

lemma mention_ids_distinct: "distinct (map me_id (extract_mentions doc))"
proof -
  have "sorted_wrt (\<lambda>c d. me_id (mention_of doc c) \<noteq> me_id (mention_of doc d)) (accepted_candidates doc)"
  proof (rule sorted_wrt_mono_rel [OF _ accepted_ordered])
    fix c d :: found
    assume "c \<in> set (accepted_candidates doc)" "snd (fo_span c) \<le> fst (fo_span d)"
    then have "fst (fo_span c) < fst (fo_span d)" using candidate_bounds [OF accepted_found] by fastforce
    then show "me_id (mention_of doc c) \<noteq> me_id (mention_of doc d)" using mention_id_start [of doc c d] by auto
  qed
  then have "sorted_wrt (\<noteq>) (map me_id (extract_mentions doc))"
    by (simp add: extract_mentions_accepted sorted_wrt_map)
  then show ?thesis by (simp only: distinct_sorted_wrt)
qed

lemma sentence_relation_ok:
  assumes r: "r \<in> set (sentence_relation doc (extract_mentions doc) (a, b))"
    and ab: "(a, b) \<in> set (finditer SENTENCE (doc_text doc))"
  shows "relation_ok doc (extract_mentions doc) r"
proof -
  let ?ms = "extract_mentions doc"
  obtain m n rest where f: "filter (in_span (a, b)) ?ms = m # n # rest"
    using r by (cases "filter (in_span (a, b)) ?ms"; cases "tl (filter (in_span (a, b)) ?ms)") (auto simp: sentence_relation_def)
  then obtain p where rr: "r = make_relation doc (a, b) m p n"
    using r by (auto simp: sentence_relation_def split: option.splits)
  have "sorted_wrt (\<lambda>m n. ev_end (me_evidence m) \<le> ev_start (me_evidence n)) ?ms"
    using accepted_ordered by (simp add: extract_mentions_accepted sorted_wrt_map)
  then have "sorted_wrt (\<lambda>m n. ev_end (me_evidence m) \<le> ev_start (me_evidence n)) (filter (in_span (a, b)) ?ms)"
    by (rule sorted_wrt_filter)
  then have o: "ev_end (me_evidence m) \<le> ev_start (me_evidence n)" using f by simp
  have "m \<in> set (filter (in_span (a, b)) ?ms)" "n \<in> set (filter (in_span (a, b)) ?ms)" using f by simp_all
  then have mn: "m \<in> set ?ms" "n \<in> set ?ms" "a \<le> ev_start (me_evidence m)" "ev_end (me_evidence n) \<le> b"
    by (simp_all add: in_span_def)
  have "evidence_ok doc (evidence_of (doc_id doc) (doc_text doc) (a, b))"
    using finditer_bounds [OF ab] by (intro evidence_of_ok) simp_all
  then show ?thesis unfolding relation_ok_def rr using mn o
    by (intro conjI bexI [OF _ mn(1)] bexI [OF _ mn(2)]) (simp_all add: make_relation_def Let_def)
qed

text \<open>C18. The identifiers of the mentions of a document are distinct, so that the worker's table of
  mentions by identifier loses none; and every relation refers to two of these mentions, the
  first before the second and both within the sentence that is its evidence.\<close>

theorem relations_refer:
  "distinct (map me_id (extract_mentions doc)) \<and>
   list_all (relation_ok doc (extract_mentions doc)) (extract_relations doc (extract_mentions doc))"
  using mention_ids_distinct sentence_relation_ok by (auto simp: extract_relations_def list_all_iff)

section \<open>Documents that fail, and topics\<close>

lemma dropWhile_space_cases:
  obtains "list_all is_space s" "dropWhile is_space s = []"
  | c r where "dropWhile is_space s = c # r" "\<not> list_all is_space s"
      "length (c # r) + (if is_space (hd s) then 1 else 0) \<le> length s"
proof (cases "dropWhile is_space s")
  case Nil
  then show ?thesis using that(1) by (auto simp: dropWhile_eq_Nil_conv list_all_iff)
next
  case (Cons c r)
  have "\<not> is_space c" using Cons by (metis hd_dropWhile list.discI list.sel(1))
  moreover have "c \<in> set s" using Cons by (metis list.set_intros(1) set_dropWhileD)
  moreover have "length (c # r) + (if is_space (hd s) then 1 else 0) \<le> length s"
    using Cons length_dropWhile_le [of is_space "tl s"] by (cases s) (auto split: if_splits)
  ultimately show ?thesis using that(2) [OF Cons] by (auto simp: list_all_iff)
qed

lemma split_ws_Nil: "split_ws [] = []"
  by (subst split_ws.simps) simp

lemma split_ws_clean: "(split_ws s = [] \<longleftrightarrow> list_all is_space s) \<and> (\<forall>w\<in>set (split_ws s). w \<noteq> [])
   \<and> length (join '' '' (split_ws s)) + (if s \<noteq> [] \<and> is_space (hd s) then 1 else 0) \<le> length s"
proof (induction s rule: split_ws.induct)
  case (1 s)
  show ?case
  proof (cases s rule: dropWhile_space_cases)
    case 1
    then have "split_ws s = []" by (subst split_ws.simps) (simp only: 1(2) list.case)
    then show ?thesis using 1 by (cases s) auto
  next
    case (2 c r)
    let ?w = "takeWhile (\<lambda>d. \<not> is_space d) r" and ?t = "dropWhile (\<lambda>d. \<not> is_space d) r"
    have u: "split_ws s = (c # ?w) # split_ws ?t" using 2 by (subst split_ws.simps) simp
    have IH: "\<forall>w\<in>set (split_ws ?t). w \<noteq> []" "split_ws ?t = [] \<longleftrightarrow> list_all is_space ?t"
      "length (join '' '' (split_ws ?t)) + (if ?t \<noteq> [] \<and> is_space (hd ?t) then 1 else 0) \<le> length ?t"
      using 1 [OF 2(1)] by simp_all
    have "length (join '' '' (split_ws ?t)) + 1 \<le> length ?t" if "split_ws ?t \<noteq> []"
    proof -
      have t: "?t \<noteq> []" using that by (rule contrapos_nn) (simp only: split_ws_Nil)
      then show ?thesis using IH(3) hd_dropWhile [OF t] by presburger
    qed
    moreover have "length ?w + length ?t = length r" by (metis length_append takeWhile_dropWhile_id)
    ultimately have "length (join '' '' (split_ws s)) \<le> length (c # r)" unfolding u by (cases "split_ws ?t = []") auto
    then show ?thesis using u IH(1) 2(2,3) by (auto split: if_splits)
  qed
qed

lemma clean_text_empty: "clean_text s = [] \<longleftrightarrow> list_all is_space s"
  using split_ws_clean [of s] by (cases "split_ws s") (auto simp: clean_text_def)

lemma clean_text_length: "length (clean_text s) \<le> length s"
  using split_ws_clean [of s] by (simp add: clean_text_def)

text \<open>A document within the limits of the request fails exactly when its text is blank: the
  request model accepts a text of blanks, but extracting normalises it to the empty text, which
  the document model then rejects inside the endpoint, where nothing turns the validation error
  into an answer to the client.\<close>

theorem extract_outcome:
  assumes "int (length (doc_text doc)) \<le> 2000000"
  shows "case extract_endpoint doc of Inr result \<Rightarrow> list_ex (\<lambda>c. \<not> is_space c) (doc_text doc)
     | Inl e \<Rightarrow> list_all is_space (doc_text doc) \<and> exn_cls e = ValidationError"
proof -
  have "int (length (clean_text (doc_text doc))) \<le> 2000000"
    using clean_text_length [of "doc_text doc"] assms by linarith
  then show ?thesis
    by (auto simp: extract_endpoint_def extract_all_def make_document_def opt_text_def Let_def clean_text_empty
        list_all_iff list_ex_iff split: option.split)
qed

theorem extract_outcome_witness:
  "\<exists>e. extract_endpoint \<lparr>doc_id = ''d1'', doc_text = ''   '', doc_language = None\<rparr> = Inl e
     \<and> exn_cls e = ValidationError"
  using extract_outcome [of "\<lparr>doc_id = ''d1'', doc_text = ''   '', doc_language = None\<rparr>"]
  by (cases "extract_endpoint \<lparr>doc_id = ''d1'', doc_text = ''   '', doc_language = None\<rparr>") (auto simp: is_space_code)

text \<open>Topics are found in the middle of words: a text in which anything is 'said' is classified as
  technology, because the keyword 'ai' is part of that word.\<close>

theorem said_is_technology:
  assumes "contains (casefold text) ''said''"
  shows "''technology'' \<in> set (classify_topics text)"
proof -
  have "contains (casefold text) ''ai''" using contains_part [of _ "''s''" "''ai''" "''d''"] assms by simp
  moreover have "\<exists>ks. (''technology'', ks) \<in> set TOPIC_KEYWORDS \<and> ''ai'' \<in> set ks"
    unfolding TOPIC_KEYWORDS_def by force
  ultimately have "\<exists>ks. (''technology'', ks) \<in> set TOPIC_KEYWORDS \<and> mentions_word (casefold text) ks"
    unfolding mentions_word_def by blast
  then show ?thesis by (force simp: classify_topics_def)
qed

theorem said_is_technology_witness: "''technology'' \<in> set (classify_topics ''The mayor said so.'')"
  by (rule said_is_technology) code_simp

end
