(* ===== verification/GraphProjector.thy ===== *)
theory GraphProjector
  imports PoisonMessage
begin

text \<open>
  \<open>services/graph-projector/worker.py\<close>: graph mutations become parameterised Cypher statements
  scoped to the tenant of the event.  The database is a service; its answers are arbitrary.
\<close>

section \<open>Tables\<close>

definition NODE_LABELS :: "(string \<times> string list) list" where
  "NODE_LABELS = [(''upsert_document'', [''Document'']), (''upsert_article'', [''Article'']),
     (''upsert_source'', [''Source'']), (''upsert_evidence'', [''Evidence'']), (''upsert_claim'', [''Claim''])]"

definition ENTITY_LABELS :: "(string \<times> string list) list" where
  "ENTITY_LABELS = [(''Company'', [''Entity'', ''Company'']), (''Organization'', [''Entity'', ''Organization'']),
     (''GovernmentAgency'', [''Entity'', ''GovernmentAgency'']), (''Person'', [''Entity'', ''Person'']),
     (''Location'', [''Entity'', ''Location''])]"

definition RELATIONSHIP_TYPES :: "(string \<times> string) list" where
  "RELATIONSHIP_TYPES = [(''link_published'', ''PUBLISHED''), (''link_article_document'', ''DERIVED_FROM''),
     (''link_mentions'', ''MENTIONS''), (''link_evidence_entity'', ''EVIDENCE_FOR''),
     (''link_evidence_claim'', ''EVIDENCE_FOR''), (''link_article_claim'', ''MAKES_CLAIM''),
     (''link_partnered_with'', ''PARTNERED_WITH''), (''link_acquired'', ''ACQUIRED''),
     (''link_invested_in'', ''INVESTED_IN''), (''link_competes_with'', ''COMPETES_WITH''),
     (''link_regulates'', ''REGULATES''), (''link_affects'', ''AFFECTS''), (''link_related_to'', ''RELATED_TO'')]"

definition GRAPH_INPUT_TOPIC :: string where "GRAPH_INPUT_TOPIC = ''graph.mutation-requested.v1''"
definition COMPLETED_TOPIC :: string where "COMPLETED_TOPIC = ''graph.mutation-completed.v1''"
definition GRAPH_DLQ_TOPIC :: string where "GRAPH_DLQ_TOPIC = GRAPH_INPUT_TOPIC @ ''.dlq''"

section \<open>Building a statement\<close>

record statement =
  st_query :: string
  st_parameters :: pydict

abbreviation permanent :: "string \<Rightarrow> 'a res" where
  "permanent m \<equiv> Inl (Exn PermanentMutationError m)"

definition nonblank :: "pyval \<Rightarrow> string option" where
  "nonblank v = (case v of PStr s \<Rightarrow> if strip s = [] then None else Some s | _ \<Rightarrow> None)"

definition required_string :: "pydict \<Rightarrow> string \<Rightarrow> string res" where
  "required_string payload key = (case nonblank (dict_get_or payload key PNone) of
     None \<Rightarrow> permanent (key @ '' must be a non-empty string'') | Some s \<Rightarrow> Inr s)"

definition mutation_properties :: "pydict \<Rightarrow> pydict res" where
  "mutation_properties payload = (case dict_get_or payload ''properties'' (PDict []) of
     PDict d \<Rightarrow> Inr d | _ \<Rightarrow> permanent ''properties must be an object'')"

definition event_tenant_id :: "pydict \<Rightarrow> string res" where
  "event_tenant_id event = (case nonblank (dict_get_or event ''tenant_id'' PNone) of
     None \<Rightarrow> permanent ''tenant_id must be a non-empty string'' | Some s \<Rightarrow> Inr s)"

definition quoted :: "string \<Rightarrow> string" where
  "quoted s = CHR 0x27 # s @ [CHR 0x27]"

definition takedown_query :: string where
  "takedown_query =
     ''MATCH (source:GraphNode {tenant_id: $tenant_id, stable_id: $stable_id}) ''
     @ ''SET source.takedown_status = '' @ quoted ''requested'' @ '', source += $properties ''
     @ ''WITH source ''
     @ ''OPTIONAL MATCH (article:GraphNode)-[:PUBLISHED]->(source) ''
     @ ''SET article.takedown_status = '' @ quoted ''source_requested'' @ '' ''
     @ ''RETURN source.stable_id AS stable_id''"

definition node_query :: "string list \<Rightarrow> string" where
  "node_query labels =
     ''MERGE (n:GraphNode {tenant_id: $tenant_id, stable_id: $stable_id}) ''
     @ join '' '' (map (\<lambda>label. ''SET n:'' @ label) labels) @ '' ''
     @ ''SET n += $properties ''
     @ ''RETURN n.stable_id AS stable_id''"

definition relationship_query :: "string \<Rightarrow> string" where
  "relationship_query relationship_type =
     ''MERGE (a:GraphNode {tenant_id: $tenant_id, stable_id: $from_id}) ''
     @ ''MERGE (b:GraphNode {tenant_id: $tenant_id, stable_id: $to_id}) ''
     @ ''MERGE (a)-[r:'' @ relationship_type @ '' {stable_id: $stable_id}]->(b) ''
     @ ''SET r += $properties ''
     @ ''RETURN r.stable_id AS stable_id''"

definition scoped_properties :: "pydict \<Rightarrow> string \<Rightarrow> pyval" where
  "scoped_properties properties tenant_id = PDict (dict_merge properties [(''tenant_id'', PStr tenant_id)])"

definition node_statement :: "string \<Rightarrow> string \<Rightarrow> pydict \<Rightarrow> string \<Rightarrow> statement" where
  "node_statement query stable_id properties tenant_id =
     \<lparr>st_query = query,
      st_parameters = [(''stable_id'', PStr stable_id), (''tenant_id'', PStr tenant_id),
        (''properties'', scoped_properties properties tenant_id)]\<rparr>"

definition relationship_statement ::
  "string \<Rightarrow> string \<Rightarrow> string \<Rightarrow> string \<Rightarrow> pydict \<Rightarrow> string \<Rightarrow> statement" where
  "relationship_statement relationship_type stable_id from_id to_id properties tenant_id =
     \<lparr>st_query = relationship_query relationship_type,
      st_parameters = [(''stable_id'', PStr stable_id), (''from_id'', PStr from_id), (''to_id'', PStr to_id),
        (''tenant_id'', PStr tenant_id), (''properties'', scoped_properties properties tenant_id)]\<rparr>"

text \<open>The labels of a node mutation: none means the mutation is not about a node.\<close>

definition mutation_labels :: "string \<Rightarrow> pydict \<Rightarrow> string list option res" where
  "mutation_labels mutation_type payload =
     (if mutation_type = ''upsert_entity'' then
        res_bind (required_string payload ''entity_type'') (\<lambda>entity_type.
          case map_of ENTITY_LABELS entity_type of
            None \<Rightarrow> permanent (''unsupported entity_type: '' @ entity_type)
          | Some labels \<Rightarrow> Inr (Some labels))
      else Inr (map_of NODE_LABELS mutation_type))"

text \<open>The statement for checked fields, by the kind of mutation.\<close>

definition mutation_statement :: "string \<Rightarrow> pydict \<Rightarrow> string \<Rightarrow> pydict \<Rightarrow> string \<Rightarrow> statement res" where
  "mutation_statement mutation_type payload stable_id properties tenant_id =
     (if mutation_type = ''mark_source_takedown''
      then Inr (node_statement takedown_query stable_id properties tenant_id)
      else res_bind (mutation_labels mutation_type payload) (\<lambda>labels. case labels of
          Some ls \<Rightarrow> Inr (node_statement (node_query ls) stable_id properties tenant_id)
        | None \<Rightarrow> (case map_of RELATIONSHIP_TYPES mutation_type of
            None \<Rightarrow> permanent (''unsupported mutation_type: '' @ mutation_type)
          | Some relationship_type \<Rightarrow>
              res_bind (required_string payload ''from_id'') (\<lambda>from_id.
              res_bind (required_string payload ''to_id'') (\<lambda>to_id.
                Inr (relationship_statement relationship_type stable_id from_id to_id properties tenant_id))))))"

definition build_statement :: "pydict \<Rightarrow> statement res" where
  "build_statement event = (case dict_get_or event ''payload'' PNone of
     PDict payload \<Rightarrow>
       res_bind (required_string payload ''mutation_type'') (\<lambda>mutation_type.
       res_bind (required_string payload ''stable_id'') (\<lambda>stable_id.
       res_bind (mutation_properties payload) (\<lambda>properties.
       res_bind (event_tenant_id event) (\<lambda>tenant_id.
         mutation_statement mutation_type payload stable_id properties tenant_id))))
   | _ \<Rightarrow> permanent ''event payload must be an object'')"

section \<open>The worker\<close>

definition decode_failure :: "exn_class \<Rightarrow> bool" where
  "decode_failure c = (c = TypeError \<or> c = UnicodeDecodeError \<or> c = JSONDecodeError)"

definition parse_event :: "bytes option \<Rightarrow> pydict eff" where
  "parse_event raw =
     eff_bind (eff_catch decode_failure (json_loads raw)
         (\<lambda>_. eff_lift (permanent ''event value must be valid JSON''))) (\<lambda>decoded.
       case decoded of PDict d \<Rightarrow> eff_return d
       | _ \<Rightarrow> eff_lift (permanent ''event value must be a JSON object''))"

definition completion_event :: "pydict \<Rightarrow> string \<Rightarrow> pydict eff" where
  "completion_event source stable_id =
     eff_bind now (\<lambda>t. eff_bind uuid4 (\<lambda>u. eff_return
       [(''event_id'', PStr u), (''event_type'', PStr COMPLETED_TOPIC), (''schema_version'', PInt 1),
        (''tenant_id'', dict_get_or source ''tenant_id'' PNone),
        (''occurred_at'', dict_get_or source ''occurred_at'' (PStr t)), (''ingested_at'', PStr t),
        (''correlation_id'', dict_get_or source ''correlation_id'' PNone),
        (''causation_id'', dict_get_or source ''event_id'' PNone), (''origin'', PStr ''graph-projector''),
        (''processing_stage'', PStr ''graph-write-completed''),
        (''idempotency_key'', PStr (COMPLETED_TOPIC @ '':'' @ stable_id)),
        (''payload'', PDict [(''stable_id'', PStr stable_id), (''status'', PStr ''applied'')])]))"

definition publish :: "string \<Rightarrow> string \<Rightarrow> pydict \<Rightarrow> unit eff" where
  "publish topic key event = produce topic (Some (utf8_encode key)) (Json (PDict event))"

definition execute_write :: "statement \<Rightarrow> pyval eff" where
  "execute_write st = call_service ''neo4j.execute_write''
     (PDict [(''query'', PStr (st_query st)), (''parameters'', PDict (st_parameters st))])"

text \<open>\<open>statement.parameters["stable_id"]\<close>, which every statement has as a text.\<close>

definition statement_stable_id :: "statement \<Rightarrow> string" where
  "statement_stable_id st = (case dict_get (st_parameters st) ''stable_id'' of Some (PStr s) \<Rightarrow> s | _ \<Rightarrow> [])"

definition graph_process :: "kafka_message \<Rightarrow> unit eff" where
  "graph_process message =
     eff_bind (parse_event (km_value message)) (\<lambda>source.
     eff_then (set_cell (PDict source))
     (eff_bind (eff_lift (build_statement source)) (\<lambda>st.
      eff_then (execute_write st)
      (eff_bind (completion_event source (statement_stable_id st)) (\<lambda>event.
       eff_then (publish COMPLETED_TOPIC (statement_stable_id st) event)
       (eff_then flush (eff_return ())))))))"

text \<open>\<open>state["source"] or {"event_id": "invalid", "payload": {}}\<close>\<close>

definition failed_source :: "pyval \<Rightarrow> pydict" where
  "failed_source cell = (case cell of PDict (kv # d) \<Rightarrow> kv # d
     | _ \<Rightarrow> [(''event_id'', PStr ''invalid''), (''payload'', PDict [])])"

definition graph_failed_event :: "pyval eff" where
  "graph_failed_event = eff_bind get_cell (\<lambda>c. eff_return (PDict (failed_source c)))"

definition graph_dlq_key :: "bytes option eff" where
  "graph_dlq_key = eff_bind get_cell (\<lambda>c.
     let source = failed_source c;
         payload = (case dict_get_or source ''payload'' (PDict []) of PDict d \<Rightarrow> d | _ \<Rightarrow> []);
         key = dict_get_or payload ''stable_id'' (dict_get_or source ''event_id'' (PStr ''invalid''))
     in eff_return (Some (utf8_encode (py_str key))))"

definition graph_handle :: "kafka_message \<Rightarrow> unit eff" where
  "graph_handle message =
     handle_message message GRAPH_DLQ_TOPIC (eff_then (set_cell PNone) (graph_process message))
       ''graph-projector'' (Some graph_failed_event) (Some graph_dlq_key)"

section \<open>Statements\<close>

named_theorems st_simps \<open>inversion of statement building\<close>

lemma required_string_Inr [st_simps]:
  "required_string d k = Inr s \<longleftrightarrow> dict_get d k = Some (PStr s) \<and> strip s \<noteq> []"
  by (auto simp: required_string_def nonblank_def dict_get_or_def split: option.splits pyval.splits if_splits)

lemma required_string_Inl: "required_string d k = Inl e \<Longrightarrow> exn_cls e = PermanentMutationError"
  by (auto simp: required_string_def split: option.splits)

lemma event_tenant_id_Inr [st_simps]:
  "event_tenant_id ev = Inr s \<longleftrightarrow> dict_get ev ''tenant_id'' = Some (PStr s) \<and> strip s \<noteq> []"
  by (auto simp: event_tenant_id_def nonblank_def dict_get_or_def split: option.splits pyval.splits if_splits)

lemma event_tenant_id_Inl: "event_tenant_id d = Inl e \<Longrightarrow> exn_cls e = PermanentMutationError"
  by (auto simp: event_tenant_id_def split: option.splits)

lemma mutation_properties_Inl: "mutation_properties d = Inl e \<Longrightarrow> exn_cls e = PermanentMutationError"
  by (auto simp: mutation_properties_def split: pyval.splits)

lemma mutation_labels_Inl: "mutation_labels t d = Inl e \<Longrightarrow> exn_cls e = PermanentMutationError"
  by (auto simp: mutation_labels_def res_simps dest: required_string_Inl split: if_splits option.splits)

lemma mutation_statement_Inl:
  "mutation_statement t d i ps n = Inl e \<Longrightarrow> exn_cls e = PermanentMutationError"
  by (auto simp: mutation_statement_def res_simps split: option.splits if_splits
      dest: required_string_Inl mutation_labels_Inl)

lemma build_statement_error:
  assumes "build_statement ev = Inl e"
  shows "exn_cls e = PermanentMutationError"
  using assms
  by (auto simp: build_statement_def res_simps split: pyval.splits
      dest: required_string_Inl event_tenant_id_Inl mutation_properties_Inl mutation_statement_Inl)

text \<open>The texts a statement can have.\<close>

definition ALLOWED_QUERIES :: "string list" where
  "ALLOWED_QUERIES = takedown_query # map node_query (map snd NODE_LABELS @ map snd ENTITY_LABELS)
     @ map relationship_query (map snd RELATIONSHIP_TYPES)"

lemma map_of_snd: "map_of xs k = Some v \<Longrightarrow> v \<in> set (map snd xs)"
  by (induction xs) (auto split: if_splits)

lemma mutation_labels_allowed:
  "mutation_labels t d = Inr (Some ls) \<Longrightarrow> ls \<in> set (map snd NODE_LABELS) \<or> ls \<in> set (map snd ENTITY_LABELS)"
  using map_of_snd [of ENTITY_LABELS] map_of_snd [of NODE_LABELS t ls]
  by (auto simp del: set_map simp: mutation_labels_def res_simps split: if_splits option.splits)

lemma node_query_allowed:
  "ls \<in> set (map snd NODE_LABELS) \<or> ls \<in> set (map snd ENTITY_LABELS) \<Longrightarrow> node_query ls \<in> set ALLOWED_QUERIES"
  unfolding ALLOWED_QUERIES_def by (auto simp only: set_append set_map list.set(2) image_Un)

lemma relationship_query_allowed:
  "t \<in> set (map snd RELATIONSHIP_TYPES) \<Longrightarrow> relationship_query t \<in> set ALLOWED_QUERIES"
  unfolding ALLOWED_QUERIES_def by (auto simp only: set_append set_map list.set(2))

lemma takedown_query_allowed: "takedown_query \<in> set ALLOWED_QUERIES"
  by (simp add: ALLOWED_QUERIES_def)

text \<open>A statement is about the tenant given, its text is one of the fixed ones.\<close>

definition statement_scoped :: "statement \<Rightarrow> string \<Rightarrow> string \<Rightarrow> bool" where
  "statement_scoped st tenant_id stable_id \<longleftrightarrow> st_query st \<in> set ALLOWED_QUERIES
     \<and> dict_get (st_parameters st) ''tenant_id'' = Some (PStr tenant_id)
     \<and> dict_get (st_parameters st) ''stable_id'' = Some (PStr stable_id)
     \<and> (\<exists>props. dict_get (st_parameters st) ''properties'' = Some (PDict props)
          \<and> dict_get props ''tenant_id'' = Some (PStr tenant_id))"

lemma node_statement_scoped:
  "q \<in> set ALLOWED_QUERIES \<Longrightarrow> statement_scoped (node_statement q i ps n) n i"
  by (simp add: statement_scoped_def node_statement_def scoped_properties_def)

lemma relationship_statement_scoped:
  "t \<in> set (map snd RELATIONSHIP_TYPES) \<Longrightarrow> statement_scoped (relationship_statement t i f g ps n) n i"
  using relationship_query_allowed
  by (simp add: statement_scoped_def relationship_statement_def scoped_properties_def)

lemma mutation_statement_scoped:
  assumes "mutation_statement t d i ps n = Inr st"
  shows "statement_scoped st n i"
proof (cases "t = ''mark_source_takedown''")
  case True
  then show ?thesis
    using assms node_statement_scoped [OF takedown_query_allowed] by (auto simp: mutation_statement_def)
next
  case False
  then obtain labels where l: "mutation_labels t d = Inr labels"
    using assms by (auto simp: mutation_statement_def res_simps)
  show ?thesis
  proof (cases labels)
    case (Some ls)
    then have "node_query ls \<in> set ALLOWED_QUERIES"
      using mutation_labels_allowed l node_query_allowed by blast
    moreover have "st = node_statement (node_query ls) i ps n"
      using assms False l Some by (simp add: mutation_statement_def)
    ultimately show ?thesis by (simp add: node_statement_scoped)
  next
    case None
    then obtain r where r: "map_of RELATIONSHIP_TYPES t = Some r"
      and st: "\<exists>f g. st = relationship_statement r i f g ps n"
      using assms False l by (auto simp: mutation_statement_def res_simps split: option.splits)
    from relationship_statement_scoped [OF map_of_snd [OF r]] st show ?thesis by blast
  qed
qed

lemma build_statementD:
  assumes "build_statement ev = Inr st"
  obtains payload mt stable_id properties tenant_id where
    "dict_get ev ''payload'' = Some (PDict payload)"
    "dict_get ev ''tenant_id'' = Some (PStr tenant_id)" "strip tenant_id \<noteq> []" "strip stable_id \<noteq> []"
    "mutation_statement mt payload stable_id properties tenant_id = Inr st"
  using assms
  by (auto simp: build_statement_def res_simps st_simps dict_get_or_def split: pyval.splits option.splits)


definition sample_mutation :: pydict where
  "sample_mutation = [(''tenant_id'', PStr ''tenant-a''),
     (''payload'', PDict [(''mutation_type'', PStr ''link_acquired''), (''stable_id'', PStr ''r1''),
        (''from_id'', PStr ''a''), (''to_id'', PStr ''b''),
        (''properties'', PDict [(''tenant_id'', PStr ''tenant-b''), (''confidence'', PInt 1)])])]"


section \<open>The worker never stalls on a message\<close>

lemma quiet_parse_event [quiet_intros]: "quiet (parse_event v)"
  unfolding parse_event_def by (auto intro!: quiet_intros split: pyval.splits)

lemma quiet_graph_process: "quiet (graph_process m)"
  unfolding graph_process_def completion_event_def publish_def execute_write_def
  by (intro quiet_intros)

lemma quiet_graph_failed_event: "quiet graph_failed_event"
  unfolding graph_failed_event_def by (intro quiet_intros)

lemma quiet_graph_dlq_key: "quiet graph_dlq_key"
  unfolding graph_dlq_key_def Let_def by (intro quiet_intros)

interpretation graph: worker
  "\<lambda>m. eff_then (set_cell PNone) (graph_process m)" "\<lambda>_. GRAPH_DLQ_TOPIC" "''graph-projector''"
  "Some graph_failed_event" "Some graph_dlq_key"
  by unfold_locales
    (auto simp: quiet_option_def intro: quiet_intros quiet_graph_process quiet_graph_failed_event quiet_graph_dlq_key)

text \<open>What can hold up a message: an exception of \<open>json.loads\<close> that is neither a \<open>TypeError\<close> nor a
  value error, or an answer of the database to the statement of the event that is no value error.\<close>

definition write_call :: "statement \<Rightarrow> pyval" where
  "write_call st = PDict [(''query'', PStr (st_query st)), (''parameters'', PDict (st_parameters st))]"

definition graph_blocked :: "env \<Rightarrow> kafka_message \<Rightarrow> exn \<Rightarrow> bool" where
  "graph_blocked env m e \<longleftrightarrow> \<not> is_value_error (exn_cls e) \<and>
     (env_json_loads env (km_value m) = Inl e \<and> exn_cls e \<noteq> TypeError
      \<or> (\<exists>source st n. env_json_loads env (km_value m) = Inr (PDict source) \<and> build_statement source = Inr st
           \<and> env_call env n ''neo4j.execute_write'' (write_call st) = Inl e))"

text \<open>What applying a message is: one write of the statement of the event that the database
  accepted, then the completion event of the mutation and a flush, and nothing else.\<close>

definition graph_applied :: "env \<Rightarrow> kafka_message \<Rightarrow> effect list \<Rightarrow> bool" where
  "graph_applied env m es \<longleftrightarrow> (\<exists>source st n answer k ev j x.
     env_json_loads env (km_value m) = Inr (PDict source) \<and> build_statement source = Inr st
     \<and> env_call env n ''neo4j.execute_write'' (write_call st) = Inr answer
     \<and> es = [Called ''neo4j.execute_write'' (write_call st), Produced COMPLETED_TOPIC k (Json (PDict ev)), Flushed j x])"

lemma parse_event_run:
  assumes "parse_event v w = (r, w')"
  shows "w' = w" and "\<And>d. r = Inr d \<Longrightarrow> env_json_loads (w_env w) v = Inr (PDict d)"
    and "\<And>e. r = Inl e \<Longrightarrow> is_value_error (exn_cls e) \<or> (env_json_loads (w_env w) v = Inl e \<and> exn_cls e \<noteq> TypeError)"
  using assms
  by (auto simp: parse_event_def eff_bind_def eff_catch_def decode_failure_def split: sum.splits pyval.splits prod.splits if_splits)

lemma completion_event_run:
  assumes "completion_event source i w = (r, w')"
  shows "w_env w' = w_env w \<and> w_log w' = w_log w \<and> (\<exists>ev. r = Inr ev)"
  using assms by (auto simp: completion_event_def eff_bind_def now_def uuid4_def eff_return_def)

lemma publish_run:
  assumes "publish t k ev w = (Inr u, w')"
  shows "w_env w' = w_env w \<and> w_log w' = w_log w @ [Produced t (Some (utf8_encode k)) (Json (PDict ev))]"
  using assms by (auto simp: publish_def produce_def split: option.splits)

lemma graph_process_applied:
  assumes "eff_then (set_cell PNone) (graph_process m) w = (Inr (), w')"
  obtains es where "w_log w' = w_log w @ es" and "graph_applied (w_env w) m es"
proof -
  let ?w = "w\<lparr>w_cell := PNone\<rparr>"
  obtain source w1 st where p: "parse_event (km_value m) ?w = (Inr source, w1)" and st: "build_statement source = Inr st"
    and run: "eff_then (execute_write st) (eff_bind (completion_event source (statement_stable_id st)) (\<lambda>event.
       eff_then (publish COMPLETED_TOPIC (statement_stable_id st) event) (eff_then flush (eff_return ()))))
       (w1\<lparr>w_cell := PDict source\<rparr>) = (Inr (), w')"
    using assms by (auto simp: graph_process_def eff_bind_Inr set_cell_def)
  from run obtain answer w2 ev w3 w4 where
    x: "execute_write st (w1\<lparr>w_cell := PDict source\<rparr>) = (Inr answer, w2)"
    and c: "completion_event source (statement_stable_id st) w2 = (Inr ev, w3)"
    and u: "publish COMPLETED_TOPIC (statement_stable_id st) ev w3 = (Inr (), w4)" and f: "w' = snd (flush w4)"
    by (auto simp: eff_bind_Inr split: prod.splits)
  note q = parse_event_run [OF p]
  obtain j y where "w_log w' = w_log w4 @ [Flushed j y]" using f by (auto simp: flush_def Let_def)
  moreover have "w_log w2 = w_log w @ [Called ''neo4j.execute_write'' (write_call st)]"
    and "\<exists>n. env_call (w_env w) n ''neo4j.execute_write'' (write_call st) = Inr answer"
    using x q(1) by (auto simp: execute_write_def call_service_def write_call_def)
  ultimately show thesis
    using that completion_event_run [OF c] publish_run [OF u] q(2) st by (fastforce simp: graph_applied_def)
qed

lemma raises_graph_process:
  assumes "broker_up env"
  shows "raises_only env (\<lambda>e. is_value_error (exn_cls e) \<or> graph_blocked env m e) (eff_then (set_cell PNone) (graph_process m))"
proof (rule raises_onlyI)
  fix w :: world and e
  let ?w = "w\<lparr>w_cell := PNone\<rparr>"
  assume w: "w_env w = env" and "fst (eff_then (set_cell PNone) (graph_process m) w) = Inl e"
  then obtain w' where run: "graph_process m ?w = (Inl e, w')"
    by (auto simp: eff_bind_def set_cell_def prod_eq_iff)
  obtain r w1 where p: "parse_event (km_value m) ?w = (r, w1)" by fastforce
  note q = parse_event_run [OF p]
  show "is_value_error (exn_cls e) \<or> graph_blocked env m e"
  proof (cases r)
    case (Inl x)
    then show ?thesis using run p q(3) w by (auto simp: graph_process_def eff_bind_def graph_blocked_def)
  next
    case (Inr source)
    show ?thesis
    proof (cases "build_statement source")
      case (Inl x)
      then have "x = e" using run p \<open>r = Inr source\<close> by (auto simp: graph_process_def eff_bind_def set_cell_def)
      then show ?thesis using build_statement_error [OF Inl] by simp
    next
      case st: (Inr st)
      let ?rest = "eff_bind (completion_event source (statement_stable_id st)) (\<lambda>event.
         eff_then (publish COMPLETED_TOPIC (statement_stable_id st) event) (eff_then flush (eff_return ())))"
      have x: "eff_then (execute_write st) ?rest (w1\<lparr>w_cell := PDict source\<rparr>) = (Inl e, w')"
        using run p \<open>r = Inr source\<close> st by (simp add: graph_process_def eff_bind_def set_cell_def)
      have env: "w_env w1 = env" using q(1) w by simp
      have "raises_only env (\<lambda>_. False) ?rest"
        unfolding completion_event_def publish_def using assms by (intro raises_intros quiet_intros)
      then have "fst (execute_write st (w1\<lparr>w_cell := PDict source\<rparr>)) = Inl e"
        using x env raises_onlyD [of env "\<lambda>_. False" ?rest "snd (execute_write st (w1\<lparr>w_cell := PDict source\<rparr>))" e w']
        by (cases "fst (execute_write st (w1\<lparr>w_cell := PDict source\<rparr>))")
          (simp_all add: eff_bind_def execute_write_def call_service_def)
      then show ?thesis
        using q(2) [OF Inr] w st env by (auto simp: graph_blocked_def execute_write_def call_service_def write_call_def)
    qed
  qed
qed

lemma graph_handle_eta:
  "graph_handle = (\<lambda>m. handle_message m GRAPH_DLQ_TOPIC (eff_then (set_cell PNone) (graph_process m))
      ''graph-projector'' (Some graph_failed_event) (Some graph_dlq_key))"
  by (simp add: graph_handle_def fun_eq_iff)


text \<open>A database that refuses a statement with a \<open>TypeError\<close>: the malformed message before it is
  committed, the refused one stays, with the exception of the database.\<close>

definition refusing_env :: env where
  "refusing_env = (calm_env (loads_one (PDict sample_mutation)))
     \<lparr>env_call := (\<lambda>_ _ _. Inl (Exn TypeError ''Property values can only be of primitive types''))\<rparr>"


text \<open>C6. At least once, and never silently lost: through any number of crashes and restarts,
  under any answers of broker and database, the graph projector commits the messages of a
  partition once each and in order.  Behind each commit stands one attempt at that message, made
  in a state the consumer reached with exactly the messages before it committed, whose entries
  directly precede the commit in the log: either the database accepted the statement of the event
  and the completion event was sent, or the processing raised a value error and a dead letter of
  this message for this error was confirmed by the broker.\<close>

theorem graph_commits_accounted:
  assumes "consumer_run graph_handle msgs (consumer_init env) s"
  shows "filter is_commit (w_log (cs_world s)) = map Committed (take (cs_next s) msgs) \<and>
    (\<forall>i<cs_next s. \<exists>t es rest. consumer_run graph_handle msgs (consumer_init env) t \<and> cs_next t = i
       \<and> w_log (cs_world s) = w_log (cs_world t) @ es @ Committed (msgs ! i) # rest
       \<and> (graph_applied env (msgs ! i) es
          \<or> (\<exists>e. fst (eff_then (set_cell PNone) (graph_process (msgs ! i)) (cs_world t)) = Inl e
               \<and> is_value_error (exn_cls e) \<and> dead_lettered GRAPH_DLQ_TOPIC (msgs ! i) e es)))"
    (is "_ \<and> (\<forall>i<_. ?behind i)")
proof -
  note safe = graph.run_safe [of msgs env s, folded graph_handle_eta, OF assms]
  have "?behind i" if "i < cs_next s" for i
  proof -
    have "graph.accounted msgs env s i" using safe that by blast
    then show ?thesis
    proof (cases rule: graph.accountedE [folded graph_handle_eta, consumes 1, case_names processed isolated])
      case (processed t w rest)
      from graph_process_applied [OF processed(4)] obtain es where
        "w_log w = w_log (cs_world t) @ es" "graph_applied (w_env (cs_world t)) (msgs ! i) es" .
      then show ?thesis using processed by (intro exI [of _ t] exI [of _ es] exI [of _ rest]) simp
    next
      case (isolated t e w es rest)
      obtain es0 where "w_log w = w_log (cs_world t) @ es0" using quietD [OF graph.process_quiet isolated(4)] .
      then show ?thesis using isolated dead_lettered_append [of _ _ _ es es0]
        by (intro exI [of _ t] exI [of _ "es0 @ es"] exI [of _ rest]) simp
    qed
  qed
  then show ?thesis using safe by blast
qed

text \<open>A batch of a malformed message and a good one.\<close>

lemma consumer_run_two:
  assumes "handle a (fresh_world env) = (Inr (), w1)" and "handle b w1 = (Inr (), w2)"
  shows "consumer_run handle [a, b] (consumer_init env) \<lparr>cs_next = 2, cs_world = w2\<rparr>"
proof -
  have "consumer_step handle [a, b] (consumer_init env) \<lparr>cs_next = Suc (cs_next (consumer_init env)), cs_world = w1\<rparr>"
    using assms(1) by (intro consumer_step.commits) (simp_all add: consumer_init_def)
  then have "consumer_run handle [a, b] (consumer_init env) \<lparr>cs_next = Suc 0, cs_world = w1\<rparr>"
    by (auto simp: consumer_init_def intro: consumer_run.intros)
  moreover have "consumer_step handle [a, b] \<lparr>cs_next = Suc 0, cs_world = w1\<rparr>
      \<lparr>cs_next = Suc (cs_next \<lparr>cs_next = Suc 0, cs_world = w1\<rparr>), cs_world = w2\<rparr>"
    using assms(2) by (intro consumer_step.commits) simp_all
  ultimately show ?thesis by (simp add: consumer_run.further numeral_2_eq_2)
qed

theorem graph_commits_accounted_witness:
  "\<exists>s (t :: consumer) es rest. consumer_run graph_handle [message_of GRAPH_INPUT_TOPIC [0], message_of GRAPH_INPUT_TOPIC [1]]
       (consumer_init (calm_env (loads_one (PDict sample_mutation)))) s \<and> cs_next s = 2 \<and> cs_next t = 1
     \<and> w_log (cs_world s) = w_log (cs_world t) @ es @ Committed (message_of GRAPH_INPUT_TOPIC [1]) # rest
     \<and> es \<noteq> []"
proof -
  let ?a = "message_of GRAPH_INPUT_TOPIC [0]" and ?b = "message_of GRAPH_INPUT_TOPIC [1]"
  let ?env = "calm_env (loads_one (PDict sample_mutation))"
  let ?w1 = "snd (graph_handle ?a (fresh_world ?env))"
  have "is_ok (fst (graph_handle ?a (fresh_world ?env)))" "is_ok (fst (graph_handle ?b ?w1))" by code_simp+
  then have "graph_handle ?a (fresh_world ?env) = (Inr (), ?w1)" "graph_handle ?b ?w1 = (Inr (), snd (graph_handle ?b ?w1))"
    by (simp_all add: is_ok_iff prod_eq_iff)
  note run = consumer_run_two [OF this]
  let ?s = "\<lparr>cs_next = 2, cs_world = snd (graph_handle ?b ?w1)\<rparr>"
  have "1 < cs_next ?s" by simp
  from conjunct2 [OF graph_commits_accounted [OF run], THEN spec, THEN mp, OF this] show ?thesis
  proof (elim exE conjE)
    fix t :: consumer and es rest
    assume t: "cs_next t = 1" "w_log (cs_world ?s) = w_log (cs_world t) @ es @ Committed ([?a, ?b] ! 1) # rest"
      and "graph_applied ?env ([?a, ?b] ! 1) es
       \<or> (\<exists>e. fst (eff_then (set_cell PNone) (graph_process ([?a, ?b] ! 1)) (cs_world t)) = Inl e
            \<and> is_value_error (exn_cls e) \<and> dead_lettered GRAPH_DLQ_TOPIC ([?a, ?b] ! 1) e es)"
    from this(3) have "es \<noteq> []" by (auto simp: graph_applied_def dead_lettered_def)
    then have "consumer_run graph_handle [?a, ?b] (consumer_init ?env) ?s \<and> cs_next ?s = 2 \<and> cs_next t = 1
       \<and> w_log (cs_world ?s) = w_log (cs_world t) @ es @ Committed ?b # rest \<and> es \<noteq> []"
      using run t by simp
    then show ?thesis by (intro exI)
  qed
qed

end
