(* ===== verification/GraphContract.thy ===== *)
theory GraphContract
  imports GraphProjector EntityResolution
begin

text \<open>
  The contract between the workers that request graph mutations and the graph projector: what
  they publish is accepted.  The locale \<open>graph_client\<close> states what a client's publishing
  function has to promise; the claim and entity workers are interpretations of it.
\<close>

section \<open>Accepted mutations\<close>

text \<open>A mutation that the projector turns into a statement, for any tenant.\<close>

definition accepted_mutation :: "pydict \<Rightarrow> bool" where
  "accepted_mutation m = is_ok (build_statement [(''tenant_id'', PStr ''t''), (''payload'', PDict m)])"

text \<open>A request in the log that the projector will not dead-letter.\<close>

definition request_accepted :: "effect \<Rightarrow> bool" where
  "request_accepted e = (case e of
     Produced topic k (Json (PDict ev)) \<Rightarrow> topic = GRAPH_INPUT_TOPIC \<longrightarrow> is_ok (build_statement ev)
   | Produced topic k _ \<Rightarrow> topic \<noteq> GRAPH_INPUT_TOPIC
   | _ \<Rightarrow> True)"

definition nonblank_text :: "string \<Rightarrow> bool" where
  "nonblank_text s = (\<exists>c\<in>set s. \<not> is_space c)"

lemma strip_nonblank: "strip s \<noteq> [] \<longleftrightarrow> nonblank_text s"
proof -
  have "strip s = [] \<longleftrightarrow> (\<forall>c\<in>set (lstrip s). is_space c)"
    by (simp add: strip_def rstrip_def dropWhile_eq_Nil_conv)
  also have "\<dots> \<longleftrightarrow> lstrip s = []"
    by (metis dropWhile_eq_Nil_conv dropWhile_idem lstrip_def)
  also have "\<dots> \<longleftrightarrow> (\<forall>c\<in>set s. is_space c)"
    by (simp add: lstrip_def dropWhile_eq_Nil_conv)
  finally show ?thesis by (auto simp: nonblank_text_def)
qed

lemma nonblank_append [simp]: "nonblank_text (a @ b) \<longleftrightarrow> nonblank_text a \<or> nonblank_text b"
  by (auto simp: nonblank_text_def)

lemma nonblank_Cons [simp]: "nonblank_text (c # s) \<longleftrightarrow> \<not> is_space c \<or> nonblank_text s"
  by (auto simp: nonblank_text_def)

lemma required_string_ok: "dict_get d k = Some (PStr s) \<Longrightarrow> nonblank_text s \<Longrightarrow> required_string d k = Inr s"
  by (simp add: required_string_Inr strip_nonblank)

lemma is_ok_bind: "is_ok (res_bind m f) \<longleftrightarrow> (\<exists>x. m = Inr x \<and> is_ok (f x))"
  by (cases m) auto

text \<open>When a mutation with checked fields becomes a statement; the tenant plays no part.\<close>

lemma mutation_statement_ok:
  "is_ok (mutation_statement mt d i ps n) \<longleftrightarrow>
     mt = ''mark_source_takedown'' \<or> (\<exists>ls. mutation_labels mt d = Inr (Some ls)) \<or>
     mutation_labels mt d = Inr None \<and> map_of RELATIONSHIP_TYPES mt \<noteq> None \<and>
       is_ok (required_string d ''from_id'') \<and> is_ok (required_string d ''to_id'')"
  by (cases "mt = ''mark_source_takedown''"; cases "mutation_labels mt d"; cases "map_of RELATIONSHIP_TYPES mt")
    (auto simp: mutation_statement_def is_ok_iff res_simps split: option.split)

lemma build_statement_ok:
  assumes "dict_get ev ''payload'' = Some (PDict m)"
  shows "is_ok (build_statement ev) \<longleftrightarrow> (\<exists>mt i ps t. required_string m ''mutation_type'' = Inr mt
    \<and> required_string m ''stable_id'' = Inr i \<and> mutation_properties m = Inr ps \<and> event_tenant_id ev = Inr t
    \<and> is_ok (mutation_statement mt m i ps t))"
  using assms by (auto simp: build_statement_def dict_get_or_def is_ok_bind)

lemma event_tenant_id_ok: "dict_get ev ''tenant_id'' = Some (PStr t) \<Longrightarrow> nonblank_text t \<Longrightarrow> event_tenant_id ev = Inr t"
  by (simp add: event_tenant_id_Inr strip_nonblank)

lemma build_statement_accepts:
  assumes "accepted_mutation m" and "dict_get ev ''payload'' = Some (PDict m)"
    and "dict_get ev ''tenant_id'' = Some (PStr t)" and "nonblank_text t"
  shows "is_ok (build_statement ev)"
  using assms(1) build_statement_ok [OF assms(2)] event_tenant_id_ok [OF assms(3,4)]
  by (auto simp: accepted_mutation_def build_statement_ok mutation_statement_ok)

text \<open>The shapes the workers build.\<close>

lemma accepted_by_labels:
  assumes "dict_get m ''mutation_type'' = Some (PStr mt)" "nonblank_text mt"
    and "dict_get m ''stable_id'' = Some (PStr i)" "nonblank_text i"
    and "dict_get m ''properties'' = Some (PDict ps)"
    and "is_ok (mutation_statement mt m i ps ''t'')"
  shows "accepted_mutation m"
proof -
  have "event_tenant_id [(''tenant_id'', PStr ''t''), (''payload'', PDict m)] = Inr ''t''"
    by (simp add: event_tenant_id_def nonblank_def dict_get_or_def strip_nonblank is_space_code)
  moreover have "mutation_properties m = Inr ps" using assms(5) by (simp add: mutation_properties_def dict_get_or_def)
  ultimately show ?thesis
    using assms required_string_ok by (auto simp: accepted_mutation_def build_statement_ok)
qed

lemma accepted_node:
  assumes "dict_get m ''mutation_type'' = Some (PStr mt)" and "map_of NODE_LABELS mt \<noteq> None"
    and "mt \<noteq> ''upsert_entity''" "nonblank_text mt"
    and "dict_get m ''stable_id'' = Some (PStr i)" "nonblank_text i"
    and "dict_get m ''properties'' = Some (PDict ps)"
  shows "accepted_mutation m"
  using assms by (intro accepted_by_labels [OF assms(1,4,5,6,7)]) (auto simp: mutation_statement_ok mutation_labels_def)

lemma accepted_entity:
  assumes "dict_get m ''mutation_type'' = Some (PStr ''upsert_entity'')"
    and "dict_get m ''entity_type'' = Some (PStr ty)" "map_of ENTITY_LABELS ty \<noteq> None" "nonblank_text ty"
    and "dict_get m ''stable_id'' = Some (PStr i)" "nonblank_text i"
    and "dict_get m ''properties'' = Some (PDict ps)"
  shows "accepted_mutation m"
  using assms required_string_ok [OF assms(2,4)]
  by (intro accepted_by_labels [OF assms(1) _ assms(5,6,7)])
    (auto simp: mutation_statement_ok mutation_labels_def is_space_code)

lemma accepted_link:
  assumes "dict_get m ''mutation_type'' = Some (PStr mt)" and "map_of RELATIONSHIP_TYPES mt \<noteq> None"
    and "mt \<noteq> ''upsert_entity''" "nonblank_text mt" "map_of NODE_LABELS mt = None"
    and "dict_get m ''stable_id'' = Some (PStr i)" "nonblank_text i"
    and "dict_get m ''from_id'' = Some (PStr f)" "nonblank_text f" "dict_get m ''to_id'' = Some (PStr g)" "nonblank_text g"
    and "dict_get m ''properties'' = Some (PDict ps)"
  shows "accepted_mutation m"
  using assms required_string_ok [OF assms(8,9)] required_string_ok [OF assms(10,11)]
  by (intro accepted_by_labels [OF assms(1,4,6,7,12)]) (auto simp: mutation_statement_ok mutation_labels_def)

text \<open>The same as rules that evaluate on the workers' own mutations.\<close>

lemma node_type_facts:
  assumes "mt \<in> set (map fst NODE_LABELS)"
  shows "map_of NODE_LABELS mt \<noteq> None" "mt \<noteq> ''upsert_entity''" "nonblank_text mt"
proof -
  have "list_all (\<lambda>t. map_of NODE_LABELS t \<noteq> None \<and> t \<noteq> ''upsert_entity'' \<and> nonblank_text t) (map fst NODE_LABELS)"
    by code_simp
  then show "map_of NODE_LABELS mt \<noteq> None" "mt \<noteq> ''upsert_entity''" "nonblank_text mt"
    using assms unfolding list_all_iff by blast+
qed

lemma link_type_facts:
  assumes "mt \<in> set (map fst RELATIONSHIP_TYPES)"
  shows "map_of RELATIONSHIP_TYPES mt \<noteq> None" "mt \<noteq> ''upsert_entity''" "nonblank_text mt" "map_of NODE_LABELS mt = None"
proof -
  have "list_all (\<lambda>t. map_of RELATIONSHIP_TYPES t \<noteq> None \<and> t \<noteq> ''upsert_entity'' \<and> nonblank_text t
      \<and> map_of NODE_LABELS t = None) (map fst RELATIONSHIP_TYPES)"
    by code_simp
  then show "map_of RELATIONSHIP_TYPES mt \<noteq> None" "mt \<noteq> ''upsert_entity''" "nonblank_text mt" "map_of NODE_LABELS mt = None"
    using assms unfolding list_all_iff by blast+
qed

lemma accepted_node_mutation:
  "mt \<in> set (map fst NODE_LABELS) \<Longrightarrow> nonblank_text i \<Longrightarrow>
   accepted_mutation [(''mutation_type'', PStr mt), (''stable_id'', PStr i), (''properties'', PDict ps)]"
  by (rule accepted_node [of _ mt i ps]) (simp_all add: node_type_facts del: set_map)

lemma accepted_entity_mutation:
  "map_of ENTITY_LABELS ty \<noteq> None \<Longrightarrow> nonblank_text ty \<Longrightarrow> nonblank_text i \<Longrightarrow>
   accepted_mutation [(''mutation_type'', PStr ''upsert_entity''), (''stable_id'', PStr i),
     (''entity_type'', PStr ty), (''properties'', PDict ps)]"
  by (rule accepted_entity [of _ ty i ps]) simp_all

lemma accepted_link_mutation:
  "mt \<in> set (map fst RELATIONSHIP_TYPES) \<Longrightarrow> nonblank_text i \<Longrightarrow> nonblank_text f \<Longrightarrow> nonblank_text g \<Longrightarrow>
   accepted_mutation (link_mutation mt i (PStr f) (PStr g) common d)"
  unfolding link_mutation_def
  by (rule accepted_link [of _ mt i f g]) (simp_all add: link_type_facts del: set_map)

lemmas accepted_rules = accepted_node_mutation accepted_entity_mutation accepted_link_mutation

lemma table_members:
  "''upsert_claim'' \<in> set (map fst NODE_LABELS)" "''upsert_evidence'' \<in> set (map fst NODE_LABELS)"
  "''upsert_document'' \<in> set (map fst NODE_LABELS)" "''upsert_article'' \<in> set (map fst NODE_LABELS)"
  "''upsert_source'' \<in> set (map fst NODE_LABELS)" "''link_article_claim'' \<in> set (map fst RELATIONSHIP_TYPES)"
  "''link_evidence_claim'' \<in> set (map fst RELATIONSHIP_TYPES)" "''link_mentions'' \<in> set (map fst RELATIONSHIP_TYPES)"
  "''link_evidence_entity'' \<in> set (map fst RELATIONSHIP_TYPES)" "''link_published'' \<in> set (map fst RELATIONSHIP_TYPES)"
  "''link_article_document'' \<in> set (map fst RELATIONSHIP_TYPES)"
  by code_simp+

section \<open>The interface\<close>

text \<open>A client publishes a keyed mutation for a source: only requests on the projector's topic
  that carry the mutation and the tenant of the source.\<close>

definition mutation_request :: "pyval option \<Rightarrow> pydict \<Rightarrow> effect \<Rightarrow> bool" where
  "mutation_request tenant m e = (case e of
     Produced topic k (Json (PDict ev)) \<Rightarrow>
       topic = GRAPH_INPUT_TOPIC \<and> dict_get ev ''payload'' = Some (PDict m) \<and> dict_get ev ''tenant_id'' = tenant
   | _ \<Rightarrow> False)"

locale graph_client =
  fixes publish_mutation :: "'s \<Rightarrow> pyval \<times> pydict \<Rightarrow> unit eff"
    and tenant_of :: "'s \<Rightarrow> pyval option"
  assumes publishes: "emits env (mutation_request (tenant_of source) (snd km)) (publish_mutation source km)"
begin

lemma published_accepted:
  assumes "tenant_of source = Some (PStr t)" and "nonblank_text t"
    and "\<forall>km\<in>set kms. accepted_mutation (snd km)"
  shows "emits env request_accepted (eff_iter (publish_mutation source) kms)"
proof (rule emits_iter)
  fix km
  assume "km \<in> set kms"
  then have "request_accepted e" if "mutation_request (tenant_of source) (snd km) e" for e
    using that assms build_statement_accepts [of "snd km" _ t]
    by (auto simp: mutation_request_def request_accepted_def split: effect.splits payload.splits pyval.splits)
  then show "emits env request_accepted (publish_mutation source km)"
    using publishes by (rule emits_weaken [rotated])
qed

end

definition source_tenant :: "pyval \<Rightarrow> pyval option" where
  "source_tenant source = (case field source ''tenant_id'' of Inr v \<Rightarrow> Some v | Inl _ \<Rightarrow> None)"

lemma worker_envelope_fields:
  assumes "worker_envelope origin ver source ty key payload stage w = (Inr ev, w')"
  shows "dict_get ev ''payload'' = Some payload \<and> dict_get ev ''tenant_id'' = source_tenant source"
  using assms by (auto simp: worker_envelope_def res_simps source_tenant_def eff_lift_def now_def uuid4_def)

lemma publish_event_request:
  assumes "dict_get ev ''payload'' = Some (PDict m)" and "dict_get ev ''tenant_id'' = tenant"
  shows "emits env (mutation_request tenant m) (publish_event ''graph.mutation-requested.v1'' key ev)"
  unfolding publish_event_def using assms
  by (intro emits_intros) (simp add: mutation_request_def GRAPH_INPUT_TOPIC_def)

lemma emits_envelope [emits_intros]: "emits env P (worker_envelope origin ver src ty k p st)"
  unfolding worker_envelope_def by (intro emits_intros)

lemma worker_publishes:
  "emits env (mutation_request (source_tenant source) (snd km))
     (eff_bind (worker_envelope origin ver source ty k (PDict (snd km)) stage)
       (publish_event ''graph.mutation-requested.v1'' (fst km)))"
  using worker_envelope_fields by (intro emits_bind_value emits_envelope publish_event_request) blast+

text \<open>The claim worker and the entity worker are clients.\<close>

interpretation claims: graph_client publish_claim_mutation source_tenant
  by unfold_locales (simp add: publish_claim_mutation_def claim_envelope_def worker_publishes)

interpretation entities: graph_client publish_entity_mutation source_tenant
  by unfold_locales (simp add: publish_entity_mutation_def entity_envelope_def worker_publishes)

section \<open>What the workers request is accepted\<close>

text \<open>A field that is a text with something in it.\<close>

definition text_field :: "pyval \<Rightarrow> string \<Rightarrow> bool" where
  "text_field v k = (case field v k of Inr (PStr s) \<Rightarrow> nonblank_text s | _ \<Rightarrow> False)"

lemma text_fieldE:
  assumes "text_field v k"
  obtains s where "field v k = Inr (PStr s)" and "nonblank_text s"
  using assms by (auto simp: text_field_def split: sum.splits pyval.splits)

lemma claim_mutations_accepted:
  assumes "claim_graph_mutations source payload cid nrm w = (Inr kms, w')"
    and "text_field payload ''claim_id''" and "\<And>ev. field payload ''evidence'' = Inr ev \<Longrightarrow> text_field ev ''evidence_id''"
  shows "\<forall>km\<in>set kms. accepted_mutation (snd km)"
proof -
  obtain c where c: "field payload ''claim_id'' = Inr (PStr c)" "nonblank_text c" using assms(2) by (rule text_fieldE)
  obtain ev where ev: "field payload ''evidence'' = Inr ev"
    using assms(1) by (auto simp: claim_graph_mutations_def res_simps eff_lift_def)
  obtain i where i: "field ev ''evidence_id'' = Inr (PStr i)" "nonblank_text i" using assms(3) [OF ev] by (rule text_fieldE)
  from assms(1) obtain m1 m2 aid common d e where kms: "kms = [m1, m2, (PStr (''article-claim:'' @ aid @ '':'' @ c),
       link_mutation ''link_article_claim'' (''article-claim:'' @ aid @ '':'' @ c) (PStr aid) (PStr c) common d),
     (PStr (''evidence-claim:'' @ i @ '':'' @ c), link_mutation ''link_evidence_claim'' (''evidence-claim:'' @ i @ '':'' @ c)
       (PStr i) (PStr c) common d)]" "aid = ''article:'' @ e"
    and m1: "\<exists>ps. snd m1 = [(''mutation_type'', PStr ''upsert_claim''), (''stable_id'', PStr c), (''properties'', PDict ps)]"
    and m2: "\<exists>ps. snd m2 = [(''mutation_type'', PStr ''upsert_evidence''), (''stable_id'', PStr i), (''properties'', PDict ps)]"
    by (auto simp: claim_graph_mutations_def res_simps c ev i eff_lift_def upsert_claim_mutation_def
        upsert_evidence_mutation_def Let_def py_str_def)
  show ?thesis
    using m1 m2 c(2) i(2) table_members(1,2,6,7)
    by (auto simp: kms is_space_code simp del: set_map intro!: accepted_rules)
qed

definition mention_ok :: "pyval \<Rightarrow> bool" where
  "mention_ok v \<longleftrightarrow>
     (case field v ''entity_type'' of Inr (PStr ty) \<Rightarrow> map_of ENTITY_LABELS ty \<noteq> None | _ \<Rightarrow> False) \<and>
     (case field v ''evidence'' of Inr ev \<Rightarrow> text_field ev ''evidence_id'' | _ \<Rightarrow> False)"

lemma mention_okE:
  assumes "mention_ok v"
  obtains ty ev where "field v ''entity_type'' = Inr (PStr ty)" "map_of ENTITY_LABELS ty \<noteq> None" "nonblank_text ty"
    "field v ''evidence'' = Inr ev" "text_field ev ''evidence_id''"
proof -
  have "list_all nonblank_text (map fst ENTITY_LABELS)" by code_simp
  then have "map_of ENTITY_LABELS ty \<noteq> None \<Longrightarrow> nonblank_text ty" for ty
    by (metis list_all_iff map_of_eq_None_iff set_map)
  then show thesis
    using assms that by (auto simp: mention_ok_def split: sum.splits pyval.splits)
qed

lemma alias_nonblank: "map_of DEFAULT_ALIASES k = Some e \<Longrightarrow> nonblank_text e"
proof -
  have "list_all nonblank_text (map snd DEFAULT_ALIASES)" by code_simp
  then show "map_of DEFAULT_ALIASES k = Some e \<Longrightarrow> nonblank_text e"
    using map_of_snd [of DEFAULT_ALIASES k e] unfolding list_all_iff by blast
qed

lemma decide_entity_nonblank:
  "decide_entity (resolve mid tx DEFAULT_ALIASES) ty tx cf = Inr (e, s, q) \<Longrightarrow> nonblank_text e"
  using alias_nonblank
  by (auto simp: decide_entity_def resolve_def res_simps is_space_code split: option.splits if_splits pyval.splits)

lemma entity_graph_events_accepted:
  assumes "resolve_mention payload = Inr r" and "mention_ok payload"
    and "entity_graph_events source (PDict r) w = (Inr kms, w')"
  shows "\<forall>km\<in>set kms. accepted_mutation (snd km)"
proof -
  obtain ty ev where ok: "field payload ''entity_type'' = Inr (PStr ty)" "map_of ENTITY_LABELS ty \<noteq> None" "nonblank_text ty"
    "field payload ''evidence'' = Inr ev" "text_field ev ''evidence_id''"
    using assms(2) by (rule mention_okE)
  obtain i where i: "field ev ''evidence_id'' = Inr (PStr i)" "nonblank_text i" using ok(5) by (rule text_fieldE)
  obtain mid tx cf e s q d where r: "dict_get r ''mention_id'' = Some (PStr mid)" "dict_get r ''entity_id'' = Some (PStr e)"
    "dict_get r ''entity_type'' = Some (PStr ty)" "dict_get r ''evidence'' = Some ev" "dict_get r ''document_id'' = Some d"
    and e: "nonblank_text e"
    by (rule resolve_mentionD [OF assms(1)]) (use ok(1,4) decide_entity_nonblank in force)
  from assms(3) obtain m1 m2 m3 m4 aid common d3 d4 where kms: "kms = [m1, m2, m3, m4]"
    and m1: "\<exists>ps. snd m1 = [(''mutation_type'', PStr ''upsert_entity''), (''stable_id'', PStr e),
       (''entity_type'', PStr ty), (''properties'', PDict ps)]"
    and m2: "\<exists>ps. snd m2 = [(''mutation_type'', PStr ''upsert_evidence''), (''stable_id'', PStr i), (''properties'', PDict ps)]"
    and m3: "snd m3 = link_mutation ''link_mentions'' (''mentions:'' @ mid) (PStr (''article:'' @ aid)) (PStr e) common d3"
    and m4: "snd m4 = link_mutation ''link_evidence_entity'' (''evidence-entity:'' @ i @ '':'' @ e) (PStr i) (PStr e) common d4"
    by (auto simp: entity_graph_events_def resolution_mutations_def upsert_entity_mutation_def
        upsert_evidence_mutation_def res_simps r i eff_lift_def Let_def py_str_def)
  show ?thesis
    using m1 m2 ok(2,3) i(2) e table_members(2,8,9)
    by (auto simp: kms m3 m4 is_space_code simp del: set_map intro!: accepted_rules)
qed

text \<open>The sides of a relation keep what matters of the mention.\<close>

lemma relation_side_ok:
  assumes "relation_side payload side = Inr v" and "field payload side = Inr u" and "mention_ok u"
  shows "mention_ok v"
proof -
  obtain d where u: "u = PDict d" using assms(3) by (cases u) (auto simp: mention_ok_def)
  obtain x y z where v: "v = PDict (dict_merge d [(''document_id'', x), (''extraction_model'', y), (''extraction_version'', z)])"
    using assms(1,2) by (auto simp: relation_side_def res_simps py_or_dict_def u)
  show ?thesis
    using assms(3) by (simp add: mention_ok_def u v dict_get_merge wf_dict_def)
qed

lemma relation_side_field: "relation_side payload side = Inr v \<Longrightarrow> \<exists>u. field payload side = Inr u"
  by (auto simp: relation_side_def res_simps)

lemma predicate_tables:
  "relation_mutation_type p \<in> set (map fst RELATIONSHIP_TYPES)"
proof -
  have "list_all (\<lambda>t. t \<in> set (map fst RELATIONSHIP_TYPES)) (''link_related_to'' # map snd PREDICATE_MUTATIONS)"
    by code_simp
  then show ?thesis
    using map_of_snd [of PREDICATE_MUTATIONS]
    by (auto simp: relation_mutation_type_def list_all_iff simp del: set_map split: pyval.splits option.splits)
qed

lemma resolved_entity_id:
  assumes "resolve_mention payload = Inr r" and "field (PDict r) ''entity_id'' = Inr v"
  shows "\<exists>e. v = PStr e \<and> nonblank_text e"
  by (rule resolve_mentionD [OF assms(1)]) (use assms(2) decide_entity_nonblank in auto)

lemma relation_events_accepted:
  assumes "relation_graph_events source payload w = (Inr kms, w')"
    and "text_field payload ''relationship_id''"
    and "\<And>u. field payload ''subject'' = Inr u \<Longrightarrow> mention_ok u" and "\<And>u. field payload ''object'' = Inr u \<Longrightarrow> mention_ok u"
  shows "\<forall>km\<in>set kms. accepted_mutation (snd km)"
proof -
  obtain i where i: "field payload ''relationship_id'' = Inr (PStr i)" "nonblank_text i" using assms(2) by (rule text_fieldE)
  from assms(1) obtain sp op' s t w1 w2 w3 es1 es2 common prd m where
    sides: "relation_side payload ''subject'' = Inr sp" "relation_side payload ''object'' = Inr op'"
    and r: "resolve_mention sp = Inr s" "resolve_mention op' = Inr t"
    and es: "entity_graph_events source (PDict s) w1 = (Inr es1, w2)" "entity_graph_events source (PDict t) w2 = (Inr es2, w3)"
    and m: "relation_mutation source payload (relation_mutation_type prd) (PStr i) s t common = Inr m"
    and kms: "kms = es1 @ es2 @ [(PStr i, m)]"
    by (auto simp: relation_graph_events_def res_simps eff_lift_def eff_return_def i(1))
  have ok: "mention_ok sp" "mention_ok op'"
    using sides assms(3,4) relation_side_ok relation_side_field by metis+
  from m obtain f g ps where "field (PDict s) ''entity_id'' = Inr f" "field (PDict t) ''entity_id'' = Inr g"
    and m': "m = link_mutation (relation_mutation_type prd) i f g common ps"
    by (auto simp: relation_mutation_def res_simps link_mutation_def)
  then have "accepted_mutation m"
    using resolved_entity_id [OF r(1)] resolved_entity_id [OF r(2)] accepted_link_mutation [OF predicate_tables i(2)] by blast
  then show ?thesis
    using entity_graph_events_accepted [OF r(1) ok(1) es(1)] entity_graph_events_accepted [OF r(2) ok(2) es(2)]
    by (auto simp: kms)
qed

section \<open>The workers' requests\<close>

definition claim_event_ok :: "pyval \<Rightarrow> bool" where
  "claim_event_ok source \<longleftrightarrow> text_field source ''tenant_id'' \<and>
     (case field source ''payload'' of Inr p \<Rightarrow> text_field p ''claim_id'' \<and>
        (case field p ''evidence'' of Inr ev \<Rightarrow> text_field ev ''evidence_id'' | _ \<Rightarrow> True) | _ \<Rightarrow> True)"

definition mention_side_ok :: "pyval \<Rightarrow> string \<Rightarrow> bool" where
  "mention_side_ok p side \<longleftrightarrow> (case field p side of Inr u \<Rightarrow> mention_ok u | _ \<Rightarrow> True)"

definition entity_event_ok :: "pyval \<Rightarrow> bool" where
  "entity_event_ok source \<longleftrightarrow> text_field source ''tenant_id'' \<and>
     (if field source ''event_type'' = Inr (PStr ''entity.mention-extracted.v1'') then mention_side_ok source ''payload''
      else (case field source ''payload'' of Inr p \<Rightarrow>
          text_field p ''relationship_id'' \<and> mention_side_ok p ''subject'' \<and> mention_side_ok p ''object'' | _ \<Rightarrow> True))"

lemma source_tenant_text:
  assumes "text_field source ''tenant_id''"
  obtains t where "source_tenant source = Some (PStr t)" and "nonblank_text t"
  using assms by (auto elim!: text_fieldE simp: source_tenant_def)

lemma emits_publish_event:
  "topic \<noteq> GRAPH_INPUT_TOPIC \<Longrightarrow> emits env request_accepted (publish_event topic key ev)"
  unfolding publish_event_def by (intro emits_intros) (simp add: request_accepted_def)

lemma emits_flush_accepted [emits_intros]: "emits env request_accepted flush"
  by (intro emits_intros) (simp add: request_accepted_def)

lemma other_topics: "''claim.clustered.v1'' \<noteq> GRAPH_INPUT_TOPIC" "''entity.resolved.v1'' \<noteq> GRAPH_INPUT_TOPIC"
  by (simp_all add: GRAPH_INPUT_TOPIC_def)

lemma emits_claim_process:
  assumes "env_json_loads env (km_value m) = Inr source" and "claim_event_ok source"
  shows "emits env request_accepted (claim_process m)"
proof -
  obtain t where t: "source_tenant source = Some (PStr t)" "nonblank_text t"
    using assms(2) by (auto simp: claim_event_ok_def elim: source_tenant_text)
  have "emits env request_accepted (eff_bind (claim_graph_mutations source payload c n) (\<lambda>kms.
      eff_then (eff_iter (publish_claim_mutation source) kms) (eff_then flush (eff_return ()))))"
    if "field source ''payload'' = Inr payload" for payload c n
  proof (rule emits_bind_value)
    show "emits env request_accepted (claim_graph_mutations source payload c n)"
      unfolding claim_graph_mutations_def common_properties_def Let_def by (intro emits_intros)
    fix kms w w'
    assume run: "claim_graph_mutations source payload c n w = (Inr kms, w')"
    have ok: "text_field payload ''claim_id''" "\<And>ev. field payload ''evidence'' = Inr ev \<Longrightarrow> text_field ev ''evidence_id''"
      using that assms(2) by (simp_all add: claim_event_ok_def)
    from claim_mutations_accepted [OF run ok] have "\<forall>km\<in>set kms. accepted_mutation (snd km)" .
    from claims.published_accepted [OF t this]
    show "emits env request_accepted (eff_then (eff_iter (publish_claim_mutation source) kms) (eff_then flush (eff_return ())))"
      by (intro emits_bind emits_flush_accepted emits_simple)
  qed
  then show ?thesis
    unfolding claim_process_def Let_def claim_envelope_def
    by (intro emits_decoded [OF _ assms(1)] emits_lift_bind emits_bind [OF emits_envelope]
        emits_bind [OF emits_publish_event [OF other_topics(1)]]) blast
qed

lemma emits_entity_process:
  assumes "env_json_loads env (km_value m) = Inr source" and "entity_event_ok source"
  shows "emits env request_accepted (entity_process m)"
proof -
  obtain t where t: "source_tenant source = Some (PStr t)" "nonblank_text t"
    using assms(2) by (auto simp: entity_event_ok_def elim: source_tenant_text)
  have quiet_events: "emits env request_accepted (entity_graph_events source r)" for r
    unfolding entity_graph_events_def common_properties_def by (intro emits_intros)
  let ?b = "\<lambda>ty. if ty = PStr ''entity.mention-extracted.v1'' then publish_resolution source
     else eff_bind (eff_lift (field source ''payload'')) (relation_graph_events source)"
  have b: "emits env request_accepted (?b ty)" for ty
    unfolding publish_resolution_def relation_graph_events_def common_properties_def entity_envelope_def
    by (intro emits_intros emits_envelope emits_publish_event quiet_events other_topics)
  have "\<forall>km\<in>set kms. accepted_mutation (snd km)"
    if ty: "field source ''event_type'' = Inr ty" and run: "?b ty w = (Inr kms, w')" for ty kms w w'
  proof (cases "ty = PStr ''entity.mention-extracted.v1''")
    case True
    then obtain p r w1 where p: "field source ''payload'' = Inr p" "resolve_mention p = Inr r"
      "entity_graph_events source (PDict r) w1 = (Inr kms, w')"
      using run by (auto simp: publish_resolution_def res_simps eff_lift_def)
    then show ?thesis
      using entity_graph_events_accepted [OF p(2) _ p(3)] assms(2) True ty
      by (simp add: entity_event_ok_def mention_side_ok_def)
  next
    case False
    then obtain p where p: "field source ''payload'' = Inr p" "relation_graph_events source p w = (Inr kms, w')"
      using run by (auto simp: res_simps eff_lift_def)
    have "text_field p ''relationship_id''" "\<And>u. field p ''subject'' = Inr u \<Longrightarrow> mention_ok u"
      "\<And>u. field p ''object'' = Inr u \<Longrightarrow> mention_ok u"
      using assms(2) False ty p(1) by (simp_all add: entity_event_ok_def mention_side_ok_def)
    from relation_events_accepted [OF p(2) this] show ?thesis .
  qed
  then have "emits env request_accepted (eff_bind (?b ty) (\<lambda>kms. eff_then (eff_iter (publish_entity_mutation source) kms)
      (eff_then flush (eff_return ()))))" if "field source ''event_type'' = Inr ty" for ty
    using that by (intro emits_bind_value [OF b] emits_bind [OF entities.published_accepted [OF t]]
        emits_bind [OF emits_flush_accepted] emits_simple) blast
  then show ?thesis
    unfolding entity_process_def
    by (intro emits_decoded [OF _ assms(1)] emits_lift_bind) blast
qed

text \<open>C7. The claim worker and the entity worker only request what the graph projector accepts:
  if the event names a tenant, its claims, relations and evidence have identifiers and its
  mentions have an entity type the projector knows, then every graph mutation that one message
  makes them publish, also when the processing fails half-way, is turned into a statement and
  never dead-lettered.\<close>

theorem graph_requests_accepted:
  assumes "env_json_loads (w_env w) (km_value m) = Inr source"
    and "claim_event_ok source \<and> run = claim_process m \<or> entity_event_ok source \<and> run = entity_process m"
  shows "\<exists>es. w_log (snd (run w)) = w_log w @ es \<and> (\<forall>e\<in>set es. request_accepted e)"
proof -
  have "emits (w_env w) request_accepted run"
    using assms(2) emits_claim_process [OF assms(1)] emits_entity_process [OF assms(1)] by blast
  then show ?thesis using emitsD [of "w_env w" request_accepted run w "fst (run w)" "snd (run w)"] by fastforce
qed

definition sample_mention_event :: pydict where
  "sample_mention_event = [(''event_type'', PStr ''entity.mention-extracted.v1''), (''event_id'', PStr ''e1''),
     (''tenant_id'', PStr ''tenant-a''), (''correlation_id'', PStr ''c1''), (''payload'', PDict sample_mention)]"

theorem graph_requests_accepted_witness:
  "let log = w_log (snd (entity_process (message_of ''entity.mention-extracted.v1'' [1])
       (fresh_world (calm_env (loads_one (PDict sample_mention_event))))))
   in length log = 6 \<and> (\<forall>e\<in>set log. request_accepted e)"
proof -
  let ?m = "message_of ''entity.mention-extracted.v1'' [1]"
  let ?w = "fresh_world (calm_env (loads_one (PDict sample_mention_event)))"
  have "env_json_loads (w_env ?w) (km_value ?m) = Inr (PDict sample_mention_event)"
    by (simp add: calm_env_def loads_one_def message_of_def)
  moreover have "entity_event_ok (PDict sample_mention_event)" by code_simp
  ultimately have "\<exists>es. w_log (snd (entity_process ?m ?w)) = w_log ?w @ es \<and> (\<forall>e\<in>set es. request_accepted e)"
    by (intro graph_requests_accepted) auto
  moreover have "length (w_log (snd (entity_process ?m ?w))) = 6" by code_simp
  ultimately show ?thesis by (simp add: Let_def)
qed

end
