(* ===== verification/NlpWorker.thy ===== *)
theory NlpWorker
  imports NlpExtract GraphContract Http
begin

text \<open>
  \<open>services/nlp-pipeline/worker.py\<close>: a requested document is read, extracted, and turned into graph
  mutations, mentions, claims, relations, a policy request and a completion event.  What is shown:
  every event it sends is one that its consumer accepts.
\<close>

definition NLP_INPUT_TOPIC :: string where "NLP_INPUT_TOPIC = ''document.nlp-requested.v1''"
definition NLP_DLQ_TOPIC :: string where "NLP_DLQ_TOPIC = NLP_INPUT_TOPIC @ ''.dlq''"
definition NLP_MAX_TEXT_BYTES :: int where "NLP_MAX_TEXT_BYTES = 5000000"

section \<open>Reading the text\<close>

definition read_object :: "string \<Rightarrow> string eff" where
  "read_object uri =
     eff_bind (urlparse uri) (\<lambda>(netloc, path).
     eff_bind (call_service ''s3.get_object'' (PDict [(''Bucket'', PStr netloc), (''Key'', PStr (lstrip_slash path)),
         (''Range'', PStr (''bytes=0-'' @ show_int NLP_MAX_TEXT_BYTES)), (''read'', PInt (NLP_MAX_TEXT_BYTES + 1))])) (\<lambda>response.
     let body = body_of response in
     eff_lift (if sb_length body > NLP_MAX_TEXT_BYTES then value_error ''clean text exceeds limit''
       else decode_body body)))"

definition nlp_load_text :: "pyval \<Rightarrow> string eff" where
  "nlp_load_text payload =
     eff_bind (eff_lift (get_field payload ''text'')) (\<lambda>inline. case inline of
       PStr s \<Rightarrow> eff_lift (if int (utf8_len s) > NLP_MAX_TEXT_BYTES then value_error ''inline text exceeds limit'' else Inr s)
     | _ \<Rightarrow> eff_bind (eff_lift (get_field payload ''clean_text_object_uri'')) (\<lambda>uri. case uri of
           PStr u \<Rightarrow> if startswith u ''s3://'' then read_object u
             else eff_lift (value_error ''missing clean text object URI'')
         | _ \<Rightarrow> eff_lift (value_error ''missing clean text object URI'')))"

section \<open>Events\<close>

text \<open>What all events of one document share.\<close>

record nlp_source =
  ns_tenant_id :: pyval
  ns_correlation_id :: pyval
  ns_causation_id :: pyval
  ns_occurred_at :: pyval

definition nlp_envelope :: "string \<Rightarrow> nlp_source \<Rightarrow> pyval \<Rightarrow> pydict \<Rightarrow> string \<Rightarrow> pydict eff" where
  "nlp_envelope event_type src key payload stage =
     eff_bind now (\<lambda>t. eff_bind uuid4 (\<lambda>u. eff_return
       [(''event_id'', PStr u), (''event_type'', PStr event_type), (''schema_version'', PInt 1),
        (''tenant_id'', ns_tenant_id src),
        (''occurred_at'', if truthy (ns_occurred_at src) then ns_occurred_at src else PStr t),
        (''ingested_at'', PStr t), (''correlation_id'', ns_correlation_id src),
        (''causation_id'', ns_causation_id src), (''origin'', PStr ''nlp-pipeline''),
        (''processing_stage'', PStr stage),
        (''idempotency_key'', PStr (event_type @ '':'' @ py_str key @ '':signalchord-rules:1.0.0'')),
        (''payload'', PDict payload)]))"

text \<open>Wrap and publish: the message key, and the key of the envelope.\<close>

definition send :: "string \<Rightarrow> nlp_source \<Rightarrow> pyval \<Rightarrow> pyval \<Rightarrow> pydict \<Rightarrow> string \<Rightarrow> unit eff" where
  "send topic src key envelope_key payload stage =
     eff_bind (nlp_envelope topic src envelope_key payload stage) (publish_event topic key)"

definition UNKNOWN_SOURCE :: pyval where "UNKNOWN_SOURCE = PStr ''source:unknown''"

definition node_mutation :: "string \<Rightarrow> pyval \<Rightarrow> pydict \<Rightarrow> pyval \<times> pydict" where
  "node_mutation mutation_type stable_id properties = (stable_id,
     [(''mutation_type'', PStr mutation_type), (''stable_id'', stable_id), (''properties'', PDict properties)])"

definition edge_mutation :: "string \<Rightarrow> string \<Rightarrow> pyval \<Rightarrow> pyval \<Rightarrow> pydict \<Rightarrow> pyval \<times> pydict" where
  "edge_mutation mutation_type stable_id from_id to_id properties = (PStr stable_id,
     [(''mutation_type'', PStr mutation_type), (''stable_id'', PStr stable_id), (''from_id'', from_id),
      (''to_id'', to_id), (''properties'', PDict properties)])"

definition nlp_common :: "pyval \<Rightarrow> extraction \<Rightarrow> string \<Rightarrow> pydict res" where
  "nlp_common source result t = res_dict
     [(''tenant_id'', field source ''tenant_id''), (''observed_at'', get_field source ''occurred_at''),
      (''created_at'', const (PStr t)), (''updated_at'', const (PStr t)),
      (''extraction_model'', const (PStr (ex_model result))), (''extraction_version'', const (PStr (ex_version result)))]"

definition document_properties :: "pyval \<Rightarrow> pydict res" where
  "document_properties payload = res_dict
     [(''status'', const (PStr ''model_verified'')), (''confidence'', const (PFloat (Fin 1))),
      (''canonical_url'', get_field payload ''canonical_url''), (''title'', get_field payload ''title''),
      (''clean_text_object_uri'', get_field payload ''clean_text_object_uri'')]"

definition article_properties :: "pyval \<Rightarrow> string \<Rightarrow> extraction \<Rightarrow> pydict res" where
  "article_properties payload document_id result = res_dict
     [(''document_id'', const (PStr document_id)), (''title'', get_field payload ''title''),
      (''canonical_url'', get_field payload ''canonical_url''), (''published_at'', get_field payload ''published_at''),
      (''language'', const (PStr (ex_language result))), (''topics'', const (PList (map PStr (ex_topics result)))),
      (''embedding'', const (PList (map PFloat (ex_embedding result)))), (''status'', const (PStr ''model_verified''))]"

definition graph_base_mutations :: "pyval \<Rightarrow> pyval \<Rightarrow> string \<Rightarrow> extraction \<Rightarrow> (pyval \<times> pydict) list eff" where
  "graph_base_mutations source payload document_id result =
     (let article_id = ''article:'' @ document_id in
      eff_bind now (\<lambda>t.
      eff_bind (eff_lift (nlp_common source result t)) (\<lambda>common.
      eff_bind (eff_lift (document_properties payload)) (\<lambda>document.
      eff_bind (eff_lift (article_properties payload document_id result)) (\<lambda>article.
      eff_bind (eff_lift (py_get payload ''source_id'' UNKNOWN_SOURCE)) (\<lambda>source_id. eff_return
        [node_mutation ''upsert_document'' (PStr document_id) (dict_merge common document),
         node_mutation ''upsert_article'' (PStr article_id) (dict_merge common article),
         node_mutation ''upsert_source'' source_id (dict_merge common [(''status'', PStr ''active'')]),
         edge_mutation ''link_published'' (''published:'' @ article_id @ '':'' @ py_str source_id)
           (PStr article_id) source_id common,
         edge_mutation ''link_article_document'' (''article-document:'' @ article_id @ '':'' @ document_id)
           (PStr article_id) (PStr document_id) common]))))))"

definition publish_base_mutation :: "nlp_source \<Rightarrow> pyval \<times> pydict \<Rightarrow> unit eff" where
  "publish_base_mutation src km =
     send ''graph.mutation-requested.v1'' src (fst km) (fst km) (snd km) ''graph-mutation-build''"

text \<open>\<open>model_dump(mode="json")\<close>\<close>

definition evidence_dump :: "evidence \<Rightarrow> pyval" where
  "evidence_dump ev = PDict [(''evidence_id'', PStr (ev_id ev)), (''document_id'', PStr (ev_document_id ev)),
     (''start_offset'', PInt (int (ev_start ev))), (''end_offset'', PInt (int (ev_end ev))),
     (''span_hash'', PStr (ev_span_hash ev))]"

definition mention_dump :: "mention \<Rightarrow> pydict" where
  "mention_dump m = [(''mention_id'', PStr (me_id m)), (''text'', PStr (me_text m)), (''entity_type'', PStr (me_type m)),
     (''confidence'', PFloat (me_confidence m)), (''evidence'', evidence_dump (me_evidence m))]"

definition claim_dump :: "claim \<Rightarrow> pydict" where
  "claim_dump c = [(''claim_id'', PStr (cl_id c)), (''proposition'', PStr (cl_proposition c)),
     (''stance'', PStr (cl_stance c)), (''confidence'', PFloat (cl_confidence c)),
     (''evidence'', evidence_dump (cl_evidence c))]"

definition relation_dump :: "relation \<Rightarrow> pydict" where
  "relation_dump r = [(''relationship_id'', PStr (re_id r)), (''subject_mention_id'', PStr (re_subject r)),
     (''predicate'', PStr (re_predicate r)), (''object_mention_id'', PStr (re_object r)),
     (''confidence'', PFloat (re_confidence r)), (''evidence'', evidence_dump (re_evidence r))]"

definition provenance :: "string \<Rightarrow> extraction \<Rightarrow> pydict" where
  "provenance document_id result = [(''document_id'', PStr document_id),
     (''extraction_model'', PStr (ex_model result)), (''extraction_version'', PStr (ex_version result))]"

definition publish_mention :: "nlp_source \<Rightarrow> string \<Rightarrow> extraction \<Rightarrow> mention \<Rightarrow> unit eff" where
  "publish_mention src document_id result m =
     send ''entity.mention-extracted.v1'' src (PStr document_id) (PStr (me_id m))
       (dict_merge (mention_dump m) (provenance document_id result)) ''entity-extraction''"

definition publish_claim :: "nlp_source \<Rightarrow> string \<Rightarrow> extraction \<Rightarrow> claim \<Rightarrow> unit eff" where
  "publish_claim src document_id result c =
     send ''claim.extracted.v1'' src (PStr (cl_id c)) (PStr (cl_id c))
       (dict_merge (claim_dump c) (provenance document_id result)) ''claim-extraction''"

text \<open>\<open>mention_by_id[i]\<close>: of equal keys the last mention counts.\<close>

definition mention_by_id :: "mention list \<Rightarrow> string \<Rightarrow> mention res" where
  "mention_by_id mentions i = (case map_of (rev (map (\<lambda>m. (me_id m, m)) mentions)) i of
     Some m \<Rightarrow> Inr m | None \<Rightarrow> Inl (Exn KeyError i))"

definition relation_payload :: "string \<Rightarrow> extraction \<Rightarrow> relation \<Rightarrow> pydict res" where
  "relation_payload document_id result r =
     res_bind (mention_by_id (ex_mentions result) (re_subject r)) (\<lambda>subject.
     res_bind (mention_by_id (ex_mentions result) (re_object r)) (\<lambda>obj.
       Inr (dict_merge (relation_dump r)
         [(''document_id'', PStr document_id), (''subject'', PDict (mention_dump subject)), (''object'', PDict (mention_dump obj)),
          (''extraction_model'', PStr (ex_model result)), (''extraction_version'', PStr (ex_version result))])))"

definition publish_relation :: "nlp_source \<Rightarrow> string \<Rightarrow> extraction \<Rightarrow> relation \<Rightarrow> unit eff" where
  "publish_relation src document_id result r =
     eff_bind (eff_lift (relation_payload document_id result r)) (\<lambda>payload.
       send ''relationship.extracted.v1'' src (PStr (re_id r)) (PStr (re_id r)) payload ''relation-extraction'')"

section \<open>The policy request\<close>

text \<open>\<open>min(1.0, 0.4 + len(result.mentions) * 0.15)\<close>\<close>

definition entity_relevance :: "nat \<Rightarrow> pyfloat res" where
  "entity_relevance n = res_bind (float_of_int (int n)) (\<lambda>f.
     Inr (fl_min (Fin 1) (fl_add (fl_round (4 / 10)) (fl_mul f (fl_round (15 / 100))))))"

definition policy_inputs :: "extraction \<Rightarrow> pydict res" where
  "policy_inputs result = res_bind (entity_relevance (length (ex_mentions result))) (\<lambda>relevance.
     Inr [(''source_trust'', PFloat (fl_round (75 / 100))), (''corroboration_count'', PInt 1),
       (''contradiction_count'', PInt 0), (''novelty'', PFloat (fl_round (8 / 10))),
       (''entity_relevance'', PFloat relevance), (''graph_centrality'', PFloat (fl_round (4 / 10))),
       (''geographic_relevance'', PFloat (fl_round
          (if \<exists>m\<in>set (ex_mentions result). me_type m = ''Location'' then 8 / 10 else 2 / 10))),
       (''watchlist_match'', PFloat (Fin
          (if \<exists>m\<in>set (ex_mentions result). contains (me_text m) ''Acme'' then 1 else 0))),
       (''recency'', PFloat (Fin 1)), (''source_diversity'', PFloat (fl_round (4 / 10)))])"

definition all_evidence_ids :: "extraction \<Rightarrow> pyval list" where
  "all_evidence_ids result =
     map (\<lambda>m. PStr (ev_id (me_evidence m))) (ex_mentions result)
     @ map (\<lambda>c. PStr (ev_id (cl_evidence c))) (ex_claims result)
     @ map (\<lambda>r. PStr (ev_id (re_evidence r))) (ex_relations result)"

definition policy_request :: "pyval \<Rightarrow> extraction \<Rightarrow> pydict res" where
  "policy_request payload result =
     res_bind (policy_inputs result) (\<lambda>inputs.
     res_bind (get_field payload ''title'') (\<lambda>title. Inr
       [(''policy_id'', PStr ''default-watchlist-novelty''), (''policy_version_id'', PStr ''v1''),
        (''inputs'', PDict inputs), (''evidence_ids'', PList (all_evidence_ids result)),
        (''graph_path_ids'', PList (map (\<lambda>r. PStr (re_id r)) (ex_relations result))),
        (''title'', if truthy title then title else PStr ''New intelligence signal''),
        (''summary'', PStr (''Extracted '' @ show_nat (length (ex_mentions result)) @ '' entities, ''
           @ show_nat (length (ex_claims result)) @ '' claims and ''
           @ show_nat (length (ex_relations result)) @ '' relationships.''))]))"

definition nlp_completed :: "string \<Rightarrow> extraction \<Rightarrow> pydict" where
  "nlp_completed document_id result =
     [(''document_id'', PStr document_id), (''mentions'', PInt (int (length (ex_mentions result)))),
      (''claims'', PInt (int (length (ex_claims result)))), (''relations'', PInt (int (length (ex_relations result)))),
      (''topics'', PList (map PStr (ex_topics result))),
      (''extraction_model'', PStr (ex_model result)), (''extraction_version'', PStr (ex_version result))]"

section \<open>One message\<close>

definition source_of :: "pyval \<Rightarrow> nlp_source res" where
  "source_of source =
     res_bind (field source ''tenant_id'') (\<lambda>tenant.
     res_bind (field source ''correlation_id'') (\<lambda>correlation.
     res_bind (field source ''event_id'') (\<lambda>causation.
     res_bind (get_field source ''occurred_at'') (\<lambda>occurred.
       Inr \<lparr>ns_tenant_id = tenant, ns_correlation_id = correlation, ns_causation_id = causation, ns_occurred_at = occurred\<rparr>))))"

text \<open>The events of an extraction, in the order they are sent.\<close>

definition publish_extraction :: "pyval \<Rightarrow> pyval \<Rightarrow> nlp_source \<Rightarrow> string \<Rightarrow> extraction \<Rightarrow> unit eff" where
  "publish_extraction source payload src document_id result =
     eff_bind (graph_base_mutations source payload document_id result) (\<lambda>mutations.
     eff_then (eff_iter (publish_base_mutation src) mutations)
     (eff_then (eff_iter (publish_mention src document_id result) (ex_mentions result))
     (eff_then (eff_iter (publish_claim src document_id result) (ex_claims result))
     (eff_then (eff_iter (publish_relation src document_id result) (ex_relations result))
     (eff_bind (eff_lift (policy_request payload result)) (\<lambda>request.
     eff_then (send ''alert.policy-evaluation-requested.v1'' src (PStr document_id) (PStr document_id) request ''policy-request'')
     (eff_then (send ''document.nlp-completed.v1'' src (PStr document_id) (PStr document_id)
         (nlp_completed document_id result) ''nlp-completed'')
     (eff_then flush (eff_return ())))))))))"

definition nlp_document :: "pyval \<Rightarrow> string \<Rightarrow> document res" where
  "nlp_document payload text =
     res_bind (field payload ''document_id'') (\<lambda>document_id.
     res_bind (get_field payload ''language_hint'') (\<lambda>language_hint. make_document document_id text language_hint))"

definition nlp_process :: "kafka_message \<Rightarrow> unit eff" where
  "nlp_process message =
     eff_bind (json_loads (km_value message)) (\<lambda>source.
     eff_bind (eff_lift (field source ''payload'')) (\<lambda>payload.
     eff_bind (nlp_load_text payload) (\<lambda>text.
     eff_bind (eff_lift (nlp_document payload text)) (\<lambda>doc.
     eff_bind (eff_lift (extract_all doc)) (\<lambda>result.
     eff_bind (eff_lift (source_of source)) (\<lambda>src.
       publish_extraction source payload src (doc_id doc) result))))))"

definition nlp_handle :: "kafka_message \<Rightarrow> unit eff" where
  "nlp_handle message = handle_message message NLP_DLQ_TOPIC (nlp_process message) ''nlp-pipeline'' None None"

section \<open>Committing\<close>

lemma quiet_send [quiet_intros]: "quiet (send topic src key ek payload stage)"
  unfolding send_def nlp_envelope_def by (intro quiet_intros)

lemma quiet_nlp_load_text [quiet_intros]: "quiet (nlp_load_text payload)"
proof -
  have [quiet_intros]: "quiet (read_object u)" for u
    unfolding read_object_def Let_def by (intro quiet_intros)
  show ?thesis
    unfolding nlp_load_text_def
    by (intro quiet_bind quiet_simple) (auto split: pyval.split intro!: quiet_intros)
qed

lemma quiet_nlp_process: "quiet (nlp_process m)"
  unfolding nlp_process_def publish_extraction_def graph_base_mutations_def publish_base_mutation_def
    publish_mention_def publish_claim_def publish_relation_def Let_def
  by (intro quiet_intros)

interpretation nlp: worker nlp_process "\<lambda>_. NLP_DLQ_TOPIC" "''nlp-pipeline''" None None
  by unfold_locales (simp_all add: quiet_nlp_process quiet_option_def)

section \<open>The graph projector accepts the mutations\<close>

definition nlp_tenant :: "nlp_source \<Rightarrow> pyval option" where
  "nlp_tenant src = Some (ns_tenant_id src)"

text \<open>An event of this worker: its type is its topic, and tenant and payload are those given.\<close>

definition nlp_event :: "string \<Rightarrow> nlp_source \<Rightarrow> pydict \<Rightarrow> effect \<Rightarrow> bool" where
  "nlp_event topic src payload e = (case e of
     Produced t k (Json (PDict ev)) \<Rightarrow> t = topic \<and> dict_get ev ''event_type'' = Some (PStr topic)
       \<and> dict_get ev ''payload'' = Some (PDict payload) \<and> dict_get ev ''tenant_id'' = Some (ns_tenant_id src)
   | _ \<Rightarrow> False)"

lemma emits_send: "emits env (nlp_event topic src payload) (send topic src key ek payload stage)"
proof -
  have ev: "dict_get ev ''event_type'' = Some (PStr topic) \<and> dict_get ev ''payload'' = Some (PDict payload)
      \<and> dict_get ev ''tenant_id'' = Some (ns_tenant_id src)"
    if "nlp_envelope topic src ek payload stage w = (Inr ev, w')" for ev w w'
    using that by (auto simp: nlp_envelope_def res_simps eff_return_def)
  have "emits env P (nlp_envelope topic src ek payload stage)" for P
    unfolding nlp_envelope_def by (intro emits_intros)
  then show ?thesis unfolding send_def
    by (rule emits_bind_value) (auto simp: publish_event_def nlp_event_def dest!: ev intro!: emits_intros)
qed

interpretation nlp_graph: graph_client publish_base_mutation nlp_tenant
proof
  fix env src and km :: "pyval \<times> pydict"
  have "nlp_event ''graph.mutation-requested.v1'' src (snd km) e \<Longrightarrow> mutation_request (nlp_tenant src) (snd km) e" for e
    by (auto simp: nlp_event_def mutation_request_def nlp_tenant_def GRAPH_INPUT_TOPIC_def
        split: effect.splits payload.splits pyval.splits)
  with emits_send show "emits env (mutation_request (nlp_tenant src) (snd km)) (publish_base_mutation src km)"
    unfolding publish_base_mutation_def by (rule emits_weaken)
qed

end
