(* ===== verification/VelatoWorker.thy ===== *)
theory VelatoWorker
  imports VelatoService Events
begin

text \<open>
  \<open>services/velato-engine/worker.py\<close>: policy evaluation requests become alerts.  The program is
  loaded once, when the worker starts.
\<close>

section \<open>The policy\<close>

record policy =
  lp_ir :: program
  lp_engine :: string
  lp_source_hash :: pyval
  lp_ir_hash :: string
  lp_analysis :: pyval

text \<open>\<open>file\<close> is what reading the program file gives.\<close>

definition load_default_policy :: "midi_load \<Rightarrow> bytes res \<Rightarrow> (program \<times> string \<times> pyval) res" where
  "load_default_policy load content =
     (case res_bind content (\<lambda>source.
        res_bind (parse_midi load source 128000 1024) (\<lambda>ns.
        res_bind (compile_notes ns) (\<lambda>ir.
          Inr (ir, ''velato-midi'', PStr (hexdigest (sha256 source)))))) of
      Inr r \<Rightarrow> Inr r
    | Inl e \<Rightarrow> if exn_cls e = OSError \<or> is_value_error (exn_cls e)
        then Inr (default_policy_ir, ''fallback-rules'', PNone) else Inl e)"

text \<open>The lines of \<open>main\<close> that set the policy up.\<close>

definition start_policy :: "midi_load \<Rightarrow> bytes res \<Rightarrow> policy res" where
  "start_policy load content =
     res_bind (load_default_policy load content) (\<lambda>(ir, engine, source_hash).
     res_bind (analyze ir) (\<lambda>analysis.
       Inr \<lparr>lp_ir = ir, lp_engine = engine, lp_source_hash = source_hash,
         lp_ir_hash = ir_sha256 ir, lp_analysis = analysis_dump analysis\<rparr>))"

section \<open>One message\<close>

definition VELATO_INPUT_TOPIC :: string where "VELATO_INPUT_TOPIC = ''alert.policy-evaluation-requested.v1''"
definition VELATO_DLQ_TOPIC :: string where "VELATO_DLQ_TOPIC = VELATO_INPUT_TOPIC @ ''.dlq''"

text \<open>The name the alert identifier is derived from.\<close>

definition alert_name :: "pyval \<Rightarrow> string res" where
  "alert_name source =
     res_bind (field source ''tenant_id'') (\<lambda>tenant.
     res_bind (res_bind (field source ''payload'') (\<lambda>p. field p ''policy_version_id'')) (\<lambda>version.
     res_bind (field source ''idempotency_key'') (\<lambda>key.
       Inr (py_str tenant @ '':'' @ py_str version @ '':'' @ py_str key))))"

definition payload_field :: "pyval \<Rightarrow> string \<Rightarrow> pyval res" where
  "payload_field source k = res_bind (field source ''payload'') (\<lambda>p. field p k)"

definition payload_get :: "pyval \<Rightarrow> string \<Rightarrow> pyval \<Rightarrow> pyval res" where
  "payload_get source k v = res_bind (field source ''payload'') (\<lambda>p. py_get p k v)"

definition alert_payload :: "policy \<Rightarrow> pyval \<Rightarrow> policy_result \<Rightarrow> string \<Rightarrow> pydict res" where
  "alert_payload pol source result alert_id = res_dict
     ([(''alert_id'', const (PStr alert_id)),
       (''policy_id'', payload_field source ''policy_id''),
       (''policy_version_id'', payload_field source ''policy_version_id'')]
      @ map (\<lambda>(k, v). (k, const v)) (result_dump result)
      @ [(''evidence_ids'', payload_get source ''evidence_ids'' (PList [])),
         (''graph_path_ids'', payload_get source ''graph_path_ids'' (PList [])),
         (''title'', payload_get source ''title'' (PStr ''SignalChord intelligence alert'')),
         (''summary'', payload_get source ''summary'' (PStr ''A configured intelligence policy produced an alert.'')),
         (''execution_engine'', const (PStr (lp_engine pol))),
         (''velato_dialect_version'', const (PStr DIALECT_VERSION)),
         (''policy_source_sha256'', const (lp_source_hash pol)),
         (''policy_ir_sha256'', const (PStr (lp_ir_hash pol))),
         (''policy_analysis'', const (lp_analysis pol))])"

definition alert_idempotency_key :: "pyval \<Rightarrow> pyval res" where
  "alert_idempotency_key source =
     res_bind (payload_field source ''policy_version_id'') (\<lambda>version.
     res_bind (field source ''idempotency_key'') (\<lambda>key.
       Inr (PStr (''alert:'' @ py_str version @ '':'' @ py_str key))))"

definition alert_event :: "pyval \<Rightarrow> pydict \<Rightarrow> string \<Rightarrow> string \<Rightarrow> pydict res" where
  "alert_event source payload t event_id = res_dict
     [(''event_id'', const (PStr event_id)),
      (''event_type'', const (PStr ''alert.created.v1'')),
      (''schema_version'', const (PInt 1)),
      (''tenant_id'', field source ''tenant_id''),
      (''occurred_at'', const (PStr t)),
      (''ingested_at'', const (PStr t)),
      (''correlation_id'', field source ''correlation_id''),
      (''causation_id'', field source ''event_id''),
      (''origin'', const (PStr ''velato-engine'')),
      (''processing_stage'', const (PStr ''policy-evaluation'')),
      (''idempotency_key'', alert_idempotency_key source),
      (''payload'', const (PDict payload))]"

definition velato_process :: "pow_fun \<Rightarrow> policy \<Rightarrow> kafka_message \<Rightarrow> unit eff" where
  "velato_process math_pow pol message =
     eff_bind (json_loads (km_value message)) (\<lambda>source.
     eff_bind (eff_lift (res_bind (payload_field source ''inputs'') (\<lambda>inputs.
        execute math_pow (lp_ir pol) inputs DEFAULT_MAX_INSTRUCTIONS DEFAULT_MAX_STACK))) (\<lambda>result.
     eff_bind now (\<lambda>t.
     eff_bind (eff_lift (alert_name source)) (\<lambda>name.
     eff_bind (uuid5 name) (\<lambda>alert_id.
     eff_bind (eff_lift (alert_payload pol source result alert_id)) (\<lambda>payload.
     eff_bind uuid4 (\<lambda>event_id.
     eff_bind (eff_lift (alert_event source payload t event_id)) (\<lambda>event.
     eff_then (produce ''alert.created.v1'' (Some (utf8_encode alert_id)) (Json (PDict event)))
       (eff_then flush (eff_return ()))))))))))"

definition velato_handle :: "pow_fun \<Rightarrow> policy \<Rightarrow> kafka_message \<Rightarrow> unit eff" where
  "velato_handle math_pow pol message =
     handle_message message VELATO_DLQ_TOPIC (velato_process math_pow pol message) ''velato-engine'' None None"

section \<open>Committing\<close>

lemma quiet_velato_process: "quiet (velato_process pw pol m)"
  unfolding velato_process_def by (intro quiet_intros)

interpretation velato: worker "velato_process pw pol" "\<lambda>_. VELATO_DLQ_TOPIC" "''velato-engine''" None None for pw pol
  by unfold_locales (simp_all add: quiet_velato_process quiet_option_def)

section \<open>Loading\<close>

lemma compile_loaded_error:
  assumes "messages_checked load"
    and "res_bind (parse_midi load source 128000 1024) (\<lambda>ns. res_bind (compile_notes ns) (f ns)) = Inl e"
    and "\<And>ns ir. is_ok (f ns ir)"
  shows "is_value_error (exn_cls e) \<or> load source = Inl e"
proof (cases "parse_midi load source 128000 1024")
  case (Inr ns)
  have "f ns ir \<noteq> Inl e" for ir using assms(3) [of ns ir] by (auto simp: is_ok_iff)
  then show ?thesis using assms(2) Inr parse_midi_valid [OF Inr assms(1)]
    by (auto simp: res_simps dest!: compile_notes_error)
qed (use assms in \<open>auto dest: parse_midi_error\<close>)

text \<open>Starting the policy worker gives an accepted program, whatever is in the policy file: the
  compiled file, with its checksum, or the built-in rules without one.  The one exception, when
  the file can be read, is an exception of the MIDI library that is no value error and no OSError,
  such as the EOFError of a truncated file: the HTTP service answers that one as a client error,
  but it is not caught here, and the worker does not start.\<close>

theorem start_policy_outcome:
  assumes "messages_checked load"
  shows "case start_policy load (Inr source) of
      Inr pol \<Rightarrow> is_ok (analyze (lp_ir pol))
        \<and> (lp_engine pol = ''velato-midi'' \<and> lp_source_hash pol = PStr (hexdigest (sha256 source))
           \<and> (\<exists>ns. compile_source load source = Inr (ns, lp_ir pol))
         \<or> lp_engine pol = ''fallback-rules'' \<and> lp_source_hash pol = PNone \<and> lp_ir pol = default_policy_ir
           \<and> \<not> is_ok (compile_source load source))
    | Inl e \<Rightarrow> load source = Inl e \<and> \<not> is_value_error (exn_cls e) \<and> exn_cls e \<noteq> OSError
        \<and> \<not> is_ok (compile_source load source)"
proof -
  let ?r = "res_bind (parse_midi load source 128000 1024) (\<lambda>ns. res_bind (compile_notes ns) (\<lambda>ir. Inr (ns, ir)))"
  have builtin: "is_ok (analyze default_policy_ir)" by code_simp
  show ?thesis
  proof (cases ?r)
    case (Inl e)
    then have r: "res_bind (parse_midi load source 128000 1024) (\<lambda>ns. res_bind (compile_notes ns)
        (\<lambda>ir. Inr (ir, ''velato-midi'', PStr (hexdigest (sha256 source))))) = Inl e"
      by (auto simp: res_simps)
    have c: "\<not> is_ok (compile_source load source)"
      unfolding compile_source_def Inl by (simp add: client_error_def unprocessable_def)
    have "is_value_error (exn_cls e) \<or> load source = Inl e"
      using compile_loaded_error [where f = "\<lambda>ns ir. Inr (ns, ir)", OF assms Inl] by simp
    then show ?thesis using r c builtin
      by (auto simp: start_policy_def load_default_policy_def is_ok_iff)
  next
    case (Inr x)
    then obtain ns ir where x: "parse_midi load source 128000 1024 = Inr ns" "compile_notes ns = Inr ir" "x = (ns, ir)"
      by (auto simp: res_simps)
    then have "compile_source load source = Inr (ns, ir)" by (simp add: compile_source_def client_error_def)
    then show ?thesis using x compile_notes_analyzed [OF x(2)]
      by (auto simp: start_policy_def load_default_policy_def is_ok_iff)
  qed
qed

theorem start_policy_outcome_witness:
  "\<exists>pol. start_policy checking_load (Inr [1, 60, 64, 0, 0]) = Inr pol
     \<and> lp_engine pol = ''fallback-rules'' \<and> is_ok (analyze (lp_ir pol))"
proof -
  have p: "parse_midi checking_load [1, 60, 64, 0, 0] 128000 1024
      = value_error ''program requires root and instruction notes''" by code_simp
  then have c: "\<not> is_ok (compile_source checking_load [1, 60, 64, 0, 0])"
    by (simp add: compile_source_def client_error_def unprocessable_def)
  have "is_ok (analyze default_policy_ir)" by code_simp
  then obtain pol where "start_policy checking_load (Inr [1, 60, 64, 0, 0]) = Inr pol"
    using p by (auto simp: start_policy_def load_default_policy_def is_ok_iff)
  then show ?thesis
    using start_policy_outcome [OF checking_messages, of "[1, 60, 64, 0, 0]"] c by (auto simp: is_ok_iff)
qed

section \<open>The alerts\<close>

lemma dict_get_payload:
  assumes "alert_payload pol source result alert_id = Inr payload"
  shows "dict_get payload ''alert_id'' = Some (PStr alert_id)"
    and "result_in_range an result \<Longrightarrow> simulation_body_ok payload"
  using assms
  by (auto simp: alert_payload_def res_simps result_dump_def simulation_body_ok_def result_in_range_def)

text \<open>What the worker sends for one message: a single alert, whose key is its identifier, and a flush.\<close>

definition sent_alert :: "string \<Rightarrow> pyval \<Rightarrow> pydict \<Rightarrow> world \<Rightarrow> world \<Rightarrow> bool" where
  "sent_alert alert_id key alert w w' \<longleftrightarrow> (\<exists>event n e.
     w_log w' = w_log w @ [Produced ''alert.created.v1'' (Some (utf8_encode alert_id)) (Json (PDict event)), Flushed n e]
     \<and> dict_get event ''payload'' = Some (PDict alert) \<and> dict_get event ''idempotency_key'' = Some key
     \<and> dict_get alert ''alert_id'' = Some (PStr alert_id))"

definition alert_of :: "pow_fun \<Rightarrow> policy \<Rightarrow> (string \<Rightarrow> string) \<Rightarrow> pyval \<Rightarrow> (string \<times> pyval \<times> pydict) res" where
  "alert_of pw pol uuid source =
     res_bind (res_bind (payload_field source ''inputs'') (\<lambda>inputs.
        execute pw (lp_ir pol) inputs DEFAULT_MAX_INSTRUCTIONS DEFAULT_MAX_STACK)) (\<lambda>result.
     res_bind (alert_name source) (\<lambda>name.
     res_bind (alert_payload pol source result (uuid name)) (\<lambda>payload.
     res_bind (alert_idempotency_key source) (\<lambda>key. Inr (uuid name, key, payload)))))"

lemma velato_process_sends:
  assumes "velato_process pw pol m w = (Inr (), w')"
  obtains source alert_id key alert where "env_json_loads (w_env w) (km_value m) = Inr source"
    and "alert_of pw pol (env_uuid5 (w_env w)) source = Inr (alert_id, key, alert)"
    and "sent_alert alert_id key alert w w'" and "simulation_body_ok alert"
proof -
  let ?id = "env_uuid5 (w_env w)"
  obtain source inputs result name payload event t u n e where
    src: "env_json_loads (w_env w) (km_value m) = Inr source" and
    res: "payload_field source ''inputs'' = Inr inputs"
      "execute pw (lp_ir pol) inputs DEFAULT_MAX_INSTRUCTIONS DEFAULT_MAX_STACK = Inr result" and
    name: "alert_name source = Inr name" and
    payload: "alert_payload pol source result (?id name) = Inr payload" and
    event: "alert_event source payload t u = Inr event" and
    log: "w_log w' = w_log w @ [Produced ''alert.created.v1'' (Some (utf8_encode (?id name))) (Json (PDict event)), Flushed n e]"
    using assms
    by (auto simp: velato_process_def eff_bind_Inr json_loads_def eff_lift_def now_def uuid5_def uuid4_def res_simps
        produce_def flush_def Let_def record_effect_def tick_def split: option.splits)
  obtain an where an: "result_in_range an result"
    using execute_in_range [OF res(2)] by (auto simp: DEFAULT_MAX_STACK_def)
  obtain key where key: "alert_idempotency_key source = Inr key" "dict_get event ''idempotency_key'' = Some key"
      "dict_get event ''payload'' = Some (PDict payload)"
    using event by (auto simp: alert_event_def res_simps)
  show ?thesis
    using that [OF src, of "env_uuid5 (w_env w) name" key payload] res name payload key log
      dict_get_payload(1) [OF payload] dict_get_payload(2) [OF payload an]
    by (auto simp: alert_of_def sent_alert_def)
qed

text \<open>C20. Evaluating a request twice, as redelivery after a crash does, sends the same alert:
  whenever two evaluations of a message by the same policy complete, at any time and with any
  random identifiers, each sends exactly one alert, the two have the same identifier, message
  key, idempotency key and payload, and the payload's score, severity and route are in range.\<close>

theorem alert_redelivery:
  assumes "velato_process pw pol m w = (Inr (), w')" and "velato_process pw pol m v = (Inr (), v')"
    and "env_json_loads (w_env v) = env_json_loads (w_env w)" and "env_uuid5 (w_env v) = env_uuid5 (w_env w)"
  shows "\<exists>alert_id key alert. sent_alert alert_id key alert w w' \<and> sent_alert alert_id key alert v v'
    \<and> simulation_body_ok alert"
proof -
  obtain source i k a where 1: "env_json_loads (w_env w) (km_value m) = Inr source"
    "alert_of pw pol (env_uuid5 (w_env w)) source = Inr (i, k, a)" "sent_alert i k a w w'" "simulation_body_ok a"
    using assms(1) by (rule velato_process_sends)
  obtain source' i' k' a' where 2: "env_json_loads (w_env v) (km_value m) = Inr source'"
    "alert_of pw pol (env_uuid5 (w_env v)) source' = Inr (i', k', a')" "sent_alert i' k' a' v v'"
    using assms(2) by (rule velato_process_sends)
  have "source' = source" using 1(1) 2(1) assms(3) by simp
  then have "i' = i \<and> k' = k \<and> a' = a" using 1(2) 2(2) assms(4) by simp
  then show ?thesis using 1(3,4) 2(3) by blast
qed

definition sample_policy :: policy where
  "sample_policy = \<lparr>lp_ir = sample_program, lp_engine = ''velato-midi'', lp_source_hash = PStr ''00'',
     lp_ir_hash = ''00'', lp_analysis = PDict []\<rparr>"

definition sample_request :: pyval where
  "sample_request = PDict [(''event_id'', PStr ''e1''), (''tenant_id'', PStr ''t1''),
     (''correlation_id'', PStr ''c1''), (''idempotency_key'', PStr ''k1''),
     (''payload'', PDict [(''policy_id'', PStr ''p''), (''policy_version_id'', PStr ''p-1''),
       (''inputs'', sample_inputs)])]"

lemma sample_request_runs:
  assumes "env_json_loads (w_env w) (km_value m) = Inr sample_request"
    and "\<And>n. env_produce (w_env w) n = None"
  obtains w' where "velato_process no_pow sample_policy m w = (Inr (), w')"
proof -
  obtain r where r: "execute no_pow sample_program sample_inputs 512 64 = Inr r" by (rule sample_runs)
  have "payload_field sample_request ''inputs'' = Inr sample_inputs"
    by (simp add: payload_field_def sample_request_def)
  then show ?thesis using that assms r
    by (auto simp: velato_process_def eff_bind_def json_loads_def eff_lift_def now_def uuid5_def uuid4_def
        sample_policy_def DEFAULT_MAX_INSTRUCTIONS_def DEFAULT_MAX_STACK_def alert_name_def alert_payload_def
        payload_field_def payload_get_def sample_request_def alert_event_def alert_idempotency_key_def
        produce_def flush_def Let_def record_effect_def tick_def eff_return_def result_dump_def
        split: prod.splits)
qed

theorem alert_redelivery_witness:
  "\<exists>w' v' i k a. velato_process no_pow sample_policy (message_of VELATO_INPUT_TOPIC [1])
       (fresh_world (calm_env (loads_one sample_request))) = (Inr (), w')
     \<and> velato_process no_pow sample_policy (message_of VELATO_INPUT_TOPIC [1])
       (fresh_world ((calm_env (loads_one sample_request))\<lparr>env_now := \<lambda>_. ''2026-01-02T00:00:00+00:00''\<rparr>)) = (Inr (), v')
     \<and> sent_alert i k a (fresh_world (calm_env (loads_one sample_request))) w' \<and> simulation_body_ok a"
proof -
  let ?m = "message_of VELATO_INPUT_TOPIC [1]"
  let ?w = "fresh_world (calm_env (loads_one sample_request))"
  let ?v = "fresh_world ((calm_env (loads_one sample_request))\<lparr>env_now := \<lambda>_. ''2026-01-02T00:00:00+00:00''\<rparr>)"
  have e: "env_json_loads (w_env ?w) (km_value ?m) = Inr sample_request"
    "env_json_loads (w_env ?v) (km_value ?m) = Inr sample_request"
    "env_produce (w_env ?w) n = None" "env_produce (w_env ?v) n = None" for n
    by (simp_all add: calm_env_def message_of_def loads_one_def)
  obtain w' v' where r: "velato_process no_pow sample_policy ?m ?w = (Inr (), w')"
    "velato_process no_pow sample_policy ?m ?v = (Inr (), v')"
    using sample_request_runs [OF e(1,3)] sample_request_runs [OF e(2,4)] by metis
  have "env_json_loads (w_env ?v) = env_json_loads (w_env ?w)" "env_uuid5 (w_env ?v) = env_uuid5 (w_env ?w)"
    by simp_all
  from alert_redelivery [OF r this] r show ?thesis by blast
qed

end
