(* ===== verification/Pipeline.thy ===== *)
theory Pipeline
  imports NlpWorker VelatoWorker
begin

text \<open>
  The pipeline behind the NLP worker: its events go to the graph projector, the entity and claim
  workers and the policy worker.  Each of them accepts what it is sent.
\<close>

section \<open>The number of mentions and the relevance\<close>

lemma extract_all_result:
  assumes "extract_all doc = Inr result"
  obtains d where "ex_mentions result = extract_mentions d" and "ex_claims result = extract_claims d"
    and "ex_relations result = extract_relations d (extract_mentions d)" and "doc_id d = doc_id doc"
    and "int (length (doc_text d)) \<le> 2000000"
  using assms
  by (auto simp: extract_all_def make_document_def res_simps Let_def split: if_splits pyval.splits)

lemma mention_count: "length (extract_mentions d) \<le> length (doc_text d)"
proof -
  let ?s = "map (\<lambda>c. fst (fo_span c)) (accepted_candidates d)"
  have "sorted_wrt (<) ?s"
    unfolding sorted_wrt_map
  proof (rule sorted_wrt_mono_rel [OF _ accepted_ordered])
    fix c e :: found
    assume "c \<in> set (accepted_candidates d)" "snd (fo_span c) \<le> fst (fo_span e)"
    then show "fst (fo_span c) < fst (fo_span e)" using candidate_bounds [OF accepted_found] by fastforce
  qed
  then have "distinct ?s" by (simp add: strict_sorted_iff)
  moreover have "set ?s \<subseteq> {..< length (doc_text d)}"
    using candidate_bounds [OF accepted_found] by fastforce
  ultimately have "length ?s \<le> length (doc_text d)"
    by (metis card_lessThan card_mono distinct_card finite_lessThan)
  then show ?thesis by (simp add: extract_mentions_accepted)
qed

text \<open>Numbers that are not negative stay so.\<close>

definition fl_nonneg :: "pyfloat \<Rightarrow> bool" where
  "fl_nonneg a = (a \<noteq> NaN \<and> \<not> fl_neg_bit a)"

lemma fl_round_nonneg: "0 \<le> x \<Longrightarrow> fl_nonneg (fl_round x)"
proof -
  assume x: "0 \<le> x"
  then have "0 \<le> x / pow2 (ulp_exp x)" using pow2_pos by (intro divide_nonneg_pos)
  then have "0 \<le> of_int (round_half_even (x / pow2 (ulp_exp x))) * pow2 (ulp_exp x)"
    using round_half_even_ge_of_int [of 0 "x / pow2 (ulp_exp x)"] pow2_pos [of "ulp_exp x"]
    by (intro mult_nonneg_nonneg) (simp_all add: less_imp_le)
  then show ?thesis using x by (auto simp: fl_nonneg_def fl_round_def fl_of_rat_def Let_def)
qed

lemma fl_mul_nonneg:
  "isfinite a \<Longrightarrow> isfinite b \<Longrightarrow> fl_nonneg a \<Longrightarrow> fl_nonneg b \<Longrightarrow> fl_nonneg (fl_mul a b)"
  using fl_round_nonneg [of "fl_val a * fl_val b"]
  by (cases a; cases b) (auto simp: fl_mul_def fl_round_signed_def fl_nonneg_def)

lemma fl_add_nonneg: "fl_nonneg a \<Longrightarrow> fl_nonneg b \<Longrightarrow> fl_nonneg (fl_add a b)"
  using fl_round_nonneg [of "fl_val a + fl_val b"]
  by (cases a; cases b) (auto simp: fl_add_def fl_round_signed_def fl_nonneg_def)

lemma fl_min_one: "fl_nonneg a \<Longrightarrow> isfinite (fl_min (Fin 1) a) \<and> 0 \<le> fl_val (fl_min (Fin 1) a) \<and> fl_val (fl_min (Fin 1) a) \<le> 1"
  by (cases a) (auto simp: fl_min_def fl_nonneg_def)

lemma entity_relevance_range:
  assumes "int n < 2 ^ 53"
  shows "\<exists>f. entity_relevance n = Inr f \<and> isfinite f \<and> 0 \<le> fl_val f \<and> fl_val f \<le> 1"
proof -
  have f: "float_of_int (int n) = Inr (Fin (of_int (int n)))" using assms by (intro float_of_int_small) simp
  have "fl_nonneg (Fin (of_int (int n)))" by (simp add: fl_nonneg_def)
  moreover have "isfinite (fl_round (15 / 100))" by code_simp
  ultimately have "fl_nonneg (fl_mul (Fin (of_int (int n))) (fl_round (15 / 100)))"
    using fl_round_nonneg [of "15 / 100"] by (intro fl_mul_nonneg) simp_all
  then have "fl_nonneg (fl_add (fl_round (4 / 10)) (fl_mul (Fin (of_int (int n))) (fl_round (15 / 100))))"
    using fl_round_nonneg [of "4 / 10"] by (intro fl_add_nonneg) simp_all
  from fl_min_one [OF this] show ?thesis using f by (simp add: entity_relevance_def)
qed

text \<open>The policy inputs are complete and finite, so the evaluator accepts them.\<close>

lemma finite_inputs_accepted:
  assumes "isfinite a" "isfinite b" "isfinite c" "isfinite d" "isfinite e" "isfinite f" "isfinite g" "isfinite h"
  shows "is_ok (normalize_inputs (PDict [(''source_trust'', PFloat a), (''corroboration_count'', PInt 1),
     (''contradiction_count'', PInt 0), (''novelty'', PFloat b), (''entity_relevance'', PFloat c),
     (''graph_centrality'', PFloat d), (''geographic_relevance'', PFloat e), (''watchlist_match'', PFloat f),
     (''recency'', PFloat g), (''source_diversity'', PFloat h)]))"
proof -
  have "float_of_int 1 = Inr (Fin 1)" "float_of_int 0 = Inr (Fin 0)"
    using float_of_int_small [of 1] float_of_int_small [of 0] by simp_all
  then show ?thesis using assms by (simp add: normalize_inputs_def INPUTS_def normalize_input_def)
qed

lemma policy_inputs_accepted:
  assumes "policy_inputs result = Inr inputs" and "int (length (ex_mentions result)) < 2 ^ 53"
  shows "is_ok (normalize_inputs (PDict inputs))"
proof -
  obtain r where r: "entity_relevance (length (ex_mentions result)) = Inr r" "isfinite r"
    using entity_relevance_range [OF assms(2)] by blast
  have c: "isfinite (fl_round (75 / 100))" "isfinite (fl_round (8 / 10))" "isfinite (fl_round (4 / 10))"
    "isfinite (fl_round (2 / 10))" by code_simp+
  have "inputs = [(''source_trust'', PFloat (fl_round (75 / 100))), (''corroboration_count'', PInt 1),
       (''contradiction_count'', PInt 0), (''novelty'', PFloat (fl_round (8 / 10))),
       (''entity_relevance'', PFloat r), (''graph_centrality'', PFloat (fl_round (4 / 10))),
       (''geographic_relevance'', PFloat (fl_round
          (if \<exists>m\<in>set (ex_mentions result). me_type m = ''Location'' then 8 / 10 else 2 / 10))),
       (''watchlist_match'', PFloat (Fin
          (if \<exists>m\<in>set (ex_mentions result). contains (me_text m) ''Acme'' then 1 else 0))),
       (''recency'', PFloat (Fin 1)), (''source_diversity'', PFloat (fl_round (4 / 10)))]"
    using assms(1) unfolding policy_inputs_def r(1) res_bind.simps by (rule sum.inject(2) [THEN iffD1, symmetric])
  moreover have "isfinite (fl_round (if P then 8 / 10 else 2 / 10))" for P
    using c by (cases P) (simp_all only: if_True if_False)
  ultimately show ?thesis
    using c r(2) by (simp only:) (rule finite_inputs_accepted; simp only: isfinite.simps)
qed

section \<open>What each consumer accepts\<close>

definition policy_request_ok :: "pyval \<Rightarrow> bool" where
  "policy_request_ok ev = (case payload_field ev ''inputs'' of Inr inputs \<Rightarrow> is_ok (normalize_inputs inputs) | Inl _ \<Rightarrow> False)"

definition consumer_accepts :: "effect \<Rightarrow> bool" where
  "consumer_accepts e = (request_accepted e \<and> (case e of
     Produced topic k (Json ev) \<Rightarrow>
       (topic = ''claim.extracted.v1'' \<longrightarrow> claim_event_ok ev)
       \<and> (topic = ''entity.mention-extracted.v1'' \<or> topic = ''relationship.extracted.v1'' \<longrightarrow> entity_event_ok ev)
       \<and> (topic = VELATO_INPUT_TOPIC \<longrightarrow> policy_request_ok ev)
   | _ \<Rightarrow> True))"

text \<open>The fields of a request that identifiers are made of.\<close>

definition nlp_event_ok :: "pyval \<Rightarrow> bool" where
  "nlp_event_ok source \<longleftrightarrow> text_field source ''tenant_id'' \<and>
     (case field source ''payload'' of
        Inr p \<Rightarrow> text_field p ''document_id'' \<and>
          (case py_get p ''source_id'' UNKNOWN_SOURCE of Inr (PStr s) \<Rightarrow> nonblank_text s | _ \<Rightarrow> False)
      | Inl _ \<Rightarrow> True)"

lemma accepted_node_pair:
  "mt \<in> set (map fst NODE_LABELS) \<Longrightarrow> nonblank_text i \<Longrightarrow> accepted_mutation (snd (node_mutation mt (PStr i) ps))"
  unfolding node_mutation_def snd_conv by (rule accepted_node_mutation)

lemma accepted_edge_pair:
  "mt \<in> set (map fst RELATIONSHIP_TYPES) \<Longrightarrow> nonblank_text i \<Longrightarrow> nonblank_text f \<Longrightarrow> nonblank_text g \<Longrightarrow>
   accepted_mutation (snd (edge_mutation mt i (PStr f) (PStr g) ps))"
  unfolding edge_mutation_def snd_conv
  by (rule accepted_link [of _ mt i f g]) (simp_all add: link_type_facts del: set_map)

lemma base_mutations_accepted:
  assumes "graph_base_mutations source payload d result w = (Inr kms, w')" and "nonblank_text d"
    and "py_get payload ''source_id'' UNKNOWN_SOURCE = Inr (PStr s)" and "nonblank_text s"
  shows "\<forall>km\<in>set kms. accepted_mutation (snd km)"
proof -
  obtain p1 p2 p3 common where kms: "kms =
       [node_mutation ''upsert_document'' (PStr d) p1, node_mutation ''upsert_article'' (PStr (''article:'' @ d)) p2,
        node_mutation ''upsert_source'' (PStr s) p3,
        edge_mutation ''link_published'' (''published:'' @ (''article:'' @ d) @ '':'' @ py_str (PStr s))
          (PStr (''article:'' @ d)) (PStr s) common,
        edge_mutation ''link_article_document'' (''article-document:'' @ (''article:'' @ d) @ '':'' @ d)
           (PStr (''article:'' @ d)) (PStr d) common]"
    using assms(1,3) by (auto simp: graph_base_mutations_def Let_def res_simps eff_lift_def eff_return_def)
  show ?thesis
    unfolding kms using assms(2,4) table_members(3-5,10,11)
    by (simp add: is_space_code accepted_node_pair accepted_edge_pair del: set_map)
qed

section \<open>Every event is accepted\<close>

lemma emits_both: "emits env P m \<Longrightarrow> emits env Q m \<Longrightarrow> emits env (\<lambda>e. P e \<and> Q e) m"
  unfolding emits_def by (metis append_eq_append_conv)

text \<open>The topics whose events have no other requirement than the graph projector's.\<close>

definition CHECKED_TOPICS :: "string list" where
  "CHECKED_TOPICS = [''claim.extracted.v1'', ''entity.mention-extracted.v1'', ''relationship.extracted.v1'', VELATO_INPUT_TOPIC]"

lemma nlp_event_cases:
  assumes "nlp_event topic src payload e"
  obtains k ev where "e = Produced topic k (Json (PDict ev))" and "dict_get ev ''event_type'' = Some (PStr topic)"
    and "dict_get ev ''payload'' = Some (PDict payload)" and "dict_get ev ''tenant_id'' = Some (ns_tenant_id src)"
  using assms by (auto simp: nlp_event_def split: effect.splits payload.splits pyval.splits)

lemma unchecked_accepted:
  assumes "request_accepted e" and "nlp_event topic src payload e" and "topic \<notin> set CHECKED_TOPICS"
  shows "consumer_accepts e"
  using assms(2) by (rule nlp_event_cases) (use assms(1,3) in \<open>simp add: consumer_accepts_def CHECKED_TOPICS_def\<close>)

lemma checked_accepted:
  assumes "nlp_event topic src payload e" and "topic \<in> set CHECKED_TOPICS"
    and "\<And>ev. dict_get ev ''event_type'' = Some (PStr topic) \<Longrightarrow> dict_get ev ''payload'' = Some (PDict payload) \<Longrightarrow>
      dict_get ev ''tenant_id'' = Some (ns_tenant_id src) \<Longrightarrow>
      (if topic = ''claim.extracted.v1'' then claim_event_ok (PDict ev)
       else if topic = VELATO_INPUT_TOPIC then policy_request_ok (PDict ev) else entity_event_ok (PDict ev))"
  shows "consumer_accepts e"
proof -
  have "list_all (\<lambda>t. t \<noteq> GRAPH_INPUT_TOPIC) CHECKED_TOPICS" by code_simp
  then have "topic \<noteq> GRAPH_INPUT_TOPIC" using assms(2) by (auto simp: list_all_iff)
  moreover have "VELATO_INPUT_TOPIC \<notin> {''claim.extracted.v1'', ''entity.mention-extracted.v1'', ''relationship.extracted.v1''}"
    by (simp add: VELATO_INPUT_TOPIC_def)
  ultimately show ?thesis
    using assms(1) by (rule_tac nlp_event_cases [OF assms(1)])
      (use assms(3) in \<open>auto simp: consumer_accepts_def request_accepted_def split: if_splits\<close>)
qed

lemma claim_accepted:
  assumes "nlp_event ''claim.extracted.v1'' src (dict_merge (claim_dump (claim_of d p)) (provenance i result)) e"
    and "ns_tenant_id src = PStr t" and "nonblank_text t"
  shows "consumer_accepts e"
  using assms(1)
proof (rule checked_accepted)
  fix ev
  assume "dict_get ev ''payload'' = Some (PDict (dict_merge (claim_dump (claim_of d p)) (provenance i result)))"
    and "dict_get ev ''tenant_id'' = Some (ns_tenant_id src)"
  then have "claim_event_ok (PDict ev)"
    using assms(2,3)
    by (simp add: claim_event_ok_def text_field_def dict_get_merge wf_dict_def claim_dump_def provenance_def
        evidence_dump_def evidence_of_def is_space_code)
  then show "if ''claim.extracted.v1'' = ''claim.extracted.v1'' then claim_event_ok (PDict ev)
       else if ''claim.extracted.v1'' = VELATO_INPUT_TOPIC then policy_request_ok (PDict ev) else entity_event_ok (PDict ev)"
    by simp
qed (simp add: CHECKED_TOPICS_def)

text \<open>A mention as a part of an event has a type the projector knows and evidence.\<close>

lemma mention_dump_ok:
  assumes "m \<in> set (extract_mentions d)"
  shows "mention_ok (PDict (mention_dump m))" and "mention_ok (PDict (dict_merge (mention_dump m) (provenance i result)))"
proof -
  obtain c where c: "c \<in> set (find_candidates (doc_text d))" "m = mention_of d c"
    using assms accepted_found by (auto simp: extract_mentions_accepted)
  from c(1) obtain pattern where "(fo_type c, pattern, fo_confidence c) \<in> set PATTERNS" by (rule find_candidatesD)
  then have "fo_type c \<in> set (map fst PATTERNS)" by force
  moreover have "list_all (\<lambda>ty. map_of ENTITY_LABELS ty \<noteq> None) (map fst PATTERNS)" by code_simp
  ultimately have ty: "map_of ENTITY_LABELS (fo_type c) \<noteq> None" by (simp only: list_all_iff) blast
  show "mention_ok (PDict (mention_dump m))" "mention_ok (PDict (dict_merge (mention_dump m) (provenance i result)))"
    using ty by (simp_all add: mention_ok_def text_field_def c(2) mention_dump_def evidence_dump_def evidence_of_def
        provenance_def dict_get_merge wf_dict_def is_space_code)
qed

lemma mention_accepted:
  assumes "nlp_event ''entity.mention-extracted.v1'' src (dict_merge (mention_dump m) (provenance i result)) e"
    and "m \<in> set (extract_mentions d)" and "ns_tenant_id src = PStr t" and "nonblank_text t"
  shows "consumer_accepts e"
  using assms(1)
proof (rule checked_accepted)
  fix ev
  assume "dict_get ev ''event_type'' = Some (PStr ''entity.mention-extracted.v1'')"
    and "dict_get ev ''payload'' = Some (PDict (dict_merge (mention_dump m) (provenance i result)))"
    and "dict_get ev ''tenant_id'' = Some (ns_tenant_id src)"
  then have "entity_event_ok (PDict ev)"
    using assms(3,4) mention_dump_ok(2) [OF assms(2)]
    by (simp add: entity_event_ok_def text_field_def mention_side_ok_def)
  then show "if ''entity.mention-extracted.v1'' = ''claim.extracted.v1'' then claim_event_ok (PDict ev)
       else if ''entity.mention-extracted.v1'' = VELATO_INPUT_TOPIC then policy_request_ok (PDict ev)
       else entity_event_ok (PDict ev)"
    by (simp add: VELATO_INPUT_TOPIC_def)
qed (simp add: CHECKED_TOPICS_def)

lemma mention_by_id_mem: "mention_by_id ms i = Inr m \<Longrightarrow> m \<in> set ms"
  by (auto simp: mention_by_id_def dest!: map_of_SomeD split: option.splits)

lemma relation_accepted:
  assumes "nlp_event ''relationship.extracted.v1'' src payload e" and "relation_payload i result r = Inr payload"
    and "ex_mentions result = extract_mentions d" and "nonblank_text (re_id r)"
    and "ns_tenant_id src = PStr t" and "nonblank_text t"
  shows "consumer_accepts e"
  using assms(1)
proof (rule checked_accepted)
  fix ev
  assume ev: "dict_get ev ''event_type'' = Some (PStr ''relationship.extracted.v1'')"
    "dict_get ev ''payload'' = Some (PDict payload)" "dict_get ev ''tenant_id'' = Some (ns_tenant_id src)"
  obtain m n where mn: "m \<in> set (extract_mentions d)" "n \<in> set (extract_mentions d)"
    and payload: "payload = dict_merge (relation_dump r) [(''document_id'', PStr i), (''subject'', PDict (mention_dump m)),
       (''object'', PDict (mention_dump n)), (''extraction_model'', PStr (ex_model result)), (''extraction_version'', PStr (ex_version result))]"
    using assms(2,3) by (auto simp: relation_payload_def res_simps dest: mention_by_id_mem)
  have "dict_get payload ''relationship_id'' = Some (PStr (re_id r))"
    "dict_get payload ''subject'' = Some (PDict (mention_dump m))" "dict_get payload ''object'' = Some (PDict (mention_dump n))"
    by (simp_all add: payload relation_dump_def dict_get_merge wf_dict_def)
  then have "entity_event_ok (PDict ev)"
    using ev assms(4-6) mention_dump_ok(1) [OF mn(1)] mention_dump_ok(1) [OF mn(2)]
    by (simp add: entity_event_ok_def text_field_def mention_side_ok_def)
  then show "if ''relationship.extracted.v1'' = ''claim.extracted.v1'' then claim_event_ok (PDict ev)
       else if ''relationship.extracted.v1'' = VELATO_INPUT_TOPIC then policy_request_ok (PDict ev)
       else entity_event_ok (PDict ev)"
    by (simp add: VELATO_INPUT_TOPIC_def)
qed (simp add: CHECKED_TOPICS_def)

lemma policy_request_accepted:
  assumes "nlp_event ''alert.policy-evaluation-requested.v1'' src request e" and "policy_request payload result = Inr request"
    and "int (length (ex_mentions result)) < 2 ^ 53"
  shows "consumer_accepts e"
  using assms(1)
proof (rule checked_accepted)
  fix ev
  assume ev: "dict_get ev ''payload'' = Some (PDict request)"
  obtain inputs where i: "policy_inputs result = Inr inputs" "dict_get request ''inputs'' = Some (PDict inputs)"
    using assms(2) by (auto simp: policy_request_def res_simps)
  have "policy_request_ok (PDict ev)"
    using ev i(2) policy_inputs_accepted [OF i(1) assms(3)] by (simp add: policy_request_ok_def payload_field_def)
  then show "if ''alert.policy-evaluation-requested.v1'' = ''claim.extracted.v1'' then claim_event_ok (PDict ev)
       else if ''alert.policy-evaluation-requested.v1'' = VELATO_INPUT_TOPIC then policy_request_ok (PDict ev)
       else entity_event_ok (PDict ev)"
    by (simp add: VELATO_INPUT_TOPIC_def)
qed (simp add: CHECKED_TOPICS_def VELATO_INPUT_TOPIC_def)

lemma consumer_accepts_simple: "consumer_accepts (Flushed n x)" "consumer_accepts (Called c a)"
  by (simp_all add: consumer_accepts_def request_accepted_def)

lemma emits_accepted_flush: "emits env consumer_accepts flush"
  by (intro emits_intros consumer_accepts_simple)

lemma emits_nlp_load_text: "emits env consumer_accepts (nlp_load_text payload)"
proof -
  have r: "emits env consumer_accepts (read_object u)" for u
    unfolding read_object_def Let_def
    by (intro emits_bind emits_simple emits_call consumer_accepts_simple) (auto intro!: emits_intros consumer_accepts_simple split: prod.split)
  show ?thesis unfolding nlp_load_text_def
    by (intro emits_bind emits_simple) (auto split: pyval.split intro!: r emits_intros)
qed

lemma relation_id_nonblank: "r \<in> set (extract_relations d ms) \<Longrightarrow> nonblank_text (re_id r)"
  by (auto simp: extract_relations_def sentence_relation_def make_relation_def Let_def is_space_code
      split: list.splits option.splits)

lemma emits_publish_extraction:
  assumes "extract_all doc = Inr result" and "ns_tenant_id src = PStr t" and "nonblank_text t"
    and "nonblank_text document_id" and "py_get payload ''source_id'' UNKNOWN_SOURCE = Inr (PStr s)" and "nonblank_text s"
  shows "emits env consumer_accepts (publish_extraction source payload src document_id result)"
proof -
  from assms(1) obtain d where d: "ex_mentions result = extract_mentions d" "ex_claims result = extract_claims d"
    "ex_relations result = extract_relations d (extract_mentions d)" and len: "int (length (doc_text d)) \<le> 2000000"
    by (rule extract_all_result)
  have n: "int (length (ex_mentions result)) < 2 ^ 53" using mention_count [of d] len d(1) by simp
  have tenant: "nlp_tenant src = Some (PStr t)" using assms(2) by (simp add: nlp_tenant_def)
  have base: "emits env consumer_accepts (eff_iter (publish_base_mutation src) kms)"
    if "\<forall>km\<in>set kms. accepted_mutation (snd km)" for kms
  proof -
    have "''graph.mutation-requested.v1'' \<notin> set CHECKED_TOPICS" by (simp add: CHECKED_TOPICS_def VELATO_INPUT_TOPIC_def)
    then have "emits env (\<lambda>e. \<exists>m. nlp_event ''graph.mutation-requested.v1'' src m e) (eff_iter (publish_base_mutation src) kms)"
      unfolding publish_base_mutation_def by (intro emits_iter emits_weaken [OF emits_send]) blast
    from emits_both [OF nlp_graph.published_accepted [OF tenant assms(3) that] this] show ?thesis
      by (rule emits_weaken) (use \<open>_ \<notin> set CHECKED_TOPICS\<close> unchecked_accepted in blast)
  qed
  have mentions: "emits env consumer_accepts (publish_mention src document_id result m)" if "m \<in> set (ex_mentions result)" for m
    unfolding publish_mention_def
    by (rule emits_weaken [OF emits_send]) (rule mention_accepted [OF _ that [unfolded d(1)] assms(2,3)])
  have claims: "emits env consumer_accepts (publish_claim src document_id result c)" if "c \<in> set (ex_claims result)" for c
  proof -
    have "c \<in> claim_of d ` set (finditer CLAIM (doc_text d))" using that d(2) by (simp add: extract_claims_def)
    then obtain p where "c = claim_of d p" by blast
    then show ?thesis unfolding publish_claim_def
      by (intro emits_weaken [OF emits_send]) (simp only: claim_accepted [OF _ assms(2,3)])
  qed
  have relations: "emits env consumer_accepts (publish_relation src document_id result r)" if "r \<in> set (ex_relations result)" for r
    unfolding publish_relation_def
    using relation_accepted [OF _ _ d(1) _ assms(2,3)] relation_id_nonblank that d(3)
    by (intro emits_lift_bind emits_weaken [OF emits_send]) metis
  have policy: "emits env consumer_accepts (send ''alert.policy-evaluation-requested.v1'' src k ek request stage)"
    if "policy_request payload result = Inr request" for k ek request stage
    using policy_request_accepted [OF _ that n] by (intro emits_weaken [OF emits_send])
  have completed: "emits env consumer_accepts (send ''document.nlp-completed.v1'' src k ek c stage)" for k ek c stage
  proof (rule emits_weaken [OF emits_send])
    fix e
    assume e: "nlp_event ''document.nlp-completed.v1'' src c e"
    then have "request_accepted e" by (rule nlp_event_cases) (simp add: request_accepted_def GRAPH_INPUT_TOPIC_def)
    then show "consumer_accepts e"
      using e by (rule unchecked_accepted) (simp add: CHECKED_TOPICS_def VELATO_INPUT_TOPIC_def)
  qed
  have built: "emits env consumer_accepts (graph_base_mutations source payload document_id result)"
    unfolding graph_base_mutations_def Let_def by (intro emits_intros)
  show ?thesis
    unfolding publish_extraction_def
    using base_mutations_accepted [OF _ assms(4-6)]
    by (intro emits_bind_value [OF built] emits_bind [OF base] emits_bind [OF emits_iter] mentions claims relations
        emits_lift_bind emits_bind [OF policy] emits_bind [OF completed] emits_bind [OF emits_accepted_flush] emits_simple)
      blast
qed


definition sample_nlp_request :: pyval where
  "sample_nlp_request = PDict [(''event_id'', PStr ''e1''), (''tenant_id'', PStr ''t1''), (''correlation_id'', PStr ''c1''),
     (''payload'', PDict [(''document_id'', PStr ''d1''), (''text'', PStr ''Foo Labs in Berlin'')])]"


end
