(* ===== verification/Delivery.thy ===== *)
theory Delivery
  imports Pipeline
begin

text \<open>
  What the workers share beyond the dead-letter path: which failures of delivery they notice.
  The events a worker produces are flushed with a timeout, but only the dead-letter path looks at
  what the flush reports.  The locale \<open>silent_worker\<close> states this of a worker's processing, and the
  five producing workers are its interpretations.
\<close>

section \<open>Computations that do not look at a flush\<close>

fun erase_report :: "effect \<Rightarrow> effect" where
  "erase_report (Flushed n e) = Flushed 0 None"
| "erase_report e = e"

text \<open>Worlds that differ at most in what flushes report and have reported.\<close>

definition alike :: "world \<Rightarrow> world \<Rightarrow> bool" where
  "alike w v \<longleftrightarrow> (w_env w)\<lparr>env_flush := \<lambda>_. (0, None)\<rparr> = (w_env v)\<lparr>env_flush := \<lambda>_. (0, None)\<rparr>
     \<and> w_steps w = w_steps v \<and> w_cell w = w_cell v
     \<and> map erase_report (w_log w) = map erase_report (w_log v)"

definition flush_blind :: "'a eff \<Rightarrow> bool" where
  "flush_blind m \<longleftrightarrow> (\<forall>w v. alike w v \<longrightarrow> fst (m w) = fst (m v) \<and> alike (snd (m w)) (snd (m v)))"

named_theorems blind_intros \<open>computations that do not look at a flush\<close>

lemma flush_blindI:
  "(\<And>w v. alike w v \<Longrightarrow> fst (m w) = fst (m v) \<and> alike (snd (m w)) (snd (m v))) \<Longrightarrow> flush_blind m"
  by (simp add: flush_blind_def)

lemma flush_blindD: "flush_blind m \<Longrightarrow> alike w v \<Longrightarrow> fst (m w) = fst (m v) \<and> alike (snd (m w)) (snd (m v))"
  by (simp add: flush_blind_def)

lemma alike_env:
  assumes "alike w v"
  shows "env_now (w_env w) = env_now (w_env v)" "env_uuid4 (w_env w) = env_uuid4 (w_env v)"
    "env_produce (w_env w) = env_produce (w_env v)" "env_commit (w_env w) = env_commit (w_env v)"
    "env_call (w_env w) = env_call (w_env v)" "env_json_loads (w_env w) = env_json_loads (w_env v)"
    "env_uuid5 (w_env w) = env_uuid5 (w_env v)" "env_urlparse (w_env w) = env_urlparse (w_env v)"
    "w_steps w = w_steps v" "w_cell w = w_cell v"
  using assms by (cases "w_env w"; cases "w_env v"; simp add: alike_def)+

lemma alike_updates:
  assumes "alike w v"
  shows "alike (tick w) (tick v)" "alike (record_effect e w) (record_effect e v)"
    "alike (record_effect (Flushed n x) w) (record_effect (Flushed n' x') v)" "alike (w\<lparr>w_cell := c\<rparr>) (v\<lparr>w_cell := c\<rparr>)"
  using assms by (simp_all add: alike_def tick_def record_effect_def)

lemma blind_simple [blind_intros]:
  "flush_blind (eff_return x)" "flush_blind (eff_raise e)" "flush_blind (eff_lift r)" "flush_blind now" "flush_blind uuid4"
  "flush_blind (uuid5 s)" "flush_blind (json_loads b)" "flush_blind (urlparse s)" "flush_blind (set_cell c)"
  "flush_blind get_cell" "flush_blind (call_service n a)"
  by (rule flush_blindI; simp add: alike_env alike_updates now_def uuid4_def uuid5_def json_loads_def urlparse_def
      set_cell_def get_cell_def call_service_def eff_return_def eff_raise_def eff_lift_def)+

lemma blind_produce [blind_intros]: "flush_blind (produce t k p)"
  by (rule flush_blindI) (simp add: produce_def alike_env alike_updates split: option.split)

lemma blind_commit [blind_intros]: "flush_blind (commit m)"
  by (rule flush_blindI) (simp add: commit_def alike_env alike_updates split: option.split)

lemma blind_bind [blind_intros]:
  assumes "flush_blind m" and "\<And>x. flush_blind (f x)"
  shows "flush_blind (eff_bind m f)"
proof (rule flush_blindI)
  fix w v
  assume a: "alike w v"
  obtain r w1 v1 where m: "m w = (r, w1)" "m v = (r, v1)" "alike w1 v1"
    using flush_blindD [OF assms(1) a] by (metis prod.collapse)
  show "fst (eff_bind m f w) = fst (eff_bind m f v) \<and> alike (snd (eff_bind m f w)) (snd (eff_bind m f v))"
    using m flush_blindD [OF assms(2) m(3)] by (cases r) (simp_all add: eff_bind_def)
qed

lemma blind_catch [blind_intros]:
  assumes "flush_blind m" and "\<And>e. flush_blind (h e)"
  shows "flush_blind (eff_catch P m h)"
proof (rule flush_blindI)
  fix w v
  assume a: "alike w v"
  obtain r w1 v1 where m: "m w = (r, w1)" "m v = (r, v1)" "alike w1 v1"
    using flush_blindD [OF assms(1) a] by (metis prod.collapse)
  show "fst (eff_catch P m h w) = fst (eff_catch P m h v) \<and> alike (snd (eff_catch P m h w)) (snd (eff_catch P m h v))"
    using m flush_blindD [OF assms(2) m(3)] by (cases r) (simp_all add: eff_catch_def)
qed

text \<open>A flush whose report is dropped.\<close>

lemma blind_flush_then [blind_intros]: "flush_blind m \<Longrightarrow> flush_blind (eff_then flush m)"
  by (rule flush_blindI)
     (simp add: eff_bind_def flush_def Let_def flush_blindD alike_updates(3))

lemma blind_iter [blind_intros]: "(\<And>x. flush_blind (f x)) \<Longrightarrow> flush_blind (eff_iter f xs)"
  by (induction xs) (auto intro: blind_intros)

lemma blind_cases [blind_intros]:
  "(b \<Longrightarrow> flush_blind m) \<Longrightarrow> (\<not> b \<Longrightarrow> flush_blind n) \<Longrightarrow> flush_blind (if b then m else n)"
  "(\<And>x y. flush_blind (g x y)) \<Longrightarrow> flush_blind (case p of (x, y) \<Rightarrow> g x y)"
  by (simp_all split: prod.split)

section \<open>Workers that do not look\<close>

locale silent_worker = worker process dlq_topic origin failed_event key_of
  for process :: "kafka_message \<Rightarrow> unit eff" and dlq_topic and origin and failed_event and key_of +
  assumes process_blind: "flush_blind (process m)"
begin

lemma committed_regardless:
  assumes "process m w = (Inr (), w1)" and "alike w v"
    and "handle_message m (dlq_topic m) (process m) origin failed_event key_of w = (Inr (), w')"
  obtains v' where "handle_message m (dlq_topic m) (process m) origin failed_event key_of v = (Inr (), v')"
    and "alike w' v'" and "\<exists>es. w_log v' = es @ [Committed m]"
proof -
  let ?c = "eff_then (process m) (commit m)"
  have c: "handle_message m (dlq_topic m) (process m) origin failed_event key_of u = ?c u"
    if "fst (process m u) = Inr ()" for u
    using that by (cases "process m u") (simp add: handle_message_def eff_bind_def eff_catch_def)
  have pv: "fst (process m v) = Inr ()" using flush_blindD [OF process_blind [of m] assms(2)] assms(1) by simp
  have "flush_blind ?c" by (intro blind_intros process_blind [of m])
  from flush_blindD [OF this assms(2)] have r: "fst (?c v) = Inr ()" "alike w' (snd (?c v))"
    using assms(1,3) c [of w] by simp_all
  then have "\<exists>es. w_log (snd (?c v)) = es @ [Committed m]"
    using pv by (cases "process m v") (auto simp: eff_bind_def commit_def record_effect_def split: option.splits)
  with r c [OF pv] that [of "snd (?c v)"] show thesis by (metis prod.collapse)
qed

end

lemma blind_publish [blind_intros]: "flush_blind (publish_event t k e)" "flush_blind (worker_envelope a b c d e' f g)"
  "flush_blind (common_properties s)" "flush_blind (publish t' k' ev)"
  unfolding publish_event_def worker_envelope_def common_properties_def publish_def
  by (intro blind_intros)+

lemma blind_claim: "flush_blind (claim_process m)"
  unfolding claim_process_def claim_envelope_def claim_graph_mutations_def publish_claim_mutation_def Let_def
  by (intro blind_intros)

lemma blind_entity: "flush_blind (entity_process m)"
proof -
  have "flush_blind (entity_graph_events source r)" for source r
    unfolding entity_graph_events_def by (intro blind_intros)
  then show ?thesis
    unfolding entity_process_def publish_resolution_def publish_entity_mutation_def entity_envelope_def relation_graph_events_def
    by (intro blind_intros)
qed

lemma blind_graph: "flush_blind (eff_then (set_cell PNone) (graph_process m))"
proof -
  have "flush_blind (parse_event raw)" for raw
    unfolding parse_event_def by (intro blind_intros) (auto split: pyval.split intro!: blind_intros)
  then show ?thesis unfolding graph_process_def execute_write_def completion_event_def by (intro blind_intros)
qed

lemma blind_velato: "flush_blind (velato_process pw pol m)"
  unfolding velato_process_def by (intro blind_intros)

lemma blind_nlp: "flush_blind (nlp_process m)"
proof -
  have "flush_blind (read_object u)" for u
    unfolding read_object_def Let_def by (intro blind_intros)
  then have "flush_blind (nlp_load_text payload)" for payload
    unfolding nlp_load_text_def by (intro blind_bind blind_simple) (auto split: pyval.split intro!: blind_intros)
  then show ?thesis
    unfolding nlp_process_def publish_extraction_def graph_base_mutations_def publish_base_mutation_def
      publish_mention_def publish_claim_def publish_relation_def send_def nlp_envelope_def Let_def
    by (intro blind_intros)
qed

interpretation silent_claim: silent_worker claim_process "\<lambda>_. CLAIM_DLQ_TOPIC" "''claim-intelligence''" None None
  by unfold_locales (rule blind_claim)

interpretation silent_entity: silent_worker entity_process source_dlq_topic "''entity-resolution''" None None
  by unfold_locales (rule blind_entity)

interpretation silent_graph: silent_worker "\<lambda>m. eff_then (set_cell PNone) (graph_process m)" "\<lambda>_. GRAPH_DLQ_TOPIC"
    "''graph-projector''" "Some graph_failed_event" "Some graph_dlq_key"
  by unfold_locales (rule blind_graph)

interpretation silent_velato: silent_worker "velato_process pw pol" "\<lambda>_. VELATO_DLQ_TOPIC" "''velato-engine''" None None for pw pol
  by unfold_locales (rule blind_velato)

interpretation silent_nlp: silent_worker nlp_process "\<lambda>_. NLP_DLQ_TOPIC" "''nlp-pipeline''" None None
  by unfold_locales (rule blind_nlp)

section \<open>Lost events\<close>

text \<open>The same world, but no flush confirms anything.\<close>

definition unconfirmed :: "world \<Rightarrow> world" where
  "unconfirmed w = w\<lparr>w_env := (w_env w)\<lparr>env_flush := \<lambda>_. (1, Some ''Local: Message timed out'')\<rparr>\<rparr>"

lemma alike_unconfirmed: "alike w (unconfirmed w)"
  by (simp add: alike_def unconfirmed_def)

text \<open>C21. A worker commits its message whether or not what it produced was delivered: when it
  processes a message and commits it, it does the same, with the same events, where every flush
  times out and reports the events as undelivered.  The offset then moves on, so the events are
  lost.  This holds of all five producing workers, in contrast to the dead-letter path.\<close>

theorem commits_unconfirmed:
  assumes "(process, handle) \<in> {(claim_process, claim_handle), (entity_process, entity_handle), (nlp_process, nlp_handle),
      (velato_process pw pol, velato_handle pw pol), (\<lambda>m. eff_then (set_cell PNone) (graph_process m), graph_handle)}"
    and "process m w = (Inr (), w1)" and "handle m w = (Inr (), w')"
  shows "\<exists>v'. handle m (unconfirmed w) = (Inr (), v')
    \<and> map erase_report (w_log v') = map erase_report (w_log w') \<and> (\<exists>es. w_log v' = es @ [Committed m])"
proof -
  have "\<exists>v'. handle m (unconfirmed w) = (Inr (), v') \<and> alike w' v' \<and> (\<exists>es. w_log v' = es @ [Committed m])"
    using assms(1)
  proof (elim insertE emptyE Pair_inject)
    assume p: "process = claim_process" "handle = claim_handle"
    from silent_claim.committed_regardless [OF assms(2) [unfolded p(1)] alike_unconfirmed assms(3) [unfolded p(2) claim_handle_def]]
    show ?thesis unfolding p(2) claim_handle_def by metis
  next
    assume p: "process = entity_process" "handle = entity_handle"
    from silent_entity.committed_regardless [OF assms(2) [unfolded p(1)] alike_unconfirmed assms(3) [unfolded p(2) entity_handle_def]]
    show ?thesis unfolding p(2) entity_handle_def by metis
  next
    assume p: "process = nlp_process" "handle = nlp_handle"
    from silent_nlp.committed_regardless [OF assms(2) [unfolded p(1)] alike_unconfirmed assms(3) [unfolded p(2) nlp_handle_def]]
    show ?thesis unfolding p(2) nlp_handle_def by metis
  next
    assume p: "process = velato_process pw pol" "handle = velato_handle pw pol"
    from silent_velato.committed_regardless [OF assms(2) [unfolded p(1)] alike_unconfirmed assms(3) [unfolded p(2) velato_handle_def]]
    show ?thesis unfolding p(2) velato_handle_def by metis
  next
    assume p: "process = (\<lambda>m. eff_then (set_cell PNone) (graph_process m))" "handle = graph_handle"
    from silent_graph.committed_regardless [OF assms(2) [unfolded p(1)] alike_unconfirmed assms(3) [unfolded p(2) graph_handle_def]]
    show ?thesis unfolding p(2) graph_handle_def by metis
  qed
  then show ?thesis unfolding alike_def by metis
qed

theorem commits_unconfirmed_witness:
  "\<exists>v' es. entity_handle (message_of ''entity.mention-extracted.v1'' [1])
      (unconfirmed (fresh_world (calm_env (loads_one (PDict sample_mention_event))))) = (Inr (), v')
    \<and> w_log v' = es @ [Committed (message_of ''entity.mention-extracted.v1'' [1])]"
proof -
  let ?m = "message_of ''entity.mention-extracted.v1'' [1]"
  let ?w = "fresh_world (calm_env (loads_one (PDict sample_mention_event)))"
  have "is_ok (fst (entity_process ?m ?w))" "is_ok (fst (entity_handle ?m ?w))" by code_simp+
  then obtain w1 w' where "entity_process ?m ?w = (Inr (), w1)" "entity_handle ?m ?w = (Inr (), w')"
    by (auto simp: is_ok_iff) (metis prod.collapse)
  from commits_unconfirmed [where process = entity_process and handle = entity_handle and m = ?m and w = ?w, OF _ this]
  show ?thesis by blast
qed

section \<open>Blocked partitions\<close>

lemma raise_decoded:
  assumes "env_json_loads (w_env w) b = Inr source" and "fst (f source w) = Inl e"
  shows "fst (eff_bind (json_loads b) f w) = Inl e"
  using assms by (simp add: eff_bind_def json_loads_def)

lemma no_payload_raises:
  assumes "env_json_loads (w_env w) (km_value m) = Inr (PDict d)" and "dict_get d ''payload'' = None"
  shows "\<exists>e. fst (claim_process m w) = Inl e \<and> \<not> is_value_error (exn_cls e)"
    and "\<exists>e. fst (nlp_process m w) = Inl e \<and> \<not> is_value_error (exn_cls e)"
    and "\<exists>e. fst (velato_process pw pol m w) = Inl e \<and> \<not> is_value_error (exn_cls e)"
    and "\<exists>e. fst (entity_process m w) = Inl e \<and> \<not> is_value_error (exn_cls e)"
  using assms
  by (auto simp: claim_process_def nlp_process_def velato_process_def entity_process_def publish_resolution_def
      payload_field_def eff_bind_def json_loads_def eff_lift_def split: option.split)

text \<open>An event without a payload stops a worker for good: its KeyError is no value error, so the
  message is never isolated, and through any number of crashes and restarts neither it nor any
  message behind it is ever committed.\<close>

theorem missing_payload_blocks:
  assumes "handle \<in> {claim_handle, entity_handle, nlp_handle, velato_handle pw pol}"
    and "env_json_loads env (km_value m) = Inr (PDict d)" and "dict_get d ''payload'' = None"
    and "consumer_run handle (m # msgs) (consumer_init env) s"
  shows "cs_next s = 0 \<and> filter is_commit (w_log (cs_world s)) = []"
proof -
  note stuck = no_payload_raises [OF _ assms(3), of _ m]
  have h: "claim_handle = (\<lambda>m. handle_message m CLAIM_DLQ_TOPIC (claim_process m) ''claim-intelligence'' None None)"
    "entity_handle = (\<lambda>m. handle_message m (source_dlq_topic m) (entity_process m) ''entity-resolution'' None None)"
    "nlp_handle = (\<lambda>m. handle_message m NLP_DLQ_TOPIC (nlp_process m) ''nlp-pipeline'' None None)"
    "velato_handle pw pol = (\<lambda>m. handle_message m VELATO_DLQ_TOPIC (velato_process pw pol m) ''velato-engine'' None None)"
    by (simp_all add: fun_eq_iff claim_handle_def entity_handle_def nlp_handle_def velato_handle_def)
  show ?thesis
    using assms(1)
  proof (elim insertE emptyE)
    assume p: "handle = claim_handle"
    from claim.run_stuck [OF assms(4) [unfolded p h] stuck(1)] assms(2) show ?thesis by simp
  next
    assume p: "handle = entity_handle"
    from entity.run_stuck [OF assms(4) [unfolded p h] stuck(4)] assms(2) show ?thesis by simp
  next
    assume p: "handle = nlp_handle"
    from nlp.run_stuck [OF assms(4) [unfolded p h] stuck(2)] assms(2) show ?thesis by simp
  next
    assume p: "handle = velato_handle pw pol"
    from velato.run_stuck [OF assms(4) [unfolded p h] stuck(3)] assms(2) show ?thesis by simp
  qed
qed

theorem missing_payload_blocks_witness:
  "consumer_run claim_handle [message_of ''claim.extracted.v1'' [1]] (consumer_init (calm_env (loads_one (PDict []))))
     (consumer_init (calm_env (loads_one (PDict []))))
   \<and> (\<nexists>s. consumer_run claim_handle [message_of ''claim.extracted.v1'' [1]]
        (consumer_init (calm_env (loads_one (PDict [])))) s \<and> cs_next s = 1)"
proof
  show "consumer_run claim_handle [message_of ''claim.extracted.v1'' [1]] (consumer_init (calm_env (loads_one (PDict []))))
     (consumer_init (calm_env (loads_one (PDict []))))" by (rule start)
  have "cs_next s = 0" if "consumer_run claim_handle [message_of ''claim.extracted.v1'' [1]]
      (consumer_init (calm_env (loads_one (PDict [])))) s" for s
    using missing_payload_blocks [OF _ _ _ that, where d = "[]"]
    by (simp add: calm_env_def loads_one_def message_of_def)
  then show "\<nexists>s. consumer_run claim_handle [message_of ''claim.extracted.v1'' [1]]
        (consumer_init (calm_env (loads_one (PDict [])))) s \<and> cs_next s = 1" by fastforce
qed

end
