(* ===== verification/GraphAnalytics.thy ===== *)
theory GraphAnalytics
  imports Events
begin

text \<open>
  \<open>services/graph-analytics/app.py\<close> and \<open>worker.py\<close>: the centrality of an entity, measured with the
  graph data science library or counted, and the signal made of it.  The database is a service
  whose answers are arbitrary: a record or none.  What is shown: what a result looks like, that a
  projected graph is always dropped, that every query about data carries the tenant, and what an
  unknown entity does to the worker.
\<close>

section \<open>Requests and results\<close>

record analysis_request =
  ar_tenant_id :: string
  ar_entity_id :: string
  ar_lookback_days :: int

text \<open>What the request model takes for an integer: integers, booleans, and floats and texts whose
  fraction is zero.\<close>

definition integer_text :: "string \<Rightarrow> int option" where
  "integer_text s = (let a = takeWhile (\<lambda>c. c \<noteq> CHR ''.'') s; b = drop (Suc (length a)) s
     in if list_all (\<lambda>c. c = CHR ''0'') (rstrip b) then parse_int (strip a) else None)"

definition model_int :: "pyval \<Rightarrow> int option" where
  "model_int v = (case v of PInt i \<Rightarrow> Some i | PBool b \<Rightarrow> Some (if b then 1 else 0)
     | PFloat f \<Rightarrow> if fl_is_integer f then Some \<lfloor>fl_val f\<rfloor> else None
     | PStr s \<Rightarrow> integer_text s | _ \<Rightarrow> None)"

definition text_within :: "nat \<Rightarrow> pyval \<Rightarrow> string option" where
  "text_within n v = (case v of PStr s \<Rightarrow> if s \<noteq> [] \<and> length s \<le> n then Some s else None | _ \<Rightarrow> None)"

definition make_request :: "pyval \<Rightarrow> pyval \<Rightarrow> pyval \<Rightarrow> analysis_request res" where
  "make_request tenant_id entity_id lookback_days =
     (case (text_within 128 tenant_id, text_within 256 entity_id, model_int lookback_days) of
        (Some t, Some e, Some d) \<Rightarrow>
          if 1 \<le> d \<and> d \<le> 365 then Inr \<lparr>ar_tenant_id = t, ar_entity_id = e, ar_lookback_days = d\<rparr>
          else Inl (Exn ValidationError ''lookback_days'')
      | _ \<Rightarrow> Inl (Exn ValidationError ''AnalysisRequest''))"

record analysis_result =
  an_entity_id :: string
  an_graph_centrality :: pyfloat
  an_source_diversity :: int
  an_relationship_changes :: int
  an_method :: string
  an_evidence_path_ids :: "pyval list"
  an_explanation :: "string list"

definition is_text :: "pyval \<Rightarrow> bool" where
  "is_text v = (case v of PStr _ \<Rightarrow> True | _ \<Rightarrow> False)"

definition result_ok :: "analysis_result \<Rightarrow> bool" where
  "result_ok r = (fl_le (Fin 0) (an_graph_centrality r) \<and> 0 \<le> an_source_diversity r \<and> 0 \<le> an_relationship_changes r
     \<and> list_all is_text (an_evidence_path_ids r))"

section \<open>Queries\<close>

text \<open>\<open>session.run(query, parameters)\<close>; \<open>single()\<close> of it is a record, or none.\<close>

definition run_query :: "string \<Rightarrow> pydict \<Rightarrow> pyval eff" where
  "run_query query parameters = call_service ''neo4j.run'' (PDict [(''query'', PStr query), (''parameters'', PDict parameters)])"

definition record_of :: "pyval \<Rightarrow> pydict" where
  "record_of v = (case v of PDict d \<Rightarrow> d | _ \<Rightarrow> [])"

definition query_one :: "string \<Rightarrow> pydict \<Rightarrow> pydict eff" where
  "query_one query parameters = eff_bind (run_query query parameters) (\<lambda>v. eff_return (record_of v))"

definition VERSION_QUERY :: string where
  "VERSION_QUERY = ''CALL gds.version() YIELD version RETURN version''"

definition PROJECT_QUERY :: string where
  "PROJECT_QUERY = ''CALL gds.graph.project.cypher($graph_name, $node_query, $relationship_query, ''
     @ ''{parameters: {tenant_id: $tenant_id}}) YIELD graphName''"

definition STREAM_QUERY :: string where
  "STREAM_QUERY = ''CALL gds.degree.stream($graph_name) YIELD nodeId, score ''
     @ ''WITH gds.util.asNode(nodeId) AS node, score WHERE node.stable_id = $entity_id RETURN score''"

definition DROP_QUERY :: string where
  "DROP_QUERY = ''CALL gds.graph.drop($graph_name, false)''"

definition NODE_QUERY :: string where
  "NODE_QUERY = ''MATCH (n:Entity) WHERE n.tenant_id = $tenant_id RETURN id(n) AS id''"

definition RELATIONSHIP_QUERY :: string where
  "RELATIONSHIP_QUERY = ''MATCH (a:Entity)-[r]-(b:Entity) WHERE a.tenant_id = $tenant_id AND b.tenant_id = $tenant_id ''
     @ ''RETURN id(a) AS source, id(b) AS target''"

definition FALLBACK_QUERY :: string where
  "FALLBACK_QUERY = ''MATCH (entity:Entity {stable_id: $entity_id})-[relationship]-() ''
     @ ''WHERE entity.tenant_id = $tenant_id RETURN count(relationship) AS score''"

definition ENTITY_QUERY :: string where
  "ENTITY_QUERY = ''MATCH (entity:Entity {stable_id: $entity_id, tenant_id: $tenant_id}) RETURN entity.stable_id AS stable_id''"

text \<open>The text of the metrics query, without its line breaks.\<close>

definition METRICS_QUERY :: string where
  "METRICS_QUERY = ''MATCH (entity:Entity {stable_id: $entity_id, tenant_id: $tenant_id}) ''
     @ ''OPTIONAL MATCH (article:Article)-[:MENTIONS|ABOUT|AFFECTS]->(entity) ''
     @ ''OPTIONAL MATCH (article)-[:PUBLISHED]->(source:Source) ''
     @ ''WITH entity, count(DISTINCT source) AS source_diversity ''
     @ ''OPTIONAL MATCH (entity)-[relationship]-() ''
     @ ''WHERE relationship.observed_at >= datetime() - duration({days: $lookback_days}) ''
     @ ''RETURN source_diversity, count(DISTINCT relationship) AS relationship_changes, ''
     @ ''collect(DISTINCT relationship.stable_id)[0..50] AS evidence_path_ids''"

section \<open>Centrality\<close>

definition is_graph_char :: "char \<Rightarrow> bool" where
  "is_graph_char c = (let n = (of_char c :: int)
     in 48 \<le> n \<and> n \<le> 57 \<or> 65 \<le> n \<and> n \<le> 90 \<or> 97 \<le> n \<and> n \<le> 122 \<or> c = CHR ''_'')"

text \<open>The first eight digits of a random identifier come before its first hyphen.\<close>

definition sanitize_graph_name :: "string \<Rightarrow> string eff" where
  "sanitize_graph_name tenant_id = eff_bind uuid4 (\<lambda>u. eff_return
     (''signalchord_'' @ take 48 (sub_chars (\<lambda>c. \<not> is_graph_char c) (CHR ''_'') tenant_id) @ ''_'' @ take 8 u))"

text \<open>\<open>try: m finally: f\<close>\<close>

definition eff_finally :: "'a eff \<Rightarrow> unit eff \<Rightarrow> 'a eff" where
  "eff_finally m f w = (case m w of (r, w1) \<Rightarrow> (case f w1 of (Inl e, w2) \<Rightarrow> (Inl e, w2) | (Inr _, w2) \<Rightarrow> (r, w2)))"

definition any_error :: "exn_class \<Rightarrow> bool" where
  "any_error c = True"

definition gds_available :: "bool eff" where
  "gds_available = eff_catch any_error
     (eff_bind (query_one VERSION_QUERY []) (\<lambda>row. eff_return (truthy (dict_get_or row ''version'' PNone))))
     (\<lambda>_. eff_return False)"

definition drop_graph :: "string \<Rightarrow> unit eff" where
  "drop_graph graph_name = eff_catch any_error
     (eff_bind (run_query DROP_QUERY [(''graph_name'', PStr graph_name)]) (\<lambda>_. eff_return ())) (\<lambda>_. eff_return ())"

definition project_graph :: "string \<Rightarrow> string \<Rightarrow> pyval eff" where
  "project_graph graph_name tenant_id = run_query PROJECT_QUERY
     [(''graph_name'', PStr graph_name), (''node_query'', PStr NODE_QUERY),
      (''relationship_query'', PStr RELATIONSHIP_QUERY), (''tenant_id'', PStr tenant_id)]"

definition gds_degree :: "string \<Rightarrow> string \<Rightarrow> pyfloat eff" where
  "gds_degree tenant_id entity_id =
     eff_bind (sanitize_graph_name tenant_id) (\<lambda>graph_name.
       eff_finally
         (eff_then (project_graph graph_name tenant_id)
           (eff_bind (query_one STREAM_QUERY [(''graph_name'', PStr graph_name), (''entity_id'', PStr entity_id)]) (\<lambda>row.
             if row = [] then eff_return (Fin 0)
             else eff_bind (eff_lift (field (PDict row) ''score'')) (\<lambda>score. eff_lift (py_float score)))))
         (drop_graph graph_name))"

definition fallback_degree :: "string \<Rightarrow> string \<Rightarrow> pyfloat eff" where
  "fallback_degree tenant_id entity_id =
     eff_bind (query_one FALLBACK_QUERY [(''tenant_id'', PStr tenant_id), (''entity_id'', PStr entity_id)]) (\<lambda>row.
       eff_lift (py_float (dict_get_or row ''score'' (PInt 0))))"

definition centrality_of :: "string \<Rightarrow> string \<Rightarrow> (pyfloat \<times> string) eff" where
  "centrality_of tenant_id entity_id =
     eff_bind gds_available (\<lambda>available.
       if available then
         eff_catch any_error (eff_bind (gds_degree tenant_id entity_id) (\<lambda>c. eff_return (c, ''neo4j-gds-degree'')))
           (\<lambda>_. eff_bind (fallback_degree tenant_id entity_id) (\<lambda>c. eff_return (c, ''cypher-degree-fallback-after-gds-error'')))
       else eff_bind (fallback_degree tenant_id entity_id) (\<lambda>c. eff_return (c, ''cypher-degree-fallback'')))"

definition request_dump :: "analysis_request \<Rightarrow> pydict" where
  "request_dump request = [(''tenant_id'', PStr (ar_tenant_id request)), (''entity_id'', PStr (ar_entity_id request)),
     (''lookback_days'', PInt (ar_lookback_days request))]"

definition make_result :: "analysis_request \<Rightarrow> pyfloat \<Rightarrow> string \<Rightarrow> pydict \<Rightarrow> analysis_result res" where
  "make_result request centrality method metrics =
     res_bind (py_int (dict_get_or metrics ''source_diversity'' (PInt 0))) (\<lambda>source_diversity.
     res_bind (py_int (dict_get_or metrics ''relationship_changes'' (PInt 0))) (\<lambda>relationship_changes.
     res_bind (py_iter (dict_get_or metrics ''evidence_path_ids'' (PList []))) (\<lambda>values.
       let r = \<lparr>an_entity_id = ar_entity_id request, an_graph_centrality = centrality,
          an_source_diversity = source_diversity, an_relationship_changes = relationship_changes, an_method = method,
          an_evidence_path_ids = filter truthy values,
          an_explanation = [''Centrality was calculated with '' @ method @ ''.'',
            ''The entity is linked to '' @ show_int source_diversity @ '' distinct sources.'',
            show_int relationship_changes @ '' relationship observations occurred in the last ''
              @ show_int (ar_lookback_days request) @ '' days.'']\<rparr>
       in if result_ok r then Inr r else Inl (Exn ValidationError ''AnalysisResult''))))"

definition analyze_entity :: "analysis_request \<Rightarrow> analysis_result eff" where
  "analyze_entity request =
     eff_bind (query_one ENTITY_QUERY (request_dump request)) (\<lambda>entity.
     if entity = [] then eff_raise (Exn HTTPException ''404: entity_not_found'')
     else eff_bind (centrality_of (ar_tenant_id request) (ar_entity_id request)) (\<lambda>cm.
       eff_bind (query_one METRICS_QUERY (request_dump request)) (\<lambda>metrics.
         eff_lift (make_result request (fst cm) (snd cm) metrics))))"

section \<open>The worker\<close>

definition ANALYTICS_INPUT_TOPIC :: string where "ANALYTICS_INPUT_TOPIC = ''graph.analytics-requested.v1''"
definition ANALYTICS_DLQ_TOPIC :: string where "ANALYTICS_DLQ_TOPIC = ANALYTICS_INPUT_TOPIC @ ''.dlq''"

definition request_of :: "pyval \<Rightarrow> analysis_request res" where
  "request_of source =
     res_bind (field source ''tenant_id'') (\<lambda>tenant_id.
     res_bind (field source ''payload'') (\<lambda>payload.
     res_bind (field payload ''entity_id'') (\<lambda>entity_id.
     res_bind (py_get payload ''lookback_days'' (PInt 7)) (\<lambda>lookback_days. make_request tenant_id entity_id lookback_days))))"

definition result_dump :: "analysis_result \<Rightarrow> pydict" where
  "result_dump r = [(''entity_id'', PStr (an_entity_id r)), (''graph_centrality'', PFloat (an_graph_centrality r)),
     (''source_diversity'', PInt (an_source_diversity r)), (''relationship_changes'', PInt (an_relationship_changes r)),
     (''method'', PStr (an_method r)), (''evidence_path_ids'', PList (an_evidence_path_ids r)),
     (''explanation'', PList (map PStr (an_explanation r)))]"

definition signal_event :: "pyval \<Rightarrow> analysis_request \<Rightarrow> string \<Rightarrow> string \<Rightarrow> pyval \<Rightarrow> pydict res" where
  "signal_event source request t u payload = res_dict
     [(''event_id'', const (PStr u)), (''event_type'', const (PStr ''intelligence.signal-created.v1'')),
      (''schema_version'', const (PInt 1)), (''tenant_id'', field source ''tenant_id''),
      (''occurred_at'', py_get source ''occurred_at'' (PStr t)), (''ingested_at'', const (PStr t)),
      (''correlation_id'', field source ''correlation_id''), (''causation_id'', field source ''event_id''),
      (''origin'', const (PStr ''graph-analytics'')), (''processing_stage'', const (PStr ''graph-analytics'')),
      (''idempotency_key'', res_bind (field source ''event_id'') (\<lambda>i.
         Inr (PStr (''graph-analytics:'' @ ar_entity_id request @ '':'' @ py_str i @ '':1.0.0'')))),
      (''payload'', const payload)]"

definition publish_signal :: "pyval \<Rightarrow> analysis_request \<Rightarrow> analysis_result \<Rightarrow> unit eff" where
  "publish_signal source request result =
     eff_bind now (\<lambda>t.
     eff_bind (eff_lift (field source ''event_id'')) (\<lambda>i.
     eff_bind (uuid5 (ar_tenant_id request @ '':'' @ ar_entity_id request @ '':'' @ py_str i)) (\<lambda>signal_id.
     eff_bind uuid4 (\<lambda>u.
     eff_bind (eff_lift (signal_event source request t u (PDict (dict_merge (result_dump result)
         [(''signal_id'', PStr signal_id), (''algorithm_version'', PStr ''1.0.0'')])))) (\<lambda>event.
     eff_then (produce ''intelligence.signal-created.v1'' (Some (utf8_encode (ar_entity_id request))) (Json (PDict event)))
       (eff_then flush (eff_return ())))))))"

definition analytics_process :: "kafka_message \<Rightarrow> unit eff" where
  "analytics_process message =
     eff_bind (json_loads (km_value message)) (\<lambda>source.
     eff_bind (eff_lift (request_of source)) (\<lambda>request.
     eff_bind (analyze_entity request) (\<lambda>result. publish_signal source request result)))"

definition analytics_handle :: "kafka_message \<Rightarrow> unit eff" where
  "analytics_handle message = handle_message message ANALYTICS_DLQ_TOPIC (analytics_process message) ''graph-analytics'' None None"

section \<open>Results\<close>

definition METHODS :: "string list" where
  "METHODS = [''neo4j-gds-degree'', ''cypher-degree-fallback-after-gds-error'', ''cypher-degree-fallback'']"

lemma eff_catch_Inr:
  "eff_catch P m h w = (Inr x, w') \<longleftrightarrow>
   m w = (Inr x, w') \<or> (\<exists>e w1. m w = (Inl e, w1) \<and> P (exn_cls e) \<and> h e w1 = (Inr x, w'))"
  by (auto simp: eff_catch_def split: prod.splits sum.splits)

lemma centrality_method: "centrality_of t i w = (Inr (c, method), w') \<Longrightarrow> method \<in> set METHODS"
  by (auto simp: centrality_of_def METHODS_def eff_bind_Inr eff_catch_Inr split: if_splits)

lemma make_result_Inr:
  "make_result request c method metrics = Inr r \<Longrightarrow> result_ok r \<and> an_entity_id r = ar_entity_id request \<and> an_method r = method
     \<and> list_all truthy (an_evidence_path_ids r)"
  by (auto simp: make_result_def res_simps Let_def list_all_iff split: if_splits)

lemma quiet_query [quiet_intros]: "quiet (query_one q ps)" "quiet (run_query q ps)"
  unfolding query_one_def run_query_def by (intro quiet_intros)+

lemma quiet_finally [quiet_intros]:
  assumes "quiet m" and "quiet f"
  shows "quiet (eff_finally m f)"
proof (rule quietI)
  fix w r w'
  assume h: "eff_finally m f w = (r, w')"
  obtain s w1 where m: "m w = (s, w1)" by fastforce
  obtain t w2 where f: "f w1 = (t, w2)" by fastforce
  have "w' = w2" using h m f by (auto simp: eff_finally_def split: sum.splits)
  moreover obtain es where "w_env w1 = w_env w" "w_log w1 = w_log w @ es" "\<forall>e\<in>set es. \<not> is_commit e"
    using quietD [OF assms(1) m] .
  moreover obtain es' where "w_env w2 = w_env w1" "w_log w2 = w_log w1 @ es'" "\<forall>e\<in>set es'. \<not> is_commit e"
    using quietD [OF assms(2) f] .
  ultimately show "w_env w' = w_env w \<and> (\<exists>es. w_log w' = w_log w @ es \<and> (\<forall>e\<in>set es. \<not> is_commit e))"
    by (intro conjI exI [of _ "es @ es'"]) auto
qed

lemma quiet_analysis [quiet_intros]:
  "quiet gds_available" "quiet (gds_degree t i)" "quiet (fallback_degree t i)" "quiet (drop_graph g)"
  unfolding gds_available_def gds_degree_def fallback_degree_def drop_graph_def sanitize_graph_name_def project_graph_def
  by (intro quiet_intros)+

lemma quiet_analyze [quiet_intros]: "quiet (analyze_entity request)"
  unfolding analyze_entity_def centrality_of_def by (intro quiet_intros)

lemma quiet_analytics_process: "quiet (analytics_process m)"
  unfolding analytics_process_def publish_signal_def by (intro quiet_intros)

interpretation analytics: worker analytics_process "\<lambda>_. ANALYTICS_DLQ_TOPIC" "''graph-analytics''" None None
  by unfold_locales (simp_all add: quiet_analytics_process quiet_option_def)

section \<open>Every query carries the tenant\<close>

text \<open>A query with its parameters.\<close>

fun query_of :: "effect \<Rightarrow> (string \<times> pydict) option" where
  "query_of (Called name (PDict [(_, PStr q), (_, PDict ps)])) = (if name = ''neo4j.run'' then Some (q, ps) else None)"
| "query_of _ = None"

text \<open>A read of the graph for a tenant: the tenant is the parameter, and the entity that the text matches
  is restricted to it.\<close>

definition tenant_read :: "string \<Rightarrow> string \<Rightarrow> pydict \<Rightarrow> bool" where
  "tenant_read t q ps \<longleftrightarrow> dict_get ps ''tenant_id'' = Some (PStr t)
     \<and> (startswith q ''MATCH (entity:Entity {stable_id: $entity_id, tenant_id: $tenant_id})''
        \<or> startswith q ''MATCH (entity:Entity {stable_id: $entity_id})'' \<and> contains q ''WHERE entity.tenant_id = $tenant_id'')"

text \<open>A projection of the graph of a tenant: the two queries that choose its nodes and relationships
  restrict every node to the tenant, which is handed on to them.\<close>

definition tenant_projection :: "string \<Rightarrow> string \<Rightarrow> pydict \<Rightarrow> bool" where
  "tenant_projection t q ps \<longleftrightarrow> dict_get ps ''tenant_id'' = Some (PStr t)
     \<and> startswith q ''CALL gds.graph.project.cypher($graph_name, $node_query, $relationship_query, {parameters: {tenant_id: $tenant_id}})''
     \<and> (\<exists>nq rq. dict_get ps ''node_query'' = Some (PStr nq) \<and> dict_get ps ''relationship_query'' = Some (PStr rq)
          \<and> contains nq ''(n:Entity) WHERE n.tenant_id = $tenant_id RETURN''
          \<and> contains rq ''(a:Entity)-[r]-(b:Entity) WHERE a.tenant_id = $tenant_id AND b.tenant_id = $tenant_id RETURN'')"

text \<open>The reading or dropping of a projected graph by its name.\<close>

definition uses_graph :: "pyval \<Rightarrow> string \<Rightarrow> pydict \<Rightarrow> bool" where
  "uses_graph g q ps \<longleftrightarrow> dict_get ps ''graph_name'' = Some g
     \<and> (startswith q ''CALL gds.degree.stream($graph_name)'' \<or> startswith q ''CALL gds.graph.drop($graph_name'')"

text \<open>What an entry of the log may be after the entries before it: the version of the library, a read or
  a projection for the tenant, or the use of a graph whose projection for the tenant is among the
  entries before.\<close>

definition projected_for :: "string \<Rightarrow> pyval \<Rightarrow> effect \<Rightarrow> bool" where
  "projected_for t g e = (case query_of e of
     Some (q, ps) \<Rightarrow> tenant_projection t q ps \<and> dict_get ps ''graph_name'' = Some g | None \<Rightarrow> False)"

definition entry_scoped :: "string \<Rightarrow> effect list \<Rightarrow> effect \<Rightarrow> bool" where
  "entry_scoped t earlier e = (case query_of e of
     Some (q, ps) \<Rightarrow> q = ''CALL gds.version() YIELD version RETURN version'' \<or> tenant_read t q ps \<or> tenant_projection t q ps
       \<or> (\<exists>g. uses_graph g q ps \<and> list_ex (projected_for t g) earlier)
   | None \<Rightarrow> False)"

fun scoped_after :: "string \<Rightarrow> effect list \<Rightarrow> effect list \<Rightarrow> bool" where
  "scoped_after t earlier [] = True"
| "scoped_after t earlier (e # es) = (entry_scoped t earlier e \<and> scoped_after t (earlier @ [e]) es)"

lemma entry_scoped_mono: "entry_scoped t a e \<Longrightarrow> set a \<subseteq> set b \<Longrightarrow> entry_scoped t b e"
  by (auto simp: entry_scoped_def list_ex_iff split: option.splits)

lemma scoped_after_mono: "scoped_after t a es \<Longrightarrow> set a \<subseteq> set b \<Longrightarrow> scoped_after t b es"
proof (induction es arbitrary: a b)
  case (Cons e es)
  have "scoped_after t (b @ [e]) es" by (rule Cons.IH [of "a @ [e]"]) (use Cons.prems in auto)
  then show ?case using Cons.prems entry_scoped_mono [of t a e b] by simp
qed simp

lemma scoped_after_append: "scoped_after t a (xs @ ys) \<longleftrightarrow> scoped_after t a xs \<and> scoped_after t (a @ xs) ys"
  by (induction xs arbitrary: a) auto

lemma scoped_after_all: "\<forall>e\<in>set es. entry_scoped t a e \<Longrightarrow> scoped_after t a es"
proof (induction es arbitrary: a)
  case (Cons e es)
  then have "\<forall>x\<in>set es. entry_scoped t (a @ [e]) x" using entry_scoped_mono [of t a _ "a @ [e]"] by auto
  then show ?case using Cons by simp
qed simp

text \<open>Computations whose log has a property that concatenation keeps.\<close>

definition logs :: "(effect list \<Rightarrow> bool) \<Rightarrow> 'a eff \<Rightarrow> bool" where
  "logs P m \<longleftrightarrow> (\<forall>w r w'. m w = (r, w') \<longrightarrow> (\<exists>es. w_log w' = w_log w @ es \<and> P es))"

lemma logsI: "(\<And>w r w'. m w = (r, w') \<Longrightarrow> \<exists>es. w_log w' = w_log w @ es \<and> P es) \<Longrightarrow> logs P m"
  by (simp add: logs_def)

lemma logsD: "logs P m \<Longrightarrow> m w = (r, w') \<Longrightarrow> \<exists>es. w_log w' = w_log w @ es \<and> P es"
  by (simp add: logs_def)

lemma logs_emits:
  assumes "\<And>env. emits env Q m" and "\<And>es. \<forall>e\<in>set es. Q e \<Longrightarrow> P es"
  shows "logs P m"
proof (rule logsI)
  fix w r w'
  assume "m w = (r, w')"
  from emitsD [OF assms(1) this refl] obtain es where "w_log w' = w_log w @ es" "\<forall>e\<in>set es. Q e" .
  then show "\<exists>es. w_log w' = w_log w @ es \<and> P es" using assms(2) by blast
qed

locale log_property =
  fixes P :: "effect list \<Rightarrow> bool"
  assumes empty: "P []" and joined: "P a \<Longrightarrow> P b \<Longrightarrow> P (a @ b)"
begin

lemma logs_pure: "(\<And>w. w_log (snd (m w)) = w_log w) \<Longrightarrow> logs P m"
proof (rule logsI)
  fix w r w'
  assume m: "\<And>w. w_log (snd (m w)) = w_log w" and "m w = (r, w')"
  then have "w_log w' = w_log w" using m [of w] by simp
  then show "\<exists>es. w_log w' = w_log w @ es \<and> P es" using empty by simp
qed

lemma logs_simple: "logs P (eff_return x)" "logs P (eff_raise e)" "logs P (eff_lift y)" "logs P uuid4"
  by (rule logs_pure, simp add: uuid4_def)+

lemma logs_if: "logs P m \<Longrightarrow> logs P n \<Longrightarrow> logs P (if b then m else n)"
  by simp

lemma logs_chain: "w_log w1 = w \<Longrightarrow> \<exists>es. v = w @ es \<and> P es \<Longrightarrow> \<exists>fs. u = v @ fs \<and> P fs \<Longrightarrow> \<exists>es. u = w @ es \<and> P es"
  using joined by auto

lemma logs_bind: "logs P m \<Longrightarrow> (\<And>x. logs P (f x)) \<Longrightarrow> logs P (eff_bind m f)"
proof (rule logsI)
  fix w r w'
  assume m: "logs P m" and f: "\<And>x. logs P (f x)" and b: "eff_bind m f w = (r, w')"
  obtain s w1 where 1: "m w = (s, w1)" by fastforce
  show "\<exists>es. w_log w' = w_log w @ es \<and> P es"
  proof (cases s)
    case (Inl e)
    then show ?thesis using b 1 logsD [OF m 1] by (simp add: eff_bind_def)
  next
    case (Inr x)
    then have "f x w1 = (r, w')" using b 1 by (simp add: eff_bind_def)
    from logs_chain [OF refl logsD [OF m 1] logsD [OF f this]] show ?thesis .
  qed
qed

lemma logs_catch: "logs P m \<Longrightarrow> (\<And>e. logs P (h e)) \<Longrightarrow> logs P (eff_catch C m h)"
proof (rule logsI)
  fix w r w'
  assume m: "logs P m" and h: "\<And>e. logs P (h e)" and b: "eff_catch C m h w = (r, w')"
  obtain s w1 where 1: "m w = (s, w1)" by fastforce
  show "\<exists>es. w_log w' = w_log w @ es \<and> P es"
  proof (cases "\<exists>e. s = Inl e \<and> C (exn_cls e)")
    case True
    then obtain e where "h e w1 = (r, w')" using b 1 by (auto simp: eff_catch_def)
    from logs_chain [OF refl logsD [OF m 1] logsD [OF h this]] show ?thesis .
  next
    case False
    then have "w' = w1" using b 1 by (auto simp: eff_catch_def split: sum.splits if_splits)
    then show ?thesis using logsD [OF m 1] by simp
  qed
qed

end

interpretation scoped: log_property "scoped_after t []" for t
  by unfold_locales (auto simp: scoped_after_append intro: scoped_after_mono)

lemma emits_query [emits_intros]:
  "P (Called ''neo4j.run'' (PDict [(''query'', PStr q), (''parameters'', PDict ps)])) \<Longrightarrow> emits env P (run_query q ps)"
  unfolding run_query_def by (rule emits_call)

lemma emits_query_one [emits_intros]:
  "P (Called ''neo4j.run'' (PDict [(''query'', PStr q), (''parameters'', PDict ps)])) \<Longrightarrow> emits env P (query_one q ps)"
  unfolding query_one_def by (intro emits_intros)

lemma emits_finally [emits_intros]:
  assumes "emits env P m" and "emits env P f"
  shows "emits env P (eff_finally m f)"
proof (rule emitsI)
  fix w r w'
  assume w: "w_env w = env" and h: "eff_finally m f w = (r, w')"
  obtain s w1 where m: "m w = (s, w1)" by fastforce
  obtain t w2 where f: "f w1 = (t, w2)" by fastforce
  have "w' = w2" using h m f by (auto simp: eff_finally_def split: sum.splits)
  moreover obtain es where "w_env w1 = env" "w_log w1 = w_log w @ es" "\<forall>e\<in>set es. P e"
    using emitsD [OF assms(1) m w] .
  moreover from this(1) obtain es' where "w_env w2 = env" "w_log w2 = w_log w1 @ es'" "\<forall>e\<in>set es'. P e"
    using emitsD [OF assms(2) f] by blast
  ultimately show "w_env w' = env \<and> (\<exists>es. w_log w' = w_log w @ es \<and> (\<forall>e\<in>set es. P e))"
    by (intro conjI exI [of _ "es @ es'"]) auto
qed

lemma drop_graph_log:
  "drop_graph g w = (r, w') \<Longrightarrow> r = Inr () \<and>
   w_log w' = w_log w @ [Called ''neo4j.run'' (PDict [(''query'', PStr DROP_QUERY), (''parameters'', PDict [(''graph_name'', PStr g)])])]"
  by (auto simp: drop_graph_def eff_catch_def eff_bind_def run_query_def call_service_def any_error_def record_effect_def
      split: prod.splits sum.splits if_splits)

text \<open>The texts of the queries are what the specification asks for.\<close>

lemma query_texts:
  "tenant_read t ENTITY_QUERY ps \<longleftrightarrow> dict_get ps ''tenant_id'' = Some (PStr t)"
  "tenant_read t METRICS_QUERY ps \<longleftrightarrow> dict_get ps ''tenant_id'' = Some (PStr t)"
  "tenant_read t FALLBACK_QUERY ps \<longleftrightarrow> dict_get ps ''tenant_id'' = Some (PStr t)"
proof -
  have "startswith ENTITY_QUERY ''MATCH (entity:Entity {stable_id: $entity_id, tenant_id: $tenant_id})''"
    "startswith METRICS_QUERY ''MATCH (entity:Entity {stable_id: $entity_id, tenant_id: $tenant_id})''"
    "startswith FALLBACK_QUERY ''MATCH (entity:Entity {stable_id: $entity_id})''"
    "contains ''WHERE entity.tenant_id = $tenant_id RETURN count(relationship) AS score'' ''WHERE entity.tenant_id = $tenant_id''"
    by code_simp+
  moreover from this(4) have "contains FALLBACK_QUERY ''WHERE entity.tenant_id = $tenant_id''"
    unfolding FALLBACK_QUERY_def by (intro contains_join disjI2)
  ultimately show "tenant_read t ENTITY_QUERY ps \<longleftrightarrow> dict_get ps ''tenant_id'' = Some (PStr t)"
    "tenant_read t METRICS_QUERY ps \<longleftrightarrow> dict_get ps ''tenant_id'' = Some (PStr t)"
    "tenant_read t FALLBACK_QUERY ps \<longleftrightarrow> dict_get ps ''tenant_id'' = Some (PStr t)"
    by (simp_all add: tenant_read_def)
qed

lemma projection_text:
  "tenant_projection t PROJECT_QUERY [(''graph_name'', g), (''node_query'', PStr NODE_QUERY),
     (''relationship_query'', PStr RELATIONSHIP_QUERY), (''tenant_id'', PStr t)]"
proof -
  have "startswith PROJECT_QUERY ''CALL gds.graph.project.cypher($graph_name, $node_query, $relationship_query, {parameters: {tenant_id: $tenant_id}})''"
    "contains NODE_QUERY ''(n:Entity) WHERE n.tenant_id = $tenant_id RETURN''"
    "contains RELATIONSHIP_QUERY ''(a:Entity)-[r]-(b:Entity) WHERE a.tenant_id = $tenant_id AND b.tenant_id = $tenant_id RETURN''"
    by code_simp+
  then show ?thesis by (simp add: tenant_projection_def)
qed

lemma uses_texts: "uses_graph g STREAM_QUERY ((''graph_name'', g) # ps)" "uses_graph g DROP_QUERY [(''graph_name'', g)]"
proof -
  have "startswith STREAM_QUERY ''CALL gds.degree.stream($graph_name)''" "startswith DROP_QUERY ''CALL gds.graph.drop($graph_name''"
    by code_simp+
  then show "uses_graph g STREAM_QUERY ((''graph_name'', g) # ps)" "uses_graph g DROP_QUERY [(''graph_name'', g)]"
    by (simp_all add: uses_graph_def)
qed

definition query_entry :: "string \<Rightarrow> pydict \<Rightarrow> effect" where
  "query_entry q ps = Called ''neo4j.run'' (PDict [(''query'', PStr q), (''parameters'', PDict ps)])"

lemma query_of_entry [simp]: "query_of (query_entry q ps) = Some (q, ps)"
  by (simp add: query_entry_def)

lemma scoped_read: "tenant_read t q ps \<or> q = VERSION_QUERY \<Longrightarrow> logs (scoped_after t []) (query_one q ps)"
  by (rule logs_emits [OF emits_query_one, of "entry_scoped t []"])
    (auto simp: entry_scoped_def VERSION_QUERY_def intro: scoped_after_all)

lemma scoped_degree: "logs (scoped_after t []) (gds_degree t i)"
  unfolding gds_degree_def
proof (rule scoped.logs_bind)
  show "logs (scoped_after t []) (sanitize_graph_name t)"
    unfolding sanitize_graph_name_def by (intro scoped.logs_bind scoped.logs_simple)
  fix g
  let ?use = "\<lambda>e. \<exists>q ps. query_of e = Some (q, ps) \<and> uses_graph (PStr g) q ps"
  let ?rest = "eff_bind (query_one STREAM_QUERY [(''graph_name'', PStr g), (''entity_id'', PStr i)]) (\<lambda>row.
      if row = [] then eff_return (Fin 0)
      else eff_bind (eff_lift (field (PDict row) ''score'')) (\<lambda>score. eff_lift (py_float score)))"
  let ?p = "query_entry PROJECT_QUERY [(''graph_name'', PStr g), (''node_query'', PStr NODE_QUERY),
     (''relationship_query'', PStr RELATIONSHIP_QUERY), (''tenant_id'', PStr t)]"
  have use: "emits env ?use ?rest" for env
    by (intro emits_intros) (simp add: uses_texts)
  have proj: "projected_for t (PStr g) ?p" by (simp add: projected_for_def projection_text)
  have ok: "scoped_after t [] (?p # us)" if "\<forall>e\<in>set us. ?use e" for us
  proof -
    have "entry_scoped t [] ?p" by (simp add: entry_scoped_def projection_text)
    moreover have "\<forall>e\<in>set us. entry_scoped t [?p] e" using that proj by (fastforce simp: entry_scoped_def)
    ultimately show ?thesis using scoped_after_all by simp
  qed
  show "logs (scoped_after t []) (eff_finally (eff_then (project_graph g t) ?rest) (drop_graph g))"
  proof (rule logsI)
    fix w r w'
    assume h: "eff_finally (eff_then (project_graph g t) ?rest) (drop_graph g) w = (r, w')"
    obtain q w1 where p: "project_graph g t w = (q, w1)" by fastforce
    then have 1: "w_log w1 = w_log w @ [?p]"
      by (auto simp: project_graph_def run_query_def call_service_def query_entry_def)
    obtain s w2 where m: "eff_then (project_graph g t) ?rest w = (s, w2)" by fastforce
    have "\<exists>us. w_log w2 = w_log w1 @ us \<and> (\<forall>e\<in>set us. ?use e)"
    proof (cases q)
      case (Inl e)
      then show ?thesis using m p by (simp add: eff_bind_def)
    next
      case (Inr x)
      then have "?rest w1 = (s, w2)" using m p by (simp add: eff_bind_run)
      from emitsD [OF use this refl] show ?thesis by metis
    qed
    then obtain us where 2: "w_log w2 = w_log w1 @ us" "\<forall>e\<in>set us. ?use e" by blast
    obtain u w3 where d: "drop_graph g w2 = (u, w3)" by fastforce
    have "w' = w3" using h unfolding eff_finally_def m by (simp add: d split: sum.splits)
    then have "w_log w' = w_log w @ ?p # us @ [query_entry DROP_QUERY [(''graph_name'', PStr g)]]"
      using 1 2(1) drop_graph_log [OF d] by (simp add: query_entry_def)
    moreover have "scoped_after t [] (?p # us @ [query_entry DROP_QUERY [(''graph_name'', PStr g)]])"
      using 2(2) uses_texts(2) by (intro ok) auto
    ultimately show "\<exists>es. w_log w' = w_log w @ es \<and> scoped_after t [] es" by blast
  qed
qed

lemma scoped_centrality: "logs (scoped_after t []) (centrality_of t i)"
  unfolding centrality_of_def gds_available_def fallback_degree_def
  by (intro scoped.logs_bind scoped.logs_if scoped.logs_catch scoped_degree scoped_read scoped.logs_simple)
    (simp_all add: query_texts)

lemma scoped_analyze: "logs (scoped_after (ar_tenant_id request) []) (analyze_entity request)"
  unfolding analyze_entity_def
  by (intro scoped.logs_bind scoped.logs_if scoped_centrality scoped_read scoped.logs_simple)
    (simp_all add: query_texts request_dump_def)

text \<open>C39. An analysis keeps to its tenant, whatever the database answers.  Every query it runs, in the
  order of the log, is the one for the version of the library; or has the tenant of the request as
  its parameter and a text that restricts the entity it matches to it; or projects a graph whose
  node and relationship queries restrict every node to this tenant; or reads or drops, by its
  name, a graph that was projected in this way earlier in the same analysis.  A result is about
  the requested entity, was measured by one of the three methods, and has a centrality and counts
  that are not negative and evidence of texts that are not empty.\<close>

theorem analysis_scoped:
  "(\<exists>es. w_log (snd (analyze_entity request w)) = w_log w @ es \<and> scoped_after (ar_tenant_id request) [] es)
    \<and> (case fst (analyze_entity request w) of
        Inr result \<Rightarrow> result_ok result \<and> an_entity_id result = ar_entity_id request
          \<and> an_method result \<in> set METHODS \<and> list_all truthy (an_evidence_path_ids result)
      | Inl _ \<Rightarrow> True)"
proof
  obtain r w' where run: "analyze_entity request w = (r, w')" by fastforce
  show "\<exists>es. w_log (snd (analyze_entity request w)) = w_log w @ es \<and> scoped_after (ar_tenant_id request) [] es"
    using logsD [OF scoped_analyze run] unfolding run by simp
  have "result_ok result \<and> an_entity_id result = ar_entity_id request
         \<and> an_method result \<in> set METHODS \<and> list_all truthy (an_evidence_path_ids result)" if "r = Inr result" for result
    using run unfolding that analyze_entity_def
    by (auto simp: res_simps split: if_splits dest!: make_result_Inr dest: centrality_method)
  then show "case fst (analyze_entity request w) of
        Inr result \<Rightarrow> result_ok result \<and> an_entity_id result = ar_entity_id request
          \<and> an_method result \<in> set METHODS \<and> list_all truthy (an_evidence_path_ids result)
      | Inl _ \<Rightarrow> True"
    unfolding run by (auto split: sum.split)
qed

section \<open>Projected graphs are dropped\<close>

definition projects :: "string \<Rightarrow> effect \<Rightarrow> bool" where
  "projects g e \<longleftrightarrow> (\<exists>ps. query_of e = Some (PROJECT_QUERY, ps) \<and> dict_get ps ''graph_name'' = Some (PStr g))"

definition drops :: "string \<Rightarrow> effect \<Rightarrow> bool" where
  "drops g e \<longleftrightarrow> (\<exists>ps. query_of e = Some (DROP_QUERY, ps) \<and> dict_get ps ''graph_name'' = Some (PStr g))"

text \<open>Every projection is followed by the dropping of its graph.\<close>

fun released :: "effect list \<Rightarrow> bool" where
  "released [] = True"
| "released (e # es) = ((\<forall>g. projects g e \<longrightarrow> (\<exists>d\<in>set es. drops g d)) \<and> released es)"

lemma released_append: "released a \<Longrightarrow> released b \<Longrightarrow> released (a @ b)"
  by (induction a) auto

lemma released_none: "\<forall>e\<in>set es. \<forall>g. \<not> projects g e \<Longrightarrow> released es"
  by (induction es) auto

lemma released_end: "\<forall>e\<in>set es. \<forall>g'. projects g' e \<longrightarrow> g' = g \<Longrightarrow> drops g d \<Longrightarrow> released (es @ [d])"
  by (induction es) (auto simp: projects_def drops_def DROP_QUERY_def PROJECT_QUERY_def)

interpretation released: log_property released
  by unfold_locales (simp_all add: released_append)

lemma released_quiet: "(\<And>env. emits env (\<lambda>e. \<forall>g. \<not> projects g e) m) \<Longrightarrow> logs released m"
  by (rule logs_emits) (auto intro: released_none)

lemma released_degree: "logs released (gds_degree t i)"
  unfolding gds_degree_def
proof (rule released.logs_bind)
  show "logs released (sanitize_graph_name t)"
    unfolding sanitize_graph_name_def by (intro released.logs_bind released.logs_simple)
  fix g
  let ?body = "eff_then (project_graph g t) (eff_bind (query_one STREAM_QUERY [(''graph_name'', PStr g), (''entity_id'', PStr i)]) (\<lambda>row.
      if row = [] then eff_return (Fin 0)
      else eff_bind (eff_lift (field (PDict row) ''score'')) (\<lambda>score. eff_lift (py_float score))))"
  have own: "emits env (\<lambda>e. \<forall>g'. projects g' e \<longrightarrow> g' = g) ?body" for env
    unfolding project_graph_def by (intro emits_intros) (auto simp: projects_def STREAM_QUERY_def PROJECT_QUERY_def)
  show "logs released (eff_finally ?body (drop_graph g))"
  proof (rule logsI)
    fix w r w'
    assume h: "eff_finally ?body (drop_graph g) w = (r, w')"
    obtain s w1 where m: "?body w = (s, w1)" by fastforce
    obtain u w2 where d: "drop_graph g w1 = (u, w2)" by fastforce
    have "w' = w2" using h unfolding eff_finally_def m by (simp add: d split: sum.splits)
    moreover obtain es where es: "w_log w1 = w_log w @ es" "\<forall>e\<in>set es. \<forall>g'. projects g' e \<longrightarrow> g' = g"
      using emitsD [OF own m refl] .
    ultimately show "\<exists>es. w_log w' = w_log w @ es \<and> released es"
      using drop_graph_log [OF d] released_end [OF es(2)] by (auto simp: drops_def)
  qed
qed

lemma other_queries:
  "\<forall>q\<in>{VERSION_QUERY, FALLBACK_QUERY, ENTITY_QUERY, METRICS_QUERY}. q \<noteq> PROJECT_QUERY"
  by (simp add: VERSION_QUERY_def FALLBACK_QUERY_def ENTITY_QUERY_def METRICS_QUERY_def PROJECT_QUERY_def)

lemma released_query: "q \<noteq> PROJECT_QUERY \<Longrightarrow> logs released (query_one q ps)"
  by (intro released_quiet emits_query_one) (simp add: projects_def)

lemma released_analyze: "logs released (analyze_entity request)"
proof -
  have fallback: "logs released (fallback_degree t i)" for t i
    unfolding fallback_degree_def using other_queries by (intro released.logs_bind released_query released.logs_simple) blast
  have "logs released gds_available"
    unfolding gds_available_def using other_queries by (intro released.logs_bind released.logs_catch released_query released.logs_simple) blast
  then have "logs released (centrality_of t i)" for t i
    unfolding centrality_of_def
    by (intro released.logs_bind released.logs_if released.logs_catch released_degree fallback released.logs_simple)
  then show ?thesis
    unfolding analyze_entity_def using other_queries
    by (intro released.logs_bind released_query) (auto intro!: released.logs_bind released_query released.logs_simple)
qed

text \<open>C23. An analysis leaves no graph behind: whether it succeeds, fails or falls back, each graph it asks
  the library to project is dropped afterwards, by name, before the analysis is over.\<close>

theorem projections_dropped:
  "\<exists>es. w_log (snd (analyze_entity request w)) = w_log w @ es \<and> released es"
  using logsD [OF released_analyze surjective_pairing] .

section \<open>Unknown entities\<close>

definition entity_query :: "analysis_request \<Rightarrow> pyval" where
  "entity_query request = PDict [(''query'', PStr ENTITY_QUERY), (''parameters'', PDict (request_dump request))]"

lemma unknown_entity_raises:
  assumes "env_json_loads (w_env w) (km_value m) = Inr source" and "request_of source = Inr request"
    and "\<forall>n. env_call (w_env w) n ''neo4j.run'' (entity_query request) = Inr PNone"
  shows "\<exists>e. fst (analytics_process m w) = Inl e \<and> \<not> is_value_error (exn_cls e)"
  using assms
  by (simp add: analytics_process_def analyze_entity_def query_one_def run_query_def call_service_def eff_bind_def
      json_loads_def eff_lift_def eff_return_def eff_raise_def record_of_def entity_query_def record_effect_def)

text \<open>C40. A request for an entity that the graph does not have stops the analytics worker for good: the
  analysis answers it like an HTTP request, with a 404, which is no value error for the consumer,
  so the message is never isolated, and through any number of crashes and restarts neither it nor
  any message behind it is committed.\<close>

theorem unknown_entity_blocks:
  assumes "env_json_loads env (km_value m) = Inr source" and "request_of source = Inr request"
    and "\<forall>n. env_call env n ''neo4j.run'' (entity_query request) = Inr PNone"
    and "consumer_run analytics_handle (m # msgs) (consumer_init env) s"
  shows "cs_next s = 0 \<and> filter is_commit (w_log (cs_world s)) = []"
proof -
  have h: "analytics_handle = (\<lambda>m. handle_message m ANALYTICS_DLQ_TOPIC (analytics_process m) ''graph-analytics'' None None)"
    by (simp add: fun_eq_iff analytics_handle_def)
  from analytics.run_stuck [OF assms(4) [unfolded h] unknown_entity_raises] assms(1-3) show ?thesis by simp
qed

definition sample_analytics_event :: pydict where
  "sample_analytics_event = [(''tenant_id'', PStr ''t1''), (''event_id'', PStr ''e1''), (''correlation_id'', PStr ''c1''),
     (''payload'', PDict [(''entity_id'', PStr ''entity:unknown'')])]"

theorem unknown_entity_blocks_witness:
  "consumer_run analytics_handle [message_of ANALYTICS_INPUT_TOPIC [1]] (consumer_init (calm_env (loads_one (PDict sample_analytics_event))))
     (consumer_init (calm_env (loads_one (PDict sample_analytics_event))))
   \<and> (\<nexists>s. consumer_run analytics_handle [message_of ANALYTICS_INPUT_TOPIC [1]]
        (consumer_init (calm_env (loads_one (PDict sample_analytics_event)))) s \<and> cs_next s = 1)"
proof
  let ?env = "calm_env (loads_one (PDict sample_analytics_event))" and ?m = "message_of ANALYTICS_INPUT_TOPIC [1]"
  show "consumer_run analytics_handle [?m] (consumer_init ?env) (consumer_init ?env)" by (rule start)
  have "is_ok (request_of (PDict sample_analytics_event))" by code_simp
  then obtain request where r: "request_of (PDict sample_analytics_event) = Inr request" by (auto simp: is_ok_iff)
  have "cs_next s = 0" if "consumer_run analytics_handle [?m] (consumer_init ?env) s" for s
    using unknown_entity_blocks [OF _ r _ that] by (simp add: calm_env_def loads_one_def message_of_def)
  then show "\<nexists>s. consumer_run analytics_handle [?m] (consumer_init ?env) s \<and> cs_next s = 1" by fastforce
qed

end
