(* ===== verification/ProductionConfig.thy ===== *)
theory ProductionConfig
  imports PyValue
begin

text \<open>
  \<open>services/python_common/production_config.py\<close>: the Kafka settings of the workers and the checks of
  the configuration in production.  What is shown: a worker whose Kafka settings were accepted
  connects encrypted and authenticated to no local broker; and which unset secrets are accepted.
\<close>

section \<open>Addresses\<close>

text \<open>\<open>urlsplit\<close>: leading control characters and blanks, and tabs and line ends anywhere, are dropped;
  a scheme is read up to a colon; an authority follows two slashes.\<close>

definition url_clean :: "string \<Rightarrow> string" where
  "url_clean s = filter (\<lambda>c. ord_c c \<notin> {9, 10, 13}) (dropWhile (\<lambda>c. ord_c c \<le> 32) s)"

definition is_scheme_char :: "char \<Rightarrow> bool" where
  "is_scheme_char c = (is_letter c \<or> is_digit c \<or> c \<in> set ''+-.'')"

definition split_scheme :: "string \<Rightarrow> string \<times> string" where
  "split_scheme url =
     (let s = takeWhile (\<lambda>c. c \<noteq> CHR '':'') url
      in if CHR '':'' \<in> set url \<and> s \<noteq> [] \<and> is_letter (hd s) \<and> list_all is_scheme_char s
         then (lower s, drop (Suc (length s)) url) else ([], url))"

definition netloc_of :: "string \<Rightarrow> string" where
  "netloc_of rest = (if startswith rest ''//'' then takeWhile (\<lambda>c. c \<notin> set ''/?#'') (drop 2 rest) else [])"

text \<open>The part after the last \<open>@\<close>; of it the part in brackets, or what comes before a colon; lower
  case but for a zone.\<close>

definition host_info :: "string \<Rightarrow> string" where
  "host_info netloc = rev (takeWhile (\<lambda>c. c \<noteq> CHR ''@'') (rev netloc))"

definition before :: "char \<Rightarrow> string \<Rightarrow> string" where
  "before c s = takeWhile (\<lambda>d. d \<noteq> c) s"

definition from_char :: "char \<Rightarrow> string \<Rightarrow> string" where
  "from_char c s = dropWhile (\<lambda>d. d \<noteq> c) s"

definition hostname_of :: "string \<Rightarrow> string" where
  "hostname_of netloc =
     (let info = host_info netloc;
          host = (if CHR ''['' \<in> set info then before (CHR '']'') (tl (from_char (CHR ''['') info)) else before (CHR '':'') info)
      in lower (before (CHR ''%'') host) @ from_char (CHR ''%'') host)"

text \<open>\<open>urlparse\<close>, as far as it is used: scheme and host name, which may be empty.  Whether the text in
  brackets is an address is decided by the library \<open>ipaddress\<close>, the parameter \<open>address_ok\<close>.\<close>

definition urlparse_host :: "(string \<Rightarrow> bool) \<Rightarrow> string \<Rightarrow> (string \<times> string) res" where
  "urlparse_host address_ok url =
     (case split_scheme (url_clean url) of (scheme, rest) \<Rightarrow>
       let netloc = netloc_of rest
       in if (CHR ''['' \<in> set netloc) \<noteq> (CHR '']'' \<in> set netloc) then value_error ''Invalid IPv6 URL''
          else if CHR ''['' \<in> set netloc \<and> \<not> address_ok (before (CHR '']'') (tl (from_char (CHR ''['') netloc)))
          then value_error ''not an IP address''
          else Inr (scheme, hostname_of netloc))"

definition LOCAL_HOSTS :: "string list" where
  "LOCAL_HOSTS = [''localhost'', ''127.0.0.1'', ''0.0.0.0'', ''::1'', ''::'']"

definition is_local_url_or_host :: "(string \<Rightarrow> bool) \<Rightarrow> string \<Rightarrow> bool res" where
  "is_local_url_or_host address_ok value =
     res_bind (urlparse_host address_ok (if contains value ''://'' then value else ''scheme://'' @ value)) (\<lambda>(_, hostname).
       let host = lower (strip_chars ''[]'' (if hostname \<noteq> [] then hostname else before (CHR '':'') value))
       in Inr (host \<in> set LOCAL_HOSTS))"

section \<open>The environment\<close>

type_synonym environ = "(string \<times> string) list"

definition env_or :: "environ \<Rightarrow> string \<Rightarrow> string \<Rightarrow> string" where
  "env_or e k v = (case map_of e k of Some s \<Rightarrow> s | None \<Rightarrow> v)"

definition set_true :: "string option \<Rightarrow> bool" where
  "set_true value = (lower (strip (case value of Some s \<Rightarrow> s | None \<Rightarrow> [])) = ''true'')"

definition filled :: "string option \<Rightarrow> bool" where
  "filled v = (case v of Some s \<Rightarrow> s \<noteq> [] | None \<Rightarrow> False)"

definition LOCAL_INTERNAL_TOKEN :: string where "LOCAL_INTERNAL_TOKEN = ''signalchord-local-internal''"
definition DEV_MINIO_ACCESS_KEY :: string where "DEV_MINIO_ACCESS_KEY = ''signalchord''"
definition DEV_MINIO_SECRET_KEY :: string where "DEV_MINIO_SECRET_KEY = ''signalchord-dev-secret''"
definition DEV_NEO4J_PASSWORD :: string where "DEV_NEO4J_PASSWORD = ''signalchord-dev''"

definition kafka_tls :: "environ \<Rightarrow> pydict \<Rightarrow> pydict" where
  "kafka_tls e config =
     (if set_true (map_of e ''KAFKA_TLS_ENABLED'') then
        (let c = dict_set ''security.protocol'' (PStr (if set_true (map_of e ''KAFKA_SASL_ENABLED'') then ''SASL_SSL'' else ''SSL'')) config
         in case map_of e ''KAFKA_TLS_CA_PEM'' of Some ca \<Rightarrow> if ca \<noteq> [] then dict_set ''ssl.ca.pem'' (PStr ca) c else c | None \<Rightarrow> c)
      else config)"

definition kafka_sasl :: "environ \<Rightarrow> pydict \<Rightarrow> pydict" where
  "kafka_sasl e config =
     (if set_true (map_of e ''KAFKA_SASL_ENABLED'') then
        (let c = (if dict_get config ''security.protocol'' = None then dict_set ''security.protocol'' (PStr ''SASL_PLAINTEXT'') config else config)
         in dict_set ''sasl.mechanisms'' (PStr (env_or e ''KAFKA_SASL_MECHANISM'' ''PLAIN''))
           (dict_set ''sasl.password'' (PStr (env_or e ''KAFKA_SASL_PASSWORD'' []))
             (dict_set ''sasl.username'' (PStr (env_or e ''KAFKA_SASL_USER'' [])) c)))
      else config)"

definition kafka_config :: "environ \<Rightarrow> pydict \<Rightarrow> pydict" where
  "kafka_config e overrides =
     dict_merge (kafka_sasl e (kafka_tls e [(''bootstrap.servers'', PStr (env_or e ''KAFKA_BROKERS'' ''localhost:29092''))])) overrides"

section \<open>The checks\<close>

definition broker_list :: "string \<Rightarrow> string list" where
  "broker_list s = filter (\<lambda>b. b \<noteq> []) (map strip (split_on (CHR '','') s))"

text \<open>\<open>any(_is_local_url_or_host(broker) for broker in brokers)\<close>, which stops at the first.\<close>

fun any_local :: "(string \<Rightarrow> bool) \<Rightarrow> string list \<Rightarrow> bool res" where
  "any_local address_ok [] = Inr False"
| "any_local address_ok (b # bs) =
     res_bind (is_local_url_or_host address_ok b) (\<lambda>l. if l then Inr True else any_local address_ok bs)"

definition require :: "bool \<Rightarrow> string \<Rightarrow> unit res" where
  "require ok message = res_guard ok (Exn ValueError message)"

definition check_kafka :: "(string \<Rightarrow> bool) \<Rightarrow> environ \<Rightarrow> unit res" where
  "check_kafka address_ok e =
     (let brokers = broker_list (env_or e ''KAFKA_BROKERS'' [])
      in res_bind (require (brokers \<noteq> []) ''KAFKA_BROKERS is required'') (\<lambda>_.
         res_bind (any_local address_ok brokers) (\<lambda>l.
         res_bind (require (\<not> l) ''KAFKA_BROKERS cannot contain localhost or loopback addresses'') (\<lambda>_.
         res_bind (require (set_true (map_of e ''KAFKA_TLS_ENABLED'')) ''KAFKA_TLS_ENABLED must be true'') (\<lambda>_.
         res_bind (require (set_true (map_of e ''KAFKA_SASL_ENABLED'')) ''KAFKA_SASL_ENABLED must be true'') (\<lambda>_.
           require (filled (map_of e ''KAFKA_SASL_USER'') \<and> filled (map_of e ''KAFKA_SASL_PASSWORD''))
             ''KAFKA_SASL_USER and KAFKA_SASL_PASSWORD are required''))))))"

text \<open>\<open>env.get(key) in {"", dev}\<close>: an unset variable is in no set of texts.\<close>

definition unmanaged :: "string option \<Rightarrow> string \<Rightarrow> bool" where
  "unmanaged v dev = (v = Some [] \<or> v = Some dev)"

definition check_minio :: "(string \<Rightarrow> bool) \<Rightarrow> environ \<Rightarrow> unit res" where
  "check_minio address_ok e =
     (let endpoint = env_or e ''MINIO_ENDPOINT'' []
      in res_bind (require (endpoint \<noteq> []) ''MINIO_ENDPOINT is required'') (\<lambda>_.
         res_bind (is_local_url_or_host address_ok endpoint) (\<lambda>l.
         res_bind (require (\<not> l) ''MINIO_ENDPOINT cannot point at localhost'') (\<lambda>_.
         res_bind (require (set_true (map_of e ''MINIO_SECURE'')) ''MINIO_SECURE must be true'') (\<lambda>_.
         res_bind (require (\<not> unmanaged (map_of e ''MINIO_ACCESS_KEY'') DEV_MINIO_ACCESS_KEY)
           ''MINIO_ACCESS_KEY must be a managed secret'') (\<lambda>_.
           require (\<not> unmanaged (map_of e ''MINIO_SECRET_KEY'') DEV_MINIO_SECRET_KEY)
             ''MINIO_SECRET_KEY must be a managed secret''))))))"

definition check_url :: "(string \<Rightarrow> bool) \<Rightarrow> string \<Rightarrow> string list \<Rightarrow> string \<Rightarrow> string \<Rightarrow> unit res" where
  "check_url address_ok value schemes wrong_scheme local =
     res_bind (urlparse_host address_ok value) (\<lambda>(scheme, _).
     res_bind (require (scheme \<in> set schemes) wrong_scheme) (\<lambda>_.
     res_bind (is_local_url_or_host address_ok value) (\<lambda>l. require (\<not> l) local)))"

definition check_opensearch :: "(string \<Rightarrow> bool) \<Rightarrow> environ \<Rightarrow> unit res" where
  "check_opensearch address_ok e =
     res_bind (check_url address_ok (env_or e ''OPENSEARCH_URL'' []) [''https''] ''OPENSEARCH_URL must use https://''
       ''OPENSEARCH_URL cannot point at localhost'') (\<lambda>_.
     require (set_true (map_of e ''OPENSEARCH_VERIFY_CERTS'')) ''OPENSEARCH_VERIFY_CERTS must be true'')"

definition check_neo4j :: "(string \<Rightarrow> bool) \<Rightarrow> environ \<Rightarrow> unit res" where
  "check_neo4j address_ok e =
     res_bind (check_url address_ok (env_or e ''NEO4J_URI'' []) [''neo4j+s'', ''bolt+s'']
       ''NEO4J_URI must use neo4j+s:// or bolt+s://'' ''NEO4J_URI cannot point at localhost'') (\<lambda>_.
     require (\<not> unmanaged (map_of e ''NEO4J_PASSWORD'') DEV_NEO4J_PASSWORD) ''NEO4J_PASSWORD must be a managed secret'')"

definition check_redis :: "environ \<Rightarrow> unit res" where
  "check_redis e = require (startswith (env_or e ''REDIS_URL'' []) ''rediss://'') ''REDIS_URL must use rediss://''"

definition check_control_plane :: "(string \<Rightarrow> bool) \<Rightarrow> environ \<Rightarrow> unit res" where
  "check_control_plane address_ok e =
     check_url address_ok (env_or e ''CONTROL_PLANE_URL'' []) [''https''] ''CONTROL_PLANE_URL must use https://''
       ''CONTROL_PLANE_URL cannot point at localhost''"

definition check_internal_token :: "environ \<Rightarrow> unit res" where
  "check_internal_token e =
     (let value = env_or e ''CONTROL_PLANE_INTERNAL_TOKEN'' []
      in require (value \<noteq> LOCAL_INTERNAL_TOKEN \<and> 32 \<le> length value) ''CONTROL_PLANE_INTERNAL_TOKEN must be a managed secret'')"

definition checks :: "(string \<Rightarrow> bool) \<Rightarrow> string \<Rightarrow> environ \<Rightarrow> unit res" where
  "checks address_ok requirement e =
     (if requirement = ''kafka'' then check_kafka address_ok e
      else if requirement = ''minio'' then check_minio address_ok e
      else if requirement = ''opensearch'' then check_opensearch address_ok e
      else if requirement = ''neo4j'' then check_neo4j address_ok e
      else if requirement = ''redis'' then check_redis e
      else if requirement = ''control_plane'' then check_control_plane address_ok e
      else if requirement = ''internal_token'' then check_internal_token e
      else Inl (Exn KeyError requirement))"

text \<open>The loop over the requirements: value errors are collected, others end it.\<close>

fun collect_errors :: "(string \<Rightarrow> bool) \<Rightarrow> environ \<Rightarrow> string list \<Rightarrow> string list res" where
  "collect_errors address_ok e [] = Inr []"
| "collect_errors address_ok e (r # rs) =
     (case checks address_ok r e of
        Inr _ \<Rightarrow> collect_errors address_ok e rs
      | Inl x \<Rightarrow> if is_value_error (exn_cls x)
          then res_bind (collect_errors address_ok e rs) (\<lambda>es. Inr ((r @ '': '' @ exn_msg x) # es)) else Inl x)"

definition validate_production_config :: "(string \<Rightarrow> bool) \<Rightarrow> string list \<Rightarrow> environ option \<Rightarrow> environ \<Rightarrow> unit res" where
  "validate_production_config address_ok requirements env os_environ =
     (let data = (case env of Some (kv # e) \<Rightarrow> kv # e | _ \<Rightarrow> os_environ)
      in if lower (env_or data ''SIGNALCHORD_ENV'' []) \<noteq> ''production'' then Inr ()
         else res_bind (collect_errors address_ok data requirements) (\<lambda>errors.
           res_guard (errors = []) (Exn RuntimeError (''insecure production configuration: '' @ join ''; '' errors))))"

text \<open>What the services read when a variable is not set.\<close>

definition neo4j_password :: "environ \<Rightarrow> string" where
  "neo4j_password e = env_or e ''NEO4J_PASSWORD'' ''signalchord-dev''"

definition object_store_keys :: "environ \<Rightarrow> string \<times> string" where
  "object_store_keys e = (env_or e ''MINIO_ACCESS_KEY'' ''signalchord'', env_or e ''MINIO_SECRET_KEY'' ''signalchord-dev-secret'')"

section \<open>Accepted configurations\<close>

definition in_production :: "environ \<Rightarrow> bool" where
  "in_production e = (lower (env_or e ''SIGNALCHORD_ENV'' []) = ''production'')"

lemma collect_errors_Nil: "collect_errors address_ok e rs = Inr [] \<longleftrightarrow> (\<forall>r\<in>set rs. checks address_ok r e = Inr ())"
  by (induction rs) (auto simp: res_simps split: sum.splits)

lemma accepted_iff:
  "validate_production_config address_ok reqs None e = Inr () \<longleftrightarrow>
   (in_production e \<longrightarrow> (\<forall>r\<in>set reqs. checks address_ok r e = Inr ()))"
  by (auto simp: validate_production_config_def in_production_def Let_def res_simps collect_errors_Nil [symmetric])

lemma require_Inr [simp]: "require ok message = Inr u \<longleftrightarrow> ok"
  by (simp add: require_def res_simps)

lemma any_local_False: "any_local address_ok bs = Inr False \<longleftrightarrow> (\<forall>b\<in>set bs. is_local_url_or_host address_ok b = Inr False)"
  by (induction bs) (auto simp: res_simps split: if_splits)

lemma check_kafka_Inr:
  assumes "check_kafka address_ok e = Inr u"
  shows "broker_list (env_or e ''KAFKA_BROKERS'' []) \<noteq> []
    \<and> (\<forall>b\<in>set (broker_list (env_or e ''KAFKA_BROKERS'' [])). is_local_url_or_host address_ok b = Inr False)
    \<and> set_true (map_of e ''KAFKA_TLS_ENABLED'') \<and> set_true (map_of e ''KAFKA_SASL_ENABLED'')
    \<and> filled (map_of e ''KAFKA_SASL_USER'') \<and> filled (map_of e ''KAFKA_SASL_PASSWORD'')"
  using assms by (auto simp: check_kafka_def Let_def res_simps any_local_False)

lemma broker_list_Nil: "broker_list [] = []"
  by (simp add: broker_list_def strip_def lstrip_def rstrip_def)

lemma env_or_filled: "filled (map_of e k) \<Longrightarrow> env_or e k v \<noteq> []"
  by (auto simp: filled_def env_or_def split: option.splits)

definition kafka_keys :: "string list" where
  "kafka_keys = [''bootstrap.servers'', ''security.protocol'', ''sasl.username'', ''sasl.password'']"

text \<open>C24. A worker whose Kafka settings pass the check in production connects encrypted and with a user
  and a password that are not empty, and to brokers of which none is local, whatever other
  settings it adds.\<close>

theorem validated_kafka_secure:
  assumes "validate_production_config address_ok reqs None e = Inr ()" and "in_production e" and "''kafka'' \<in> set reqs"
    and "wf_dict overrides" and "\<forall>k\<in>set kafka_keys. dict_get overrides k = None"
  shows "dict_get (kafka_config e overrides) ''security.protocol'' = Some (PStr ''SASL_SSL'')
    \<and> (\<exists>u p. dict_get (kafka_config e overrides) ''sasl.username'' = Some (PStr u) \<and> u \<noteq> []
        \<and> dict_get (kafka_config e overrides) ''sasl.password'' = Some (PStr p) \<and> p \<noteq> [])
    \<and> (\<exists>b. dict_get (kafka_config e overrides) ''bootstrap.servers'' = Some (PStr b) \<and> broker_list b \<noteq> []
        \<and> (\<forall>x\<in>set (broker_list b). is_local_url_or_host address_ok x = Inr False))"
proof -
  have "checks address_ok ''kafka'' e = Inr ()" using assms(1-3) unfolding accepted_iff by blast
  then have "check_kafka address_ok e = Inr ()" by (simp add: checks_def)
  note k = check_kafka_Inr [OF this]
  then obtain bs where b: "map_of e ''KAFKA_BROKERS'' = Some bs"
    by (cases "map_of e ''KAFKA_BROKERS''") (auto simp: env_or_def broker_list_Nil)
  then show ?thesis
    using k assms(5) env_or_filled [of e "''KAFKA_SASL_USER''" "[]"] env_or_filled [of e "''KAFKA_SASL_PASSWORD''" "[]"]
    by (simp add: kafka_config_def kafka_tls_def kafka_sasl_def Let_def dict_get_merge [OF assms(4)] kafka_keys_def env_or_def
        split: option.split)
qed

text \<open>An environment that is accepted, with a managed secret for everything.\<close>

definition sample_environ :: environ where
  "sample_environ = [(''SIGNALCHORD_ENV'', ''production''), (''KAFKA_BROKERS'', ''broker.kafka.svc:9093''),
     (''KAFKA_TLS_ENABLED'', ''true''), (''KAFKA_SASL_ENABLED'', ''true''), (''KAFKA_SASL_USER'', ''runtime''),
     (''KAFKA_SASL_PASSWORD'', ''managed''), (''NEO4J_URI'', ''neo4j+s://neo4j.graph.svc:7687''), (''NEO4J_PASSWORD'', ''managed''),
     (''MINIO_ENDPOINT'', ''object-storage.svc:9000''), (''MINIO_SECURE'', ''True''), (''MINIO_ACCESS_KEY'', ''managed''),
     (''MINIO_SECRET_KEY'', ''managed'')]"

lemma sample_environ_accepted:
  "validate_production_config (\<lambda>_. True) [''kafka'', ''minio'', ''neo4j''] None sample_environ = Inr ()"
  by code_simp

theorem validated_kafka_secure_witness:
  "dict_get (kafka_config sample_environ [(''group.id'', PStr ''g'')]) ''security.protocol'' = Some (PStr ''SASL_SSL'')"
proof -
  have "in_production sample_environ" by code_simp
  moreover have "wf_dict [(''group.id'', PStr ''g'')]" by (simp add: wf_dict_def)
  moreover have "\<forall>k\<in>set kafka_keys. dict_get [(''group.id'', PStr ''g'')] k = None" by (simp add: kafka_keys_def)
  ultimately show ?thesis using validated_kafka_secure [OF sample_environ_accepted] by simp
qed

section \<open>Secrets that are not set\<close>

definition secret_keys :: "string list" where
  "secret_keys = [''NEO4J_PASSWORD'', ''MINIO_ACCESS_KEY'', ''MINIO_SECRET_KEY'']"

definition without_secrets :: "environ \<Rightarrow> environ" where
  "without_secrets e = filter (\<lambda>(k, _). k \<notin> set secret_keys) e"

lemma map_of_without: "map_of (without_secrets e) k = (if k \<in> set secret_keys then None else map_of e k)"
  by (induction e) (auto simp: without_secrets_def)

lemma env_or_without: "k \<notin> set secret_keys \<Longrightarrow> env_or (without_secrets e) k v = env_or e k v"
  by (simp add: env_or_def map_of_without)

lemma unmanaged_None: "\<not> unmanaged None dev"
  by (simp add: unmanaged_def)

lemma secret_lookups:
  "map_of (without_secrets e) ''NEO4J_PASSWORD'' = None" "map_of (without_secrets e) ''MINIO_ACCESS_KEY'' = None"
  "map_of (without_secrets e) ''MINIO_SECRET_KEY'' = None"
  by (simp_all add: map_of_without secret_keys_def)

lemma checks_without: "checks address_ok r e = Inr () \<Longrightarrow> checks address_ok r (without_secrets e) = Inr ()"
  unfolding checks_def
  by (auto simp: check_kafka_def check_minio_def check_opensearch_def check_neo4j_def check_redis_def check_control_plane_def
      check_internal_token_def check_url_def Let_def res_simps secret_lookups unmanaged_None env_or_without map_of_without
      secret_keys_def split: if_splits)

text \<open>C22. Secrets that are not set at all pass for managed: an environment that is accepted in production
  is still accepted when the password of the graph database and the keys of the object store are
  removed from it, and the services then use the development credentials that the check is meant
  to refuse.\<close>

theorem unset_secrets_accepted:
  assumes "validate_production_config address_ok reqs None e = Inr ()"
  shows "validate_production_config address_ok reqs None (without_secrets e) = Inr ()
    \<and> neo4j_password (without_secrets e) = DEV_NEO4J_PASSWORD
    \<and> object_store_keys (without_secrets e) = (DEV_MINIO_ACCESS_KEY, DEV_MINIO_SECRET_KEY)"
proof -
  have "in_production (without_secrets e) = in_production e"
    unfolding in_production_def by (subst env_or_without) (simp_all add: secret_keys_def)
  then show ?thesis
    using assms checks_without unfolding accepted_iff
    by (simp add: neo4j_password_def object_store_keys_def env_or_def secret_lookups DEV_NEO4J_PASSWORD_def
        DEV_MINIO_ACCESS_KEY_def DEV_MINIO_SECRET_KEY_def)
qed

theorem unset_secrets_accepted_witness:
  "validate_production_config (\<lambda>_. True) [''kafka'', ''minio'', ''neo4j''] None (without_secrets sample_environ) = Inr ()
   \<and> neo4j_password (without_secrets sample_environ) = ''signalchord-dev''"
  using unset_secrets_accepted [OF sample_environ_accepted] by (simp add: DEV_NEO4J_PASSWORD_def)

end
