(* ===== verification/Gates.thy ===== *)
theory Gates
  imports Regex PyValue
begin

text \<open>
  What the repository gates share: searching a text for an expression, the reading of the usual
  expressions as statements about the text, and tables of fragments that a file must contain or
  must not contain.
\<close>

section \<open>Searching\<close>

text \<open>\<open>r.search(s)\<close>, \<open>r.match(s)\<close>, \<open>r.fullmatch(s)\<close> as truth values.\<close>

definition search :: "regex \<Rightarrow> string \<Rightarrow> bool" where
  "search r s = list_ex (\<lambda>i. ends s r i \<noteq> []) [0 ..< Suc (length s)]"

definition match_start :: "regex \<Rightarrow> string \<Rightarrow> bool" where
  "match_start r s = (ends s r 0 \<noteq> [])"

definition fullmatch :: "regex \<Rightarrow> string \<Rightarrow> bool" where
  "fullmatch r s = List.member (ends s r 0) (length s)"

text \<open>\<open>[...]{n}\<close>\<close>

primrec counted :: "nat \<Rightarrow> (char \<Rightarrow> bool) \<Rightarrow> regex" where
  "counted 0 P = Nothing"
| "counted (Suc n) P = Then (Class P) (counted n P)"

definition is_lower_hex :: "char \<Rightarrow> bool" where
  "is_lower_hex c = (let n = (of_char c :: int) in 97 \<le> n \<and> n \<le> 102 \<or> 48 \<le> n \<and> n \<le> 57)"

text \<open>\<open>content.count(snippet)\<close> of a text that is not empty.\<close>

function count_of :: "string \<Rightarrow> string \<Rightarrow> nat" where
  "count_of s p = (if s = [] then 0
     else if p \<noteq> [] \<and> startswith s p then Suc (count_of (drop (length p) s) p) else count_of (tl s) p)"
  by pat_completeness auto
termination
  by (relation "measure (\<lambda>(s, p). length s)") auto

declare count_of.simps [simp del]

lemma ends_empty_iff: "ends s r i \<noteq> [] \<longleftrightarrow> (\<exists>j. matches s r i j)"
  using ends_matches [of _ s r i] by (metis list.set_intros(1) neq_Nil_conv empty_iff empty_set)

lemma search_iff: "search r s \<longleftrightarrow> (\<exists>i j. i \<le> length s \<and> matches s r i j)"
proof -
  have "i \<in> set [0 ..< Suc (length s)] \<longleftrightarrow> i \<le> length s" for i by auto
  then show ?thesis unfolding search_def list_ex_iff ends_empty_iff by blast
qed

lemma match_start_iff: "match_start r s \<longleftrightarrow> (\<exists>j. matches s r 0 j)"
  by (simp add: match_start_def ends_empty_iff)

lemma fullmatch_matches: "fullmatch r s \<longleftrightarrow> matches s r 0 (length s)"
  by (simp add: fullmatch_def ends_matches)

section \<open>What the expressions match\<close>

text \<open>All characters of a span are in a class.\<close>

definition all_in :: "string \<Rightarrow> (char \<Rightarrow> bool) \<Rightarrow> nat \<Rightarrow> nat \<Rightarrow> bool" where
  "all_in s P i j \<longleftrightarrow> (\<forall>k. i \<le> k \<and> k < j \<longrightarrow> k < length s \<and> P (s ! k))"

lemma all_in_empty [simp]: "all_in s P i i"
  by (auto simp: all_in_def)

lemma all_in_first: "i < length s \<Longrightarrow> P (s ! i) \<Longrightarrow> all_in s P (Suc i) j \<Longrightarrow> all_in s P i j"
  unfolding all_in_def using le_neq_implies_less Suc_leI by metis

lemma all_in_join: "all_in s P i j \<Longrightarrow> all_in s P j k \<Longrightarrow> all_in s P i k"
  unfolding all_in_def using not_less by blast

lemma plus_span:
  assumes "matches s (plus_class P) i j"
  shows "i < j \<and> all_in s P i j"
proof -
  have h: "i < length s" "P (s ! i)" "matches s (Star_Class P) (Suc i) j" using assms by (auto simp: plus_class_def)
  from h(3) have "Suc i \<le> j" "j \<le> length s \<or> j = Suc i" "\<forall>k. Suc i \<le> k \<and> k < j \<longrightarrow> P (s ! k)" by auto
  then have "i < j" "all_in s P (Suc i) j" using h(1) by (auto simp: all_in_def)
  with h(1,2) show ?thesis by (simp add: all_in_first)
qed

lemma counted_span: "matches s (counted n P) i j \<Longrightarrow> j = i + n \<and> all_in s P i j"
proof (induction n arbitrary: i)
  case 0
  then show ?case by simp
next
  case (Suc n)
  then have h: "P (s ! i)" "i < length s" "matches s (counted n P) (Suc i) j" by auto
  with Suc.IH [OF h(3)] show ?case using all_in_first [where P = P, OF h(2) h(1)] by auto
qed

lemma exactly_span: "matches s (exactly p) i j \<Longrightarrow> j = i + length p \<and> (p \<noteq> [] \<longrightarrow> j \<le> length s) \<and> take (length p) (drop i s) = p"
proof (induction p arbitrary: i)
  case (Cons c p)
  show ?case
  proof (cases "p = []")
    case True
    then show ?thesis using Cons.prems by (auto simp: take_Suc_conv_app_nth)
  next
    case False
    then have h: "s ! i = c" "i < length s" "matches s (exactly p) (Suc i) j" using Cons.prems by auto
    from Cons.IH [OF h(3)] show ?thesis
      using h(1,2) False by (simp add: Cons_nth_drop_Suc [symmetric])
  qed
qed simp

lemma optional_span: "matches s (optional r) i j \<longleftrightarrow> j = i \<or> matches s r i j"
  by (auto simp: optional_def)

lemma one_span: "matches s (exactly [c]) i j \<longleftrightarrow> i < length s \<and> s ! i = c \<and> j = Suc i"
  by auto

lemma exactly_matches: "p \<noteq> [] \<Longrightarrow> matches s (exactly p) i j \<longleftrightarrow> j = i + length p \<and> j \<le> length s \<and> take (length p) (drop i s) = p"
proof (induction p arbitrary: i)
  case (Cons c p)
  show ?case
  proof (cases "p = []")
    case True
    then show ?thesis by (cases "i < length s") (auto simp: take_Suc_conv_app_nth Cons_nth_drop_Suc [symmetric])
  next
    case False
    then show ?thesis
      by (cases "i < length s") (auto simp: Cons.IH [OF False] Cons_nth_drop_Suc [symmetric])
  qed
qed simp

lemma sort_Nil_iff: "sort xs = [] \<longleftrightarrow> xs = []"
  by (metis set_empty set_sort)

section \<open>Languages\<close>

text \<open>An expression without assertions matches a part of a text by that part alone.\<close>

primrec plain_regex :: "regex \<Rightarrow> bool" where
  "plain_regex (Class P) = True"
| "plain_regex (Star_Class P) = True"
| "plain_regex (Then a b) = (plain_regex a \<and> plain_regex b)"
| "plain_regex (Either a b) = (plain_regex a \<and> plain_regex b)"
| "plain_regex (Up_To n a) = plain_regex a"
| "plain_regex Boundary = False"
| "plain_regex Byte_Boundary = False"
| "plain_regex Text_End = False"
| "plain_regex Text_Start = False"
| "plain_regex Line_Start = False"
| "plain_regex Nothing = True"

primrec lang :: "regex \<Rightarrow> string \<Rightarrow> bool" where
  "lang (Class P) w = (\<exists>c. w = [c] \<and> P c)"
| "lang (Star_Class P) w = list_all P w"
| "lang (Then a b) w = (\<exists>u v. w = u @ v \<and> lang a u \<and> lang b v)"
| "lang (Either a b) w = (lang a w \<or> lang b w)"
| "lang (Up_To n a) w = (\<exists>us. length us \<le> n \<and> (\<forall>u\<in>set us. lang a u) \<and> w = concat us)"
| "lang Boundary w = (w = [])"
| "lang Byte_Boundary w = (w = [])"
| "lang Text_End w = (w = [])"
| "lang Text_Start w = (w = [])"
| "lang Line_Start w = (w = [])"
| "lang Nothing w = (w = [])"

lemma lang_first: "lang (Then (Class P) r) w \<longleftrightarrow> (\<exists>c v. w = c # v \<and> P c \<and> lang r v)"
proof -
  have "(\<exists>u v. w = u @ v \<and> (\<exists>c. u = [c] \<and> P c) \<and> lang r v) \<longleftrightarrow> (\<exists>c v. w = [c] @ v \<and> P c \<and> lang r v)" by blast
  then show ?thesis by simp
qed

lemma span_split:
  assumes "i \<le> j" and "j \<le> length s"
  shows "\<exists>a w b. s = a @ w @ b \<and> length a = i \<and> length w = j - i"
  using assms
  by (intro exI [of _ "take i s"] exI [of _ "take (j - i) (drop i s)"] exI [of _ "drop (j - i) (drop i s)"] conjI)
    (simp_all del: drop_drop)

lemma text_at_join:
  assumes "i \<le> j" and "j \<le> k"
  shows "text_at s (i, k) = text_at s (i, j) @ text_at s (j, k)"
proof -
  have "k - i = (j - i) + (k - j)" using assms by simp
  then have "take (k - i) (drop i s) = take (j - i) (drop i s) @ take (k - j) (drop (j - i) (drop i s))"
    by (simp only: take_add)
  then show ?thesis using assms by (simp add: text_at_def)
qed

lemma text_at_one: "i < length s \<Longrightarrow> text_at s (i, Suc i) = [s ! i]"
  by (simp add: text_at_def hd_drop_conv_nth take_Suc)

lemma text_at_empty [simp]: "text_at s (i, i) = []"
  by (simp add: text_at_def)

lemma matches_lang:
  "matches s r i j \<Longrightarrow> i \<le> length s \<Longrightarrow> i \<le> j \<and> j \<le> length s \<and> lang r (text_at s (i, j))"
proof (induction rule: matches.induct)
  case (m_star i j P)
  then show ?case by (auto simp: text_at_def list_all_length)
next
  case (m_then a i j b k)
  then show ?case using text_at_join [of i j k s] by auto
next
  case (m_more a i j n k)
  then obtain us where us: "length us \<le> n" "\<forall>u\<in>set us. lang a u" "text_at s (j, k) = concat us" by auto
  then have "text_at s (i, k) = concat (text_at s (i, j) # us)" using m_more text_at_join [of i j k s] by simp
  then show ?case using m_more us(1,2) by (auto intro!: exI [of _ "text_at s (i, j) # us"])
next
  case (m_class i P)
  then show ?case by (simp add: text_at_one)
next
  case (m_zero n a i)
  then show ?case by (auto intro: exI [of _ "[]"])
qed auto

lemma lang_matches: "plain_regex r \<Longrightarrow> lang r w \<Longrightarrow> matches (a @ w @ b) r (length a) (length a + length w)"
proof (induction r arbitrary: a w b)
  case (Star_Class P)
  then show ?case by (auto simp: list_all_length nth_append)
next
  case (Then r1 r2)
  then obtain u v where w: "w = u @ v" "lang r1 u" "lang r2 v" by auto
  have "matches (a @ u @ v @ b) r1 (length a) (length a + length u)" using Then w by simp
  moreover have "matches ((a @ u) @ v @ b) r2 (length (a @ u)) (length (a @ u) + length v)" 
      using Then.IH(2) [of v "a @ u" b] Then.prems(1) w(3) by simp
  ultimately show ?case using w(1) by (auto simp: add.assoc)
next
  case (Up_To n r)
  then obtain us where us: "length us \<le> n" "\<forall>u\<in>set us. lang r u" "w = concat us" by auto
  have "matches (a @ concat us @ b) (Up_To n r) (length a) (length a + length (concat us))"
    using us(1,2)
  proof (induction us arbitrary: n a)
    case Nil
    then show ?case by (simp add: m_zero)
  next
    case (Cons u us)
    then obtain m where n: "n = Suc m" "length us \<le> m" by (cases n) auto
    have "matches (a @ u @ concat us @ b) r (length a) (length a + length u)" using Up_To Cons by simp
    moreover have "matches ((a @ u) @ concat us @ b) (Up_To m r) (length (a @ u)) (length (a @ u) + length (concat us))"
      using Cons n by (intro Cons.IH) auto
    ultimately show ?case using n(1) by (auto simp: add.assoc)
  qed
  then show ?case using us(3) by simp
qed auto

lemma search_lang: "plain_regex r \<Longrightarrow> search r s \<longleftrightarrow> (\<exists>a w b. s = a @ w @ b \<and> lang r w)"
proof
  assume "search r s"
  then obtain i j where m: "i \<le> length s" "matches s r i j" by (auto simp: search_iff)
  from matches_lang [OF m(2,1)] obtain a w b where "s = a @ w @ b" "length a = i" "length w = j - i" "lang r (text_at s (i, j))"
    using span_split by blast
  then show "\<exists>a w b. s = a @ w @ b \<and> lang r w" by (auto simp: text_at_def)
next
  assume "plain_regex r" "\<exists>a w b. s = a @ w @ b \<and> lang r w"
  then show "search r s" unfolding search_iff using lang_matches by (metis le_add1 length_append)
qed

text \<open>An expression with \<open>$\<close> at its end, matched on one line.\<close>

lemma match_one_line: "plain_regex r \<Longrightarrow> one_line s \<Longrightarrow> match_start (Then r Text_End) s \<longleftrightarrow> lang r s"
proof
  assume "one_line s" "match_start (Then r Text_End) s"
  then obtain j where m: "matches s r 0 j" and j: "at_text_end s j" by (auto simp: match_start_iff)
  have "j = length s"
    using j \<open>one_line s\<close> nth_mem [of j s] newline_end by (fastforce simp: at_text_end_def one_line_def)
  then show "lang r s" using matches_lang [OF m] by (simp add: text_at_def)
next
  assume "plain_regex r" "lang r s"
  then show "match_start (Then r Text_End) s"
    using lang_matches [of r s "[]" "[]"] by (auto simp: match_start_iff at_text_end_def)
qed

text \<open>A sequence of expressions.\<close>

primrec in_order :: "regex list \<Rightarrow> regex" where
  "in_order [] = Nothing"
| "in_order (r # rs) = (if rs = [] then r else Then r (in_order rs))"

lemma plain_in_order [simp]: "plain_regex (in_order rs) \<longleftrightarrow> list_all plain_regex rs"
  by (induction rs) auto

lemma lang_in_order_Cons [simp]:
  "lang (in_order (r # rs)) w \<longleftrightarrow> (\<exists>u v. w = u @ v \<and> lang r u \<and> lang (in_order rs) v)"
  by auto

lemma lang_in_order_one: "lang (in_order [r]) w \<longleftrightarrow> lang r w"
  by simp

lemma lang_in_order_more:
  "lang (in_order (r # s # rs)) w \<longleftrightarrow> (\<exists>u v. w = u @ v \<and> lang r u \<and> lang (in_order (s # rs)) v)"
  by (rule lang_in_order_Cons)

lemma lang_exactly [simp]: "lang (exactly p) w \<longleftrightarrow> w = p"
proof (induction p arbitrary: w)
  case (Cons c p)
  then show ?case by (cases "p = []") (simp_all only: exactly.simps if_True if_False lang_first, auto)
qed simp

lemma plain_exactly [simp]: "plain_regex (exactly p)"
  by (induction p) auto

lemma lang_counted [simp]: "lang (counted n P) w \<longleftrightarrow> length w = n \<and> list_all P w"
proof (induction n arbitrary: w)
  case 0
  then show ?case by auto
next
  case (Suc n)
  then show ?case by (cases w) (simp_all only: counted.simps lang_first, auto)
qed

lemma plain_counted [simp]: "plain_regex (counted n P)"
  by (induction n) auto

lemma lang_plus_class [simp]: "lang (plus_class P) w \<longleftrightarrow> w \<noteq> [] \<and> list_all P w"
  unfolding plus_class_def lang_first by (cases w) auto

lemma plain_plus_class [simp]: "plain_regex (plus_class P)"
  by (simp add: plus_class_def)

lemma lang_optional [simp]: "lang (optional r) w \<longleftrightarrow> w = [] \<or> lang r w"
proof
  assume "lang (optional r) w"
  then obtain us where "length us \<le> 1" "\<forall>u\<in>set us. lang r u" "w = concat us" by (auto simp: optional_def)
  then show "w = [] \<or> lang r w" by (cases us) auto
next
  assume "w = [] \<or> lang r w"
  then show "lang (optional r) w" by (auto simp: optional_def intro: exI [of _ "[w]"] exI [of _ "[]"])
qed

lemma plain_optional [simp]: "plain_regex (optional r) \<longleftrightarrow> plain_regex r"
  by (simp add: optional_def)

lemma lang_one_of [simp]: "rs \<noteq> [] \<Longrightarrow> lang (one_of rs) w \<longleftrightarrow> (\<exists>r\<in>set rs. lang r w)"
  by (induction rs rule: one_of.induct) auto

lemma plain_one_of [simp]: "plain_regex (one_of rs) \<longleftrightarrow> list_all plain_regex rs"
  by (induction rs rule: one_of.induct) auto

lemma lang_any_case [simp]: "lang (any_case p) w \<longleftrightarrow> map lower_char w = p"
proof (induction p arbitrary: w)
  case (Cons c p)
  show ?case
  proof (cases "p = []")
    case False
    then show ?thesis using Cons by (simp only: any_case.simps if_False lang_first) (auto simp: map_eq_Cons_conv)
  qed (auto simp: map_eq_Cons_conv)
qed simp

lemma plain_any_case [simp]: "plain_regex (any_case p)"
  by (induction p) auto

section \<open>Tables of fragments\<close>

text \<open>\<open>for f in fragments: if f not in s\<close>, and \<open>if f in s\<close>.\<close>

definition absent :: "string \<Rightarrow> string list \<Rightarrow> string list" where
  "absent s fragments = filter (\<lambda>f. \<not> contains s f) fragments"

definition occurring :: "string \<Rightarrow> string list \<Rightarrow> string list" where
  "occurring s fragments = filter (contains s) fragments"

lemma absent_Nil_iff [simp]: "absent s fragments = [] \<longleftrightarrow> (\<forall>f\<in>set fragments. contains s f)"
  by (auto simp: absent_def filter_empty_conv)

lemma occurring_Nil_iff [simp]: "occurring s fragments = [] \<longleftrightarrow> (\<forall>f\<in>set fragments. \<not> contains s f)"
  by (auto simp: occurring_def filter_empty_conv)

lemma absent_app: "absent s fragments = [] \<Longrightarrow> absent (s @ t) fragments = []"
  by (auto intro: contains_join)

lemma contains_self: "contains s s"
  unfolding contains_append by (metis append_Nil append_Nil2)

lemma contains_lines:
  assumes "c \<notin> set p" and "contains (a @ c # b) (p @ e)" and "e = [] \<or> e = [c]"
  shows "contains a p \<or> contains b (p @ e)"
proof -
  obtain x y where xy: "a @ c # b = x @ p @ e @ y" using assms(2) by (auto simp: contains_append)
  consider "length (x @ p) \<le> length a" | "length x \<le> length a" "length a < length (x @ p)" | "length a < length x" by linarith
  then show ?thesis
  proof cases
    case 1
    have "take (length (x @ p)) (a @ c # b) = x @ p" unfolding xy by simp
    then have "take (length (x @ p)) a = x @ p" using 1 by simp
    then have "a = x @ p @ drop (length (x @ p)) a" by (metis append_take_drop_id append.assoc)
    then show ?thesis unfolding contains_append by blast
  next
    case 2
    have "(a @ c # b) ! length a = c" by simp
    moreover have "(x @ p @ e @ y) ! length a = p ! (length a - length x)"
      using 2 by (simp add: nth_append less_diff_conv2)
    moreover have "p ! (length a - length x) \<in> set p" using 2 by (intro nth_mem) simp
    ultimately show ?thesis using assms(1) unfolding xy by simp
  next
    case 3
    have "drop (Suc (length a)) (a @ c # b) = b" by simp
    moreover have "drop (Suc (length a)) (x @ p @ e @ y) = drop (Suc (length a)) x @ (p @ e) @ y" using 3 by simp
    ultimately show ?thesis unfolding xy contains_append by metis
  qed
qed

lemma contains_after: "contains b p \<Longrightarrow> contains (a @ c # b) p"
  using contains_join [of "a @ [c]" p b] by simp

lemma absent_in_lines:
  assumes "CHR 0x0A \<notin> set p" and "\<not> contains a p" and "\<not> contains b p"
  shows "\<not> contains (a @ CHR 0x0A # b) p"
  using contains_lines [of "CHR 0x0A" p a b "[]"] assms by auto

lemma contains_join_lines:
  assumes "CHR 0x0A \<notin> set p" and "p \<noteq> []"
  shows "contains (join [CHR 0x0A] ls) p \<longleftrightarrow> (\<exists>l\<in>set ls. contains l p)"
proof (induction ls)
  case (Cons l ls)
  show ?case
  proof (cases "ls = []")
    case False
    then show ?thesis using Cons contains_lines [of "CHR 0x0A" p l "join [CHR 0x0A] ls" "[]"] assms(1)
        contains_join [of l p "CHR 0x0A # join [CHR 0x0A] ls"] contains_after [of "join [CHR 0x0A] ls" p l "CHR 0x0A"] by auto
  qed simp
qed (use assms(2) in simp)

text \<open>A failure in a list of conditional failures.\<close>

definition fail_if :: "bool \<Rightarrow> string \<Rightarrow> string list" where
  "fail_if bad message = (if bad then [message] else [])"

lemma fail_if_Nil [simp]: "fail_if bad m = [] \<longleftrightarrow> \<not> bad"
  by (simp add: fail_if_def)

end
