(* ===== verification/WorkflowActions.thy ===== *)
theory WorkflowActions
  imports Gates
begin

text \<open>
  \<open>scripts/validate_workflow_actions.py\<close>: the gate on the workflow files of the repository, line by
  line without a YAML parser.  A file is its name and its text.  What is shown: references to
  actions in accepted files are pinned, the permission blocks of a file are read as written, and
  accepted files have no write permission in a block that is not expected.
\<close>

section \<open>Lines\<close>

text \<open>The expressions of the module are deterministic: every repetition is followed by a character
  outside its class, so that the greedy reading is the only one.  \<open>\s*(?:#.*)?$\<close>:\<close>

definition line_tail :: "string \<Rightarrow> bool" where
  "line_tail s = (case lstrip s of [] \<Rightarrow> True | c # _ \<Rightarrow> c = CHR ''#'')"

definition is_reference_char :: "char \<Rightarrow> bool" where
  "is_reference_char c = (c \<notin> {CHR 0x27, CHR 0x22, CHR ''#''} \<and> \<not> is_space c)"

definition skip_dash :: "string \<Rightarrow> string" where
  "skip_dash s = (case s of c # r \<Rightarrow> if c = CHR ''-'' then lstrip r else s | [] \<Rightarrow> [])"

definition skip_quote :: "string \<Rightarrow> string" where
  "skip_quote s = (case s of c # r \<Rightarrow> if c = CHR 0x27 \<or> c = CHR 0x22 then r else s | [] \<Rightarrow> [])"

text \<open>\<open>USES_PATTERN\<close>, with its group.\<close>

definition match_uses :: "string \<Rightarrow> string option" where
  "match_uses line =
     (let s = skip_dash (lstrip line)
      in if startswith s ''uses:''
         then (case takeWhile is_reference_char (skip_quote (lstrip (drop 5 s))) of
             [] \<Rightarrow> None | reference \<Rightarrow> Some reference)
         else None)"

definition is_hex :: "char \<Rightarrow> bool" where
  "is_hex c = (let n = (of_char c :: int) in 48 \<le> n \<and> n \<le> 57 \<or> 65 \<le> n \<and> n \<le> 70 \<or> 97 \<le> n \<and> n \<le> 102)"

definition is_commit_sha :: "string \<Rightarrow> bool" where
  "is_commit_sha s = (length s = 40 \<and> list_all is_hex s)"

definition is_docker_digest :: "string \<Rightarrow> bool" where
  "is_docker_digest s =
     (let image = drop 9 s; name = takeWhile (\<lambda>c. c \<noteq> CHR ''@'' \<and> \<not> is_space c) image; rest = drop (length name) image
      in startswith s ''docker://'' \<and> name \<noteq> [] \<and> startswith rest ''@sha256:''
         \<and> length (drop 8 rest) = 64 \<and> list_all is_hex (drop 8 rest))"

text \<open>\<open>PERMISSIONS_PATTERN\<close>: the indentation, and the value on the same line if there is one.\<close>

definition match_permissions :: "string \<Rightarrow> (nat \<times> string option) option" where
  "match_permissions line =
     (let s = lstrip line; r = lstrip (drop 12 s);
          value = takeWhile (\<lambda>c. c \<noteq> CHR ''#'' \<and> \<not> is_space c) r
      in if startswith s ''permissions:'' \<and> line_tail (drop (length value) r)
         then Some (length line - length s, if value = [] then None else Some value) else None)"

definition is_permission_char :: "char \<Rightarrow> bool" where
  "is_permission_char c = (let n = (of_char c :: int) in 97 \<le> n \<and> n \<le> 122 \<or> c = CHR ''-'')"

text \<open>\<open>PERMISSION_ENTRY_PATTERN\<close>: indentation, name and value.\<close>

definition match_entry :: "string \<Rightarrow> (nat \<times> string \<times> string) option" where
  "match_entry line =
     (let s = lstrip line; name = takeWhile is_permission_char s; r = drop (length name) s; v = lstrip (tl r)
      in if length s < length line \<and> name \<noteq> [] \<and> startswith r '':'' then
           (case List.find (\<lambda>value. startswith v value \<and> line_tail (drop (length value) v)) [''read'', ''write'', ''none''] of
              Some value \<Rightarrow> Some (length line - length s, name, value)
            | None \<Rightarrow> None)
         else None)"

definition is_job_char :: "char \<Rightarrow> bool" where
  "is_job_char c = (let n = (of_char c :: int)
     in 48 \<le> n \<and> n \<le> 57 \<or> 65 \<le> n \<and> n \<le> 90 \<or> 97 \<le> n \<and> n \<le> 122 \<or> c = CHR ''_'' \<or> c = CHR ''-'')"

definition match_job :: "string \<Rightarrow> string option" where
  "match_job line =
     (let name = takeWhile is_job_char (drop 2 line); r = drop (length name) (drop 2 line)
      in if startswith line ''  '' \<and> name \<noteq> [] \<and> startswith r '':'' \<and> line_tail (tl r) then Some name else None)"

section \<open>Permission blocks\<close>

type_synonym permissions = "(string \<times> string) list"
type_synonym blocks = "(string \<times> permissions) list"

definition permissions_dict :: "permissions \<Rightarrow> pyval" where
  "permissions_dict ps = PDict (map (\<lambda>(k, v). (k, PStr v)) ps)"

definition at_line :: "string \<Rightarrow> nat \<Rightarrow> string \<Rightarrow> string" where
  "at_line relative n what = relative @ '':'' @ show_nat n @ '': '' @ what"

definition indent_of :: "string \<Rightarrow> nat" where
  "indent_of line = length line - length (lstrip line)"

definition is_blank_or_comment :: "string \<Rightarrow> bool" where
  "is_blank_or_comment line = (strip line = [] \<or> startswith (lstrip line) ''#'')"

text \<open>One line of a block, numbered \<open>n\<close>: the entries so far and the failures it adds.\<close>

definition read_entry :: "string \<Rightarrow> string \<Rightarrow> nat \<Rightarrow> nat \<Rightarrow> string \<Rightarrow> permissions \<Rightarrow> permissions \<times> string list" where
  "read_entry relative scope indent n candidate entries =
     (case match_entry candidate of
        Some (i, name, value) \<Rightarrow>
          if i = indent + 2 then
            (AList.update name value entries,
             if name \<in> fst ` set entries
             then [at_line relative n (''duplicate permission '' @ name @ '' in '' @ scope)] else [])
          else (entries, [at_line relative n (''malformed permission entry in '' @ scope @ '': '' @ strip candidate)])
      | None \<Rightarrow> (entries, [at_line relative n (''malformed permission entry in '' @ scope @ '': '' @ strip candidate)]))"

text \<open>The inner loop, from line \<open>n\<close>: entries, failures, and how many lines it passed.\<close>

fun read_block :: "string \<Rightarrow> string \<Rightarrow> nat \<Rightarrow> nat \<Rightarrow> string list \<Rightarrow> permissions \<Rightarrow> permissions \<times> string list \<times> nat" where
  "read_block relative scope indent n [] entries = (entries, [], 0)"
| "read_block relative scope indent n (candidate # rest) entries =
     (if is_blank_or_comment candidate then
        (case read_block relative scope indent (Suc n) rest entries of (es, fs, k) \<Rightarrow> (es, fs, Suc k))
      else if indent_of candidate \<le> indent then (entries, [], 0)
      else (case read_entry relative scope indent n candidate entries of (entries', f) \<Rightarrow>
        (case read_block relative scope indent (Suc n) rest entries' of (es, fs, k) \<Rightarrow> (es, f @ fs, Suc k))))"

text \<open>The state of the outer loop: inside \<open>jobs\<close>, in which job, the blocks and the failures.\<close>

record block_state =
  bs_in_jobs :: bool
  bs_job :: "string option"
  bs_blocks :: blocks
  bs_failures :: "string list"

definition note_failure :: "string \<Rightarrow> block_state \<Rightarrow> block_state" where
  "note_failure f st = st\<lparr>bs_failures := bs_failures st @ [f]\<rparr>"

definition track_job :: "string \<Rightarrow> block_state \<Rightarrow> block_state" where
  "track_job line st =
     (if line = ''jobs:'' then st\<lparr>bs_in_jobs := True, bs_job := None\<rparr>
      else if bs_in_jobs st then (case match_job line of Some j \<Rightarrow> st\<lparr>bs_job := Some j\<rparr> | None \<Rightarrow> st)
      else st)"

definition scope_of :: "nat \<Rightarrow> string option \<Rightarrow> string option" where
  "scope_of indent job =
     (if indent = 0 then Some ''workflow''
      else case job of Some j \<Rightarrow> if indent = 4 then Some (''job:'' @ j) else None | None \<Rightarrow> None)"

definition note_duplicate :: "string \<Rightarrow> nat \<Rightarrow> string \<Rightarrow> block_state \<Rightarrow> block_state" where
  "note_duplicate relative n scope st =
     (if scope \<in> fst ` set (bs_blocks st)
      then note_failure (at_line relative n (''duplicate permissions block for '' @ scope)) st else st)"

definition inline_block :: "string \<Rightarrow> nat \<Rightarrow> string \<Rightarrow> string \<Rightarrow> block_state \<Rightarrow> block_state" where
  "inline_block relative n scope value st =
     (let normalized = strip_chars [CHR 0x27, CHR 0x22] value;
          st' = st\<lparr>bs_blocks := AList.update scope [(''*'', normalized)] (bs_blocks st)\<rparr>
      in if normalized = ''write-all'' then note_failure (at_line relative n ''permissions: write-all is forbidden'') st' else st')"

definition entry_block :: "string \<Rightarrow> permissions \<times> string list \<times> nat \<Rightarrow> block_state \<Rightarrow> block_state" where
  "entry_block scope r st =
     st\<lparr>bs_blocks := AList.update scope (fst r) (bs_blocks st), bs_failures := bs_failures st @ fst (snd r)\<rparr>"

text \<open>One line of the outer loop, numbered \<open>n\<close>, with the lines after it: the state, and how many of
  those lines the block took.\<close>

definition scan_line :: "string \<Rightarrow> nat \<Rightarrow> string \<Rightarrow> string list \<Rightarrow> block_state \<Rightarrow> block_state \<times> nat" where
  "scan_line relative n line rest st0 =
     (let st = track_job line st0
      in case match_permissions line of
        None \<Rightarrow> (st, 0)
      | Some (indent, inline_value) \<Rightarrow> (case scope_of indent (bs_job st) of
          None \<Rightarrow> (note_failure (at_line relative n ''permissions block has unsupported indentation or scope'') st, 0)
        | Some scope \<Rightarrow>
            let st' = note_duplicate relative n scope st
            in (case inline_value of
              Some value \<Rightarrow> (inline_block relative n scope value st', 0)
            | None \<Rightarrow> let r = read_block relative scope indent (Suc n) rest []
                in (entry_block scope r st', snd (snd r)))))"

function scan_lines :: "string \<Rightarrow> nat \<Rightarrow> string list \<Rightarrow> block_state \<Rightarrow> block_state" where
  "scan_lines relative n [] st = st"
| "scan_lines relative n (line # rest) st =
     (case scan_line relative n line rest st of (st', k) \<Rightarrow> scan_lines relative (Suc n + k) (drop k rest) st')"
  by pat_completeness auto
termination
  by (relation "measure (\<lambda>(relative, n, ls, st). length ls)") auto

definition permission_blocks :: "string \<Rightarrow> string \<Rightarrow> string list \<Rightarrow> blocks \<times> string list" where
  "permission_blocks relative text failures =
     (let st = scan_lines relative 1 (splitlines text)
          \<lparr>bs_in_jobs = False, bs_job = None, bs_blocks = [], bs_failures = failures\<rparr>
      in (bs_blocks st, bs_failures st))"

section \<open>Policy\<close>

definition COSIGN_INSTALLER_REF :: string where
  "COSIGN_INSTALLER_REF = ''sigstore/cosign-installer@6f9f17788090df1f26f669e9d70d6ae9567deba6''"

definition EXPECTED_RELEASE_PERMISSIONS :: blocks where
  "EXPECTED_RELEASE_PERMISSIONS =
     [(''workflow'', [(''contents'', ''read'')]),
      (''job:publish-images'', [(''contents'', ''read''), (''packages'', ''write''), (''id-token'', ''write'')]),
      (''job:release'', [(''contents'', ''write'')])]"

definition EXPECTED_RELEASE_FAILURE_REPORT_PERMISSIONS :: blocks where
  "EXPECTED_RELEASE_FAILURE_REPORT_PERMISSIONS =
     [(''workflow'', [(''actions'', ''read''), (''contents'', ''read''), (''issues'', ''write'')])]"

definition quoted :: "string \<Rightarrow> string" where
  "quoted s = CHR 0x22 # s @ [CHR 0x22]"

definition EXPECTED_RELEASE_RUNTIME_COUNTS :: "(string \<times> nat) list" where
  "EXPECTED_RELEASE_RUNTIME_COUNTS =
     [(''cancel-in-progress: true'', 1), (''timeout-minutes: 20'', 2), (''timeout-minutes: 45'', 1),
      (''uses: '' @ COSIGN_INSTALLER_REF, 1), (''cosign-release: v3.0.6'', 1),
      (''timeout 5m docker buildx imagetools inspect '' @ quoted ''$IMAGE@$DIGEST'', 1),
      (''timeout 5m cosign sign --yes '' @ quoted ''$IMAGE@$DIGEST'', 1),
      (''timeout 5m cosign verify'' @ [CHR 0x0A], 1), (''timeout 5m cosign attest --yes'' @ [CHR 0x0A], 1),
      (''timeout 5m cosign verify-attestation'' @ [CHR 0x0A], 1)]"

definition write_permissions :: "permissions \<Rightarrow> string list" where
  "write_permissions ps = sort (map fst (filter (\<lambda>(name, value). value \<in> {''write'', ''write-all''}) ps))"

text \<open>Dictionaries are equal whatever the order of their keys.\<close>

definition same_dict :: "permissions \<Rightarrow> permissions \<Rightarrow> bool" where
  "same_dict a b = (\<forall>k\<in>fst ` set a \<union> fst ` set b. map_of a k = map_of b k)"

definition check_expected :: "string \<Rightarrow> blocks \<Rightarrow> string \<times> permissions \<Rightarrow> string list" where
  "check_expected relative blocks e =
     (let actual = map_of blocks (fst e)
      in if (case actual of Some ps \<Rightarrow> same_dict ps (snd e) | None \<Rightarrow> False) then []
         else [relative @ '': '' @ fst e @ '' permissions must be exactly '' @ py_str (permissions_dict (snd e))
           @ '', got '' @ py_str (case actual of Some ps \<Rightarrow> permissions_dict ps | None \<Rightarrow> PNone)])"

definition check_no_write :: "string \<Rightarrow> string \<Rightarrow> string \<times> permissions \<Rightarrow> string list" where
  "check_no_write relative what b =
     (let writes = write_permissions (snd b)
      in if writes = [] then [] else [relative @ '': '' @ what @ fst b @ '': '' @ join '', '' writes])"

definition validate_exact_permissions :: "string \<Rightarrow> blocks \<Rightarrow> blocks \<Rightarrow> string list" where
  "validate_exact_permissions relative blocks expected =
     concat (map (check_expected relative blocks) expected)
     @ concat (map (check_no_write relative ''unexpected write permissions in '')
         (filter (\<lambda>b. fst b \<notin> fst ` set expected) blocks))"

definition validate_release_runtime :: "string \<Rightarrow> string \<Rightarrow> string list" where
  "validate_release_runtime relative content =
     concat (map (\<lambda>(snippet, expected_count).
       let actual_count = count_of content snippet
       in if actual_count = expected_count then []
          else [relative @ '': release runtime safeguard '' @ str_repr snippet @ '' must occur exactly ''
            @ show_nat expected_count @ '' time(s), got '' @ show_nat actual_count])
       EXPECTED_RELEASE_RUNTIME_COUNTS)"

definition check_top_level :: "string \<Rightarrow> blocks \<Rightarrow> string list" where
  "check_top_level relative blocks =
     (case map_of blocks ''workflow'' of
       None \<Rightarrow> [relative @ '': workflow must declare explicit top-level permissions'']
     | Some ps \<Rightarrow> if ''*'' \<in> fst ` set ps
         then [relative @ '': top-level permissions must use an explicit permission map''] else [])"

definition validate_permissions :: "string \<Rightarrow> string \<Rightarrow> string \<Rightarrow> blocks \<Rightarrow> string list" where
  "validate_permissions relative name content blocks =
     check_top_level relative blocks
     @ (if name = ''release.yml'' then
          validate_exact_permissions relative blocks EXPECTED_RELEASE_PERMISSIONS @ validate_release_runtime relative content
        else if name = ''release-failure-report.yml'' then
          validate_exact_permissions relative blocks EXPECTED_RELEASE_FAILURE_REPORT_PERMISSIONS
        else concat (map (check_no_write relative ''write permissions are not allowed in '') blocks))"

section \<open>References and files\<close>

text \<open>\<open>reference.rsplit("@", 1)\<close> of a text with an \<open>@\<close>.\<close>

definition before_last_at :: "string \<Rightarrow> string" where
  "before_last_at s = rev (tl (dropWhile (\<lambda>c. c \<noteq> CHR ''@'') (rev s)))"

definition after_last_at :: "string \<Rightarrow> string" where
  "after_last_at s = rev (takeWhile (\<lambda>c. c \<noteq> CHR ''@'') (rev s))"

definition check_reference :: "string \<Rightarrow> nat \<Rightarrow> string \<Rightarrow> string list" where
  "check_reference relative n reference =
     (if startswith reference ''./'' then []
      else if startswith reference ''docker://'' then
        if is_docker_digest reference then []
        else [at_line relative n (''container actions must use a full immutable sha256 digest: '' @ reference)]
      else if CHR ''@'' \<notin> set reference then [at_line relative n (''action reference has no ref: '' @ reference)]
      else if before_last_at reference = [] \<or> \<not> is_commit_sha (after_last_at reference)
      then [at_line relative n (''external actions must be pinned to a full 40-character commit SHA: '' @ reference)]
      else [])"

definition check_uses :: "string \<Rightarrow> nat \<times> string \<Rightarrow> string list" where
  "check_uses relative nl = (case match_uses (snd nl) of None \<Rightarrow> [] | Some r \<Rightarrow> check_reference relative (fst nl) r)"

text \<open>The files of the workflow directory: their names and texts.\<close>

type_synonym directory = "(string \<times> string) list"

definition WORKFLOW_DIRECTORY :: string where "WORKFLOW_DIRECTORY = ''.github/workflows''"

definition workflow_files :: "directory \<Rightarrow> directory" where
  "workflow_files dir =
     sort_key fst (filter (\<lambda>(name, _). endswith name ''.yml'') dir @ filter (\<lambda>(name, _). endswith name ''.yaml'') dir)"

definition validate_file :: "string list \<Rightarrow> string \<times> string \<Rightarrow> string list" where
  "validate_file failures f =
     (let relative = WORKFLOW_DIRECTORY @ ''/'' @ fst f
      in case permission_blocks relative (snd f) failures of (blocks, fs) \<Rightarrow>
        fs @ validate_permissions relative (fst f) (snd f) blocks
           @ concat (map (check_uses relative) (enumerate 1 (splitlines (snd f)))))"

definition workflow_failures :: "directory \<Rightarrow> string list" where
  "workflow_failures dir =
     (let files = workflow_files dir
      in foldl validate_file (if files = [] then [WORKFLOW_DIRECTORY @ '' contains no workflow files''] else []) files)"

text \<open>What is printed: the failures with the exit status 1, or the summary.\<close>

definition validate_workflows :: "directory \<Rightarrow> string list + string" where
  "validate_workflows dir =
     (let failures = workflow_failures dir
      in if failures \<noteq> [] then Inl failures
         else Inr (''validated immutable action references and permission boundaries in ''
           @ show_nat (length (workflow_files dir)) @ '' workflow files''))"

lemma takeWhile_stop: "list_all P r \<Longrightarrow> t = [] \<or> \<not> P (hd t) \<Longrightarrow> takeWhile P (r @ t) = r"
  by (induction r) (cases t, auto)

section \<open>Reading what is written\<close>

text \<open>A workflow file in the usual block style: permission maps indented by two more than their
  key, jobs indented by two, and other lines.\<close>

definition spaces :: "nat \<Rightarrow> string" where
  "spaces n = replicate n (CHR '' '')"

definition render_entry :: "nat \<Rightarrow> string \<times> string \<Rightarrow> string" where
  "render_entry k e = spaces k @ fst e @ '': '' @ snd e"

definition render_block :: "nat \<Rightarrow> permissions \<Rightarrow> string list" where
  "render_block k ps = (spaces k @ ''permissions:'') # map (render_entry (k + 2)) ps"

record job =
  jo_name :: string
  jo_permissions :: "permissions option"
  jo_body :: "string list"

definition render_job :: "job \<Rightarrow> string list" where
  "render_job j = (''  '' @ jo_name j @ '':'')
     # (case jo_permissions j of None \<Rightarrow> [] | Some ps \<Rightarrow> render_block 4 ps) @ jo_body j"

definition render_workflow :: "string list \<Rightarrow> permissions \<Rightarrow> string list \<Rightarrow> job list \<Rightarrow> string list" where
  "render_workflow pre ps mid jobs = pre @ render_block 0 ps @ mid @ ''jobs:'' # concat (map render_job jobs)"

definition permissions_ok :: "permissions \<Rightarrow> bool" where
  "permissions_ok ps = (distinct (map fst ps)
     \<and> list_all (\<lambda>(n, v). n \<noteq> [] \<and> list_all is_permission_char n \<and> v \<in> {''read'', ''write'', ''none''}) ps)"

text \<open>Lines that are no permission block and not the \<open>jobs\<close> key, and, among the jobs, no job; and
  lines that end a block.\<close>

definition plain :: "string \<Rightarrow> bool" where
  "plain l = (l \<noteq> ''jobs:'' \<and> match_permissions l = None)"

definition inert :: "string \<Rightarrow> bool" where
  "inert l = (plain l \<and> match_job l = None)"

definition stops :: "nat \<Rightarrow> string list \<Rightarrow> bool" where
  "stops k ls = (case ls of [] \<Rightarrow> True | l # _ \<Rightarrow> \<not> is_blank_or_comment l \<and> indent_of l \<le> k)"

definition job_ok :: "job \<Rightarrow> bool" where
  "job_ok j = (jo_name j \<noteq> [] \<and> jo_name j \<noteq> ''permissions'' \<and> list_all is_job_char (jo_name j) \<and> list_all inert (jo_body j)
     \<and> (case jo_permissions j of None \<Rightarrow> True | Some ps \<Rightarrow> permissions_ok ps \<and> stops 4 (jo_body j)))"

definition job_blocks :: "job \<Rightarrow> blocks" where
  "job_blocks j = (case jo_permissions j of None \<Rightarrow> [] | Some ps \<Rightarrow> [(''job:'' @ jo_name j, ps)])"

lemma space_char: "is_space (CHR '' '')" "\<not> is_space (CHR ''p'')" "\<not> is_space (CHR ''j'')" "\<not> is_space (CHR '':'')"
  by code_simp+

lemma lstrip_spaces: "lstrip (spaces n @ s) = lstrip s"
  by (induction n) (simp_all add: spaces_def lstrip_def space_char)

lemma permission_char_facts: "is_permission_char c \<Longrightarrow> \<not> is_space c \<and> c \<noteq> CHR ''#'' \<and> c \<noteq> CHR '':''"
  by (auto simp: is_permission_char_def is_space_code Let_def)

lemma job_char_facts: "is_job_char c \<Longrightarrow> \<not> is_space c \<and> c \<noteq> CHR ''#'' \<and> c \<noteq> CHR '':''"
  by (auto simp: is_job_char_def is_space_code Let_def)

lemma takeWhile_all: "list_all P n \<Longrightarrow> \<not> P c \<Longrightarrow> takeWhile P (n @ c # s) = n"
  by (induction n) auto

lemma lstrip_key: "lstrip (spaces k @ ''permissions:'') = ''permissions:''"
  unfolding lstrip_spaces by (simp add: lstrip_def space_char)

lemma match_permissions_key: "match_permissions (spaces k @ ''permissions:'') = Some (k, None)"
  unfolding match_permissions_def lstrip_key Let_def
  by (simp add: startswith_def line_tail_def lstrip_def) (simp add: spaces_def)

lemma match_job_key:
  assumes "n \<noteq> []" and "list_all is_job_char n"
  shows "match_job (''  '' @ n @ '':'') = Some n"
proof -
  have "\<not> is_job_char (CHR '':'')" by code_simp
  from takeWhile_all [OF assms(2) this, of "[]"] show ?thesis
    using assms(1) by (simp add: match_job_def startswith_def line_tail_def lstrip_def)
qed

lemma match_entry_rendered:
  assumes "n \<noteq> []" and "list_all is_permission_char n" and "v \<in> {''read'', ''write'', ''none''}" and "0 < k"
  shows "match_entry (render_entry k (n, v)) = Some (k, n, v)"
proof -
  obtain c s where c: "n = c # s" "is_permission_char c" using assms(1,2) by (cases n) auto
  have s: "lstrip (spaces k @ n @ '': '' @ v) = n @ '': '' @ v"
    using permission_char_facts [OF c(2)] unfolding lstrip_spaces by (simp add: c(1) lstrip_def)
  have "\<not> is_permission_char (CHR '':'')" by code_simp
  from takeWhile_all [OF assms(2) this] have t: "takeWhile is_permission_char (n @ '': '' @ v) = n" by simp
  have "lstrip (CHR '' '' # v) = v" using assms(3) by (elim insertE emptyE; hypsubst; code_simp)
  then have r: "lstrip (tl (drop (length n) (n @ '': '' @ v))) = v" by simp
  have f: "List.find (\<lambda>value. startswith v value \<and> line_tail (drop (length value) v)) [''read'', ''write'', ''none''] = Some v"
    using assms(3) by (elim insertE emptyE; hypsubst; code_simp)
  show ?thesis
    unfolding match_entry_def render_entry_def fst_conv snd_conv s Let_def t r f
    using assms(1,4) by (simp add: startswith_def spaces_def)
qed

lemma strip_Nil: "strip s = [] \<longleftrightarrow> list_all is_space s"
proof (cases "list_all is_space s")
  case True
  then show ?thesis by (simp add: strip_def lstrip_def rstrip_def list_all_iff dropWhile_eq_Nil_conv [THEN iffD2])
next
  case False
  then have "lstrip s \<noteq> []" by (auto simp: lstrip_def list_all_iff dropWhile_eq_Nil_conv)
  moreover from this have "\<not> is_space (hd (lstrip s))" unfolding lstrip_def by (rule hd_dropWhile)
  ultimately have "\<exists>x\<in>set (rev (lstrip s)). \<not> is_space x" by (metis hd_in_set set_rev)
  then have "strip s \<noteq> []" by (simp add: strip_def rstrip_def dropWhile_eq_Nil_conv)
  with False show ?thesis by simp
qed

lemma update_fresh: "k \<notin> fst ` set es \<Longrightarrow> AList.update k v es = es @ [(k, v)]"
  by (induction es) auto

lemma rendered_line:
  assumes "n \<noteq> []" and "list_all is_permission_char n"
  shows "\<not> is_blank_or_comment (render_entry k (n, v)) \<and> indent_of (render_entry k (n, v)) = k"
proof -
  obtain c s where c: "n = c # s" "\<not> is_space c" "c \<noteq> CHR ''#''"
    using assms permission_char_facts by (cases n) auto
  have "lstrip (spaces k @ n @ '': '' @ v) = n @ '': '' @ v"
    unfolding lstrip_spaces using c by (simp add: lstrip_def)
  then show ?thesis
    using c by (simp add: is_blank_or_comment_def strip_Nil indent_of_def render_entry_def startswith_def spaces_def)
qed

lemma read_entry_rendered:
  assumes "n \<noteq> []" and "list_all is_permission_char n" and "v \<in> {''read'', ''write'', ''none''}" and "n \<notin> fst ` set es"
  shows "read_entry relative scope k i (render_entry (k + 2) (n, v)) es = (es @ [(n, v)], [])"
  unfolding read_entry_def using match_entry_rendered [OF assms(1-3), of "k + 2"] assms(4)
  by (simp add: update_fresh)

lemma read_block_rendered:
  assumes "permissions_ok ps" and "fst ` set ps \<inter> fst ` set es = {}" and "stops k rest"
  shows "read_block relative scope k i (map (render_entry (k + 2)) ps @ rest) es = (es @ ps, [], length ps)"
  using assms(1,2)
proof (induction ps arbitrary: es i)
  case Nil
  then show ?case using assms(3) by (cases rest) (auto simp: stops_def)
next
  case (Cons e ps)
  obtain n v where e: "e = (n, v)" by force
  have ok: "n \<noteq> []" "list_all is_permission_char n" "v \<in> {''read'', ''write'', ''none''}" "permissions_ok ps" "n \<notin> fst ` set ps"
    using Cons.prems(1) by (simp_all add: permissions_ok_def e)
  have "n \<notin> fst ` set es" "fst ` set ps \<inter> fst ` set (es @ [(n, v)]) = {}" using Cons.prems(2) ok(5) by (auto simp: e)
  then show ?case
    using rendered_line [OF ok(1,2)] read_entry_rendered [OF ok(1-3), of es] Cons.IH [OF ok(4), of "es @ [(n, v)]"]
    by (simp add: e)
qed

lemma scan_inert: "inert l \<Longrightarrow> scan_line relative n l rest st = (st, 0)"
  by (simp add: scan_line_def inert_def plain_def track_job_def)

lemma scan_inert_lines:
  "list_all inert ls \<Longrightarrow> scan_lines relative n (ls @ rest) st = scan_lines relative (n + length ls) rest st"
  by (induction ls arbitrary: n) (simp_all add: scan_inert)

lemma track_key:
  assumes "k \<in> {0, 4}"
  shows "track_job (spaces k @ ''permissions:'') st = st"
proof -
  have "spaces k @ ''permissions:'' \<noteq> ''jobs:'' \<and> match_job (spaces k @ ''permissions:'') = None"
    using assms by (elim insertE emptyE; hypsubst; code_simp)
  then show ?thesis by (simp add: track_job_def)
qed

lemma scan_block:
  assumes "k \<in> {0, 4}" and "permissions_ok ps" and "stops k rest" and "scope_of k (bs_job st) = Some scope"
    and "scope \<notin> fst ` set (bs_blocks st)"
  shows "scan_lines relative n (render_block k ps @ rest) st
    = scan_lines relative (Suc (n + length ps)) rest (st\<lparr>bs_blocks := bs_blocks st @ [(scope, ps)]\<rparr>)"
proof -
  have "scan_line relative n (spaces k @ ''permissions:'') (map (render_entry (k + 2)) ps @ rest) st
      = (st\<lparr>bs_blocks := bs_blocks st @ [(scope, ps)]\<rparr>, length ps)"
    unfolding scan_line_def track_key [OF assms(1)] match_permissions_key Let_def
    using read_block_rendered [OF assms(2) _ assms(3), of "[]"] assms(4,5)
    by (simp add: note_duplicate_def entry_block_def update_fresh)
  then show ?thesis by (simp add: render_block_def)
qed

lemma not_permissions_key:
  assumes "list_all is_job_char name" and "name \<noteq> ''permissions''"
  shows "\<not> startswith (name @ '':'') ''permissions:''"
proof
  assume "startswith (name @ '':'') ''permissions:''"
  then obtain r where "name @ '':'' = ''permissions'' @ CHR '':'' # r"
    using startswith_split [of "name @ '':''" "''permissions:''"] by auto
  then have "takeWhile (\<lambda>c. c \<noteq> CHR '':'') (name @ '':'') = takeWhile (\<lambda>c. c \<noteq> CHR '':'') (''permissions'' @ CHR '':'' # r)"
    by (rule arg_cong)
  moreover have "list_all (\<lambda>c. c \<noteq> CHR '':'') name"
    using assms(1) job_char_facts by (auto simp: list_all_iff)
  ultimately show False using assms(2) by (simp add: takeWhile_all)
qed

lemma scan_job_key:
  assumes "name \<noteq> []" "list_all is_job_char name" "name \<noteq> ''permissions''" and "bs_in_jobs st"
  shows "scan_line relative n (''  '' @ name @ '':'') rest st = (st\<lparr>bs_job := Some name\<rparr>, 0)"
proof -
  obtain c s where c: "name = c # s" "\<not> is_space c" using assms(1,2) job_char_facts by (cases name) auto
  have "lstrip (''  '' @ name @ '':'') = name @ '':''" using c by (simp add: lstrip_def space_char)
  then have "match_permissions (''  '' @ name @ '':'') = None"
    using not_permissions_key [OF assms(2,3)] unfolding match_permissions_def Let_def by simp
  then show ?thesis using match_job_key [OF assms(1,2)] assms(4) by (simp add: scan_line_def track_job_def)
qed

lemma scan_plain_lines:
  assumes "list_all plain ls" and "\<not> bs_in_jobs st"
  shows "scan_lines relative n (ls @ rest) st = scan_lines relative (n + length ls) rest st"
  using assms(1)
proof (induction ls arbitrary: n)
  case (Cons l ls)
  have "scan_line relative n l (ls @ rest) st = (st, 0)" for ls
    using Cons.prems assms(2) by (simp add: scan_line_def plain_def track_job_def)
  then show ?case using Cons by simp
qed simp

lemma stops_job: "stops 4 (concat (map render_job jobs)) \<longleftrightarrow> jobs = [] \<or> stops 4 (render_job (hd jobs))"
  by (cases jobs) (auto simp: stops_def render_job_def)

lemma stops_render_job: "job_ok j \<Longrightarrow> stops 4 (render_job j)"
proof -
  assume "job_ok j"
  then obtain c s where c: "jo_name j = c # s" "is_job_char c"
    by (cases "jo_name j") (auto simp: job_ok_def)
  then show ?thesis using job_char_facts [OF c(2)]
    by (simp add: stops_def render_job_def is_blank_or_comment_def strip_Nil indent_of_def lstrip_def space_char startswith_def)
qed

lemma stops_append: "stops k (a @ b) \<longleftrightarrow> (if a = [] then stops k b else stops k a)"
  by (cases a) (auto simp: stops_def)

lemma scan_job:
  assumes "job_ok j" and "bs_in_jobs st" and "''job:'' @ jo_name j \<notin> fst ` set (bs_blocks st)" and "stops 4 rest"
  shows "\<exists>m. scan_lines relative n (render_job j @ rest) st = scan_lines relative m rest
    (st\<lparr>bs_job := Some (jo_name j), bs_blocks := bs_blocks st @ job_blocks j\<rparr>)"
proof -
  have j: "jo_name j \<noteq> []" "list_all is_job_char (jo_name j)" "jo_name j \<noteq> ''permissions''" "list_all inert (jo_body j)"
    using assms(1) by (simp_all add: job_ok_def)
  note key = scan_job_key [OF j(1-3) assms(2)] and body = scan_inert_lines [OF j(4)]
  show ?thesis
  proof (cases "jo_permissions j")
    case None
    then show ?thesis using key body by (simp add: render_job_def job_blocks_def) blast
  next
    case (Some ps)
    then have ps: "permissions_ok ps" "stops 4 (jo_body j @ rest)"
      using assms(1,4) by (simp_all add: job_ok_def stops_append)
    from scan_block [OF _ ps, of "st\<lparr>bs_job := Some (jo_name j)\<rparr>"] assms(3)
    have "scan_lines relative (Suc n) (render_block 4 ps @ jo_body j @ rest) (st\<lparr>bs_job := Some (jo_name j)\<rparr>)
      = scan_lines relative (Suc (Suc n + length ps)) (jo_body j @ rest)
          (st\<lparr>bs_job := Some (jo_name j), bs_blocks := bs_blocks st @ job_blocks j\<rparr>)"
      by (simp add: scope_of_def job_blocks_def Some)
    then show ?thesis using key body Some by (simp add: render_job_def) blast
  qed
qed

lemma job_blocks_keys: "(scope, ps) \<in> set (job_blocks j) \<Longrightarrow> scope = ''job:'' @ jo_name j"
  by (simp add: job_blocks_def split: option.splits)

lemma scan_jobs:
  assumes "list_all job_ok jobs" and "distinct (map jo_name jobs)" and "bs_in_jobs st"
    and "\<forall>j\<in>set jobs. ''job:'' @ jo_name j \<notin> fst ` set (bs_blocks st)"
  shows "bs_blocks (scan_lines relative n (concat (map render_job jobs)) st) = bs_blocks st @ concat (map job_blocks jobs)
    \<and> bs_failures (scan_lines relative n (concat (map render_job jobs)) st) = bs_failures st"
  using assms
proof (induction jobs arbitrary: n st)
  case (Cons j jobs)
  let ?st = "st\<lparr>bs_job := Some (jo_name j), bs_blocks := bs_blocks st @ job_blocks j\<rparr>"
  have "stops 4 (concat (map render_job jobs))"
    unfolding stops_job using Cons.prems(1) by (cases jobs) (auto intro: stops_render_job)
  then obtain m where m: "scan_lines relative n (render_job j @ concat (map render_job jobs)) st
      = scan_lines relative m (concat (map render_job jobs)) ?st"
    using scan_job [of j st "concat (map render_job jobs)" relative n] Cons.prems by auto
  have "\<forall>i\<in>set jobs. ''job:'' @ jo_name i \<notin> fst ` set (bs_blocks ?st)"
    using Cons.prems(2,4) by (auto dest!: job_blocks_keys) (metis image_eqI)
  with Cons.IH [of ?st m] show ?case using Cons.prems(1-3) by (simp add: m)
qed simp

lemma blocks_read:
  assumes "splitlines text = render_workflow pre ps mid jobs" and "list_all plain pre" and "permissions_ok ps"
    and "list_all plain mid" and "stops 0 mid" and "list_all job_ok jobs" and "distinct (map jo_name jobs)"
  shows "permission_blocks relative text failures = ((''workflow'', ps) # concat (map job_blocks jobs), failures)"
proof -
  let ?st = "\<lparr>bs_in_jobs = False, bs_job = None, bs_blocks = [], bs_failures = failures\<rparr>"
  let ?jobs = "concat (map render_job jobs)"
  have "stops 0 (mid @ ''jobs:'' # ?jobs)"
    using assms(5) by (simp add: stops_append) (simp add: stops_def is_blank_or_comment_def strip_Nil indent_of_def lstrip_def
        space_char startswith_def)
  from scan_block [OF _ assms(3) this, of ?st "''workflow''"] obtain m where
    "scan_lines relative 1 (splitlines text) ?st
     = scan_lines relative m (mid @ ''jobs:'' # ?jobs) (?st\<lparr>bs_blocks := [(''workflow'', ps)]\<rparr>)"
    using scan_plain_lines [OF assms(2), of ?st]
    by (simp add: assms(1) render_workflow_def scope_of_def)
  also have "\<dots> = scan_lines relative (m + length mid) (''jobs:'' # ?jobs) (?st\<lparr>bs_blocks := [(''workflow'', ps)]\<rparr>)"
    by (rule scan_plain_lines [OF assms(4)]) simp
  also have "\<dots> = scan_lines relative (Suc (m + length mid)) ?jobs
      (?st\<lparr>bs_blocks := [(''workflow'', ps)], bs_in_jobs := True\<rparr>)"
  proof -
    have "match_permissions ''jobs:'' = None" by code_simp
    then show ?thesis by (simp add: scan_line_def track_job_def)
  qed
  finally have "scan_lines relative 1 (splitlines text) ?st
    = scan_lines relative (Suc (m + length mid)) ?jobs (?st\<lparr>bs_blocks := [(''workflow'', ps)], bs_in_jobs := True\<rparr>)" .
  with scan_jobs [OF assms(6,7), of "?st\<lparr>bs_blocks := [(''workflow'', ps)], bs_in_jobs := True\<rparr>" relative
      "Suc (m + length mid)"]
  show ?thesis unfolding permission_blocks_def Let_def by simp
qed

text \<open>C16. The gate reads a workflow file as it is written: in block style, whatever else the file holds,
  its permission maps are found exactly, each at its job or at the top level, with every entry and
  without a failure.\<close>

theorem permission_blocks_roundtrip:
  assumes "splitlines text = render_workflow pre ps mid jobs" and "list_all plain pre" and "permissions_ok ps"
    and "list_all plain mid" and "stops 0 mid" and "list_all job_ok jobs" and "distinct (map jo_name jobs)"
  shows "permission_blocks relative text failures = ((''workflow'', ps) # concat (map job_blocks jobs), failures)"
  using assms by (rule blocks_read)

text \<open>A file with a job that has its own permissions and one that has none.\<close>

definition lines_text :: "string list \<Rightarrow> string" where
  "lines_text ls = concat (map (\<lambda>l. l @ [CHR 0x0A]) ls)"

definition sample_jobs :: "job list" where
  "sample_jobs = [\<lparr>jo_name = ''test'', jo_permissions = Some [(''contents'', ''read''), (''id-token'', ''none'')],
       jo_body = [''    steps:'', ''      - uses: ./local'']\<rparr>,
     \<lparr>jo_name = ''lint'', jo_permissions = None, jo_body = [''    runs-on: x'', []]\<rparr>]"

definition sample_workflow :: "string list" where
  "sample_workflow = render_workflow [''name: CI'', ''on:'', ''  push:''] [(''contents'', ''read'')] [''env:''] sample_jobs"

theorem permission_blocks_roundtrip_witness:
  "permission_blocks ''ci.yml'' (lines_text sample_workflow) []
   = ((''workflow'', [(''contents'', ''read'')]) # concat (map job_blocks sample_jobs), [])"
  by (rule permission_blocks_roundtrip [where pre = "[''name: CI'', ''on:'', ''  push:'']" and mid = "[''env:'']"]) code_simp+

section \<open>Accepted files\<close>

text \<open>What it means for a line to use an action, and for a reference to be fixed.\<close>

definition blank_text :: "string \<Rightarrow> bool" where
  "blank_text s = list_all is_space s"

definition uses_line :: "string \<Rightarrow> string \<Rightarrow> bool" where
  "uses_line line reference \<longleftrightarrow> (\<exists>a d b q t. line = a @ d @ ''uses:'' @ b @ q @ reference @ t
     \<and> blank_text a \<and> (d = [] \<or> (\<exists>e. d = CHR ''-'' # e \<and> blank_text e)) \<and> blank_text b
     \<and> q \<in> {[], [CHR 0x27], [CHR 0x22]} \<and> reference \<noteq> [] \<and> list_all is_reference_char reference
     \<and> (t = [] \<or> \<not> is_reference_char (hd t)))"

definition pinned :: "string \<Rightarrow> bool" where
  "pinned r \<longleftrightarrow> (\<exists>path. r = ''./'' @ path)
     \<or> (\<exists>image digest. r = ''docker://'' @ image @ ''@sha256:'' @ digest \<and> image \<noteq> [] \<and> CHR ''@'' \<notin> set image
          \<and> length digest = 64 \<and> list_all is_hex digest)
     \<or> (\<exists>action sha. r = action @ CHR ''@'' # sha \<and> action \<noteq> [] \<and> length sha = 40 \<and> list_all is_hex sha)"

lemma lstrip_blank: "blank_text a \<Longrightarrow> lstrip (a @ s) = lstrip s"
  by (simp add: blank_text_def lstrip_def list_all_iff dropWhile_append1 dropWhile_append2)

lemma lstrip_letter: "\<not> is_space c \<Longrightarrow> lstrip (c # s) = c # s"
  by (simp add: lstrip_def)

lemma match_uses_line:
  assumes "uses_line line r"
  shows "match_uses line = Some r"
proof -
  obtain a d b q t where l: "line = a @ d @ ''uses:'' @ b @ q @ r @ t" "blank_text a"
      "d = [] \<or> (\<exists>e. d = CHR ''-'' # e \<and> blank_text e)" "blank_text b" "q \<in> {[], [CHR 0x27], [CHR 0x22]}"
    and r: "r \<noteq> []" "list_all is_reference_char r" "t = [] \<or> \<not> is_reference_char (hd t)"
    using assms unfolding uses_line_def by blast
  have space: "\<not> is_space (CHR ''u'')" "\<not> is_space (CHR ''-'')" "\<not> is_space (CHR 0x27)" "\<not> is_space (CHR 0x22)" by code_simp+
  have "skip_dash (lstrip line) = ''uses:'' @ b @ q @ r @ t"
    using l(3) by (auto simp: l(1) lstrip_blank [OF l(2)] lstrip_letter space skip_dash_def lstrip_blank)
  moreover obtain c s where c: "r = c # s" "is_reference_char c" using r(1,2) by (cases r) auto
  have "skip_quote (lstrip (b @ q @ r @ t)) = r @ t"
    using l(5) c(2) by (auto simp: lstrip_blank [OF l(4)] c(1) lstrip_letter space skip_quote_def is_reference_char_def)
  ultimately show ?thesis
    using takeWhile_stop [OF r(2,3)] c(1) by (auto simp: match_uses_def Let_def startswith_def split: list.split)
qed

lemma docker_digest_shape:
  assumes "is_docker_digest r"
  shows "\<exists>image digest. r = ''docker://'' @ image @ ''@sha256:'' @ digest \<and> image \<noteq> [] \<and> CHR ''@'' \<notin> set image
     \<and> length digest = 64 \<and> list_all is_hex digest"
proof -
  define name where "name = takeWhile (\<lambda>c. c \<noteq> CHR ''@'' \<and> \<not> is_space c) (drop 9 r)"
  define rest where "rest = drop (length name) (drop 9 r)"
  define digest where "digest = drop 8 rest"
  have "startswith r ''docker://'' \<and> name \<noteq> [] \<and> startswith rest ''@sha256:'' \<and> length digest = 64 \<and> list_all is_hex digest"
    using assms unfolding is_docker_digest_def Let_def name_def rest_def digest_def .
  note h = this [THEN conjunct1] this [THEN conjunct2, THEN conjunct1]
    this [THEN conjunct2, THEN conjunct2, THEN conjunct1] this [THEN conjunct2, THEN conjunct2, THEN conjunct2, THEN conjunct1]
    this [THEN conjunct2, THEN conjunct2, THEN conjunct2, THEN conjunct2]
  have l: "length ''docker://'' = 9" "length ''@sha256:'' = 8" by simp_all
  have e1: "r = ''docker://'' @ drop 9 r" using startswith_drop [OF h(1)] unfolding l .
  have e2: "drop 9 r = name @ rest"
    unfolding rest_def name_def dropWhile_eq_drop [symmetric] takeWhile_dropWhile_id ..
  have e3: "rest = ''@sha256:'' @ digest" using startswith_drop [OF h(3)] unfolding l digest_def .
  have r: "r = ''docker://'' @ name @ ''@sha256:'' @ digest" using e1 unfolding e2 e3 .
  have n: "CHR ''@'' \<notin> set name" unfolding name_def using set_takeWhileD by fast
  show ?thesis using r h(2,4,5) n by (intro exI conjI)
qed

lemma last_at_split: "CHR ''@'' \<in> set s \<Longrightarrow> s = before_last_at s @ CHR ''@'' # after_last_at s"
proof -
  assume "CHR ''@'' \<in> set s"
  then obtain c u where u: "dropWhile (\<lambda>c. c \<noteq> CHR ''@'') (rev s) = c # u"
    by (cases "dropWhile (\<lambda>c. c \<noteq> CHR ''@'') (rev s)") (auto simp: dropWhile_eq_Nil_conv)
  then have "rev s = takeWhile (\<lambda>c. c \<noteq> CHR ''@'') (rev s) @ CHR ''@'' # u"
    unfolding dropWhile_eq_Cons_conv by blast
  then have "rev (rev s) = rev (takeWhile (\<lambda>c. c \<noteq> CHR ''@'') (rev s) @ CHR ''@'' # u)" by (rule arg_cong)
  then have "s = rev u @ CHR ''@'' # rev (takeWhile (\<lambda>c. c \<noteq> CHR ''@'') (rev s))" by simp
  then show ?thesis unfolding before_last_at_def after_last_at_def u by simp
qed

lemma check_reference_pinned: "check_reference relative n r = [] \<Longrightarrow> pinned r"
  unfolding check_reference_def pinned_def
  using last_at_split [of r] docker_digest_shape [of r]
  by (auto simp: startswith_split is_commit_sha_def split: if_splits)

subsection \<open>Failures only accumulate\<close>

lemma track_job_failures [simp]: "bs_failures (track_job line st) = bs_failures st"
  by (simp add: track_job_def split: option.split)

lemma note_duplicate_failures: "bs_failures (note_duplicate relative n scope st) = [] \<Longrightarrow> bs_failures st = []"
  by (auto simp: note_duplicate_def note_failure_def split: if_splits)

lemma inline_block_failures: "bs_failures (inline_block relative n scope v st) = [] \<Longrightarrow> bs_failures st = []"
  by (auto simp: inline_block_def note_failure_def Let_def split: if_splits)

lemma scan_line_failures: "bs_failures (fst (scan_line relative n line rest st)) = [] \<Longrightarrow> bs_failures st = []"
  by (auto simp: scan_line_def Let_def note_failure_def entry_block_def dest!: inline_block_failures note_duplicate_failures
      split: option.splits prod.splits)

lemma scan_lines_failures: "bs_failures (scan_lines relative n ls st) = [] \<Longrightarrow> bs_failures st = []"
proof (induction relative n ls st rule: scan_lines.induct)
  case (2 relative n line rest st)
  then show ?case using scan_line_failures [of relative n line rest st] by (auto split: prod.splits)
qed simp

lemma validate_file_nil: "validate_file fs f = [] \<Longrightarrow> fs = []"
  by (auto simp: validate_file_def permission_blocks_def Let_def dest!: scan_lines_failures split: prod.splits)

lemma validate_files_nil:
  "foldl validate_file fs files = [] \<Longrightarrow> fs = [] \<and> (\<forall>f\<in>set files. validate_file [] f = [])"
proof (induction files arbitrary: fs)
  case (Cons f files)
  then show ?case using validate_file_nil [of fs f] by auto
qed simp

lemma accepted_file:
  assumes "validate_workflows dir = Inr summary" and "(name, text) \<in> set dir"
    and "endswith name ''.yml'' \<or> endswith name ''.yaml''"
  shows "validate_file [] (name, text) = []"
proof -
  have "(name, text) \<in> set (workflow_files dir)" using assms(2,3) by (auto simp: workflow_files_def)
  moreover have "workflow_failures dir = []"
    using assms(1) by (simp add: validate_workflows_def Let_def split: if_splits)
  ultimately show ?thesis unfolding workflow_failures_def Let_def by (blast dest: validate_files_nil)
qed

section \<open>Policy of accepted files\<close>

text \<open>The write permissions that a file is meant to have.\<close>

definition expected_writes :: "string \<Rightarrow> (string \<times> string) list" where
  "expected_writes name =
     (if name = ''release.yml'' then
        [(''job:publish-images'', ''packages''), (''job:publish-images'', ''id-token''), (''job:release'', ''contents'')]
      else if name = ''release-failure-report.yml'' then [(''workflow'', ''issues'')] else [])"

definition least_privilege :: "string \<Rightarrow> blocks \<Rightarrow> bool" where
  "least_privilege name blocks \<longleftrightarrow>
     (\<exists>ps. map_of blocks ''workflow'' = Some ps \<and> map_of ps ''*'' = None)
     \<and> (\<forall>scope ps n v. map_of blocks scope = Some ps \<longrightarrow> map_of ps n = Some v \<longrightarrow> v \<in> {''write'', ''write-all''}
           \<longrightarrow> (scope, n) \<in> set (expected_writes name))"

lemma no_writes:
  assumes "write_permissions ps = []" and "map_of ps n = Some v"
  shows "v \<notin> {''write'', ''write-all''}"
proof
  assume "v \<in> {''write'', ''write-all''}"
  then have "(n, v) \<in> set (filter (\<lambda>(name, value). value \<in> {''write'', ''write-all''}) ps)"
    using map_of_SomeD [OF assms(2)] by simp
  then have "n \<in> set (write_permissions ps)"
    unfolding write_permissions_def set_sort set_map by (rule image_eqI [rotated]) simp
  then show False using assms(1) by simp
qed

lemma check_no_write_nil: "check_no_write relative what b = [] \<Longrightarrow> write_permissions (snd b) = []"
  by (simp add: check_no_write_def Let_def split: if_splits)

lemma check_expected_nil:
  assumes "check_expected relative blocks (scope, e) = []" and "map_of blocks scope = Some ps" and "map_of ps n = Some v"
  shows "map_of e n = Some v"
proof -
  have "same_dict ps e" using assms(1,2) by (simp add: check_expected_def split: if_splits)
  moreover have "n \<in> fst ` set ps" using map_of_SomeD [OF assms(3)] by force
  ultimately show ?thesis using assms(3) unfolding same_dict_def by (metis UnI1)
qed

lemma exact_permissions:
  assumes "validate_exact_permissions relative blocks expected = []"
    and "map_of blocks scope = Some ps" and "map_of ps n = Some v" and "v \<in> {''write'', ''write-all''}"
  shows "\<exists>e. (scope, e) \<in> set expected \<and> map_of e n = Some v"
proof (cases "scope \<in> fst ` set expected")
  case True
  then obtain e where e: "(scope, e) \<in> set expected" by auto
  then have "check_expected relative blocks (scope, e) = []"
    using assms(1) by (simp add: validate_exact_permissions_def)
  with e show ?thesis using check_expected_nil assms(2,3) by blast
next
  case False
  have "(scope, ps) \<in> set blocks" using assms(2) by (rule map_of_SomeD)
  with False have "check_no_write relative ''unexpected write permissions in '' (scope, ps) = []"
    using assms(1) by (simp add: validate_exact_permissions_def)
  then show ?thesis using no_writes assms(3,4) check_no_write_nil by fastforce
qed

text \<open>The tables of the module agree with this list.\<close>

definition writes_within :: "string \<Rightarrow> blocks \<Rightarrow> bool" where
  "writes_within name blocks = list_all (\<lambda>(scope, e). list_all (\<lambda>(n, v).
     v \<in> {''write'', ''write-all''} \<longrightarrow> (scope, n) \<in> set (expected_writes name)) e) blocks"

lemma tables_within:
  "writes_within ''release.yml'' EXPECTED_RELEASE_PERMISSIONS"
  "writes_within ''release-failure-report.yml'' EXPECTED_RELEASE_FAILURE_REPORT_PERMISSIONS"
  by code_simp+

lemma exact_within:
  assumes "validate_exact_permissions relative blocks expected = []" and "writes_within name expected"
    and "map_of blocks scope = Some ps" and "map_of ps n = Some v" and "v \<in> {''write'', ''write-all''}"
  shows "(scope, n) \<in> set (expected_writes name)"
proof -
  obtain e where "(scope, e) \<in> set expected" "(n, v) \<in> set e"
    using exact_permissions [OF assms(1,3,4,5)] map_of_SomeD by fast
  then show ?thesis using assms(2,5) unfolding writes_within_def list_all_iff by fast
qed

lemma validate_permissions_nil:
  assumes "validate_permissions relative name text blocks = []"
  shows "least_privilege name blocks"
proof -
  have top: "\<exists>ps. map_of blocks ''workflow'' = Some ps \<and> map_of ps ''*'' = None"
    using assms by (auto simp: validate_permissions_def check_top_level_def map_of_eq_None_iff split: option.splits if_splits)
  have writes: "(scope, n) \<in> set (expected_writes name)"
    if "map_of blocks scope = Some ps" "map_of ps n = Some v" "v \<in> {''write'', ''write-all''}" for scope ps n v
  proof -
    consider "name = ''release.yml''" | "name = ''release-failure-report.yml''"
      | "\<forall>b\<in>set blocks. check_no_write relative ''write permissions are not allowed in '' b = []"
      using assms by (auto simp: validate_permissions_def split: if_splits)
    then show ?thesis
    proof cases
      case 1
      then have "validate_exact_permissions relative blocks EXPECTED_RELEASE_PERMISSIONS = []"
        using assms by (simp add: validate_permissions_def)
      from exact_within [OF this _ that] tables_within(1) 1 show ?thesis by simp
    next
      case 2
      then have "validate_exact_permissions relative blocks EXPECTED_RELEASE_FAILURE_REPORT_PERMISSIONS = []"
        using assms by (simp add: validate_permissions_def)
      from exact_within [OF this _ that] tables_within(2) 2 show ?thesis by simp
    next
      case 3
      then have "write_permissions ps = []" using map_of_SomeD [OF that(1)] check_no_write_nil by fastforce
      then show ?thesis using no_writes that(2,3) by blast
    qed
  qed
  from top writes show ?thesis unfolding least_privilege_def by blast
qed


text \<open>A directory that is accepted.\<close>

definition sample_action :: string where
  "sample_action = ''actions/checkout@34e114876b0b11c390a56381ad16ebd13914f8d5''"

definition sample_directory :: "(string \<times> string) list" where
  "sample_directory = [(''README.md'', ''no workflow''), (''ci.yml'', lines_text (render_workflow [''on: push''] [(''contents'', ''read'')] []
     [\<lparr>jo_name = ''test'', jo_permissions = Some [(''contents'', ''read'')],
       jo_body = [''    steps:'', ''      - uses: '' @ sample_action @ '' # v4'']\<rparr>]))]"


section \<open>Other spellings of the key\<close>

text \<open>A step written as a map in one line, and one whose key is in quotation marks.\<close>

definition spelled_steps :: "string list" where
  "spelled_steps = [''permissions:'', ''  contents: read'', ''jobs:'', ''  build:'', ''    runs-on: ubuntu-latest'', ''    steps:'',
     ''      - {uses: actions/checkout@main}'', ''      - '' @ [CHR 0x22] @ ''uses'' @ [CHR 0x22] @ '': evil/action@main'']"

text \<open>Both are steps of a workflow for YAML, and neither is read by the pattern of the gate, so a file
  that uses two branches instead of commits is accepted; on a line of the usual form the same
  reference is refused.\<close>

theorem uses_escape:
  "\<exists>summary. validate_workflows [(''ci.yml'', lines_text spelled_steps)] = Inr summary"
  "\<exists>failures. validate_workflows [(''ci.yml'', lines_text (butlast (butlast spelled_steps) @ [''      - uses: actions/checkout@main'']))] = Inl failures"
proof -
  have "case validate_workflows [(''ci.yml'', lines_text spelled_steps)] of Inr s \<Rightarrow> True | Inl f \<Rightarrow> False" by code_simp
  then show "\<exists>summary. validate_workflows [(''ci.yml'', lines_text spelled_steps)] = Inr summary" by (simp split: sum.splits)
  have "case validate_workflows [(''ci.yml'', lines_text (butlast (butlast spelled_steps) @ [''      - uses: actions/checkout@main'']))] of
     Inr s \<Rightarrow> False | Inl f \<Rightarrow> True" by code_simp
  then show "\<exists>failures. validate_workflows [(''ci.yml'', lines_text (butlast (butlast spelled_steps) @ [''      - uses: actions/checkout@main'']))] = Inl failures"
    by (simp split: sum.splits)
qed

section \<open>Maps in one line\<close>

text \<open>A workflow whose job is given a write permission in the flow style of YAML.\<close>

definition flow_line :: "string \<Rightarrow> string" where
  "flow_line name = ''    permissions: {'' @ name @ '': write}''"

definition flow_workflow :: "string \<Rightarrow> string list" where
  "flow_workflow name = [''permissions:'', ''  contents: read'', ''jobs:'', ''  build:'',
     flow_line name, ''    runs-on: ubuntu-latest'', ''    steps:'', ''      - run: make'']"

lemma splitlines_text: "\<forall>l\<in>set ls. one_line l \<Longrightarrow> splitlines (lines_text ls) = ls"
  by (induction ls) (simp_all add: lines_text_def splitlines_line)

lemma permission_char_line: "is_permission_char c \<Longrightarrow> \<not> is_line_end c"
  by (auto simp: is_permission_char_def is_line_end_code Let_def)

lemma brace_char: "\<not> is_space (CHR ''{'')"
  by code_simp

lemma lstrip_flow: "lstrip (flow_line name) = ''permissions: {'' @ name @ '': write}''"
  by (simp add: flow_line_def lstrip_def space_char)

lemma flow_value:
  assumes "list_all is_permission_char name"
  shows "takeWhile (\<lambda>c. c \<noteq> CHR ''#'' \<and> \<not> is_space c) (''{'' @ name @ '': write}'') = ''{'' @ name @ '':''"
proof -
  let ?c = "\<lambda>c. c \<noteq> CHR ''#'' \<and> \<not> is_space c"
  have "list_all ?c name" using assms permission_char_facts by (simp add: list_all_iff)
  then have "list_all ?c (''{'' @ name @ '':'')" by simp code_simp
  from takeWhile_stop [OF this, of "'' write}''"] show ?thesis by (simp add: space_char)
qed

lemma flow_permissions_none: "list_all is_permission_char name \<Longrightarrow> match_permissions (flow_line name) = None"
proof -
  assume "list_all is_permission_char name"
  note v = flow_value [OF this]
  have r: "lstrip (drop 12 (''permissions: {'' @ name @ '': write}'')) = ''{'' @ name @ '': write}''"
    by simp (simp add: lstrip_def space_char brace_char)
  have "drop (length (''{'' @ name @ '':'')) (''{'' @ name @ '': write}'') = '' write}''" by simp
  moreover have "\<not> line_tail '' write}''" by code_simp
  ultimately show ?thesis unfolding match_permissions_def lstrip_flow Let_def r v by simp
qed

lemma flow_line_quiet:
  assumes "list_all is_permission_char name"
  shows "inert (flow_line name) \<and> match_uses (flow_line name) = None \<and> one_line (flow_line name)"
proof -
  have "match_job (flow_line name) = None" by (simp add: match_job_def is_job_char_def flow_line_def)
  moreover have "match_uses (flow_line name) = None"
    unfolding match_uses_def lstrip_flow Let_def by (simp add: skip_dash_def startswith_def)
  moreover have "one_line (flow_line name)"
    using assms permission_char_line by (simp add: flow_line_def one_line_def list_all_iff) code_simp
  moreover have "flow_line name \<noteq> ''jobs:''" by (simp add: flow_line_def)
  ultimately show ?thesis using flow_permissions_none [OF assms] by (simp add: inert_def plain_def)
qed

definition flow_job :: "string \<Rightarrow> job" where
  "flow_job name = \<lparr>jo_name = ''build'', jo_permissions = None,
     jo_body = [flow_line name, ''    runs-on: ubuntu-latest'', ''    steps:'', ''      - run: make'']\<rparr>"

lemma flow_render: "flow_workflow name = render_workflow [] [(''contents'', ''read'')] [] [flow_job name]"
  by (simp add: flow_workflow_def flow_job_def render_workflow_def render_job_def render_block_def render_entry_def
      spaces_def numeral_eq_Suc)

lemma flow_tail:
  "list_all (\<lambda>l. inert l \<and> one_line l \<and> match_uses l = None) [''    runs-on: ubuntu-latest'', ''    steps:'', ''      - run: make'']"
  "list_all (\<lambda>l. one_line l \<and> match_uses l = None) [''permissions:'', ''  contents: read'', ''jobs:'', ''  build:'']"
  by code_simp+

lemma flow_job_ok: "list_all is_permission_char name \<Longrightarrow> job_ok (flow_job name)"
proof -
  assume n: "list_all is_permission_char name"
  have "list_all is_job_char ''build''" by code_simp
  moreover have "list_all inert (jo_body (flow_job name))"
    using flow_line_quiet [OF n] flow_tail(1) by (simp only: flow_job_def job.simps list.pred_inject)
  ultimately show ?thesis by (simp add: job_ok_def) (simp add: flow_job_def)
qed

lemma flow_lines:
  assumes "list_all is_permission_char name"
  shows "list_all (\<lambda>l. one_line l \<and> match_uses l = None) (flow_workflow name)"
  using flow_tail flow_line_quiet [OF assms] by (simp only: flow_workflow_def list.pred_inject)

lemma flow_blocks:
  assumes "list_all is_permission_char name"
  shows "permission_blocks relative (lines_text (flow_workflow name)) [] = ([(''workflow'', [(''contents'', ''read'')])], [])
    \<and> (\<forall>l\<in>set (splitlines (lines_text (flow_workflow name))). match_uses l = None)"
proof -
  have sp: "splitlines (lines_text (flow_workflow name)) = flow_workflow name"
    using flow_lines [OF assms] by (simp add: splitlines_text list_all_iff)
  have "permissions_ok [(''contents'', ''read'')]" by code_simp
  then have "permission_blocks relative (lines_text (flow_workflow name)) []
      = ((''workflow'', [(''contents'', ''read'')]) # concat (map job_blocks [flow_job name]), [])"
    using flow_job_ok [OF assms] by (intro blocks_read [OF trans [OF sp flow_render]]) (simp_all add: stops_def)
  then show ?thesis
    using flow_lines [OF assms] unfolding sp by (simp add: job_blocks_def flow_job_def list_all_iff)
qed

text \<open>A permission map in one line is not seen: the pattern for a permission block ends at the
  first blank of its value, so a job that is given any write permission in flow style passes the
  gate, whereas the gate refuses the same permission on a line of its own.\<close>

theorem flow_permissions_escape:
  assumes "list_all is_permission_char name"
  shows "\<exists>summary. validate_workflows [(''ci.yml'', lines_text (flow_workflow name))] = Inr summary"
proof -
  let ?f = "(''ci.yml'', lines_text (flow_workflow name))"
  have "endswith ''ci.yml'' ''.yml'' \<and> \<not> endswith ''ci.yml'' ''.yaml''" by code_simp
  then have files: "workflow_files [?f] = [?f]" by (simp add: workflow_files_def)
  have policy: "validate_permissions relative ''ci.yml'' content [(''workflow'', [(''contents'', ''read'')])] = []" for relative content
    by (simp add: validate_permissions_def check_top_level_def check_no_write_def write_permissions_def)
  have "concat (map (check_uses relative) (enumerate n ls)) = []" if "\<forall>l\<in>set ls. match_uses l = None" for relative n ls
    using that by (induction ls arbitrary: n) (simp_all add: check_uses_def)
  from this [OF flow_blocks [OF assms, THEN conjunct2]] policy have "validate_file [] ?f = []"
    unfolding validate_file_def Let_def fst_conv snd_conv flow_blocks [OF assms, THEN conjunct1] prod.case by simp
  then show ?thesis by (simp add: validate_workflows_def workflow_failures_def files Let_def)
qed

theorem flow_permissions_escape_witness:
  "\<exists>summary. validate_workflows [(''ci.yml'', lines_text (flow_workflow ''contents''))] = Inr summary"
  by (rule flow_permissions_escape) code_simp

end
