(* ===== verification/PermissionLoops.thy ===== *)
theory PermissionLoops
  imports WorkflowActions "HOL-Library.While_Combinator"
begin

text \<open>
  The two \<open>while\<close> loops of \<open>permission_blocks\<close> in \<open>scripts/validate_workflow_actions.py\<close>, over an index and a
  cursor as the script has them.  What is shown: both loops end on every file, and what they leave is
  what the structural definition of WorkflowActions computes.
\<close>

section \<open>The inner loop\<close>

text \<open>The cursor, the entries and the failures.\<close>

type_synonym cursor_state = "nat \<times> permissions \<times> string list"

definition block_continues :: "nat \<Rightarrow> string list \<Rightarrow> cursor_state \<Rightarrow> bool" where
  "block_continues indent lines s = (case s of (cursor, _) \<Rightarrow>
     cursor < length lines \<and> (is_blank_or_comment (lines ! cursor) \<or> indent < indent_of (lines ! cursor)))"

definition block_step :: "string \<Rightarrow> string \<Rightarrow> nat \<Rightarrow> string list \<Rightarrow> cursor_state \<Rightarrow> cursor_state" where
  "block_step relative scope indent lines s = (case s of (cursor, entries, failures) \<Rightarrow>
     (let candidate = lines ! cursor
      in if is_blank_or_comment candidate then (Suc cursor, entries, failures)
         else case read_entry relative scope indent (Suc cursor) candidate entries of (entries', fs) \<Rightarrow> (Suc cursor, entries', failures @ fs)))"

definition block_loop :: "string \<Rightarrow> string \<Rightarrow> nat \<Rightarrow> string list \<Rightarrow> cursor_state \<Rightarrow> cursor_state option" where
  "block_loop relative scope indent lines = while_option (block_continues indent lines) (block_step relative scope indent lines)"

text \<open>The cursor moves on in every round, so the measure is the number of lines after it.\<close>

lemma block_loop_ends:
  "cursor \<le> length lines \<Longrightarrow> read_block relative scope indent (Suc cursor) (drop cursor lines) entries = (es, fs, k) \<Longrightarrow>
   block_loop relative scope indent lines (cursor, entries, failures) = Some (cursor + k, es, failures @ fs) \<and> cursor + k \<le> length lines"
proof (induction "length lines - cursor" arbitrary: cursor entries failures es fs k)
  case 0
  then show ?case by (auto simp: block_loop_def while_option_unfold block_continues_def)
next
  case (Suc m)
  then have c: "cursor < length lines" by simp
  then have d: "drop cursor lines = lines ! cursor # drop (Suc cursor) lines" by (simp add: Cons_nth_drop_Suc)
  let ?c = "lines ! cursor"
  have step: "block_loop relative scope indent lines (cursor, entries, failures) =
      (if block_continues indent lines (cursor, entries, failures)
       then block_loop relative scope indent lines (block_step relative scope indent lines (cursor, entries, failures))
       else Some (cursor, entries, failures))" for entries failures
    unfolding block_loop_def by (subst while_option_unfold) simp
  show ?case
  proof (cases "is_blank_or_comment ?c")
    case True
    obtain es' fs' k' where r: "read_block relative scope indent (Suc (Suc cursor)) (drop (Suc cursor) lines) entries = (es', fs', k')"
      by (metis prod_cases3)
    have "es = es'" "fs = fs'" "k = Suc k'" using Suc.prems(2) True r by (simp_all add: d)
    then show ?thesis using Suc.hyps(1) [OF _ _ r, of failures] Suc.hyps(2) c True
      by (simp add: step block_continues_def block_step_def)
  next
    case blank: False
    show ?thesis
    proof (cases "indent_of ?c \<le> indent")
      case True
      then show ?thesis using Suc.prems blank by (simp add: d step block_continues_def)
    next
      case False
      obtain entries' f where e: "read_entry relative scope indent (Suc cursor) ?c entries = (entries', f)" by (metis prod.exhaust)
      obtain es' fs' k' where r: "read_block relative scope indent (Suc (Suc cursor)) (drop (Suc cursor) lines) entries' = (es', fs', k')"
        by (metis prod_cases3)
      have "es = es'" "fs = f @ fs'" "k = Suc k'" using Suc.prems(2) blank False e r by (simp_all add: d)
      then show ?thesis using Suc.hyps(1) [OF _ _ r, of "failures @ f"] Suc.hyps(2) c blank False e
        by (simp add: step block_continues_def block_step_def)
    qed
  qed
qed

section \<open>The outer loop\<close>

text \<open>One round, from the line at the index; \<open>None\<close> if the inner loop does not end.\<close>

definition scan_step :: "string \<Rightarrow> string list \<Rightarrow> nat \<times> block_state \<Rightarrow> (nat \<times> block_state) option" where
  "scan_step relative lines s = (case s of (index, st0) \<Rightarrow>
     (let line = lines ! index; st = track_job line st0
      in case match_permissions line of
        None \<Rightarrow> Some (Suc index, st)
      | Some (indent, inline_value) \<Rightarrow> (case scope_of indent (bs_job st) of
          None \<Rightarrow> Some (Suc index, note_failure (at_line relative (Suc index) ''permissions block has unsupported indentation or scope'') st)
        | Some scope \<Rightarrow>
            let st' = note_duplicate relative (Suc index) scope st
            in (case inline_value of
              Some value \<Rightarrow> Some (Suc index, inline_block relative (Suc index) scope value st')
            | None \<Rightarrow> map_option (\<lambda>(cursor, entries, failures).
                  (cursor, st'\<lparr>bs_blocks := AList.update scope entries (bs_blocks st'), bs_failures := failures\<rparr>))
                (block_loop relative scope indent lines (Suc index, [], bs_failures st'))))))"

text \<open>A round that does not end is repeated for ever.\<close>

definition scan_loop :: "string \<Rightarrow> string list \<Rightarrow> (nat \<times> block_state) option \<Rightarrow> (nat \<times> block_state) option option" where
  "scan_loop relative lines = while_option (\<lambda>s. case s of Some (index, _) \<Rightarrow> index < length lines | None \<Rightarrow> True)
     (\<lambda>s. Option.bind s (scan_step relative lines))"

definition permission_loops :: "string \<Rightarrow> string \<Rightarrow> string list \<Rightarrow> (blocks \<times> string list) option" where
  "permission_loops relative contents failures =
     map_option (\<lambda>st. (bs_blocks st, bs_failures st)) (Option.bind
       (scan_loop relative (splitlines contents)
         (Some (0, \<lparr>bs_in_jobs = False, bs_job = None, bs_blocks = [], bs_failures = failures\<rparr>)))
       (map_option snd))"

lemma scan_step_line:
  assumes "index < length lines" and "scan_line relative (Suc index) (lines ! index) (drop (Suc index) lines) st = (st', k)"
  shows "scan_step relative lines (index, st) = Some (Suc index + k, st') \<and> Suc index + k \<le> length lines"
proof -
  let ?st = "track_job (lines ! index) st"
  show ?thesis
  proof (cases "match_permissions (lines ! index)")
    case None
    then show ?thesis using assms by (simp add: scan_step_def scan_line_def Let_def)
  next
    case m: (Some p)
    obtain indent inline_value where p: "p = (indent, inline_value)" by (metis prod.exhaust)
    show ?thesis
    proof (cases "scope_of indent (bs_job ?st)")
      case None
      then show ?thesis using assms m p by (simp add: scan_step_def scan_line_def Let_def)
    next
      case s: (Some scope)
      show ?thesis
      proof (cases inline_value)
        case None
        obtain es fs n where r: "read_block relative scope indent (Suc (Suc index)) (drop (Suc index) lines) [] = (es, fs, n)"
          by (metis prod_cases3)
        have "Suc index \<le> length lines" using assms(1) by simp
        note l = block_loop_ends [OF this r]
        show ?thesis using assms m p s None r l by (auto simp: scan_step_def scan_line_def Let_def entry_block_def)
      next
        case (Some v)
        then show ?thesis using assms m p s by (simp add: scan_step_def scan_line_def Let_def)
      qed
    qed
  qed
qed

lemma scan_loop_ends:
  "index \<le> length lines \<Longrightarrow>
   scan_loop relative lines (Some (index, st)) = Some (Some (length lines, scan_lines relative (Suc index) (drop index lines) st))"
proof (induction "length lines - index" arbitrary: index st rule: less_induct)
  case less
  have step: "scan_loop relative lines (Some (index, st)) =
      (if index < length lines then scan_loop relative lines (scan_step relative lines (index, st)) else Some (Some (index, st)))"
    unfolding scan_loop_def by (subst while_option_unfold) simp
  show ?case
  proof (cases "index < length lines")
    case False
    then show ?thesis using less.prems step by simp
  next
    case True
    obtain st' k where l: "scan_line relative (Suc index) (lines ! index) (drop (Suc index) lines) st = (st', k)" by (metis prod.exhaust)
    have s: "scan_step relative lines (index, st) = Some (Suc index + k, st')" "Suc index + k \<le> length lines"
      using scan_step_line [OF True l] by auto
    have "drop index lines = lines ! index # drop (Suc index) lines" using True by (simp add: Cons_nth_drop_Suc)
    then have "scan_lines relative (Suc index) (drop index lines) st = scan_lines relative (Suc (Suc index + k)) (drop (Suc index + k) lines) st'"
      using l by (simp add: add.commute)
    then show ?thesis using less.hyps [of "Suc index + k" st'] s True step by simp
  qed
qed

section \<open>Both loops end\<close>

text \<open>C11. The gate reads the permission blocks of every workflow file in finitely many rounds: neither of its
  nested loops over the lines can run for ever, and the blocks and failures they leave are those that
  the other theorems on the gate speak of.\<close>

theorem permission_loops_end:
  "permission_loops relative contents failures = Some (permission_blocks relative contents failures)"
  by (simp add: permission_loops_def permission_blocks_def Let_def scan_loop_ends)

end
