(* ===== verification/ReleaseManifest.thy ===== *)
theory ReleaseManifest
  imports Gates Sha256
begin

text \<open>
  \<open>scripts/release_manifest.py\<close>: the manifest of a release, built from the files of a release run
  and checked before it is promoted.  What is shown: a manifest that is built passes the check, its
  images are the distinct references of the digest files, each fixed by a digest, and artifacts
  are listed with their checksums.
\<close>

section \<open>Expressions\<close>

definition is_image_char :: "char \<Rightarrow> bool" where
  "is_image_char c = (let n = (of_char c :: int) in 97 \<le> n \<and> n \<le> 122 \<or> 48 \<le> n \<and> n \<le> 57 \<or> c \<in> set ''-./'')"

definition is_tag_char :: "char \<Rightarrow> bool" where
  "is_tag_char c = (let n = (of_char c :: int)
     in 48 \<le> n \<and> n \<le> 57 \<or> 65 \<le> n \<and> n \<le> 90 \<or> 97 \<le> n \<and> n \<le> 122 \<or> c \<in> set ''.-'')"

definition IMAGE_REF_RE :: regex where
  "IMAGE_REF_RE = Then (plus_class is_image_char) (Then (optional (Then (exactly '':'') (plus_class is_digit)))
     (Then (exactly ''/'') (Then (plus_class is_image_char) (Then (exactly ''@sha256:'')
       (Then (counted 64 is_lower_hex) Text_End)))))"

definition SHA_RE :: regex where
  "SHA_RE = Then (counted 40 is_lower_hex) Text_End"

definition TAG_RE :: regex where
  "TAG_RE = Then (exactly ''v'') (Then (plus_class is_digit) (Then (exactly ''.'') (Then (plus_class is_digit)
     (Then (exactly ''.'') (Then (plus_class is_digit)
       (Then (optional (Then (exactly ''-'') (plus_class is_tag_char))) Text_End))))))"

definition LOCKFILES :: "string list" where
  "LOCKFILES = [''pnpm-lock.yaml'', ''services/go.sum'', ''services/requirements.txt'', ''apps/control-plane/Gemfile.lock'']"

section \<open>Files\<close>

text \<open>An entry of a release_dir: a regular file or not, its bytes, and what \<open>read_text\<close> gives.\<close>

record dir_entry =
  de_name :: string
  de_is_file :: bool
  de_bytes :: "int list"
  de_text :: "string res"

record release_dir =
  di_path :: string
  di_entries :: "dir_entry list"

definition path_in :: "string \<Rightarrow> string \<Rightarrow> string" where
  "path_in dir name = (if dir = ''.'' then name else if endswith dir ''/'' then dir @ name else dir @ ''/'' @ name)"

text \<open>A pattern with one star: what is before and after it.  \<open>sorted(directory.glob(pattern))\<close>\<close>

definition glob :: "release_dir \<Rightarrow> string \<times> string \<Rightarrow> dir_entry list" where
  "glob dir pattern = sort_key de_name (filter (\<lambda>e. startswith (de_name e) (fst pattern) \<and> endswith (de_name e) (snd pattern)
     \<and> length (fst pattern) + length (snd pattern) \<le> length (de_name e)) (di_entries dir))"

definition sha256_file :: "dir_entry \<Rightarrow> string" where
  "sha256_file e = ''sha256:'' @ hexdigest (sha256 (de_bytes e))"

section \<open>Building\<close>

fun digest_texts :: "string \<Rightarrow> dir_entry list \<Rightarrow> string list res" where
  "digest_texts dir [] = Inr []"
| "digest_texts dir (e # es) =
     res_bind (de_text e) (\<lambda>t.
     res_bind (res_guard (strip t \<noteq> []) (Exn ValueError (path_in dir (de_name e) @ '' is empty''))) (\<lambda>_.
     res_bind (digest_texts dir es) (\<lambda>ts. Inr (strip t # ts))))"

definition load_image_refs :: "release_dir \<Rightarrow> string list res" where
  "load_image_refs dir =
     res_bind (digest_texts (di_path dir) (glob dir (''digest-'', ''.txt''))) (\<lambda>refs.
       let invalid = filter (\<lambda>r. \<not> fullmatch IMAGE_REF_RE r) refs
       in if refs = [] then value_error (''no digest-*.txt files found in '' @ di_path dir)
          else if invalid \<noteq> [] then value_error (''image refs must be registry/name@sha256:<digest>: '' @ join '', '' invalid)
          else if \<not> distinct refs then value_error ''duplicate image digest references found''
          else Inr refs)"

definition artifact_entry :: "string \<Rightarrow> dir_entry \<Rightarrow> pydict" where
  "artifact_entry path e = [(''name'', PStr (de_name e)), (''path'', PStr path), (''sha256'', PStr (sha256_file e))]"

definition artifact_entries :: "release_dir \<Rightarrow> (string \<times> string) list \<Rightarrow> pydict list" where
  "artifact_entries dir patterns =
     map (\<lambda>e. artifact_entry (path_in (di_path dir) (de_name e)) e)
       (sort_key de_name (concat (map (\<lambda>pattern. filter de_is_file (glob dir pattern)) patterns)))"

text \<open>The arguments of the command, with the directories they name; the source archive is the entry
  found at its path, if there is one.\<close>

record release_args =
  ra_tag :: string
  ra_commit :: string
  ra_digests :: release_dir
  ra_sboms :: release_dir
  ra_scans :: release_dir
  ra_source_path :: string
  ra_source :: "dir_entry option"

definition SBOM_PATTERNS :: "(string \<times> string) list" where
  "SBOM_PATTERNS = [([], ''.spdx.json''), ([], ''.cyclonedx.json''), ([], ''.json'')]"

definition SCAN_PATTERNS :: "(string \<times> string) list" where
  "SCAN_PATTERNS = [([], ''.sarif''), ([], ''.txt''), ([], ''.json'')]"

definition source_archive :: "release_args \<Rightarrow> dir_entry res" where
  "source_archive args = (case ra_source args of
     Some e \<Rightarrow> if de_is_file e then Inr e else value_error (''source archive not found: '' @ ra_source_path args)
   | None \<Rightarrow> value_error (''source archive not found: '' @ ra_source_path args))"

text \<open>\<open>isoformat().replace("+00:00", "Z")\<close> of the time.\<close>

function zulu :: "string \<Rightarrow> string" where
  "zulu s = (if s = [] then [] else if startswith s ''+00:00'' then CHR ''Z'' # zulu (drop 6 s) else hd s # zulu (tl s))"
  by pat_completeness auto
termination
  by (relation "measure length") auto

declare zulu.simps [simp del]

definition manifest_of :: "string \<Rightarrow> release_args \<Rightarrow> dir_entry \<Rightarrow> string list \<Rightarrow> pydict list \<Rightarrow> pydict list \<Rightarrow> pydict" where
  "manifest_of now args source image_refs sboms scans =
     [(''schemaVersion'', PStr ''signalchord.release-manifest.v1''), (''generatedAt'', PStr (zulu now)),
      (''release'', PDict [(''tag'', PStr (ra_tag args)), (''commit'', PStr (ra_commit args)),
         (''sourceArchive'', PDict (artifact_entry (ra_source_path args) source))]),
      (''dependencies'', PDict [(''lockfiles'', PList (map PStr LOCKFILES)), (''frozenInstallRequired'', PBool True)]),
      (''images'', PList (map (\<lambda>ref. PDict [(''ref'', PStr ref)]) image_refs)),
      (''sboms'', PList (map PDict sboms)), (''vulnerabilityReports'', PList (map PDict scans)),
      (''attestations'', PDict [(''keylessSigning'', PStr ''sigstore-cosign-github-oidc''),
         (''verificationRequiredBeforePromotion'', PBool True)]),
      (''promotion'', PDict [(''policy'', PStr ''promote-by-digest-only''), (''productionRebuildAllowed'', PBool False)])]"

definition build_manifest :: "string \<Rightarrow> release_args \<Rightarrow> pydict res" where
  "build_manifest now args =
     res_bind (res_guard (fullmatch TAG_RE (ra_tag args)) (Exn ValueError ''release tag must be vMAJOR.MINOR.PATCH'')) (\<lambda>_.
     res_bind (res_guard (fullmatch SHA_RE (ra_commit args))
       (Exn ValueError ''commit must be a full 40-character lowercase SHA'')) (\<lambda>_.
     res_bind (source_archive args) (\<lambda>source.
     res_bind (load_image_refs (ra_digests args)) (\<lambda>image_refs.
     let sboms = artifact_entries (ra_sboms args) SBOM_PATTERNS; scans = artifact_entries (ra_scans args) SCAN_PATTERNS
     in if sboms = [] then value_error ''at least one SBOM artifact is required''
        else if scans = [] then value_error ''at least one vulnerability scan artifact is required''
        else Inr (manifest_of now args source image_refs sboms scans)))))"

section \<open>Checking\<close>

definition manifest_text :: "pyval \<Rightarrow> string \<Rightarrow> string res" where
  "manifest_text v k = res_bind (py_get v k (PStr [])) (\<lambda>w. Inr (py_str w))"

definition check_image :: "pyval \<Rightarrow> unit res" where
  "check_image entry =
     (let ref = (case entry of PDict d \<Rightarrow> dict_get_or d ''ref'' PNone | _ \<Rightarrow> PNone)
      in res_guard (case ref of PStr s \<Rightarrow> fullmatch IMAGE_REF_RE s | _ \<Rightarrow> False)
           (Exn ValueError (''image ref is not digest-pinned: '' @ py_str ref)))"

fun check_images :: "pyval list \<Rightarrow> unit res" where
  "check_images [] = Inr ()"
| "check_images (entry # entries) = res_bind (check_image entry) (\<lambda>_. check_images entries)"

definition filled_list :: "pyval \<Rightarrow> bool" where
  "filled_list v = (case v of PList (_ # _) \<Rightarrow> True | _ \<Rightarrow> False)"

definition check_section :: "pyval \<Rightarrow> string \<Rightarrow> unit res" where
  "check_section manifest section_name =
     res_bind (py_get manifest section_name PNone) (\<lambda>entries.
       res_guard (filled_list entries) (Exn ValueError (''manifest must contain '' @ section_name)))"

definition validate_manifest :: "pyval \<Rightarrow> unit res" where
  "validate_manifest manifest =
     res_bind (py_get manifest ''schemaVersion'' PNone) (\<lambda>version.
     res_bind (res_guard (version = PStr ''signalchord.release-manifest.v1'')
       (Exn ValueError ''unsupported release manifest schemaVersion'')) (\<lambda>_.
     res_bind (py_get manifest ''release'' (PDict [])) (\<lambda>release.
     res_bind (manifest_text release ''tag'') (\<lambda>tag.
     res_bind (res_guard (fullmatch TAG_RE tag) (Exn ValueError ''release.tag is not semantic'')) (\<lambda>_.
     res_bind (manifest_text release ''commit'') (\<lambda>commit.
     res_bind (res_guard (fullmatch SHA_RE commit) (Exn ValueError ''release.commit is not a full SHA'')) (\<lambda>_.
     res_bind (py_get manifest ''images'' PNone) (\<lambda>images.
     res_bind (res_guard (filled_list images) (Exn ValueError ''manifest must contain at least one image'')) (\<lambda>_.
     res_bind (check_images (case images of PList vs \<Rightarrow> vs | _ \<Rightarrow> [])) (\<lambda>_.
     res_bind (check_section manifest ''sboms'') (\<lambda>_. check_section manifest ''vulnerabilityReports'')))))))))))"

section \<open>The command\<close>

text \<open>The exit status: the errors of files and values are reported with 1, others end the program.
  \<open>loaded\<close> is the file as JSON, \<open>written\<close> whether the output could be written.\<close>

definition exit_status :: "unit res \<Rightarrow> nat res" where
  "exit_status r = (case r of Inr _ \<Rightarrow> Inr 0
     | Inl e \<Rightarrow> if exn_cls e = OSError \<or> is_value_error (exn_cls e) then Inr 1 else Inl e)"

definition main_build :: "string \<Rightarrow> release_args \<Rightarrow> unit res \<Rightarrow> nat res" where
  "main_build now args written =
     exit_status (res_bind (build_manifest now args) (\<lambda>manifest.
       res_bind (validate_manifest (PDict manifest)) (\<lambda>_. written)))"

definition main_validate :: "pyval res \<Rightarrow> nat res" where
  "main_validate loaded = exit_status (res_bind loaded validate_manifest)"

section \<open>What the expressions match\<close>

definition image_pinned :: "string \<Rightarrow> bool" where
  "image_pinned r \<longleftrightarrow> (\<exists>name digest. r = name @ ''@sha256:'' @ digest \<and> CHR ''/'' \<in> set name \<and> CHR ''@'' \<notin> set name
     \<and> length digest = 64 \<and> list_all is_lower_hex digest)"

lemma not_at: "is_image_char c \<Longrightarrow> c \<noteq> CHR ''@''" "is_digit c \<Longrightarrow> c \<noteq> CHR ''@''"
  by (auto simp: is_image_char_def is_digit_code Let_def)

lemma all_in_not_at:
  "all_in s is_image_char i j \<Longrightarrow> all_in s (\<lambda>c. c \<noteq> CHR ''@'') i j"
  "all_in s is_digit i j \<Longrightarrow> all_in s (\<lambda>c. c \<noteq> CHR ''@'') i j"
  unfolding all_in_def using not_at by blast+

lemma port_span:
  assumes "matches s (optional (Then (exactly '':'') (plus_class is_digit))) a b"
  shows "a \<le> b \<and> all_in s (\<lambda>c. c \<noteq> CHR ''@'') a b"
proof (cases "b = a")
  case False
  then obtain k where k: "matches s (exactly '':'') a k" "matches s (plus_class is_digit) k b"
    using assms unfolding optional_span by auto
  have a: "k = Suc a" "a < length s" "s ! a = CHR '':''" using k(1) unfolding one_span by simp_all
  have "k < b" "all_in s (\<lambda>c. c \<noteq> CHR ''@'') k b" using plus_span [OF k(2)] all_in_not_at by blast+
  then show ?thesis using a all_in_first [where P = "\<lambda>c. c \<noteq> CHR ''@''", OF a(2)] by simp
qed simp

lemma image_ref_parts:
  assumes "fullmatch IMAGE_REF_RE s"
  obtains a b d e where "matches s (plus_class is_image_char) 0 a"
    and "matches s (optional (Then (exactly '':'') (plus_class is_digit))) a b" and "matches s (exactly ''/'') b (Suc b)"
    and "matches s (plus_class is_image_char) (Suc b) d" and "matches s (exactly ''@sha256:'') d e"
    and "matches s (counted 64 is_lower_hex) e (length s)"
  using assms unfolding fullmatch_matches IMAGE_REF_RE_def matches_simps(3,6) one_span by blast

lemma image_ref_pinned:
  assumes "fullmatch IMAGE_REF_RE s"
  shows "image_pinned s"
  using assms
proof (rule image_ref_parts)
  fix a b d e
  assume m: "matches s (plus_class is_image_char) 0 a"
    "matches s (optional (Then (exactly '':'') (plus_class is_digit))) a b" "matches s (exactly ''/'') b (Suc b)"
    "matches s (plus_class is_image_char) (Suc b) d" "matches s (exactly ''@sha256:'') d e"
    "matches s (counted 64 is_lower_hex) e (length s)"
  have slash: "b < length s" "s ! b = CHR ''/''" using m(3) unfolding one_span by simp_all
  have e: "e = d + length ''@sha256:''" "e \<le> length s" "take (length ''@sha256:'') (drop d s) = ''@sha256:''"
    using exactly_span [OF m(5)] by blast+
  have d: "b < d" "d \<le> length s" using plus_span [OF m(4)] e(1,2) by linarith+
  have "all_in s (\<lambda>c. c \<noteq> CHR ''@'') 0 a" "all_in s (\<lambda>c. c \<noteq> CHR ''@'') (Suc b) d"
    using plus_span [OF m(1)] plus_span [OF m(4)] all_in_not_at by blast+
  moreover have "all_in s (\<lambda>c. c \<noteq> CHR ''@'') b (Suc b)" using slash by (simp add: all_in_first)
  ultimately have "all_in s (\<lambda>c. c \<noteq> CHR ''@'') 0 d" using port_span [OF m(2)] all_in_join by blast
  then have n: "CHR ''@'' \<notin> set (take d s)" using d(2) by (auto simp: all_in_def in_set_conv_nth)
  have p: "CHR ''/'' \<in> set (take d s)" using slash d unfolding in_set_conv_nth by (intro exI [of _ b]) simp
  have h: "list_all is_lower_hex (drop e s)" "length (drop e s) = 64"
    using counted_span [OF m(6)] by (simp_all add: all_in_def list_all_length)
  have "drop d s = take (length ''@sha256:'') (drop d s) @ drop (length ''@sha256:'') (drop d s)"
    by (rule append_take_drop_id [symmetric])
  then have "drop d s = ''@sha256:'' @ drop e s" unfolding e(3) drop_drop e(1) by (simp only: add.commute)
  then have "s = take d s @ ''@sha256:'' @ drop e s" by (metis append_take_drop_id)
  with n p h show ?thesis unfolding image_pinned_def by metis
qed

section \<open>Building and checking\<close>

lemma digest_texts_Inr:
  "digest_texts dir es = Inr ts \<Longrightarrow> list_all2 (\<lambda>e r. \<exists>t. de_text e = Inr t \<and> r = strip t) es ts"
  by (induction es arbitrary: ts) (auto simp: res_simps)

lemma load_image_refs_Inr:
  assumes "load_image_refs dir = Inr refs"
  shows "refs \<noteq> [] \<and> distinct refs \<and> list_all (fullmatch IMAGE_REF_RE) refs
    \<and> list_all2 (\<lambda>e r. \<exists>t. de_text e = Inr t \<and> r = strip t) (glob dir (''digest-'', ''.txt'')) refs"
  using assms digest_texts_Inr unfolding load_image_refs_def
  by (auto simp: res_simps Let_def filter_empty_conv list_all_iff split: if_splits)

lemma check_images_ok: "check_images es = Inr () \<longleftrightarrow> (\<forall>e\<in>set es. check_image e = Inr ())"
  by (induction es) (auto simp: res_simps)

lemma check_image_ok:
  "check_image e = Inr () \<longleftrightarrow> (\<exists>d r. e = PDict d \<and> dict_get d ''ref'' = Some (PStr r) \<and> fullmatch IMAGE_REF_RE r)"
  by (auto simp: check_image_def dict_get_or_def res_simps split: pyval.splits option.splits)

lemma manifest_fields:
  "dict_get (manifest_of now args source refs sboms scans) ''schemaVersion'' = Some (PStr ''signalchord.release-manifest.v1'')"
  "dict_get (manifest_of now args source refs sboms scans) ''release'' = Some (PDict [(''tag'', PStr (ra_tag args)),
     (''commit'', PStr (ra_commit args)), (''sourceArchive'', PDict (artifact_entry (ra_source_path args) source))])"
  "dict_get (manifest_of now args source refs sboms scans) ''images'' = Some (PList (map (\<lambda>ref. PDict [(''ref'', PStr ref)]) refs))"
  "dict_get (manifest_of now args source refs sboms scans) ''sboms'' = Some (PList (map PDict sboms))"
  "dict_get (manifest_of now args source refs sboms scans) ''vulnerabilityReports'' = Some (PList (map PDict scans))"
  by (simp_all add: manifest_of_def)

lemma build_manifest_Inr:
  assumes "build_manifest now args = Inr m"
  obtains source refs where "m = manifest_of now args source refs (artifact_entries (ra_sboms args) SBOM_PATTERNS)
      (artifact_entries (ra_scans args) SCAN_PATTERNS)"
    and "load_image_refs (ra_digests args) = Inr refs" and "fullmatch TAG_RE (ra_tag args)" and "fullmatch SHA_RE (ra_commit args)"
    and "artifact_entries (ra_sboms args) SBOM_PATTERNS \<noteq> []" and "artifact_entries (ra_scans args) SCAN_PATTERNS \<noteq> []"
  using assms by (auto simp: build_manifest_def res_simps Let_def split: if_splits)

lemma filled_map: "xs \<noteq> [] \<Longrightarrow> filled_list (PList (map f xs))"
  by (cases xs) (simp_all add: filled_list_def)

lemma built_valid:
  assumes "build_manifest now args = Inr m"
  shows "validate_manifest (PDict m) = Inr ()"
proof -
  obtain source refs where b: "m = manifest_of now args source refs (artifact_entries (ra_sboms args) SBOM_PATTERNS)
      (artifact_entries (ra_scans args) SCAN_PATTERNS)" "load_image_refs (ra_digests args) = Inr refs"
    "fullmatch TAG_RE (ra_tag args)" "fullmatch SHA_RE (ra_commit args)"
    "artifact_entries (ra_sboms args) SBOM_PATTERNS \<noteq> []" "artifact_entries (ra_scans args) SCAN_PATTERNS \<noteq> []"
    using build_manifest_Inr [OF assms] by blast
  have "check_images (map (\<lambda>ref. PDict [(''ref'', PStr ref)]) refs) = Inr ()"
    using load_image_refs_Inr [OF b(2)] by (simp add: check_images_ok check_image_ok list_all_iff)
  then show ?thesis
    using load_image_refs_Inr [OF b(2)] b(3-6)
    by (simp add: validate_manifest_def dict_get_or_def b(1) manifest_fields manifest_text_def py_str_def filled_map
        check_section_def)
qed

text \<open>C28. A manifest that is built passes the check that precedes promotion, and its images are the
  references found in the digest files, one for each file, distinct, and each fixed by a digest.\<close>

theorem release_manifest_built:
  assumes "build_manifest now args = Inr m"
  shows "validate_manifest (PDict m) = Inr ()
    \<and> (\<exists>refs. dict_get m ''images'' = Some (PList (map (\<lambda>ref. PDict [(''ref'', PStr ref)]) refs))
        \<and> refs \<noteq> [] \<and> distinct refs \<and> list_all image_pinned refs
        \<and> list_all2 (\<lambda>e r. \<exists>t. de_text e = Inr t \<and> r = strip t) (glob (ra_digests args) (''digest-'', ''.txt'')) refs)"
proof -
  obtain source refs where b: "m = manifest_of now args source refs (artifact_entries (ra_sboms args) SBOM_PATTERNS)
      (artifact_entries (ra_scans args) SCAN_PATTERNS)" "load_image_refs (ra_digests args) = Inr refs"
    using build_manifest_Inr [OF assms] by blast
  then show ?thesis
    using built_valid [OF assms] load_image_refs_Inr [OF b(2)] image_ref_pinned
    by (auto simp: manifest_fields list_all_iff intro!: exI [of _ refs])
qed

text \<open>The files of a release run, for the examples.\<close>

definition sample_ref :: string where
  "sample_ref = ''ghcr.io/pepitodrop/signalchord-web@sha256:'' @ concat (replicate 32 ''a0'')"

definition sample_file :: "string \<Rightarrow> string \<Rightarrow> dir_entry" where
  "sample_file name content = \<lparr>de_name = name, de_is_file = True, de_bytes = utf8_encode content, de_text = Inr content\<rparr>"

definition sample_args :: release_args where
  "sample_args = \<lparr>ra_tag = ''v1.2.3'', ra_commit = concat (replicate 20 ''b1''),
     ra_digests = \<lparr>di_path = ''digests'', di_entries = [sample_file ''digest-web.txt'' (sample_ref @ [CHR 0x0A])]\<rparr>,
     ra_sboms = \<lparr>di_path = ''sboms'', di_entries = [sample_file ''source.spdx.json'' ''{}'']\<rparr>,
     ra_scans = \<lparr>di_path = ''scans'', di_entries = [sample_file ''trivy.txt'' ''ok'']\<rparr>,
     ra_source_path = ''out/source.tgz'', ra_source = Some (sample_file ''source.tgz'' ''source'')\<rparr>"

lemma sample_refs: "load_image_refs (ra_digests sample_args) = Inr [sample_ref]"
  by code_simp

lemma artifact_entries_nonempty:
  "list_ex (\<lambda>pattern. list_ex de_is_file (glob dir pattern)) patterns \<Longrightarrow> artifact_entries dir patterns \<noteq> []"
  unfolding artifact_entries_def set_empty [symmetric] set_map set_sort
  by (induction patterns) (auto simp: list_ex_iff filter_empty_conv)

lemma sample_entries:
  "artifact_entries (ra_sboms sample_args) SBOM_PATTERNS \<noteq> []" "artifact_entries (ra_scans sample_args) SCAN_PATTERNS \<noteq> []"
  by (rule artifact_entries_nonempty, code_simp)+

lemma sample_built: "\<exists>m. build_manifest now sample_args = Inr m"
proof -
  have "fullmatch TAG_RE (ra_tag sample_args)" "fullmatch SHA_RE (ra_commit sample_args)" by code_simp+
  moreover have "\<exists>e. source_archive sample_args = Inr e" by (simp add: source_archive_def sample_args_def sample_file_def)
  ultimately show ?thesis using sample_entries by (auto simp: build_manifest_def res_simps Let_def sample_refs)
qed

theorem release_manifest_built_witness:
  "\<exists>m refs. build_manifest ''2026-01-01T00:00:00+00:00'' sample_args = Inr m \<and> validate_manifest (PDict m) = Inr ()
     \<and> dict_get m ''images'' = Some (PList (map (\<lambda>ref. PDict [(''ref'', PStr ref)]) refs)) \<and> refs \<noteq> []"
proof -
  obtain m where m: "build_manifest ''2026-01-01T00:00:00+00:00'' sample_args = Inr m" using sample_built by blast
  from release_manifest_built [OF m] m show ?thesis by blast
qed

text \<open>A manifest for which the check ends with status 0, whatever JSON it is, promotes fixed images
  only: it has images, and the reference of each is fixed by a digest.\<close>

theorem promoted_images_pinned:
  assumes "main_validate loaded = Inr 0"
  shows "\<exists>m images. loaded = Inr (PDict m) \<and> dict_get m ''images'' = Some (PList images) \<and> images \<noteq> []
    \<and> (\<forall>v\<in>set images. \<exists>d r. v = PDict d \<and> dict_get d ''ref'' = Some (PStr r) \<and> image_pinned r)"
proof -
  obtain v where l: "loaded = Inr v" "validate_manifest v = Inr ()"
    using assms by (auto simp: main_validate_def exit_status_def res_simps split: sum.splits if_splits)
  obtain w where w: "py_get v ''images'' PNone = Inr w" "filled_list w" "check_images (case w of PList vs \<Rightarrow> vs | _ \<Rightarrow> []) = Inr ()"
    using l(2) by (auto simp: validate_manifest_def res_simps)
  from w(2) obtain i vs where i: "w = PList (i # vs)" by (auto simp: filled_list_def split: pyval.splits list.splits)
  with w(1) obtain m where m: "v = PDict m" "dict_get m ''images'' = Some (PList (i # vs))"
    by (cases v) (auto simp: dict_get_or_def split: option.splits)
  have "check_images (i # vs) = Inr ()" using w(3) by (simp only: i pyval.case)
  then have "\<forall>v\<in>set (i # vs). \<exists>d r. v = PDict d \<and> dict_get d ''ref'' = Some (PStr r) \<and> image_pinned r"
    unfolding check_images_ok check_image_ok using image_ref_pinned by blast
  with l(1) m show ?thesis by blast
qed

definition sample_manifest :: pyval where
  "sample_manifest = PDict [(''schemaVersion'', PStr ''signalchord.release-manifest.v1''),
     (''release'', PDict [(''tag'', PStr ''v1.0.0-rc.1''), (''commit'', PStr (concat (replicate 20 ''b1'')))]),
     (''images'', PList [PDict [(''ref'', PStr sample_ref)]]), (''sboms'', PList [PNone]), (''vulnerabilityReports'', PList [PNone])]"

theorem promoted_images_pinned_witness:
  "main_validate (Inr sample_manifest) = Inr 0
   \<and> (\<exists>m images. sample_manifest = PDict m \<and> dict_get m ''images'' = Some (PList images) \<and> images \<noteq> [])"
proof -
  have m: "main_validate (Inr sample_manifest) = Inr 0" by code_simp
  from promoted_images_pinned [OF m] m show ?thesis by blast
qed

lemma endswith_part: "endswith s (a @ b) \<Longrightarrow> endswith s b"
  by (auto simp: endswith_def startswith_split)

lemma in_glob_suffix: "e \<in> set (di_entries dir) \<Longrightarrow> endswith (de_name e) suffix \<Longrightarrow> e \<in> set (glob dir ([], suffix))"
  by (auto simp: glob_def endswith_def startswith_split) (metis length_append length_rev le_add1)

lemma count_sort_key [simp]: "count_list (sort_key f xs) x = count_list xs x"
  by (simp add: count_list_eq_length_filter filter_sort)

text \<open>C0. A bill of materials in SPDX or CycloneDX form is listed twice: its name also ends in
  \<open>.json\<close>, and the files of all patterns are put together without removing duplicates.\<close>

theorem sbom_listed_twice:
  assumes "build_manifest now args = Inr m" and "e \<in> set (di_entries (ra_sboms args))" and "de_is_file e"
    and "endswith (de_name e) ''.spdx.json'' \<or> endswith (de_name e) ''.cyclonedx.json''"
  shows "\<exists>entries. dict_get m ''sboms'' = Some (PList entries)
    \<and> 2 \<le> count_list entries (PDict (artifact_entry (path_in (di_path (ra_sboms args)) (de_name e)) e))"
proof -
  let ?dir = "ra_sboms args"
  let ?f = "\<lambda>e. PDict (artifact_entry (path_in (di_path ?dir) (de_name e)) e)"
  let ?found = "\<lambda>suffix. filter de_is_file (glob ?dir ([], suffix))"
  let ?all = "?found ''.spdx.json'' @ ?found ''.cyclonedx.json'' @ ?found ''.json''"
  obtain source refs where m: "m = manifest_of now args source refs (artifact_entries ?dir SBOM_PATTERNS)
      (artifact_entries (ra_scans args) SCAN_PATTERNS)"
    using build_manifest_Inr [OF assms(1)] by blast
  have "endswith (de_name e) ''.json''"
    using assms(4) endswith_part [of _ "''.spdx''" "''.json''"] endswith_part [of _ "''.cyclonedx''" "''.json''"] by auto
  then have "0 < count_list (?found ''.json'') e"
    using in_glob_suffix [OF assms(2)] assms(3) by (simp add: count_list_0_iff neq0_conv [symmetric] del: neq0_conv)
  moreover have "0 < count_list (?found ''.spdx.json'') e + count_list (?found ''.cyclonedx.json'') e"
    using in_glob_suffix [OF assms(2)] assms(3,4) by (auto simp: count_list_0_iff neq0_conv [symmetric] simp del: neq0_conv)
  ultimately have "2 \<le> count_list (sort_key de_name ?all) e"
    unfolding count_sort_key count_list_append by linarith
  also have "\<dots> \<le> count_list (map ?f (sort_key de_name ?all)) (?f e)" by (rule count_list_map_ge)
  finally have "2 \<le> count_list (map PDict (artifact_entries ?dir SBOM_PATTERNS)) (?f e)"
    by (simp add: artifact_entries_def SBOM_PATTERNS_def comp_def)
  then show ?thesis by (simp add: m manifest_fields)
qed

theorem sbom_listed_twice_witness:
  "\<exists>m entries. build_manifest [] sample_args = Inr m \<and> dict_get m ''sboms'' = Some (PList entries)
    \<and> 2 \<le> count_list entries (PDict (artifact_entry ''sboms/source.spdx.json'' (sample_file ''source.spdx.json'' ''{}'')))"
proof -
  obtain m where m: "build_manifest [] sample_args = Inr m" using sample_built by blast
  let ?e = "sample_file ''source.spdx.json'' ''{}''"
  have e: "?e \<in> set (di_entries (ra_sboms sample_args))" "de_is_file ?e"
    by (simp_all add: sample_args_def) (simp add: sample_file_def)
  have n: "endswith (de_name ?e) ''.spdx.json'' \<or> endswith (de_name ?e) ''.cyclonedx.json''" by code_simp
  have "path_in (di_path (ra_sboms sample_args)) (de_name ?e) = ''sboms/source.spdx.json''" by code_simp
  with sbom_listed_twice [OF m e n] m show ?thesis by auto
qed

end
