(* ===== verification/MigrationSafety.thy ===== *)
theory MigrationSafety
  imports Gates
begin

text \<open>
  \<open>scripts/validate_migration_safety.py\<close>: the gate on database migrations.  A migration that drops or
  renames something is refused unless a comment cites the repair policy.  What is shown: which
  texts are accepted, and how the scan of all files relates to the scan of the changed ones.
\<close>

section \<open>Patterns\<close>

text \<open>\<open>\bname\b\<close>\<close>

definition whole_word :: "string \<Rightarrow> regex" where
  "whole_word name = Then Boundary (Then (exactly name) Boundary)"

definition DESTRUCTIVE_PATTERNS :: "(string \<times> regex) list" where
  "DESTRUCTIVE_PATTERNS = map (\<lambda>name. (name, whole_word name)) [''drop_table'', ''remove_column'', ''drop_column'', ''rename_column'']"

definition ACKNOWLEDGMENT_MARKER :: string where
  "ACKNOWLEDGMENT_MARKER = ''recovery-safety:''"

definition ACKNOWLEDGMENT_REQUIRED_SUBSTRINGS :: "string list" where
  "ACKNOWLEDGMENT_REQUIRED_SUBSTRINGS =
     [ACKNOWLEDGMENT_MARKER, ''acknowledged-destructive'', ''forward-repair'', ''recovery-matrix.json'']"

definition ACKNOWLEDGMENT_EXAMPLE :: string where
  "ACKNOWLEDGMENT_EXAMPLE =
     ''# recovery-safety: acknowledged-destructive (forward-repair-only policy, see recovery/recovery-matrix.json)''"

section \<open>One migration\<close>

definition is_comment :: "string \<Rightarrow> bool" where
  "is_comment line = startswith (strip line) ''#''"

text \<open>The names found, sorted; the patterns have distinct names, so no set is needed.\<close>

definition find_destructive_operations :: "string \<Rightarrow> string list" where
  "find_destructive_operations text =
     sort (map fst (filter (\<lambda>(name, pattern). \<exists>line\<in>set (splitlines text). \<not> is_comment line \<and> search pattern line)
       DESTRUCTIVE_PATTERNS))"

definition has_forward_repair_acknowledgment :: "string \<Rightarrow> bool" where
  "has_forward_repair_acknowledgment text = (\<exists>line\<in>set (splitlines text). is_comment line
     \<and> list_all (contains (strip line)) ACKNOWLEDGMENT_REQUIRED_SUBSTRINGS)"

definition validate_migration :: "string \<Rightarrow> string \<Rightarrow> string list" where
  "validate_migration path text =
     (let destructive = find_destructive_operations text
      in if destructive = [] then [] else if has_forward_repair_acknowledgment text then []
         else [path @ '': destructive migration pattern(s) ['' @ join '', '' destructive
           @ ''] require an explicit acknowledgment comment citing the forward-repair policy, e.g.:''
           @ CHR 0x0A # ''    '' @ ACKNOWLEDGMENT_EXAMPLE])"

section \<open>The files\<close>

text \<open>The files of the checkout: path and text.  \<open>git diff\<close> prints names or cannot be run.\<close>

type_synonym checkout = "(string \<times> string) list"

definition file_name :: "string \<Rightarrow> string" where
  "file_name path = rev (takeWhile (\<lambda>c. c \<noteq> CHR ''/'') (rev path))"

text \<open>\<open>Path(line).suffix\<close>: from the last dot of the name, unless that is its first or last character.\<close>

definition path_suffix :: "string \<Rightarrow> string" where
  "path_suffix path =
     (let name = file_name path; after = rev (takeWhile (\<lambda>c. c \<noteq> CHR ''.'') (rev name));
          i = length name - length after
      in if CHR ''.'' \<in> set name \<and> after \<noteq> [] \<and> 1 < i then CHR ''.'' # after else [])"

text \<open>\<open>sorted(migrate_dir.glob("*.rb"))\<close>: the files of the directory itself.\<close>

definition all_migrations :: "checkout \<Rightarrow> string \<Rightarrow> string list" where
  "all_migrations files migrate_dir = sort (map fst (filter (\<lambda>(path, _).
     path = migrate_dir @ ''/'' @ file_name path \<and> endswith path ''.rb'') files))"

definition changed_of :: "checkout \<Rightarrow> string \<Rightarrow> string list" where
  "changed_of files stdout = sort (filter (\<lambda>l. l \<noteq> [] \<and> path_suffix l = ''.rb'' \<and> l \<in> fst ` set files)
     (map strip (splitlines stdout)))"

definition changed_migration_files :: "checkout \<Rightarrow> string \<Rightarrow> string option \<Rightarrow> string option \<Rightarrow> string list" where
  "changed_migration_files files migrate_dir base diff =
     (case base of None \<Rightarrow> all_migrations files migrate_dir
      | Some _ \<Rightarrow> (case diff of None \<Rightarrow> all_migrations files migrate_dir | Some stdout \<Rightarrow> changed_of files stdout))"

definition read_migration :: "checkout \<Rightarrow> string \<Rightarrow> string" where
  "read_migration files path = (case map_of files path of Some text \<Rightarrow> text | None \<Rightarrow> [])"

definition migration_failures :: "checkout \<Rightarrow> string \<Rightarrow> string option \<Rightarrow> string option \<Rightarrow> string list" where
  "migration_failures files migrate_dir base diff =
     concat (map (\<lambda>path. validate_migration path (read_migration files path))
       (changed_migration_files files migrate_dir (case base of Some [] \<Rightarrow> None | b \<Rightarrow> b) diff))"

text \<open>The exit status.\<close>

definition check_migrations :: "checkout \<Rightarrow> string \<Rightarrow> string option \<Rightarrow> string option \<Rightarrow> nat" where
  "check_migrations files migrate_dir base diff = (if migration_failures files migrate_dir base diff = [] then 0 else 1)"

section \<open>What is accepted\<close>

text \<open>A word of its own in a line.\<close>

definition has_word :: "string \<Rightarrow> string \<Rightarrow> bool" where
  "has_word line w \<longleftrightarrow> (\<exists>a b. line = a @ w @ b \<and> (a = [] \<or> \<not> is_word (last a)) \<and> (b = [] \<or> \<not> is_word (hd b)))"

lemma whole_word_iff:
  assumes "w \<noteq> []"
  shows "search (whole_word w) s \<longleftrightarrow> (\<exists>a b. s = a @ w @ b \<and> at_boundary s (length a) \<and> at_boundary s (length a + length w))"
proof
  assume "search (whole_word w) s"
  then obtain i where i: "at_boundary s i" "at_boundary s (i + length w)" "i + length w \<le> length s" "take (length w) (drop i s) = w"
    by (auto simp: search_iff whole_word_def exactly_matches [OF assms])
  have "s = take i s @ take (length w) (drop i s) @ drop (length w) (drop i s)" by (simp only: append_take_drop_id)
  then have "s = take i s @ w @ drop (length w) (drop i s)" unfolding i(4) .
  moreover have "length (take i s) = i" using i(3) by simp
  ultimately show "\<exists>a b. s = a @ w @ b \<and> at_boundary s (length a) \<and> at_boundary s (length a + length w)"
    using i(1,2) by metis
next
  assume "\<exists>a b. s = a @ w @ b \<and> at_boundary s (length a) \<and> at_boundary s (length a + length w)"
  then obtain a b where "s = a @ w @ b" "at_boundary s (length a)" "at_boundary s (length a + length w)" by blast
  then show "search (whole_word w) s"
    unfolding search_iff whole_word_def matches_simps exactly_matches [OF assms]
    by (intro exI [of _ "length a"] exI [of _ "length a + length w"]) auto
qed

lemma boundaries:
  assumes "w \<noteq> []" and "is_word (hd w)" and "is_word (last w)"
  shows "at_boundary (a @ w @ b) (length a) \<longleftrightarrow> a = [] \<or> \<not> is_word (last a)"
    and "at_boundary (a @ w @ b) (length a + length w) \<longleftrightarrow> b = [] \<or> \<not> is_word (hd b)"
proof -
  have "word_at (a @ w @ b) (length a)" using assms by (cases w) (auto simp: word_at_def nth_append)
  moreover have "word_at (a @ w @ b) (length a - 1) \<longleftrightarrow> is_word (last a)" if "a \<noteq> []"
    using that by (cases a rule: rev_cases) (auto simp: word_at_def nth_append)
  ultimately show "at_boundary (a @ w @ b) (length a) \<longleftrightarrow> a = [] \<or> \<not> is_word (last a)"
    by (auto simp: at_boundary_def)
  have "word_at (a @ w @ b) (length a + length w - 1)"
    using assms(1,3) by (cases w rule: rev_cases) (auto simp: word_at_def nth_append)
  moreover have "word_at (a @ w @ b) (length a + length w) \<longleftrightarrow> b \<noteq> [] \<and> is_word (hd b)"
    by (cases b) (auto simp: word_at_def nth_append)
  ultimately show "at_boundary (a @ w @ b) (length a + length w) \<longleftrightarrow> b = [] \<or> \<not> is_word (hd b)"
    using assms(1) by (auto simp: at_boundary_def)
qed

lemma search_has_word: "w \<noteq> [] \<Longrightarrow> is_word (hd w) \<Longrightarrow> is_word (last w) \<Longrightarrow> search (whole_word w) s \<longleftrightarrow> has_word s w"
  unfolding whole_word_iff has_word_def using boundaries [of w] by blast

text \<open>The words that make a migration destructive.\<close>

definition destructive_words :: "string list" where
  "destructive_words = [''drop_table'', ''remove_column'', ''drop_column'', ''rename_column'']"

lemma destructive_words_ok: "list_all (\<lambda>w. w \<noteq> [] \<and> is_word (hd w) \<and> is_word (last w)) destructive_words"
  by code_simp

lemma nothing_destructive:
  "find_destructive_operations text = [] \<longleftrightarrow>
   (\<forall>line\<in>set (splitlines text). \<not> is_comment line \<longrightarrow> (\<forall>w\<in>set destructive_words. \<not> has_word line w))"
proof -
  have p: "DESTRUCTIVE_PATTERNS = map (\<lambda>name. (name, whole_word name)) destructive_words"
    by (simp add: DESTRUCTIVE_PATTERNS_def destructive_words_def)
  have "find_destructive_operations text = [] \<longleftrightarrow>
      (\<forall>w\<in>set destructive_words. \<forall>line\<in>set (splitlines text). \<not> is_comment line \<longrightarrow> \<not> search (whole_word w) line)"
    unfolding find_destructive_operations_def sort_Nil_iff p by (auto simp: filter_empty_conv)
  then show ?thesis using destructive_words_ok search_has_word unfolding list_all_iff by blast
qed

text \<open>A text without destructive statements, or with a comment that cites the policy in one line.\<close>

definition acceptable :: "string \<Rightarrow> bool" where
  "acceptable text \<longleftrightarrow>
     (\<forall>line\<in>set (splitlines text). \<not> is_comment line \<longrightarrow> (\<forall>w\<in>set destructive_words. \<not> has_word line w))
   \<or> (\<exists>line\<in>set (splitlines text). is_comment line \<and> (\<forall>k\<in>set ACKNOWLEDGMENT_REQUIRED_SUBSTRINGS. contains (strip line) k))"

lemma validate_migration_nil: "validate_migration path text = [] \<longleftrightarrow> acceptable text"
  by (simp add: validate_migration_def Let_def acceptable_def nothing_destructive has_forward_repair_acknowledgment_def
      list_all_iff)

lemma read_migration_file: "distinct (map fst files) \<Longrightarrow> (path, text) \<in> set files \<Longrightarrow> read_migration files path = text"
  by (simp add: read_migration_def)

text \<open>C37. The scan of all migrations passes exactly when every Ruby file of the migration directory is
  acceptable: outside comments it has none of the four destructive calls as a word of its own, or
  one of its comments cites the forward-repair policy with all its parts in that one line.\<close>

theorem migrations_accepted:
  assumes "distinct (map fst files)"
  shows "check_migrations files migrate_dir None diff = 0 \<longleftrightarrow>
    (\<forall>(path, text)\<in>set files. path = migrate_dir @ ''/'' @ file_name path \<longrightarrow> endswith path ''.rb'' \<longrightarrow> acceptable text)"
proof -
  have "check_migrations files migrate_dir None diff = 0 \<longleftrightarrow>
      (\<forall>path\<in>set (all_migrations files migrate_dir). acceptable (read_migration files path))"
    by (simp add: check_migrations_def migration_failures_def changed_migration_files_def validate_migration_nil)
  then show ?thesis using read_migration_file [OF assms] by (fastforce simp: all_migrations_def)
qed

definition sample_migrations :: checkout where
  "sample_migrations = [(''db/migrate/1_add.rb'', ''add_column :alerts, :score''),
     (''db/migrate/2_drop.rb'', ''# recovery-safety: acknowledged-destructive (forward-repair, recovery-matrix.json)'' @ CHR 0x0A # ''drop_table :old'')]"

theorem migrations_accepted_witness:
  "distinct (map fst sample_migrations) \<and> check_migrations sample_migrations ''db/migrate'' None None = 0
   \<and> acceptable (snd (sample_migrations ! 1))"
proof -
  have d: "distinct (map fst sample_migrations)" by code_simp
  have c: "check_migrations sample_migrations ''db/migrate'' None None = 0" by code_simp
  have f: "(''db/migrate/2_drop.rb'', snd (sample_migrations ! 1)) \<in> set sample_migrations" by (simp add: sample_migrations_def)
  have "''db/migrate/2_drop.rb'' = ''db/migrate'' @ ''/'' @ file_name ''db/migrate/2_drop.rb''" "endswith ''db/migrate/2_drop.rb'' ''.rb''"
    by code_simp+
  then have "acceptable (snd (sample_migrations ! 1))"
    using migrations_accepted [OF d, of "''db/migrate''" None] c f by blast
  with d c show ?thesis by blast
qed

text \<open>The scan of all files is not the safe fallback its comment promises: it looks at the migration
  directory itself, whereas the names that git reports include its subdirectories.  A destructive
  migration in a subdirectory is refused when the changes can be computed, and passes when they
  cannot.\<close>

theorem fallback_misses_nested:
  assumes "\<not> acceptable text" and "files = [(''db/migrate/archive/1_drop.rb'', text)]" and "base \<noteq> []"
  shows "check_migrations files ''db/migrate'' (Some base) (Some ''db/migrate/archive/1_drop.rb'') = 1
    \<and> check_migrations files ''db/migrate'' (Some base) None = 0"
proof -
  let ?p = "''db/migrate/archive/1_drop.rb''"
  have "map strip (splitlines ?p) = [?p] \<and> path_suffix ?p = ''.rb''" by code_simp
  then have "changed_of files ?p = [?p]" by (simp add: changed_of_def assms(2))
  moreover have "?p \<noteq> ''db/migrate'' @ ''/'' @ file_name ?p" by code_simp
  then have "all_migrations files ''db/migrate'' = []" by (simp add: all_migrations_def assms(2))
  moreover obtain c b where "base = c # b" using assms(3) by (cases base) auto
  ultimately show ?thesis
    using assms(1) by (simp add: check_migrations_def migration_failures_def changed_migration_files_def validate_migration_nil
        read_migration_def assms(2))
qed

theorem fallback_misses_nested_witness:
  "check_migrations [(''db/migrate/archive/1_drop.rb'', ''drop_table :users'')] ''db/migrate'' (Some ''main'')
     (Some ''db/migrate/archive/1_drop.rb'') = 1
   \<and> check_migrations [(''db/migrate/archive/1_drop.rb'', ''drop_table :users'')] ''db/migrate'' (Some ''main'') None = 0"
proof (rule fallback_misses_nested [OF _ refl])
  have "validate_migration [] ''drop_table :users'' \<noteq> []" by code_simp
  then show "\<not> acceptable ''drop_table :users''" unfolding validate_migration_nil .
qed simp

end
