(* ===== verification/HelmPolicy.thy ===== *)
theory HelmPolicy
  imports Gates
begin

text \<open>
  \<open>scripts/validate_helm_policy.py\<close>: the gate on rendered Kubernetes manifests.  What is shown: what
  an accepted manifest contains and what its images are, and which images the gate does not see.
\<close>

section \<open>Patterns\<close>

definition is_slug_char :: "char \<Rightarrow> bool" where
  "is_slug_char c = (let n = (of_char c :: int) in 97 \<le> n \<and> n \<le> 122 \<or> 48 \<le> n \<and> n \<le> 57 \<or> c = CHR ''-'')"

definition quote_mark :: string where
  "quote_mark = [CHR 0x22]"

text \<open>\<open>^\s*image:\s+"?ghcr\.io/pepitodrop/[a-z0-9-]+\<close>, then a suffix and \<open>"?\s*$\<close>.\<close>

definition own_image :: "regex list \<Rightarrow> regex" where
  "own_image suffix = in_order ([Star_Class is_space, exactly ''image:'', plus_class is_space, optional (exactly quote_mark),
     exactly ''ghcr.io/pepitodrop/'', plus_class is_slug_char] @ suffix @ [optional (exactly quote_mark), Star_Class is_space])"

definition DIGEST_IMAGE :: regex where
  "DIGEST_IMAGE = Then (own_image [exactly ''@sha256:'', counted 64 is_lower_hex]) Text_End"

text \<open>\<open>[0-9a-f]{7,40}\<close>\<close>

definition SHA_TAG_IMAGE :: regex where
  "SHA_TAG_IMAGE = Then (own_image [exactly '':sha-'', counted 7 is_lower_hex, Up_To 33 (Class is_lower_hex)]) Text_End"

definition mutable_tags :: "string list" where
  "mutable_tags = [''latest'', ''main'', ''master'', ''dev'', ''sha-required'', ''digest-required'']"

definition MUTABLE_IMAGE :: regex where
  "MUTABLE_IMAGE = Then (in_order [Star_Class is_space, exactly ''image:'', plus_class is_space,
     plus_class (\<lambda>c. c \<noteq> CHR 0x0A), exactly '':'', one_of (map exactly mutable_tags),
     optional (exactly quote_mark), Star_Class is_space]) Text_End"

section \<open>Fragments\<close>

definition STANDARD_REQUIRED_FRAGMENTS :: "string list" where
  "STANDARD_REQUIRED_FRAGMENTS =
     [''kind: ExternalSecret'', ''kind: ResourceQuota'', ''kind: NetworkPolicy'', ''name: signalchord-default-deny'',
      ''kind: Ingress'', ''tls:'', ''kind: PodDisruptionBudget'', ''runAsNonRoot: true'', ''runAsUser: 10001'',
      ''runAsGroup: 10001'', ''allowPrivilegeEscalation: false'', ''privileged: false'', ''readOnlyRootFilesystem: true'',
      ''drop: [ALL]'', ''seccompProfile: {type: RuntimeDefault}'', ''automountServiceAccountToken: false'', ''requests:'',
      ''limits:'', ''revisionHistoryLimit:'', ''minReadySeconds:'', ''maxUnavailable: 0'', ''name: API_RATE_LIMIT'',
      ''name: AUTH_RATE_LIMIT'', ''name: API_MAX_BODY_BYTES'',
      ''nginx.ingress.kubernetes.io/proxy-body-size: '' @ quote_mark @ ''1m'' @ quote_mark,
      ''nginx.ingress.kubernetes.io/proxy-connect-timeout: '' @ quote_mark @ ''5'' @ quote_mark,
      ''nginx.ingress.kubernetes.io/proxy-send-timeout: '' @ quote_mark @ ''60'' @ quote_mark,
      ''nginx.ingress.kubernetes.io/proxy-read-timeout: '' @ quote_mark @ ''3600'' @ quote_mark]"

definition SINGLE_SERVER_REQUIRED_FRAGMENTS :: "string list" where
  "SINGLE_SERVER_REQUIRED_FRAGMENTS =
     [''kind: NetworkPolicy'', ''name: signalchord-default-deny'', ''name: signalchord-ingress-controller'',
      ''kind: Ingress'', ''tls:'', ''secretName: signalchord-ingress-tls'', ''runAsNonRoot: true'', ''runAsUser: 10001'',
      ''runAsGroup: 10001'', ''allowPrivilegeEscalation: false'', ''privileged: false'', ''readOnlyRootFilesystem: true'',
      ''drop: [ALL]'', ''seccompProfile: {type: RuntimeDefault}'', ''automountServiceAccountToken: false'', ''requests:'',
      ''limits:'', ''revisionHistoryLimit:'', ''minReadySeconds:'', ''name: API_RATE_LIMIT'', ''name: AUTH_RATE_LIMIT'',
      ''name: API_MAX_BODY_BYTES'',
      ''KAFKA_BROKERS, value: '' @ quote_mark @ ''kafka:9092'' @ quote_mark,
      ''REDIS_URL, value: '' @ quote_mark @ ''redis://valkey:6379/0'' @ quote_mark,
      ''MINIO_ENDPOINT, value: '' @ quote_mark @ ''minio:9000'' @ quote_mark,
      ''OPENSEARCH_URL, value: '' @ quote_mark @ ''http://opensearch:9200'' @ quote_mark,
      ''NEO4J_URI, value: '' @ quote_mark @ ''neo4j://neo4j:7687'' @ quote_mark]"

definition forbidden_values :: "string \<Rightarrow> string list" where
  "forbidden_values environment = [''localhost'', ''127.0.0.1'', ''sha-required'', ''digest-required'']
     @ (if environment \<noteq> ''single-server'' then [''http://'', ''redis://'', ''neo4j://''] else [])"

definition required_fragments :: "string \<Rightarrow> string list" where
  "required_fragments environment =
     (if environment = ''single-server'' then SINGLE_SERVER_REQUIRED_FRAGMENTS else STANDARD_REQUIRED_FRAGMENTS)"

section \<open>Images\<close>

definition image_lines :: "string \<Rightarrow> string list" where
  "image_lines text = filter (\<lambda>line. startswith (strip line) ''image:'') (splitlines text)"

definition image_failures :: "string \<Rightarrow> string \<Rightarrow> string list" where
  "image_failures environment line =
     (let rendered = strip line
      in if match_start MUTABLE_IMAGE line then [''mutable image reference rejected: '' @ rendered]
         else if environment \<in> {''production'', ''single-server''} \<and> \<not> match_start DIGEST_IMAGE line
           then [environment @ '' image must use an immutable sha256 digest: '' @ rendered]
         else if environment = ''staging'' \<and> \<not> (match_start DIGEST_IMAGE line \<or> match_start SHA_TAG_IMAGE line)
           then [''staging image must use a sha tag or immutable sha256 digest: '' @ rendered]
         else [])"

definition validate_image_references :: "string \<Rightarrow> string \<Rightarrow> string list" where
  "validate_image_references text environment =
     (if image_lines text = [] then [''rendered manifest has no container images'']
      else concat (map (image_failures environment) (image_lines text)))"

section \<open>The manifest\<close>

definition environment_setting :: "string \<Rightarrow> string" where
  "environment_setting name = ''SIGNALCHORD_ENV, value: '' @ quote_mark @ name @ quote_mark"

definition environment_failures :: "string \<Rightarrow> string \<Rightarrow> string list" where
  "environment_failures text environment =
     (if environment = ''production'' then
        fail_if (\<not> contains text (environment_setting ''production'')) ''production manifests must render SIGNALCHORD_ENV=production''
        @ fail_if (\<not> contains text ''secretName: signalchord-production-tls'') ''production ingress must use the production TLS secret''
      else if environment = ''staging'' then
        fail_if (\<not> contains text (environment_setting ''staging'')) ''staging manifests must render SIGNALCHORD_ENV=staging''
        @ fail_if (\<not> contains text ''secretName: signalchord-staging-tls'') ''staging ingress must use the staging TLS secret''
      else if environment = ''single-server'' then
        fail_if (\<not> contains text (environment_setting ''staging'')) ''single-server manifests must use the documented staging application mode''
        @ map (\<lambda>kind. ''single-server manifest must not render '' @ str_repr kind)
            (occurring text [''kind: ExternalSecret'', ''kind: ResourceQuota'', ''kind: PodDisruptionBudget''])
        @ fail_if (\<not> contains text ''ingressClassName: traefik'') ''single-server ingress must use the k3s Traefik ingress class''
      else [])"

definition validate_rendered :: "string \<Rightarrow> string \<Rightarrow> string list" where
  "validate_rendered text environment =
     map (\<lambda>value. ''rendered manifest contains forbidden '' @ environment @ '' value '' @ str_repr value)
       (occurring text (forbidden_values environment))
     @ map (\<lambda>fragment. ''rendered manifest is missing '' @ str_repr fragment) (absent text (required_fragments environment))
     @ validate_image_references text environment
     @ fail_if (contains text (''serviceAccountName: signalchord'' @ [CHR 0x0A]))
         ''workloads must use per-workload service accounts, not the shared base name''
     @ environment_failures text environment"

text \<open>The exit status.\<close>

definition check_rendered :: "string \<Rightarrow> string \<Rightarrow> nat" where
  "check_rendered text environment = (if validate_rendered text environment = [] then 0 else 1)"

section \<open>What an accepted manifest is\<close>

text \<open>An image of the project's own registry, fixed by a digest, possibly in quotes.\<close>

definition own_digest_line :: "string \<Rightarrow> bool" where
  "own_digest_line line \<longleftrightarrow> (\<exists>a w q name digest q' b.
     line = a @ ''image:'' @ w @ q @ ''ghcr.io/pepitodrop/'' @ name @ ''@sha256:'' @ digest @ q' @ b
   \<and> list_all is_space (a @ w @ b) \<and> w \<noteq> [] \<and> name \<noteq> [] \<and> list_all is_slug_char name
   \<and> length digest = 64 \<and> list_all is_lower_hex digest \<and> {q, q'} \<subseteq> {[], quote_mark})"

lemma image_lang:
  "lang (in_order [Star_Class S, exactly p, plus_class S, optional (exactly m), exactly g, plus_class N,
      exactly d, counted n H, optional (exactly m), Star_Class S]) line \<longleftrightarrow>
   (\<exists>a w q name digest q' b. line = a @ p @ w @ q @ g @ name @ d @ digest @ q' @ b \<and> list_all S a
     \<and> w \<noteq> [] \<and> list_all S w \<and> (q = [] \<or> q = m) \<and> name \<noteq> [] \<and> list_all N name \<and> length digest = n \<and> list_all H digest
     \<and> (q' = [] \<or> q' = m) \<and> list_all S b)" (is "?l \<longleftrightarrow> ?r")
proof
  note parts = lang_in_order_more lang_in_order_one lang_exactly lang_counted lang_plus_class lang_optional lang.simps
  show "?l \<Longrightarrow> ?r"
    unfolding parts by (elim exE conjE, hypsubst, intro exI conjI) (rule refl | assumption | simp)+
  show "?r \<Longrightarrow> ?l"
    unfolding parts by (elim exE conjE, hypsubst, intro exI conjI) (rule refl | assumption | simp)+
qed

lemma digest_image_iff: "one_line line \<Longrightarrow> match_start DIGEST_IMAGE line \<longleftrightarrow> own_digest_line line"
proof -
  assume "one_line line"
  then have "match_start DIGEST_IMAGE line \<longleftrightarrow> lang (own_image [exactly ''@sha256:'', counted 64 is_lower_hex]) line"
    unfolding DIGEST_IMAGE_def by (intro match_one_line) (simp_all add: own_image_def)
  also have "\<dots> \<longleftrightarrow> own_digest_line line"
    unfolding own_image_def append.simps image_lang own_digest_line_def list_all_append insert_subset
    by (simp only: conj_ac empty_subsetI insert_iff empty_iff simp_thms)
  finally show ?thesis .
qed

lemma validate_rendered_Nil:
  "validate_rendered text environment = [] \<longleftrightarrow>
     (\<forall>v\<in>set (forbidden_values environment). \<not> contains text v)
   \<and> (\<forall>f\<in>set (required_fragments environment). contains text f)
   \<and> validate_image_references text environment = []
   \<and> \<not> contains text (''serviceAccountName: signalchord'' @ [CHR 0x0A]) \<and> environment_failures text environment = []"
  by (simp add: validate_rendered_def)

lemma check_rendered_0: "check_rendered text environment = 0 \<longleftrightarrow> validate_rendered text environment = []"
  by (simp add: check_rendered_def)

lemma images_accepted:
  "validate_image_references text environment = [] \<longleftrightarrow>
   image_lines text \<noteq> [] \<and> (\<forall>line\<in>set (image_lines text). image_failures environment line = [])"
  by (simp add: validate_image_references_def)

lemma fixed_images:
  assumes "validate_image_references text environment = []" and "environment \<in> {''production'', ''single-server''}"
    and "line \<in> set (splitlines text)" and "startswith (strip line) ''image:''"
  shows "own_digest_line line"
proof -
  have "line \<in> set (image_lines text)" using assms(3,4) by (simp add: image_lines_def)
  then have "image_failures environment line = []" using assms(1) unfolding images_accepted by blast
  then have "match_start DIGEST_IMAGE line" using assms(2) by (auto simp: image_failures_def Let_def split: if_splits)
  then show ?thesis using digest_image_iff splitlines_one_line [OF assms(3)] by blast
qed


section \<open>What the gate does not see\<close>

lemma no_newline [simp]:
  "CHR 0x0A \<notin> set ''serviceAccountName: signalchord''" "v \<in> set (forbidden_values environment) \<Longrightarrow> CHR 0x0A \<notin> set v"
  by (auto simp: forbidden_values_def split: if_splits)

definition single_server_kinds :: "string list" where
  "single_server_kinds = [''kind: ExternalSecret'', ''kind: ResourceQuota'', ''kind: PodDisruptionBudget'']"

text \<open>C38. An image given in the first line of a list item escapes the gate: a line that begins with
  "- image:", which is where YAML puts it when the image is the first key of a container, can be
  added to any accepted manifest, whatever registry and tag it names.\<close>

theorem list_item_image_escapes:
  assumes "check_rendered text environment = 0" and "one_line item" and "startswith (strip item) ''- image:''"
    and "\<forall>v\<in>set (''serviceAccountName: signalchord'' # forbidden_values environment @ single_server_kinds). \<not> contains item v"
  shows "check_rendered (item @ CHR 0x0A # text) environment = 0 \<and> item \<in> set (splitlines (item @ CHR 0x0A # text))"
proof -
  let ?t = "item @ CHR 0x0A # text"
  have lines: "splitlines ?t = item # splitlines text" by (rule splitlines_line [OF assms(2)])
  have v: "validate_rendered text environment = []" using assms(1) unfolding check_rendered_0 .
  have "\<not> startswith (strip item) ''image:''" using assms(3) by (auto simp: startswith_split)
  then have "image_lines ?t = image_lines text" by (simp add: image_lines_def lines)
  then have "validate_image_references ?t environment = []" using v unfolding validate_rendered_Nil images_accepted by simp
  moreover have "\<forall>f\<in>set (forbidden_values environment). \<not> contains ?t f"
    using v assms(4) absent_in_lines unfolding validate_rendered_Nil by simp
  moreover have "\<not> contains ?t (''serviceAccountName: signalchord'' @ [CHR 0x0A])"
    using contains_lines [of "CHR 0x0A" "''serviceAccountName: signalchord''" item "text" "[CHR 0x0A]"] v assms(4)
    unfolding validate_rendered_Nil by auto
  moreover have "\<forall>k\<in>set single_server_kinds. \<not> contains text k \<longrightarrow> \<not> contains ?t k"
    using assms(4) absent_in_lines [of _ item "text"] by (simp add: single_server_kinds_def)
  then have "environment_failures ?t environment = []"
    using v unfolding validate_rendered_Nil
    by (auto simp: environment_failures_def single_server_kinds_def contains_after split: if_splits)
  ultimately have "validate_rendered ?t environment = []"
    using v contains_after unfolding validate_rendered_Nil by blast
  then show ?thesis by (simp add: check_rendered_0 lines)
qed

section \<open>Examples\<close>

definition sample_manifest_lines :: "string list" where
  "sample_manifest_lines = (''  image: ghcr.io/pepitodrop/control-plane@sha256:'' @ replicate 64 (CHR ''a''))
     # environment_setting ''production'' # ''secretName: signalchord-production-tls'' # STANDARD_REQUIRED_FRAGMENTS"

definition sample_rendered :: string where
  "sample_rendered = join [CHR 0x0A] sample_manifest_lines"

lemma sample_lines:
  "list_all (\<lambda>l. one_line l \<and> l \<noteq> []) sample_manifest_lines"
  "list_all (\<lambda>l. list_all (\<lambda>v. \<not> contains l v) (''serviceAccountName: signalchord'' # forbidden_values ''production'')) sample_manifest_lines"
  "filter (\<lambda>line. startswith (strip line) ''image:'') sample_manifest_lines = [hd sample_manifest_lines]"
  "image_failures ''production'' (hd sample_manifest_lines) = []"
  by code_simp+

lemma standard_fragments: "list_all (\<lambda>f. f \<noteq> [] \<and> \<not> List.member f (CHR 0x0A)) STANDARD_REQUIRED_FRAGMENTS"
  "set STANDARD_REQUIRED_FRAGMENTS \<subseteq> set sample_manifest_lines"
  by (code_simp, simp add: sample_manifest_lines_def subset_insertI2 subsetI)

lemma sample_rendered_lines: "splitlines sample_rendered = sample_manifest_lines"
  unfolding sample_rendered_def using sample_lines(1) by (intro splitlines_join) (simp add: list_all_iff)

lemma in_sample: "l \<in> set sample_manifest_lines \<Longrightarrow> CHR 0x0A \<notin> set l \<Longrightarrow> l \<noteq> [] \<Longrightarrow> contains sample_rendered l"
  unfolding sample_rendered_def using contains_join_lines contains_self by blast

lemma not_in_sample:
  "v \<in> set (''serviceAccountName: signalchord'' # forbidden_values ''production'') \<Longrightarrow> v \<noteq> [] \<Longrightarrow> \<not> contains sample_rendered v"
  unfolding sample_rendered_def using sample_lines(2) no_newline contains_join_lines [of v sample_manifest_lines]
  by (auto simp: list_all_iff)

lemma sample_rendered_ok: "check_rendered sample_rendered ''production'' = 0"
proof -
  have "image_lines sample_rendered = [hd sample_manifest_lines]"
    by (simp add: image_lines_def sample_rendered_lines sample_lines(3))
  then have "validate_image_references sample_rendered ''production'' = []"
    unfolding images_accepted using sample_lines(4) by simp
  moreover have "\<forall>f\<in>set STANDARD_REQUIRED_FRAGMENTS. contains sample_rendered f"
    using standard_fragments in_sample by (auto simp: list_all_iff)
  moreover have "contains sample_rendered (environment_setting ''production'')"
    "contains sample_rendered ''secretName: signalchord-production-tls''"
    by (rule in_sample; simp add: sample_manifest_lines_def environment_setting_def quote_mark_def)+
  moreover have "\<forall>v\<in>set (forbidden_values ''production''). \<not> contains sample_rendered v"
    by (intro ballI not_in_sample) (auto simp: forbidden_values_def)
  moreover have "\<not> contains sample_rendered (''serviceAccountName: signalchord'' @ [CHR 0x0A])"
    using not_in_sample [of "''serviceAccountName: signalchord''"] contains_part [of sample_rendered "[]" _ "[CHR 0x0A]"] by auto
  ultimately show ?thesis
    by (simp add: check_rendered_0 validate_rendered_Nil required_fragments_def environment_failures_def)
qed


definition escaping_item :: string where
  "escaping_item = ''      - image: docker.io/library/redis:latest''"

theorem list_item_image_escapes_witness:
  "check_rendered (escaping_item @ CHR 0x0A # sample_rendered) ''production'' = 0"
proof -
  have "one_line escaping_item" "startswith (strip escaping_item) ''- image:''"
    "list_all (\<lambda>v. \<not> contains escaping_item v) (''serviceAccountName: signalchord'' # forbidden_values ''production'' @ single_server_kinds)"
    by code_simp+
  then show ?thesis using list_item_image_escapes [OF sample_rendered_ok] by (simp add: list_all_iff)
qed

end
