(* ===== verification/Evidence.thy ===== *)
theory Evidence
  imports Gates Events
begin

text \<open>
  What the gates on evidence files share.  The files hold JSON of any shape; a gate collects
  failures, one text each, and raises when a value has not the type it takes for granted.
\<close>

section \<open>Equality\<close>

text \<open>\<open>a == b\<close>: numbers by value, lists by position, dictionaries whatever their order.\<close>

function py_eq :: "pyval \<Rightarrow> pyval \<Rightarrow> bool" where
  "py_eq PNone b = (b = PNone)"
| "py_eq (PStr s) b = (b = PStr s)"
| "py_eq (PList xs) b = (case b of
     PList ys \<Rightarrow> length xs = length ys \<and> list_all (\<lambda>(x, y). py_eq x y) (zip xs ys) | _ \<Rightarrow> False)"
| "py_eq (PDict d) b = (case b of
     PDict e \<Rightarrow> length d = length e \<and>
       list_all (\<lambda>(k, v). case map_of e k of Some w \<Rightarrow> py_eq v w | None \<Rightarrow> False) d | _ \<Rightarrow> False)"
| "py_eq (PBool b) a = (is_number a \<and> num_eq (PBool b) a)"
| "py_eq (PInt i) a = (is_number a \<and> num_eq (PInt i) a)"
| "py_eq (PFloat f) a = (is_number a \<and> num_eq (PFloat f) a)"
  by pat_completeness auto
termination
  apply (relation "measure (\<lambda>(v, _). size v)")
    apply simp
  subgoal for xs b ys z x y
    by (cases z) (auto dest!: set_zip_leftD simp: less_Suc_eq_le size_list_estimation')
  subgoal for d b e z k v w
    by (auto simp: less_Suc_eq_le intro!: size_list_estimation')
  done

lemma py_eq_str [simp]: "py_eq v (PStr s) \<longleftrightarrow> v = PStr s"
  by (cases v) auto

section \<open>Reading\<close>

text \<open>\<open>v.get(k)\<close> of a dictionary; the elements that are dictionaries.\<close>

definition dict_val :: "pydict \<Rightarrow> string \<Rightarrow> pyval" where
  "dict_val d k = dict_get_or d k PNone"

definition dicts_of :: "pyval list \<Rightarrow> pydict list" where
  "dicts_of vs = List.map_filter as_dict vs"

text \<open>\<open>{item.get(k) for item in items if isinstance(item, dict)}\<close>: what cannot be hashed raises.\<close>

definition hashed :: "pyval \<Rightarrow> pyval res" where
  "hashed v = (if hashable v then Inr v else Inl (Exn TypeError (''unhashable type: '' @ str_repr (type_name v))))"

definition names_in :: "string \<Rightarrow> pyval list \<Rightarrow> pyval list res" where
  "names_in k items = res_map (\<lambda>d. hashed (dict_val d k)) (dicts_of items)"

text \<open>\<open>sorted(required - names)\<close> for a sorted list of texts.\<close>

definition missing_names :: "string list \<Rightarrow> pyval list \<Rightarrow> string list" where
  "missing_names required names = filter (\<lambda>r. \<not> List.member names (PStr r)) required"

definition list_or_empty :: "pyval \<Rightarrow> pyval list" where
  "list_or_empty v = (case v of PList xs \<Rightarrow> xs | _ \<Rightarrow> [])"

definition is_list :: "pyval \<Rightarrow> bool" where
  "is_list v = (case v of PList _ \<Rightarrow> True | _ \<Rightarrow> False)"

definition natural :: "pyval \<Rightarrow> bool" where
  "natural v = (case as_int v of Some i \<Rightarrow> 0 \<le> i | None \<Rightarrow> False)"

definition filled_array :: "pyval \<Rightarrow> bool" where
  "filled_array v = (list_or_empty v \<noteq> [])"

text \<open>\<open>a > b\<close>: only numbers, or two texts, or two lists of comparable elements, have an order; the sources
  compare with numbers.\<close>

definition num_gt :: "pyval \<Rightarrow> pyval \<Rightarrow> bool res" where
  "num_gt a b = (if is_number a \<and> is_number b then Inr (py_lt b a)
     else Inl (Exn TypeError (str_repr ''>'' @ '' not supported between instances of ''
       @ str_repr (type_name a) @ '' and '' @ str_repr (type_name b))))"

section \<open>Collecting\<close>

definition res_concat :: "('a \<Rightarrow> 'b list res) \<Rightarrow> 'a list \<Rightarrow> 'b list res" where
  "res_concat f xs = res_bind (res_map f xs) (\<lambda>yss. Inr (concat yss))"

definition res_append :: "'a list res \<Rightarrow> 'a list res \<Rightarrow> 'a list res" where
  "res_append a b = res_bind a (\<lambda>xs. res_bind b (\<lambda>ys. Inr (xs @ ys)))"

text \<open>\<open>load_json\<close>: the gate needs an object.\<close>

definition load_object :: "string \<Rightarrow> pyval res \<Rightarrow> pydict res" where
  "load_object path file = res_bind file (\<lambda>v. case v of PDict d \<Rightarrow> Inr d
     | _ \<Rightarrow> value_error (path @ '' must contain a JSON object''))"

text \<open>The exit status.\<close>

definition exit_code :: "string list \<Rightarrow> nat" where
  "exit_code failures = (if failures = [] then 0 else 1)"

lemma res_concat_Nil: "res_concat f [] = Inr []"
  by (simp add: res_concat_def)

lemma res_map_all_Nil: "(\<exists>yss. res_map f xs = Inr yss \<and> concat yss = []) \<longleftrightarrow> (\<forall>x\<in>set xs. f x = Inr [])"
proof (induction xs)
  case (Cons x xs)
  have "(\<exists>yss. res_map f (x # xs) = Inr yss \<and> concat yss = [])
      \<longleftrightarrow> (\<exists>y ys. f x = Inr y \<and> y = [] \<and> res_map f xs = Inr ys \<and> concat ys = [])"
    by (fastforce simp: res_simps)
  then show ?case using Cons by auto
qed simp

lemma res_concat_Inr_Nil [simp]: "res_concat f xs = Inr [] \<longleftrightarrow> (\<forall>x\<in>set xs. f x = Inr [])"
  using res_map_all_Nil [of f xs] by (auto simp: res_concat_def res_simps)

lemma res_append_Inr_Nil [simp]: "res_append a b = Inr [] \<longleftrightarrow> a = Inr [] \<and> b = Inr []"
  by (auto simp: res_append_def res_simps)

lemma exit_code_0 [simp]: "exit_code failures = 0 \<longleftrightarrow> failures = []"
  by (simp add: exit_code_def)

lemma missing_names_Nil [simp]: "missing_names required names = [] \<longleftrightarrow> (\<forall>r\<in>set required. PStr r \<in> set names)"
  by (auto simp: missing_names_def filter_empty_conv)

lemma names_in_set: "names_in k items = Inr ns \<Longrightarrow> n \<in> set ns \<longleftrightarrow> (\<exists>d\<in>set (dicts_of items). n = dict_val d k)"
proof -
  have "res_map (\<lambda>d. hashed (dict_val d k)) ds = Inr ns \<Longrightarrow> n \<in> set ns \<longleftrightarrow> (\<exists>d\<in>set ds. n = dict_val d k)" for ds
    by (induction ds arbitrary: ns) (auto simp: res_simps hashed_def split: if_splits)
  then show "names_in k items = Inr ns \<Longrightarrow> n \<in> set ns \<longleftrightarrow> (\<exists>d\<in>set (dicts_of items). n = dict_val d k)"
    unfolding names_in_def .
qed

lemma in_dicts_of: "d \<in> set (dicts_of items) \<longleftrightarrow> PDict d \<in> set items"
proof -
  have "as_dict v = Some d \<longleftrightarrow> v = PDict d" for v by (cases v) auto
  then show ?thesis by (force simp: dicts_of_def map_filter_def)
qed

lemma is_list_iff: "is_list v \<longleftrightarrow> (\<exists>xs. v = PList xs)"
  by (auto simp: is_list_def split: pyval.splits)

end
