(* ===== verification/CapacityGate.thy ===== *)
theory CapacityGate
  imports Evidence
begin

text \<open>
  \<open>scripts/validate_capacity.py\<close>: the gate on load tests.  A scenario defines thresholds for its
  critical journeys; a result must stay within them.  What is shown: what an accepted result is,
  and that measurements which were not made count as passed.
\<close>

section \<open>Scenarios\<close>

definition REQUIRED_PROFILES :: "string list" where
  "REQUIRED_PROFILES = [''burst'', ''degraded-dependency'', ''expected'']"

definition REQUIRED_JOURNEYS :: "string list" where
  "REQUIRED_JOURNEYS = [''article_to_alert'', ''control_plane_api'', ''realtime_notifications'']"

definition REQUIRED_RESULT_FIELDS :: "string list" where
  "REQUIRED_RESULT_FIELDS = [''completed_at'', ''environment'', ''git_sha'', ''metrics'', ''profile'', ''scenario_id'', ''started_at'']"

definition threshold_metrics :: "string list" where
  "threshold_metrics = [''p95_latency_ms'', ''error_rate'', ''cpu_saturation'', ''memory_saturation'']"

text \<open>The double next to 0.05.\<close>

definition max_error_rate :: pyval where
  "max_error_rate = PFloat (Fin (3602879701896397 / 72057594037927936))"

text \<open>A list of objects with required names.\<close>

definition check_names :: "pydict \<Rightarrow> string \<Rightarrow> string list \<Rightarrow> string \<Rightarrow> string list res" where
  "check_names scenario key required what =
     (let items = list_or_empty (dict_val scenario key)
      in res_bind (names_in ''name'' items) (\<lambda>names.
         Inr (fail_if (\<not> is_list (dict_val scenario key)) (key @ '' must be a list'')
           @ (let missing = missing_names required names
              in fail_if (missing \<noteq> []) (''missing required '' @ what @ '': '' @ join '', '' missing)))))"

definition journey_name :: "pydict \<Rightarrow> string" where
  "journey_name journey = py_str (dict_get_or journey ''name'' (PStr ''<unknown>''))"

definition positive_number :: "pyval \<Rightarrow> bool" where
  "positive_number v = (is_number v \<and> \<not> py_le v (PInt 0))"

definition check_journey :: "pyval \<Rightarrow> string list res" where
  "check_journey item = (case item of
     PDict journey \<Rightarrow> (case dict_val journey ''thresholds'' of
         PDict thresholds \<Rightarrow>
           res_bind (num_gt (dict_get_or thresholds ''error_rate'' (PInt 1)) max_error_rate) (\<lambda>loose.
             Inr (map (\<lambda>metric. journey_name journey @ '' threshold '' @ metric @ '' must be positive'')
                 (filter (\<lambda>metric. \<not> positive_number (dict_val thresholds metric)) threshold_metrics)
               @ fail_if loose (journey_name journey @ '' error_rate threshold is too loose'')))
       | _ \<Rightarrow> Inr [journey_name journey @ '' thresholds must be an object''])
   | _ \<Rightarrow> Inr [''critical_journeys entries must be objects''])"

definition positive_int :: "pyval \<Rightarrow> bool" where
  "positive_int v = (case as_int v of Some i \<Rightarrow> 0 < i | None \<Rightarrow> False)"

definition check_controls :: "pyval \<Rightarrow> string list" where
  "check_controls v = (case v of
     PDict controls \<Rightarrow> map (\<lambda>key. ''control '' @ key @ '' must be a positive integer'')
       (filter (\<lambda>key. \<not> positive_int (dict_val controls key))
         [''api_rate_limit_per_minute'', ''auth_rate_limit_per_5_minutes'', ''api_max_body_bytes''])
   | _ \<Rightarrow> [''controls_under_test must be an object''])"

definition check_partitions :: "pyval \<Rightarrow> string list" where
  "check_partitions v = (case v of
     PDict partitions \<Rightarrow>
       if partitions = [] then [''capacity_assumptions.kafka_partitions must define topic partition counts'']
       else fail_if (list_ex (\<lambda>(_, n). \<not> positive_int n) partitions) ''all kafka partition counts must be positive integers''
   | _ \<Rightarrow> [''capacity_assumptions.kafka_partitions must define topic partition counts''])"

definition validate_scenario :: "pydict \<Rightarrow> string list res" where
  "validate_scenario scenario =
     (let journeys = list_or_empty (dict_val scenario ''critical_journeys'')
      in res_append (Inr (fail_if (\<not> py_eq (dict_val scenario ''schema_version'') (PInt 1)) ''scenario schema_version must be 1''
           @ fail_if (\<not> truthy (dict_val scenario ''scenario_id'')) ''scenario_id is required''))
        (res_append (check_names scenario ''profiles'' REQUIRED_PROFILES ''profiles'')
        (res_append (check_names scenario ''critical_journeys'' REQUIRED_JOURNEYS ''journeys'')
        (res_append (res_concat check_journey journeys)
        (res_append (Inr (check_controls (dict_val scenario ''controls_under_test'')))
          (res_bind (get_field (dict_get_or scenario ''capacity_assumptions'' (PDict [])) ''kafka_partitions'') (\<lambda>v.
            Inr (check_partitions v))))))))"

section \<open>Results\<close>

text \<open>The thresholds by journey: a later journey of the same name replaces the thresholds of an earlier
  one at its place.\<close>

type_synonym thresholds = "(pyval \<times> pydict) list"

fun set_journey :: "pyval \<Rightarrow> pydict \<Rightarrow> thresholds \<Rightarrow> thresholds" where
  "set_journey n ts [] = [(n, ts)]"
| "set_journey n ts ((m, us) # rest) = (if py_eq m n then (m, ts) # rest else (m, us) # set_journey n ts rest)"

text \<open>A journey that is an object with an object of thresholds.\<close>

definition with_thresholds :: "pyval \<Rightarrow> (pydict \<times> pydict) option" where
  "with_thresholds item = (case as_dict item of
     Some journey \<Rightarrow> map_option (\<lambda>ts. (journey, ts)) (as_dict (dict_val journey ''thresholds'')) | None \<Rightarrow> None)"

fun build_map :: "pyval list \<Rightarrow> thresholds \<Rightarrow> thresholds res" where
  "build_map [] acc = Inr acc"
| "build_map (item # items) acc = (case with_thresholds item of
     Some (journey, ts) \<Rightarrow>
       res_bind (field (PDict journey) ''name'') (\<lambda>n. res_bind (hashed n) (\<lambda>n. build_map items (set_journey n ts acc)))
   | None \<Rightarrow> build_map items acc)"

definition threshold_map :: "pydict \<Rightarrow> thresholds res" where
  "threshold_map scenario = res_bind (py_iter (dict_get_or scenario ''critical_journeys'' (PList []))) (\<lambda>journeys. build_map journeys [])"

definition lookup_name :: "pydict \<Rightarrow> pyval \<Rightarrow> pyval" where
  "lookup_name d n = (case n of PStr s \<Rightarrow> dict_val d s | _ \<Rightarrow> PNone)"

definition check_metric :: "string \<Rightarrow> pydict \<Rightarrow> string \<times> pyval \<Rightarrow> string list res" where
  "check_metric journey observed threshold = (case threshold of (metric, limit) \<Rightarrow>
     (case dict_get observed metric of
        None \<Rightarrow> Inr []
      | Some value \<Rightarrow>
          if \<not> is_number value then Inr [journey @ ''.'' @ metric @ '' must be numeric'']
          else res_bind (num_gt value limit) (\<lambda>exceeds. Inr (fail_if exceeds
            (journey @ ''.'' @ metric @ ''='' @ py_str value @ '' exceeds threshold '' @ py_str limit)))))"

definition check_observed :: "pydict \<Rightarrow> pyval \<times> pydict \<Rightarrow> string list res" where
  "check_observed metrics journey = (case journey of (n, ts) \<Rightarrow>
     (case lookup_name metrics n of
        PDict observed \<Rightarrow> res_concat (check_metric (py_str n) observed) ts
      | _ \<Rightarrow> Inr [''result missing metrics for '' @ py_str n]))"

definition profile_known :: "pydict \<Rightarrow> pyval \<Rightarrow> bool res" where
  "profile_known scenario profile =
     res_bind (py_iter (dict_get_or scenario ''profiles'' (PList []))) (\<lambda>profiles.
     res_bind (names_in ''name'' profiles) (\<lambda>names.
     res_bind (hashed profile) (\<lambda>p. Inr (list_ex (py_eq p) names))))"

definition validate_result :: "pydict \<Rightarrow> pydict \<Rightarrow> string list res" where
  "validate_result scenario result =
     (let missing = missing_names REQUIRED_RESULT_FIELDS (map (\<lambda>kv. PStr (fst kv)) result);
          profile = dict_val result ''profile''
      in res_append (Inr (fail_if (missing \<noteq> []) (''result missing fields: '' @ join '', '' missing)
           @ fail_if (\<not> py_eq (dict_val result ''scenario_id'') (dict_val scenario ''scenario_id'')) ''result scenario_id does not match scenario''))
        (res_append (res_bind (profile_known scenario profile) (\<lambda>known.
             Inr (fail_if (\<not> known) (''result profile '' @ py_repr profile @ '' is not defined in scenario''))))
          (case dict_val result ''metrics'' of
             PDict metrics \<Rightarrow> res_bind (threshold_map scenario) (res_concat (check_observed metrics))
           | _ \<Rightarrow> Inr [''result metrics must be an object''])))"

text \<open>The scenario and the results, given by their paths and decoded files; the exit status.\<close>

definition check_capacity :: "string \<times> pyval res \<Rightarrow> (string \<times> pyval res) list \<Rightarrow> nat res" where
  "check_capacity scenario_file result_files =
     res_bind (load_object (fst scenario_file) (snd scenario_file)) (\<lambda>scenario.
     res_bind (validate_scenario scenario) (\<lambda>failures.
     res_bind (res_concat (\<lambda>(path, file). res_bind (load_object path file) (\<lambda>result.
         res_bind (validate_result scenario result) (\<lambda>fs. Inr (map (\<lambda>f. path @ '': '' @ f) fs)))) result_files) (\<lambda>more.
       Inr (exit_code (failures @ more)))))"

section \<open>What an accepted result is\<close>

definition thresholds_ok :: "pydict \<Rightarrow> bool" where
  "thresholds_ok ts \<longleftrightarrow> (\<forall>metric\<in>set threshold_metrics. positive_number (dict_val ts metric))
     \<and> \<not> py_lt max_error_rate (dict_get_or ts ''error_rate'' (PInt 1))"

lemma check_journey_Nil:
  "check_journey item = Inr [] \<longleftrightarrow> (\<exists>journey ts. item = PDict journey \<and> dict_val journey ''thresholds'' = PDict ts \<and> thresholds_ok ts)"
proof (cases item)
  case (PDict journey)
  show ?thesis
  proof (cases "dict_val journey ''thresholds''")
    case (PDict ts)
    have "thresholds_ok ts \<Longrightarrow> is_number (dict_get_or ts ''error_rate'' (PInt 1))"
      by (simp add: thresholds_ok_def threshold_metrics_def positive_number_def dict_val_def dict_get_or_def split: option.splits)
    then show ?thesis using PDict \<open>item = PDict journey\<close>
      by (auto simp: check_journey_def num_gt_def thresholds_ok_def filter_empty_conv res_simps max_error_rate_def)
  qed (use PDict in \<open>simp_all add: check_journey_def\<close>)
qed (simp_all add: check_journey_def)

text \<open>The journeys of a scenario: names and thresholds.\<close>

definition journey_of :: "pyval \<Rightarrow> pyval \<Rightarrow> pydict \<Rightarrow> bool" where
  "journey_of item n ts \<longleftrightarrow> (\<exists>journey. item = PDict journey \<and> dict_get journey ''name'' = Some n \<and> dict_val journey ''thresholds'' = PDict ts)"

lemma set_journey_set: "snd ` set (set_journey n ts acc) \<subseteq> insert ts (snd ` set acc)"
  by (induction n ts acc rule: set_journey.induct) auto

lemma with_thresholds_iff:
  "with_thresholds item = Some (journey, ts) \<longleftrightarrow> item = PDict journey \<and> dict_val journey ''thresholds'' = PDict ts"
proof -
  have "as_dict v = Some d \<longleftrightarrow> v = PDict d" for v d by (cases v) auto
  then show ?thesis by (auto simp: with_thresholds_def split: option.splits)
qed

lemma journey_of_iff:
  "journey_of item n ts \<longleftrightarrow> (\<exists>journey. with_thresholds item = Some (journey, ts) \<and> dict_get journey ''name'' = Some n)"
  by (auto simp: journey_of_def with_thresholds_iff)

lemma hashed_Inr: "hashed v = Inr w \<longleftrightarrow> hashable v \<and> w = v"
  by (auto simp: hashed_def)

lemma build_map_step:
  assumes "build_map (item # items) acc = Inr tm" and "with_thresholds item = Some (journey, us)"
  obtains m where "dict_get journey ''name'' = Some m" and "hashed m = Inr m" and "build_map items (set_journey m us acc) = Inr tm"
  using assms by (auto simp: res_simps hashed_Inr split: option.splits)

lemma build_map_sound:
  "build_map items acc = Inr tm \<Longrightarrow> (n, ts) \<in> set tm \<Longrightarrow> ts \<in> snd ` set acc \<or> (\<exists>item\<in>set items. \<exists>m. journey_of item m ts)"
proof (induction items acc rule: build_map.induct)
  case (2 item items acc)
  show ?case
  proof (cases "with_thresholds item")
    case None
    have "build_map items acc = Inr tm" using 2(3) None by simp
    from 2(1) [OF None this 2(4)] show ?thesis by auto
  next
    case (Some p)
    then obtain journey us where j: "with_thresholds item = Some (journey, us)" by (cases p) auto
    from build_map_step [OF 2(3) j] obtain m where m: "dict_get journey ''name'' = Some m" "hashed m = Inr m"
      "build_map items (set_journey m us acc) = Inr tm" .
    have "ts \<in> snd ` set (set_journey m us acc) \<or> (\<exists>item\<in>set items. \<exists>m. journey_of item m ts)"
      using 2(2) [OF j refl _ m(2) m(3) 2(4)] m(1) by simp
    moreover have "journey_of item m us" using j m(1) by (auto simp: journey_of_iff)
    ultimately show ?thesis using set_journey_set [of m us acc] by auto
  qed
qed force

lemma set_journey_keeps: "PStr s \<in> fst ` set acc \<Longrightarrow> PStr s \<in> fst ` set (set_journey n ts acc)"
  by (induction n ts acc rule: set_journey.induct) auto

lemma set_journey_adds: "PStr s \<in> fst ` set (set_journey (PStr s) ts acc)"
  by (induction acc) force+

lemma build_map_keys:
  "build_map items acc = Inr tm \<Longrightarrow> PStr s \<in> fst ` set acc \<or> (\<exists>item\<in>set items. \<exists>ts. journey_of item (PStr s) ts) \<Longrightarrow> PStr s \<in> fst ` set tm"
proof (induction items acc rule: build_map.induct)
  case (2 item items acc)
  show ?case
  proof (cases "with_thresholds item")
    case None
    then show ?thesis using 2(1) [OF None] 2(3,4) by (auto simp: journey_of_iff)
  next
    case (Some p)
    then obtain journey us where j: "with_thresholds item = Some (journey, us)" by (cases p) auto
    from build_map_step [OF 2(3) j] obtain m where m: "dict_get journey ''name'' = Some m" "hashed m = Inr m"
      "build_map items (set_journey m us acc) = Inr tm" .
    have "PStr s \<in> fst ` set (set_journey m us acc) \<or> (\<exists>item\<in>set items. \<exists>ts. journey_of item (PStr s) ts)"
      using 2(4) set_journey_keeps [of s acc m us] set_journey_adds [of s us acc] j m(1) by (auto simp: journey_of_iff)
    then show ?thesis using 2(2) [OF j refl _ m(2) m(3)] m(1) by simp
  qed
qed auto

lemma accepted_scenario:
  assumes "validate_scenario scenario = Inr []" and "threshold_map scenario = Inr tm"
  shows "(\<forall>name\<in>set REQUIRED_JOURNEYS. PStr name \<in> fst ` set tm) \<and> (\<forall>(n, ts)\<in>set tm. thresholds_ok ts)"
proof -
  let ?v = "dict_val scenario ''critical_journeys''"
  let ?js = "list_or_empty ?v"
  have c: "check_names scenario ''critical_journeys'' REQUIRED_JOURNEYS ''journeys'' = Inr []" and j: "\<forall>item\<in>set ?js. check_journey item = Inr []"
    using assms(1) by (simp_all add: validate_scenario_def Let_def)
  obtain names where n: "is_list ?v" "names_in ''name'' ?js = Inr names" "\<forall>r\<in>set REQUIRED_JOURNEYS. PStr r \<in> set names"
    using c by (auto simp: check_names_def Let_def res_simps)
  then have "?v = PList ?js" by (auto simp: is_list_iff list_or_empty_def)
  then have d: "dict_get_or scenario ''critical_journeys'' (PList []) = PList ?js"
    by (auto simp: dict_val_def dict_get_or_def split: option.splits)
  have b: "build_map ?js [] = Inr tm" using assms(2) unfolding threshold_map_def d by (simp add: py_iter_def)
  have "\<exists>item\<in>set ?js. \<exists>ts. journey_of item (PStr r) ts" if r: "r \<in> set REQUIRED_JOURNEYS" for r
  proof -
    have "PStr r \<in> set names" using n(3) r by blast
    then obtain journey where g: "PDict journey \<in> set ?js" "PStr r = dict_val journey ''name''"
      using names_in_set [OF n(2)] in_dicts_of by auto
    then have "dict_get journey ''name'' = Some (PStr r)" by (auto simp: dict_val_def dict_get_or_def split: option.splits)
    then show ?thesis using g(1) j check_journey_Nil by (fastforce simp: journey_of_def)
  qed
  moreover have "thresholds_ok ts" if t: "(n, ts) \<in> set tm" for n ts
    using build_map_sound [OF b t] j check_journey_Nil by (fastforce simp: journey_of_def)
  ultimately show ?thesis using build_map_keys [OF b] by blast
qed

lemma accepted_result:
  assumes "validate_result scenario result = Inr []"
  obtains metrics tm where "dict_val result ''metrics'' = PDict metrics" and "threshold_map scenario = Inr tm"
    and "\<forall>j\<in>set tm. check_observed metrics j = Inr []"
  using assms by (auto simp: validate_result_def Let_def res_simps split: pyval.splits)

lemma check_observed_Nil:
  "check_observed metrics (n, ts) = Inr [] \<longleftrightarrow> (\<exists>observed. lookup_name metrics n = PDict observed
     \<and> (\<forall>(metric, limit)\<in>set ts. \<forall>value. dict_get observed metric = Some value \<longrightarrow>
          is_number value \<and> is_number limit \<and> \<not> py_lt limit value))"
proof -
  have "check_metric j observed (metric, limit) = Inr [] \<longleftrightarrow> (\<forall>value. dict_get observed metric = Some value \<longrightarrow>
      is_number value \<and> is_number limit \<and> \<not> py_lt limit value)" for j observed metric limit
    by (auto simp: check_metric_def num_gt_def res_simps split: option.splits)
  then show ?thesis by (auto simp: check_observed_def split: pyval.splits)
qed

text \<open>What is asked of the numbers, in terms of the order of numbers: a measured value is at most its
  limit, and the four limits of a journey are positive with an error rate of at most 0.05.  A
  comparison with \<open>NaN\<close> is false, so the test passes when one of the numbers compared is \<open>NaN\<close>.\<close>

definition is_nan :: "pyval \<Rightarrow> bool" where
  "is_nan v \<longleftrightarrow> v = PFloat NaN"

definition within_limit :: "pyval \<Rightarrow> pyval \<Rightarrow> bool" where
  "within_limit value limit \<longleftrightarrow> is_number value \<and> is_number limit \<and> (py_le value limit \<or> is_nan value \<or> is_nan limit)"

definition sound_limits :: "pydict \<Rightarrow> bool" where
  "sound_limits ts \<longleftrightarrow>
     (\<forall>metric\<in>{''p95_latency_ms'', ''error_rate'', ''cpu_saturation'', ''memory_saturation''}.
        \<exists>limit. dict_get ts metric = Some limit \<and> is_number limit \<and> (py_lt (PInt 0) limit \<or> is_nan limit))
     \<and> (\<exists>limit. dict_get ts ''error_rate'' = Some limit \<and> within_limit limit (PFloat (fl_round (5 / 100))))"

lemma fl_not_lt: "\<not> fl_lt a b \<Longrightarrow> fl_le b a \<or> a = NaN \<or> b = NaN"
  by (cases a; cases b) (auto simp: fl_le_def)

lemma fl_not_le: "\<not> fl_le a b \<Longrightarrow> fl_lt b a \<or> a = NaN \<or> b = NaN"
  by (cases a; cases b) (auto simp: fl_le_def)

lemma num_key_nan: "is_number v \<Longrightarrow> num_key v = NaN \<longleftrightarrow> is_nan v"
  by (cases v) (auto simp: is_nan_def)

lemma fl_le_not_lt: "fl_le a b \<Longrightarrow> \<not> fl_lt b a"
  by (cases a; cases b) (auto simp: fl_le_def)

lemma fl_lt_nan: "\<not> fl_lt a NaN"
  by (cases a) simp_all

lemma within_limit_iff: "within_limit value limit \<longleftrightarrow> is_number value \<and> is_number limit \<and> \<not> py_lt limit value"
  using fl_not_lt [of "num_key limit" "num_key value"] num_key_nan [of limit] num_key_nan [of "value"]
    fl_le_not_lt [of "num_key value" "num_key limit"]
  by (auto simp: within_limit_def py_lt_def py_le_def is_nan_def fl_lt_nan)

lemma positive_number_lt: "positive_number v \<Longrightarrow> is_number v \<and> (py_lt (PInt 0) v \<or> is_nan v)"
  using fl_not_le [of "num_key v" "num_key (PInt 0)"] num_key_nan [of v]
  by (auto simp: positive_number_def py_lt_def py_le_def)

lemma thresholds_sound: "thresholds_ok ts \<Longrightarrow> sound_limits ts"
proof -
  assume t: "thresholds_ok ts"
  have "\<exists>limit. dict_get ts metric = Some limit \<and> is_number limit \<and> (py_lt (PInt 0) limit \<or> is_nan limit)"
    if "metric \<in> set threshold_metrics" for metric
  proof -
    have "positive_number (dict_val ts metric)" using t that by (simp add: thresholds_ok_def)
    then show ?thesis using positive_number_lt
      by (cases "dict_get ts metric") (auto simp: dict_val_def dict_get_or_def positive_number_def)
  qed
  moreover have "PFloat (fl_round (5 / 100)) = max_error_rate \<and> is_number max_error_rate" by code_simp
  with calculation [of "''error_rate''"] have "\<exists>limit. dict_get ts ''error_rate'' = Some limit \<and> within_limit limit (PFloat (fl_round (5 / 100)))"
    using t by (auto simp: threshold_metrics_def thresholds_ok_def within_limit_iff dict_get_or_def)
  ultimately show ?thesis by (simp add: sound_limits_def threshold_metrics_def)
qed


section \<open>Measurements that were not made\<close>

text \<open>A result without a single measurement.\<close>

definition empty_result :: "string \<Rightarrow> thresholds \<Rightarrow> pydict" where
  "empty_result scenario_id tm = [(''scenario_id'', PStr scenario_id), (''environment'', PStr []), (''profile'', PStr ''expected''),
     (''started_at'', PNone), (''completed_at'', PNone), (''git_sha'', PNone),
     (''metrics'', PDict (map (\<lambda>(n, _). (py_str n, PDict [])) tm))]"

lemma lookup_empty:
  "(PStr s, ts) \<in> set tm \<Longrightarrow> dict_val (map (\<lambda>(n, _). (py_str n, PDict [])) tm) s = PDict []"
proof (induction tm)
  case (Cons e tm)
  then show ?case by (cases e) (auto simp: dict_val_def dict_get_or_def py_str_def)
qed simp

text \<open>A metric that a result does not report counts as passed: for every accepted scenario whose journeys
  have texts as names, the result that reports no measurement at all passes.\<close>

theorem unmeasured_result_accepted:
  assumes "validate_scenario scenario = Inr []" and "threshold_map scenario = Inr tm"
    and "dict_val scenario ''scenario_id'' = PStr i" and "\<forall>(n, _)\<in>set tm. \<exists>s. n = PStr s"
  shows "validate_result scenario (empty_result i tm) = Inr []"
proof -
  let ?r = "empty_result i tm" and ?v = "dict_val scenario ''profiles''"
  let ?ps = "list_or_empty ?v"
  have "check_names scenario ''profiles'' REQUIRED_PROFILES ''profiles'' = Inr []"
    using assms(1) by (simp add: validate_scenario_def Let_def)
  then obtain names where n: "is_list ?v" "names_in ''name'' ?ps = Inr names" "\<forall>r\<in>set REQUIRED_PROFILES. PStr r \<in> set names"
    by (auto simp: check_names_def Let_def res_simps)
  then have "?v = PList ?ps" by (auto simp: is_list_iff list_or_empty_def)
  then have "dict_get_or scenario ''profiles'' (PList []) = PList ?ps"
    by (auto simp: dict_val_def dict_get_or_def split: option.splits)
  moreover have "PStr ''expected'' \<in> set names" using n(3) by (simp add: REQUIRED_PROFILES_def)
  ultimately have known: "profile_known scenario (PStr ''expected'') = Inr True"
    using n(2) by (auto simp: profile_known_def py_iter_def hashed_def hashable_def list_ex_iff)
  have "check_observed (map (\<lambda>(n, _). (py_str n, PDict [])) tm) j = Inr []" if j: "j \<in> set tm" for j
  proof -
    obtain s ts where p: "j = (PStr s, ts)" using assms(4) j by (cases j) auto
    show ?thesis using j lookup_empty [of s ts tm] unfolding p check_observed_Nil lookup_name_def by auto
  qed
  moreover have "missing_names REQUIRED_RESULT_FIELDS (map (\<lambda>kv. PStr (fst kv)) ?r) = []"
    by (simp add: REQUIRED_RESULT_FIELDS_def empty_result_def)
  moreover have "dict_val ?r ''scenario_id'' = PStr i" "dict_val ?r ''profile'' = PStr ''expected''"
    "dict_val ?r ''metrics'' = PDict (map (\<lambda>(n, _). (py_str n, PDict [])) tm)"
    by (simp_all add: empty_result_def dict_val_def dict_get_or_def)
  ultimately show ?thesis using known assms(2,3) by (simp add: validate_result_def)
qed

text \<open>A threshold that is not a number in the sense of IEEE is accepted as positive and never exceeded;
  the decoder of the standard library reads \<open>NaN\<close>.\<close>

lemma nan_threshold: "positive_number (PFloat NaN) \<and> \<not> py_lt (PFloat NaN) value"
  by (simp add: positive_number_def py_le_def py_lt_def fl_le_def)

section \<open>Examples\<close>

definition sample_thresholds :: pydict where
  "sample_thresholds = [(''p95_latency_ms'', PInt 500), (''error_rate'', PFloat (Fin (1 / 128))), (''cpu_saturation'', PFloat (Fin (3 / 4))),
     (''memory_saturation'', PFloat (Fin (3 / 4)))]"

definition named_journey :: "string \<Rightarrow> pyval" where
  "named_journey name = PDict [(''name'', PStr name), (''thresholds'', PDict sample_thresholds)]"

definition sample_scenario :: pydict where
  "sample_scenario = [(''schema_version'', PInt 1), (''scenario_id'', PStr ''capacity-v1''),
     (''profiles'', PList (map (\<lambda>name. PDict [(''name'', PStr name)]) REQUIRED_PROFILES)),
     (''critical_journeys'', PList (map named_journey REQUIRED_JOURNEYS)),
     (''controls_under_test'', PDict [(''api_rate_limit_per_minute'', PInt 60), (''auth_rate_limit_per_5_minutes'', PInt 10),
       (''api_max_body_bytes'', PInt 1048576)]),
     (''capacity_assumptions'', PDict [(''kafka_partitions'', PDict [(''alerts'', PInt 3)])])]"

definition sample_map :: thresholds where
  "sample_map = map (\<lambda>name. (PStr name, sample_thresholds)) REQUIRED_JOURNEYS"

lemma sample_scenario_ok: "validate_scenario sample_scenario = Inr []" "threshold_map sample_scenario = Inr sample_map"
  "dict_val sample_scenario ''scenario_id'' = PStr ''capacity-v1''" "list_all (\<lambda>(n, _). as_str n \<noteq> None) sample_map"
  by code_simp+

theorem unmeasured_result_accepted_witness:
  "validate_result sample_scenario (empty_result ''capacity-v1'' sample_map) = Inr []"
proof (rule unmeasured_result_accepted [OF sample_scenario_ok(1-3)])
  show "\<forall>(n, _)\<in>set sample_map. \<exists>s. n = PStr s" by (simp add: sample_map_def)
qed

definition sample_measured :: pydict where
  "sample_measured = [(''scenario_id'', PStr ''capacity-v1''), (''environment'', PStr ''staging''), (''profile'', PStr ''burst''),
     (''started_at'', PStr ''t0''), (''completed_at'', PStr ''t1''), (''git_sha'', PStr ''abc''),
     (''metrics'', PDict (map (\<lambda>name. (name, PDict [(''p95_latency_ms'', PInt 120)])) REQUIRED_JOURNEYS))]"


text \<open>Results whose only measurements are NaN pass the same scenario, so the exception in the statement
  above is a real one.\<close>

definition unmeasurable :: pydict where
  "unmeasurable = [(''scenario_id'', PStr ''capacity-v1''), (''environment'', PStr ''staging''), (''profile'', PStr ''burst''),
     (''started_at'', PStr ''t0''), (''completed_at'', PStr ''t1''), (''git_sha'', PStr ''abc''),
     (''metrics'', PDict (map (\<lambda>name. (name, PDict [(''p95_latency_ms'', PFloat NaN), (''error_rate'', PFloat NaN)])) REQUIRED_JOURNEYS))]"

theorem nan_measurements_accepted:
  "check_capacity (''s'', Inr (PDict sample_scenario)) [(''r'', Inr (PDict unmeasurable))] = Inr 0"
  by code_simp

end
