(* ===== verification/RecoveryGate.thy ===== *)
theory RecoveryGate
  imports Evidence
begin

text \<open>
  \<open>scripts/validate_recovery.py\<close>: the gate on the recovery matrix, which lists every store with its
  recovery objectives.  What is shown: what an accepted matrix promises for the required stores.
\<close>

section \<open>Stores\<close>

definition REQUIRED_AUTHORITATIVE :: "string list" where
  "REQUIRED_AUTHORITATIVE = [''kafka'', ''neo4j'', ''object_storage'', ''postgresql'', ''secrets_and_configuration'']"

definition REQUIRED_DERIVED :: "string list" where
  "REQUIRED_DERIVED = [''opensearch'', ''redis'']"

definition REQUIRED_EVIDENCE :: "string list" where
  "REQUIRED_EVIDENCE = [''RPO and RTO actuals'', ''article-to-alert canary result'', ''image digests and git SHA'', ''operator and approver'',
     ''restore command log with timestamps'', ''source and restored environment identifiers'', ''tenant isolation validation'']"

definition check_derived :: "string \<Rightarrow> pydict \<Rightarrow> string list" where
  "check_derived name store =
     fail_if (dict_val store ''rebuildable'' \<noteq> PBool True) (name @ '' derived stores must be marked rebuildable'')
     @ fail_if (\<not> truthy (dict_val store ''derived_from'')) (name @ '' must list derived_from sources'')"

definition check_authoritative :: "string \<Rightarrow> pydict \<Rightarrow> string list" where
  "check_authoritative name store =
     fail_if (dict_val store ''restore_drill_required'' \<noteq> PBool True) (name @ '' authoritative stores must require restore drills'')
     @ fail_if (\<not> truthy (dict_val store ''authoritative_for'')) (name @ '' must list authoritative_for data'')
     @ fail_if (\<not> truthy (dict_val store ''rebuild_source'')) (name @ '' must list rebuild_source'')"

definition validate_store :: "pydict \<Rightarrow> bool \<Rightarrow> string list" where
  "validate_store store derived =
     (let name = py_str (dict_get_or store ''name'' (PStr ''<unknown>''))
      in map (\<lambda>field. name @ '' missing '' @ field)
           (filter (\<lambda>field. dict_get store field = None) [''owner'', ''rpo_minutes'', ''rto_minutes'', ''validation''])
         @ map (\<lambda>field. name @ ''.'' @ field @ '' must be a non-negative integer'')
             (filter (\<lambda>field. \<not> natural (dict_val store field)) [''rpo_minutes'', ''rto_minutes''])
         @ fail_if (\<not> filled_array (dict_val store ''validation'')) (name @ ''.validation must contain at least one validation step'')
         @ (if derived then check_derived name store else check_authoritative name store))"

section \<open>The matrix\<close>

definition check_stores :: "pydict \<Rightarrow> string \<Rightarrow> string \<Rightarrow> string list \<Rightarrow> bool \<Rightarrow> string list res" where
  "check_stores matrix key kind required derived =
     (let stores = list_or_empty (dict_val matrix key)
      in res_bind (names_in ''name'' stores) (\<lambda>names.
         let missing = missing_names required names
         in Inr (fail_if (\<not> is_list (dict_val matrix key)) (key @ '' must be a list'')
           @ fail_if (missing \<noteq> []) (''missing '' @ kind @ '' stores: '' @ join '', '' missing)
           @ concat (map (\<lambda>store. case store of PDict d \<Rightarrow> validate_store d derived
               | _ \<Rightarrow> [kind @ '' store entries must be objects'']) stores))))"

definition check_rollback :: "pyval \<Rightarrow> string list" where
  "check_rollback v = (case v of
     PDict rollback \<Rightarrow> fail_if (dict_val rollback ''immutable_digest_required'' \<noteq> PBool True) ''rollback must require immutable digests''
       @ map (\<lambda>field. ''rollback missing '' @ field)
           (filter (\<lambda>field. \<not> truthy (dict_val rollback field)) [''pre_rollback_canary'', ''post_rollback_canary'', ''irreversible_change_policy''])
   | _ \<Rightarrow> [''rollback must be an object''])"

definition check_evidence :: "pydict \<Rightarrow> string list res" where
  "check_evidence matrix =
     res_bind (py_iter (dict_get_or matrix ''evidence_required'' (PList []))) (\<lambda>items.
     res_bind (res_map hashed items) (\<lambda>evidence.
       let missing = missing_names REQUIRED_EVIDENCE evidence
       in Inr (fail_if (missing \<noteq> []) (''missing evidence requirements: '' @ join '', '' missing))))"

definition validate_matrix :: "pydict \<Rightarrow> string list res" where
  "validate_matrix matrix =
     res_append (Inr (fail_if (\<not> py_eq (dict_val matrix ''schema_version'') (PInt 1)) ''schema_version must be 1''))
     (res_append (check_stores matrix ''authoritative_stores'' ''authoritative'' REQUIRED_AUTHORITATIVE False)
     (res_append (check_stores matrix ''derived_stores'' ''derived'' REQUIRED_DERIVED True)
     (res_append (Inr (check_rollback (dict_val matrix ''rollback'')))
     (res_append (check_evidence matrix)
       (Inr (fail_if (length (list_or_empty (dict_val matrix ''external_blockers'')) < 3)
          ''external_blockers must list remaining non-repository evidence''))))))"

definition check_recovery :: "string \<times> pyval res \<Rightarrow> nat res" where
  "check_recovery file = res_bind (load_object (fst file) (snd file)) (\<lambda>matrix.
     res_bind (validate_matrix matrix) (\<lambda>failures. Inr (exit_code failures)))"

section \<open>An accepted matrix\<close>

text \<open>A store of the list with this name, and objectives and validation steps.\<close>

definition covered :: "pydict \<Rightarrow> string \<Rightarrow> string \<Rightarrow> (pydict \<Rightarrow> bool) \<Rightarrow> bool" where
  "covered matrix key name promise \<longleftrightarrow> (\<exists>stores store. dict_val matrix key = PList stores \<and> PDict store \<in> set stores
     \<and> dict_val store ''name'' = PStr name \<and> natural (dict_val store ''rpo_minutes'') \<and> natural (dict_val store ''rto_minutes'')
     \<and> dict_get store ''owner'' \<noteq> None \<and> filled_array (dict_val store ''validation'') \<and> promise store)"

lemma check_stores_covers:
  assumes "check_stores matrix key kind required derived = Inr []" and "name \<in> set required"
  shows "covered matrix key name (\<lambda>store. validate_store store derived = [])"
proof -
  let ?stores = "list_or_empty (dict_val matrix key)"
  obtain names where h: "names_in ''name'' ?stores = Inr names" "is_list (dict_val matrix key)" "\<forall>r\<in>set required. PStr r \<in> set names"
    "\<forall>store\<in>set ?stores. (case store of PDict d \<Rightarrow> validate_store d derived | _ \<Rightarrow> [kind @ '' store entries must be objects'']) = []"
    using assms(1) unfolding check_stores_def Let_def res_bind_Inr_iff by auto
  have v: "dict_val matrix key = PList ?stores" using h(2) by (auto simp: is_list_iff list_or_empty_def)
  obtain store where s: "PDict store \<in> set ?stores" "dict_val store ''name'' = PStr name"
    using h(3) assms(2) names_in_set [OF h(1)] in_dicts_of by fastforce
  then have "validate_store store derived = []" using h(4) by fastforce
  then show ?thesis unfolding covered_def using v s
    by (intro exI [of _ ?stores] exI [of _ store]) (auto simp: validate_store_def Let_def filter_empty_conv split: if_splits)
qed

text \<open>An accepted matrix has, for every required authoritative store, an entry with an owner, natural numbers
  as recovery objectives, a validation step, a restore drill and a source to rebuild from; for
  every derived store one that is rebuildable; it demands fixed digests for a rollback and lists
  every kind of evidence.\<close>

theorem recovery_matrix_complete:
  assumes "check_recovery (path, Inr (PDict matrix)) = Inr 0"
  shows "(\<forall>name\<in>set REQUIRED_AUTHORITATIVE. covered matrix ''authoritative_stores'' name (\<lambda>store.
            dict_val store ''restore_drill_required'' = PBool True \<and> truthy (dict_val store ''rebuild_source'')))
    \<and> (\<forall>name\<in>set REQUIRED_DERIVED. covered matrix ''derived_stores'' name (\<lambda>store. dict_val store ''rebuildable'' = PBool True))
    \<and> (\<exists>rollback. dict_val matrix ''rollback'' = PDict rollback \<and> dict_val rollback ''immutable_digest_required'' = PBool True)
    \<and> (\<exists>evidence. py_iter (dict_get_or matrix ''evidence_required'' (PList [])) = Inr evidence
         \<and> (\<forall>r\<in>set REQUIRED_EVIDENCE. PStr r \<in> set evidence))"
proof -
  have v: "validate_matrix matrix = Inr []" using assms by (simp add: check_recovery_def load_object_def res_simps)
  then have a: "check_stores matrix ''authoritative_stores'' ''authoritative'' REQUIRED_AUTHORITATIVE False = Inr []"
    and d: "check_stores matrix ''derived_stores'' ''derived'' REQUIRED_DERIVED True = Inr []"
    and r: "check_rollback (dict_val matrix ''rollback'') = []" and e: "check_evidence matrix = Inr []"
    unfolding validate_matrix_def by simp_all
  have weaken: "covered matrix key name P \<Longrightarrow> (\<And>s. P s \<Longrightarrow> Q s) \<Longrightarrow> covered matrix key name Q" for key name P Q
    unfolding covered_def by blast
  have "\<exists>rollback. dict_val matrix ''rollback'' = PDict rollback \<and> dict_val rollback ''immutable_digest_required'' = PBool True"
    using r by (auto simp: check_rollback_def split: pyval.splits)
  moreover have "res_map hashed items = Inr ys \<Longrightarrow> ys = items" for items ys
    by (induction items arbitrary: ys) (auto simp: res_simps hashed_def split: if_splits)
  then have "\<exists>evidence. py_iter (dict_get_or matrix ''evidence_required'' (PList [])) = Inr evidence
         \<and> (\<forall>r\<in>set REQUIRED_EVIDENCE. PStr r \<in> set evidence)"
    using e unfolding check_evidence_def Let_def res_bind_Inr_iff by auto
  moreover have "covered matrix ''authoritative_stores'' name (\<lambda>store.
      dict_val store ''restore_drill_required'' = PBool True \<and> truthy (dict_val store ''rebuild_source''))"
    if "name \<in> set REQUIRED_AUTHORITATIVE" for name
    by (rule weaken [OF check_stores_covers [OF a that]]) (simp add: validate_store_def check_authoritative_def Let_def)
  moreover have "covered matrix ''derived_stores'' name (\<lambda>store. dict_val store ''rebuildable'' = PBool True)"
    if "name \<in> set REQUIRED_DERIVED" for name
    by (rule weaken [OF check_stores_covers [OF d that]]) (simp add: validate_store_def check_derived_def Let_def)
  ultimately show ?thesis by blast
qed

definition sample_store :: "string \<Rightarrow> pyval" where
  "sample_store name = PDict [(''name'', PStr name), (''owner'', PStr ''ops''), (''rpo_minutes'', PInt 15), (''rto_minutes'', PInt 60),
     (''validation'', PList [PStr ''restore'']), (''rebuildable'', PBool True), (''derived_from'', PStr ''kafka''),
     (''restore_drill_required'', PBool True), (''authoritative_for'', PStr ''events''), (''rebuild_source'', PStr ''backup'')]"

definition sample_matrix :: pydict where
  "sample_matrix = [(''schema_version'', PInt 1), (''authoritative_stores'', PList (map sample_store REQUIRED_AUTHORITATIVE)),
     (''derived_stores'', PList (map sample_store REQUIRED_DERIVED)),
     (''rollback'', PDict [(''immutable_digest_required'', PBool True), (''pre_rollback_canary'', PStr ''c''),
        (''post_rollback_canary'', PStr ''c''), (''irreversible_change_policy'', PStr ''p'')]),
     (''evidence_required'', PList (map PStr REQUIRED_EVIDENCE)), (''external_blockers'', PList [PInt 1, PInt 2, PInt 3])]"

theorem recovery_matrix_complete_witness:
  "check_recovery (''m'', Inr (PDict sample_matrix)) = Inr 0 \<and> covered sample_matrix ''derived_stores'' ''redis'' (\<lambda>store. dict_val store ''rebuildable'' = PBool True)"
proof -
  have c: "check_recovery (''m'', Inr (PDict sample_matrix)) = Inr 0" by code_simp
  from recovery_matrix_complete [OF c] c show ?thesis by (simp add: REQUIRED_DERIVED_def)
qed

end
