(* ===== verification/QualityGate.thy ===== *)
theory QualityGate
  imports Evidence
begin

text \<open>
  \<open>scripts/validate_quality.py\<close>: the gate on the evaluation of the models.  A plan sets thresholds for
  the metrics of every stage, a data set says what is tested, the results must reach the
  thresholds.  What is shown: what accepted files say about one another.
\<close>

section \<open>Reading\<close>

text \<open>\<open>v.items()\<close>; \<open>set(v)\<close> of something to iterate over.\<close>

definition items_of :: "pyval \<Rightarrow> pydict res" where
  "items_of v = (case v of PDict d \<Rightarrow> Inr d | _ \<Rightarrow> Inl (Exn AttributeError (str_repr (type_name v) @ '' object has no attribute '' @ str_repr ''items'')))"

definition hashed_set :: "pyval \<Rightarrow> pyval list res" where
  "hashed_set v = res_bind (py_iter v) (res_map hashed)"

definition py_member :: "pyval \<Rightarrow> pyval list \<Rightarrow> bool res" where
  "py_member v vs = res_bind (hashed v) (\<lambda>v. Inr (list_ex (py_eq v) vs))"

definition empty_dict :: pyval where "empty_dict = PDict []"
definition empty_list :: pyval where "empty_list = PList []"

definition REQUIRED_STAGES :: "string list" where
  "REQUIRED_STAGES = [''alert_quality'', ''claim_linking'', ''entity_resolution'', ''extraction'']"

text \<open>A set whose elements are gone through in any order; the order does not matter for the outcome.\<close>

definition REQUIRED_COVERAGE :: "string list" where
  "REQUIRED_COVERAGE = [''languages'', ''source_types'', ''risk_levels'']"

text \<open>\<open>if not v.get(key): failures.append(message)\<close>\<close>

definition need :: "pyval \<Rightarrow> string \<Rightarrow> string \<Rightarrow> string list res" where
  "need v key message = res_bind (get_field v key) (\<lambda>w. Inr (fail_if (\<not> truthy w) message))"

section \<open>The plan\<close>

definition ratio :: "pyval \<Rightarrow> bool" where
  "ratio v = (is_number v \<and> \<not> py_le v (PInt 0) \<and> \<not> py_lt (PInt 1) v)"

definition check_stage :: "string \<times> pyval \<Rightarrow> string list res" where
  "check_stage entry = (case entry of (stage, config) \<Rightarrow>
     res_append (need config ''metrics'' (stage @ '' must define metric thresholds''))
     (res_append (need config ''regression_budget'' (stage @ '' must define regression_budget''))
       (res_bind (py_get config ''metrics'' empty_dict) (\<lambda>m. res_bind (items_of m) (\<lambda>metrics.
          Inr (map (\<lambda>(metric, _). stage @ ''.'' @ metric @ '' threshold must be between 0 and 1'')
            (filter (\<lambda>(_, threshold). \<not> ratio threshold) metrics)))))))"

definition validate_plan :: "pyval \<Rightarrow> string list res" where
  "validate_plan plan =
     res_append (need plan ''intended_use'' ''plan must document intended_use'')
     (res_append (need plan ''prohibited_uses'' ''plan must document prohibited_uses'')
     (res_append (res_bind (py_get plan ''critical_stages'' empty_dict) (\<lambda>stages.
        res_bind (hashed_set stages) (\<lambda>names. let missing = missing_names REQUIRED_STAGES names
          in res_append (Inr (fail_if (missing \<noteq> []) (''plan missing critical stages: '' @ join '', '' missing)))
               (res_bind (items_of stages) (res_concat check_stage)))))
     (res_append (need plan ''human_review_rules'' ''plan must define human_review_rules'')
       (res_bind (py_get plan ''monitoring'' empty_dict) (\<lambda>m. need m ''rollback_criteria'' ''plan must define rollback_criteria'')))))"

section \<open>The data set\<close>

definition check_rights :: "pyval \<Rightarrow> string list res" where
  "check_rights rights =
     res_bind (get_field rights ''status'') (\<lambda>status.
     res_bind (get_field rights ''legal_approval'') (\<lambda>approval.
     res_bind (get_field rights ''third_party_text'') (\<lambda>third.
       Inr (fail_if (status \<noteq> PStr ''repository_owned'' \<and> \<not> truthy approval) ''dataset must be repository-owned or include legal_approval''
         @ fail_if (third \<noteq> PBool False) ''repository fixture must not contain third_party_text''))))"

definition check_coverage :: "string \<Rightarrow> pyval \<Rightarrow> string list res" where
  "check_coverage message v = res_concat (\<lambda>c. res_bind (py_get v ''coverage'' empty_dict) (\<lambda>coverage.
     need coverage c (message @ c))) REQUIRED_COVERAGE"

definition check_case :: "pyval list \<Rightarrow> pyval \<Rightarrow> string list res" where
  "check_case test_ids entry =
     res_append (res_bind (get_field entry ''split'') (\<lambda>split.
         if split \<noteq> PStr ''test'' then Inr []
         else res_bind (get_field entry ''id'') (\<lambda>i. res_bind (py_member i test_ids) (\<lambda>listed.
           Inr (fail_if (\<not> listed) (''test case '' @ py_str i @ '' missing from train_test_split.test_ids''))))))
       (res_bind (get_field entry ''risk_level'') (\<lambda>risk.
         if risk \<noteq> PStr ''high'' then Inr []
         else res_bind (py_get entry ''expected'' empty_dict) (\<lambda>expected.
           res_bind (get_field expected ''requires_human_review'') (\<lambda>review. res_bind (get_field entry ''id'') (\<lambda>i.
             Inr (fail_if (\<not> truthy review) (''high-risk case '' @ py_str i @ '' must require human review'')))))))"

definition validate_dataset :: "pyval \<Rightarrow> string list res" where
  "validate_dataset dataset =
     res_append (res_bind (py_get dataset ''rights'' empty_dict) check_rights)
     (res_bind (py_get dataset ''train_test_split'' empty_dict) (\<lambda>split.
      res_bind (py_get split ''train_ids'' empty_list) (\<lambda>a. res_bind (hashed_set a) (\<lambda>train_ids.
      res_bind (py_get split ''test_ids'' empty_list) (\<lambda>b. res_bind (hashed_set b) (\<lambda>test_ids.
        res_append (Inr (fail_if (list_ex (\<lambda>x. list_ex (py_eq x) test_ids) train_ids) ''train and test ids must be disjoint''
            @ fail_if (test_ids = []) ''dataset must define test_ids''))
        (res_append (check_coverage ''dataset missing coverage.'' dataset)
          (res_bind (py_get dataset ''cases'' empty_list) (\<lambda>cs. res_bind (py_iter cs) (res_concat (check_case test_ids)))))))))))"

section \<open>The results\<close>

definition num_lt :: "pyval \<Rightarrow> pyval \<Rightarrow> bool res" where
  "num_lt a b = (if is_number a \<and> is_number b then Inr (py_lt a b)
     else Inl (Exn TypeError (str_repr ''<'' @ '' not supported between instances of ''
       @ str_repr (type_name a) @ '' and '' @ str_repr (type_name b))))"

definition check_value :: "string \<Rightarrow> pyval \<Rightarrow> string \<times> pyval \<Rightarrow> string list res" where
  "check_value stage stage_metrics entry = (case entry of (metric, threshold) \<Rightarrow>
     res_bind (get_field stage_metrics metric) (\<lambda>value.
       if \<not> is_number value then Inr [''missing result metric '' @ stage @ ''.'' @ metric]
       else res_bind (num_lt value threshold) (\<lambda>below. Inr (fail_if below
         (stage @ ''.'' @ metric @ ''='' @ py_str value @ '' below threshold '' @ py_str threshold)))))"

definition check_stage_result :: "pyval \<Rightarrow> string \<times> pyval \<Rightarrow> string list res" where
  "check_stage_result metrics entry = (case entry of (stage, config) \<Rightarrow>
     res_bind (py_get metrics stage empty_dict) (\<lambda>stage_metrics.
     res_bind (py_get config ''metrics'' empty_dict) (\<lambda>m. res_bind (items_of m) (res_concat (check_value stage stage_metrics)))))"

definition validate_results :: "pyval \<Rightarrow> pyval \<Rightarrow> pyval \<Rightarrow> string list res" where
  "validate_results plan dataset results =
     res_append (res_bind (get_field results ''dataset_id'') (\<lambda>a. res_bind (get_field dataset ''dataset_id'') (\<lambda>b.
       Inr (fail_if (\<not> py_eq a b) ''result dataset_id must match dataset''))))
     (res_append (res_bind (py_get results ''metrics'' empty_dict) (\<lambda>metrics.
        res_bind (py_get plan ''critical_stages'' empty_dict) (\<lambda>s. res_bind (items_of s) (res_concat (check_stage_result metrics)))))
     (res_append (check_coverage ''results missing coverage.'' results)
       (res_bind (py_get results ''approval'' empty_dict) (\<lambda>approval.
        res_bind (get_field approval ''approved_for_production'') (\<lambda>approved.
          res_append (Inr (fail_if (approved = PBool True) ''repository baseline must not claim production approval''))
            (need approval ''required_external_evidence'' ''results must list required_external_evidence''))))))"

definition check_quality :: "pyval res \<Rightarrow> pyval res \<Rightarrow> pyval res \<Rightarrow> nat res" where
  "check_quality plan_file dataset_file results_file =
     res_bind plan_file (\<lambda>plan. res_bind dataset_file (\<lambda>dataset. res_bind results_file (\<lambda>results.
       res_bind (res_append (validate_plan plan) (res_append (validate_dataset dataset) (validate_results plan dataset results)))
         (\<lambda>failures. Inr (exit_code failures)))))"

section \<open>Accepted files\<close>

text \<open>The stages of a plan, and the thresholds of a stage.\<close>

definition plan_threshold :: "pyval \<Rightarrow> string \<Rightarrow> string \<Rightarrow> pyval \<Rightarrow> bool" where
  "plan_threshold plan stage metric threshold \<longleftrightarrow> (\<exists>stages config metrics. py_get plan ''critical_stages'' empty_dict = Inr (PDict stages)
     \<and> (stage, config) \<in> set stages \<and> py_get config ''metrics'' empty_dict = Inr (PDict metrics) \<and> (metric, threshold) \<in> set metrics)"

lemma items_of_Inr: "items_of v = Inr d \<longleftrightarrow> v = PDict d"
  by (auto simp: items_of_def split: pyval.splits)

lemma stage_ratio:
  assumes "check_stage (stage, config) = Inr []" and "py_get config ''metrics'' empty_dict = Inr (PDict metrics)" and "(metric, threshold) \<in> set metrics"
  shows "ratio threshold"
  using assms by (auto simp: check_stage_def res_simps items_of_Inr filter_empty_conv)

lemma stage_reached:
  assumes "check_stage_result metrics (stage, config) = Inr []" and "py_get config ''metrics'' empty_dict = Inr (PDict ms)" and "(metric, threshold) \<in> set ms"
  shows "\<exists>sm value. py_get metrics stage empty_dict = Inr sm \<and> get_field sm metric = Inr value \<and> is_number value \<and> \<not> py_lt value threshold"
proof -
  obtain sm where sm: "py_get metrics stage empty_dict = Inr sm" "\<forall>e\<in>set ms. check_value stage sm e = Inr []"
    using assms(1,2) by (auto simp: check_stage_result_def res_simps items_of_Inr)
  then have "check_value stage sm (metric, threshold) = Inr []" using assms(3) by blast
  then obtain val where "get_field sm metric = Inr val" "is_number val" "num_lt val threshold = Inr False"
    by (auto simp: check_value_def res_simps split: if_splits)
  then show ?thesis using sm(1) by (auto simp: num_lt_def split: if_splits)
qed

text \<open>When the gate passes, every threshold of the plan is a ratio, the results report for each a number
  that is not below it, no identifier is in both the training and the test set, every test case is
  among the test identifiers, and every high-risk case requires a human review.\<close>

theorem quality_baseline_met:
  assumes "check_quality (Inr plan) (Inr dataset) (Inr results) = Inr 0"
  shows "(\<forall>stage metric threshold. plan_threshold plan stage metric threshold \<longrightarrow> ratio threshold
      \<and> (\<exists>metrics sm value. py_get results ''metrics'' empty_dict = Inr metrics \<and> py_get metrics stage empty_dict = Inr sm
           \<and> get_field sm metric = Inr value \<and> is_number value \<and> \<not> py_lt value threshold))
    \<and> (\<exists>train_ids test_ids cases. test_ids \<noteq> [] \<and> (\<forall>x\<in>set train_ids. \<forall>y\<in>set test_ids. \<not> py_eq x y)
         \<and> res_bind (py_get dataset ''cases'' empty_list) py_iter = Inr cases
         \<and> (\<forall>c\<in>set cases. (get_field c ''split'' = Inr (PStr ''test'') \<longrightarrow> (\<exists>i. get_field c ''id'' = Inr i \<and> py_member i test_ids = Inr True))
              \<and> (get_field c ''risk_level'' = Inr (PStr ''high'') \<longrightarrow>
                   (\<exists>e r. py_get c ''expected'' empty_dict = Inr e \<and> get_field e ''requires_human_review'' = Inr r \<and> truthy r))))"
proof -
  have p: "validate_plan plan = Inr []" and d: "validate_dataset dataset = Inr []" and r: "validate_results plan dataset results = Inr []"
    using assms by (auto simp: check_quality_def res_simps)
  obtain stages names where s: "py_get plan ''critical_stages'' empty_dict = Inr (PDict stages)" "\<forall>e\<in>set stages. check_stage e = Inr []"
    using p by (auto simp: validate_plan_def res_simps Let_def items_of_Inr)
  obtain metrics where m: "py_get results ''metrics'' empty_dict = Inr metrics" "\<forall>e\<in>set stages. check_stage_result metrics e = Inr []"
    using r s(1) by (auto simp: validate_results_def res_simps items_of_Inr)
  obtain train_ids test_ids cs cases where c: "test_ids \<noteq> []" "\<forall>x\<in>set train_ids. \<forall>y\<in>set test_ids. \<not> py_eq x y"
    "py_get dataset ''cases'' empty_list = Inr cs" "py_iter cs = Inr cases" "\<forall>c\<in>set cases. check_case test_ids c = Inr []"
    using d by (auto simp: validate_dataset_def res_simps list_ex_iff)
  have case_ok: "check_case ids c = Inr [] \<Longrightarrow>
      (get_field c ''split'' = Inr (PStr ''test'') \<longrightarrow> (\<exists>i. get_field c ''id'' = Inr i \<and> py_member i ids = Inr True))
    \<and> (get_field c ''risk_level'' = Inr (PStr ''high'') \<longrightarrow>
        (\<exists>e r. py_get c ''expected'' empty_dict = Inr e \<and> get_field e ''requires_human_review'' = Inr r \<and> truthy r))" for ids c
    by (auto simp: check_case_def res_simps split: if_splits)
  have "ratio threshold \<and> (\<exists>metrics sm value. py_get results ''metrics'' empty_dict = Inr metrics \<and> py_get metrics stage empty_dict = Inr sm
      \<and> get_field sm metric = Inr value \<and> is_number value \<and> \<not> py_lt value threshold)"
    if t: "plan_threshold plan stage metric threshold" for stage metric threshold
  proof -
    obtain config ms where t': "(stage, config) \<in> set stages" "py_get config ''metrics'' empty_dict = Inr (PDict ms)" "(metric, threshold) \<in> set ms"
      using t s(1) by (auto simp: plan_threshold_def)
    then show ?thesis using stage_ratio [OF _ t'(2,3)] stage_reached [OF _ t'(2,3)] s(2) m by blast
  qed
  then show ?thesis using c case_ok by (intro conjI exI [of _ train_ids] exI [of _ test_ids] exI [of _ cases]) auto
qed

definition sample_stages :: pydict where
  "sample_stages = map (\<lambda>stage. (stage, PDict [(''metrics'', PDict [(''precision'', PInt 1)]), (''regression_budget'', PInt 1)]))
     REQUIRED_STAGES"

definition sample_plan :: pyval where
  "sample_plan = PDict [(''intended_use'', PStr ''review''), (''prohibited_uses'', PStr ''profiling''), (''critical_stages'', PDict sample_stages),
     (''human_review_rules'', PStr ''rules''), (''monitoring'', PDict [(''rollback_criteria'', PStr ''c'')])]"

definition full_coverage :: pyval where
  "full_coverage = PDict (map (\<lambda>c. (c, PStr ''all'')) REQUIRED_COVERAGE)"

definition sample_dataset :: pyval where
  "sample_dataset = PDict [(''dataset_id'', PStr ''d''), (''rights'', PDict [(''status'', PStr ''repository_owned''), (''third_party_text'', PBool False)]),
     (''train_test_split'', PDict [(''train_ids'', PList [PStr ''a'']), (''test_ids'', PList [PStr ''b''])]), (''coverage'', full_coverage),
     (''cases'', PList [PDict [(''id'', PStr ''b''), (''split'', PStr ''test''), (''risk_level'', PStr ''high''),
        (''expected'', PDict [(''requires_human_review'', PBool True)])]])]"

definition sample_results :: pyval where
  "sample_results = PDict [(''dataset_id'', PStr ''d''),
     (''metrics'', PDict (map (\<lambda>stage. (stage, PDict [(''precision'', PInt 1)])) REQUIRED_STAGES)),
     (''coverage'', full_coverage), (''approval'', PDict [(''required_external_evidence'', PStr ''e'')])]"

theorem quality_baseline_met_witness:
  "check_quality (Inr sample_plan) (Inr sample_dataset) (Inr sample_results) = Inr 0
   \<and> plan_threshold sample_plan ''extraction'' ''precision'' (PInt 1) \<and> ratio (PInt 1)"
proof -
  have c: "check_quality (Inr sample_plan) (Inr sample_dataset) (Inr sample_results) = Inr 0" by code_simp
  have "plan_threshold sample_plan ''extraction'' ''precision'' (PInt 1)"
    unfolding plan_threshold_def by (intro exI [of _ sample_stages]) (auto simp: sample_plan_def dict_get_or_def sample_stages_def REQUIRED_STAGES_def)
  then show ?thesis using quality_baseline_met [OF c] c by blast
qed

end
