(* ===== verification/GovernanceGate.thy ===== *)
theory GovernanceGate
  imports Evidence
begin

text \<open>
  \<open>scripts/validate_governance.py\<close>: the gate on the inventory of sources and the retention policy.
  What is shown: what an accepted inventory is, and that a retention of zero days is refused.
\<close>

section \<open>The inventory of sources\<close>

definition REQUIRED_SOURCE_FIELDS :: "string list" where
  "REQUIRED_SOURCE_FIELDS = [''adapter'', ''attribution'', ''deletion_obligations'', ''endpoint_patterns'', ''geography'', ''id'',
     ''last_reviewed'', ''legal_basis'', ''name'', ''next_review_due'', ''owner'', ''permitted_uses'', ''retention_days'',
     ''rights_status'', ''robots_status'', ''takedown_contact'', ''terms_status'']"

definition REQUIRED_STORES :: "string list" where
  "REQUIRED_STORES = [''kafka'', ''neo4j'', ''object_storage'', ''opensearch'', ''postgresql'', ''redis'', ''telemetry'']"

definition as_object :: "pyval \<Rightarrow> pydict res" where
  "as_object v = (case v of PDict d \<Rightarrow> Inr d
     | _ \<Rightarrow> Inl (Exn AttributeError (str_repr (type_name v) @ '' object has no attribute '' @ str_repr ''get'')))"

definition check_source :: "pydict \<Rightarrow> bool \<Rightarrow> string list" where
  "check_source source seen =
     (let source_id = py_str (dict_get_or source ''id'' (PStr ''<missing>''));
          missing = filter (\<lambda>key. \<not> truthy (dict_val source key)) REQUIRED_SOURCE_FIELDS
      in fail_if (missing \<noteq> []) (''source '' @ source_id @ '' missing fields: '' @ join '', '' missing)
       @ fail_if seen (''duplicate source id: '' @ source_id)
       @ fail_if (dict_val source ''rights_status'' \<noteq> PStr ''approved'') (''source '' @ source_id @ '' must be approved before production enablement'')
       @ fail_if (\<not> natural (dict_val source ''retention_days'')) (''source '' @ source_id @ '' retention_days must be a non-negative integer'')
       @ fail_if (\<not> filled_array (dict_val source ''permitted_uses'')) (''source '' @ source_id @ '' permitted_uses must be a non-empty list'')
       @ fail_if (\<not> filled_array (dict_val source ''deletion_obligations''))
           (''source '' @ source_id @ '' deletion_obligations must be a non-empty list''))"

text \<open>The identifiers seen so far are passed on from source to source.\<close>

fun check_sources :: "pyval list \<Rightarrow> pyval list \<Rightarrow> string list res" where
  "check_sources [] seen = Inr []"
| "check_sources (v # vs) seen = res_bind (as_object v) (\<lambda>source.
     res_bind (hashed (dict_val source ''id'')) (\<lambda>i.
       res_append (Inr (check_source source (list_ex (py_eq i) seen))) (check_sources vs (i # seen))))"

definition validate_source_inventory :: "pyval \<Rightarrow> string list res" where
  "validate_source_inventory v =
     res_bind (as_object v) (\<lambda>inventory.
     res_bind (py_iter (dict_get_or inventory ''sources'' (PList []))) (\<lambda>sources.
       res_append (check_sources sources [])
         (Inr (fail_if (\<not> truthy (dict_val inventory ''sources'')) ''source inventory must contain at least one approved source record or fixture''))))"

section \<open>The retention policy\<close>

definition absent_field :: "pydict \<Rightarrow> string \<Rightarrow> bool" where
  "absent_field store key = (case dict_get store key of None \<Rightarrow> True | Some v \<Rightarrow> v \<in> {PStr [], PNone})"

definition check_store :: "pydict \<Rightarrow> string list" where
  "check_store store =
     (let name = py_str (dict_get_or store ''store'' (PStr ''<missing>''))
      in map (\<lambda>key. name @ '' missing '' @ key)
           (filter (absent_field store) [''classification'', ''retention_days'', ''deletion_action'', ''backup_retention_days'', ''owner''])
       @ fail_if (\<not> natural (dict_val store ''retention_days'')) (name @ '' retention_days must be a non-negative integer'')
       @ fail_if (\<not> natural (dict_val store ''backup_retention_days'')) (name @ '' backup_retention_days must be a non-negative integer''))"

definition validate_retention_policy :: "pyval \<Rightarrow> string list res" where
  "validate_retention_policy v =
     res_bind (as_object v) (\<lambda>policy.
     res_bind (py_iter (dict_get_or policy ''stores'' (PList []))) (\<lambda>items.
     res_bind (res_map (\<lambda>item. res_bind (as_object item) (\<lambda>store. hashed (dict_val store ''store''))) items) (\<lambda>names.
     let missing = missing_names REQUIRED_STORES names
     in res_append (Inr (fail_if (missing \<noteq> []) (''retention policy missing stores: '' @ join '', '' missing)))
       (res_append (res_concat (\<lambda>item. res_bind (as_object item) (\<lambda>store. Inr (check_store store))) items)
         (Inr (fail_if (dict_val policy ''subprocessors_required_before_launch'' \<noteq> PBool True)
           ''subprocessors_required_before_launch must remain true until external approval is attached''))))))"

definition check_governance :: "pyval res \<Rightarrow> pyval res \<Rightarrow> nat res" where
  "check_governance inventory_file policy_file =
     res_bind inventory_file (\<lambda>inventory. res_bind (validate_source_inventory inventory) (\<lambda>failures.
     res_bind policy_file (\<lambda>policy. res_bind (validate_retention_policy policy) (\<lambda>more.
       Inr (exit_code (failures @ more))))))"

section \<open>Accepted files\<close>

text \<open>Every source is an object with an identifier of its own, the required fields and approved rights.\<close>

fun sources_ok :: "pyval list \<Rightarrow> pyval list \<Rightarrow> bool" where
  "sources_ok [] seen = True"
| "sources_ok (v # vs) seen = (\<exists>source. v = PDict source \<and> (\<forall>key\<in>set REQUIRED_SOURCE_FIELDS. truthy (dict_val source key))
     \<and> dict_val source ''rights_status'' = PStr ''approved'' \<and> natural (dict_val source ''retention_days'')
     \<and> (\<forall>i\<in>set seen. \<not> py_eq (dict_val source ''id'') i) \<and> sources_ok vs (dict_val source ''id'' # seen))"

lemma as_object_Inr: "as_object v = Inr d \<longleftrightarrow> v = PDict d"
  by (auto simp: as_object_def split: pyval.splits)

lemma check_sources_ok: "check_sources vs seen = Inr [] \<Longrightarrow> sources_ok vs seen"
  by (induction vs seen rule: check_sources.induct)
    (auto simp: res_simps as_object_Inr hashed_def check_source_def Let_def filter_empty_conv list_ex_iff split: if_splits)

text \<open>When the gate passes there is at least one source, every source is approved, has all the fields
  and an identifier that no earlier source has, and every required store has a retention rule with
  natural numbers of days.\<close>

theorem governance_accepted:
  assumes "check_governance (Inr inventory) (Inr policy) = Inr 0"
  shows "\<exists>d sources p items. inventory = PDict d \<and> py_iter (dict_get_or d ''sources'' (PList [])) = Inr sources
    \<and> truthy (dict_val d ''sources'') \<and> sources_ok sources []
    \<and> policy = PDict p \<and> py_iter (dict_get_or p ''stores'' (PList [])) = Inr items
    \<and> (\<forall>name\<in>set REQUIRED_STORES. \<exists>store. PDict store \<in> set items \<and> dict_val store ''store'' = PStr name
         \<and> natural (dict_val store ''retention_days'') \<and> natural (dict_val store ''backup_retention_days''))"
proof -
  have v: "validate_source_inventory inventory = Inr []" "validate_retention_policy policy = Inr []"
    using assms by (auto simp: check_governance_def res_simps)
  obtain d sources where d: "inventory = PDict d" "py_iter (dict_get_or d ''sources'' (PList [])) = Inr sources"
    "check_sources sources [] = Inr []" "truthy (dict_val d ''sources'')"
    using v(1) by (auto simp: validate_source_inventory_def res_simps as_object_Inr)
  obtain p items names where p: "policy = PDict p" "py_iter (dict_get_or p ''stores'' (PList [])) = Inr items"
    "res_map (\<lambda>item. res_bind (as_object item) (\<lambda>store. hashed (dict_val store ''store''))) items = Inr names"
    "\<forall>r\<in>set REQUIRED_STORES. PStr r \<in> set names" "\<forall>item\<in>set items. res_bind (as_object item) (\<lambda>store. Inr (check_store store)) = Inr []"
    using v(2) unfolding validate_retention_policy_def by (auto simp: res_bind_Inr_iff as_object_Inr Let_def)
  have names: "res_map (\<lambda>item. res_bind (as_object item) (\<lambda>store. hashed (dict_val store ''store''))) vs = Inr ns \<Longrightarrow>
      n \<in> set ns \<Longrightarrow> \<exists>store. PDict store \<in> set vs \<and> dict_val store ''store'' = n" for vs ns n
    by (induction vs arbitrary: ns) (auto simp: res_simps as_object_Inr hashed_def split: if_splits, blast+)
  have "\<exists>store. PDict store \<in> set items \<and> dict_val store ''store'' = PStr name
      \<and> natural (dict_val store ''retention_days'') \<and> natural (dict_val store ''backup_retention_days'')"
    if r: "name \<in> set REQUIRED_STORES" for name
  proof -
    obtain store where s: "PDict store \<in> set items" "dict_val store ''store'' = PStr name" using names [OF p(3)] p(4) r by blast
    have "check_store store = []" using p(5) s(1) by (fastforce simp: as_object_def)
    then show ?thesis using s by (auto simp: check_store_def Let_def)
  qed
  then show ?thesis using d p(1,2) check_sources_ok by blast
qed

text \<open>The message says that a retention must be a natural number; a source that keeps nothing, with a
  retention of zero days, is refused all the same, because zero counts as a missing field.\<close>

theorem zero_retention_refused:
  assumes "dict_val source ''retention_days'' = PInt 0"
  shows "natural (dict_val source ''retention_days'') \<and> check_source source seen \<noteq> []"
proof -
  have "\<not> truthy (dict_val source ''retention_days'')" using assms by simp
  then have "filter (\<lambda>key. \<not> truthy (dict_val source key)) REQUIRED_SOURCE_FIELDS \<noteq> []"
    unfolding filter_empty_conv REQUIRED_SOURCE_FIELDS_def by simp
  then show ?thesis using assms by (simp add: natural_def check_source_def Let_def)
qed

theorem zero_retention_refused_witness: "check_source [(''retention_days'', PInt 0)] False \<noteq> []"
  using zero_retention_refused [of "[(''retention_days'', PInt 0)]" False] by (simp add: dict_val_def dict_get_or_def)

definition sample_origin :: pyval where
  "sample_origin = PDict (map (\<lambda>key. (key, if key = ''retention_days'' then PInt 30 else if key = ''rights_status'' then PStr ''approved''
     else PList [PStr key])) (filter (\<lambda>key. key \<noteq> ''id'') REQUIRED_SOURCE_FIELDS) @ [(''id'', PStr ''rss'')])"

definition sample_retention :: pyval where
  "sample_retention = PDict [(''stores'', PList (map (\<lambda>name. PDict [(''store'', PStr name), (''classification'', PStr ''internal''), (''retention_days'', PInt 30),
     (''deletion_action'', PStr ''delete''), (''backup_retention_days'', PInt 7), (''owner'', PStr ''ops'')]) REQUIRED_STORES)),
     (''subprocessors_required_before_launch'', PBool True)]"

theorem governance_accepted_witness:
  "check_governance (Inr (PDict [(''sources'', PList [sample_origin])])) (Inr sample_retention) = Inr 0 \<and> sources_ok [sample_origin] []"
proof -
  have c: "check_governance (Inr (PDict [(''sources'', PList [sample_origin])])) (Inr sample_retention) = Inr 0" by code_simp
  from governance_accepted [OF c] c show ?thesis by (auto simp: dict_get_or_def py_iter_def)
qed

end
