(* ===== verification/GraphQuery.thy ===== *)
theory GraphQuery
  imports Evidence
begin

text \<open>
  \<open>services/graph-query/app.py\<close>: the read-only HTTP service over the graph.  What the database answers
  is a parameter.  What is shown: that every query about data carries the tenant of the request, and
  that the graph around an entity is a graph: every relationship joins two of its nodes, and no
  node is returned twice.
\<close>

section \<open>Values of the database\<close>

text \<open>What the driver hands over: besides JSON values the temporal types, which know their ISO text;
  nodes, relationships and maps have items.\<close>

datatype graph_value =
    GVal pyval
  | GTime string
  | GList "graph_value list"
  | GItems "(string \<times> graph_value) list"

fun serialize :: "graph_value \<Rightarrow> pyval" where
  "serialize (GItems d) = PDict (map (\<lambda>kv. (fst kv, serialize (snd kv))) d)"
| "serialize (GList vs) = PList (map serialize vs)"
| "serialize (GTime t) = PStr t"
| "serialize (GVal v) = v"

type_synonym row = "(string \<times> graph_value) list"

text \<open>The answer to the n-th query of a request.\<close>

type_synonym database = "nat \<Rightarrow> string \<Rightarrow> pydict \<Rightarrow> row list res"

definition records :: "database \<Rightarrow> nat \<Rightarrow> string \<Rightarrow> pydict \<Rightarrow> pyval list res" where
  "records db n query parameters = res_bind (db n query parameters) (\<lambda>rows. Inr (map (\<lambda>r. serialize (GItems r)) rows))"

section \<open>Parameters\<close>

text \<open>What the framework checks before a handler runs; a violation is answered with 422.\<close>

definition in_limits :: "nat \<Rightarrow> string \<Rightarrow> bool" where
  "in_limits n s = (s \<noteq> [] \<and> length s \<le> n)"

definition limit_error :: "bool \<Rightarrow> unit res" where
  "limit_error ok = res_guard ok (Exn HTTPException ''422'')"

record path_request =
  pr_tenant_id :: string
  pr_from_id :: string
  pr_to_id :: string
  pr_max_depth :: int

definition path_request_ok :: "path_request \<Rightarrow> bool" where
  "path_request_ok r = (in_limits 128 (pr_tenant_id r) \<and> in_limits 256 (pr_from_id r) \<and> in_limits 256 (pr_to_id r)
     \<and> 1 \<le> pr_max_depth r \<and> pr_max_depth r \<le> 6)"

section \<open>Queries\<close>

text \<open>The texts of the queries, without their line breaks.\<close>

definition GRAPH_HEALTH_QUERY :: string where
  "GRAPH_HEALTH_QUERY = ''RETURN '' @ str_repr ''ok'' @ '' AS status''"

definition GRAPH_ENTITY_QUERY :: string where
  "GRAPH_ENTITY_QUERY = ''MATCH (entity:Entity {stable_id: $stable_id}) ''
     @ ''WHERE entity.tenant_id IS NULL OR entity.tenant_id = $tenant_id ''
     @ ''OPTIONAL MATCH (evidence:Evidence)-[:EVIDENCE_FOR]->(entity) ''
     @ ''OPTIONAL MATCH (article:Article)-[mention:MENTIONS]->(entity) ''
     @ ''RETURN properties(entity) AS entity, collect(DISTINCT properties(evidence))[0..50] AS evidence, ''
     @ ''collect(DISTINCT {article: properties(article), relationship: properties(mention)})[0..50] AS mentions''"

definition TIMELINE_QUERY :: string where
  "TIMELINE_QUERY = ''MATCH (entity:Entity {stable_id: $stable_id}) ''
     @ ''WHERE entity.tenant_id IS NULL OR entity.tenant_id = $tenant_id MATCH (related)-[relationship]-(entity) ''
     @ ''WHERE (related.tenant_id IS NULL OR related.tenant_id = $tenant_id) ''
     @ ''RETURN properties(related) AS related, type(relationship) AS relationship_type, ''
     @ ''properties(relationship) AS relationship, coalesce(relationship.observed_at, related.observed_at) AS observed_at ''
     @ ''ORDER BY observed_at DESC LIMIT $limit''"

definition NEIGHBOURS_QUERY :: string where
  "NEIGHBOURS_QUERY = ''MATCH (root:Entity {stable_id: $stable_id}) ''
     @ ''WHERE root.tenant_id IS NULL OR root.tenant_id = $tenant_id MATCH (root)-[relationship]-(neighbor) ''
     @ ''WHERE (neighbor.tenant_id IS NULL OR neighbor.tenant_id = $tenant_id) ''
     @ ''AND coalesce(relationship.confidence, 1.0) >= $min_confidence ''
     @ ''RETURN properties(root) AS root, type(relationship) AS relationship_type, properties(relationship) AS relationship, ''
     @ ''properties(neighbor) AS neighbor, startNode(relationship).stable_id AS source, endNode(relationship).stable_id AS target ''
     @ ''LIMIT $limit''"

definition path_query :: "int \<Rightarrow> string" where
  "path_query depth = ''MATCH (source {stable_id: $from_id}), (target {stable_id: $to_id}) ''
     @ ''WHERE (source.tenant_id IS NULL OR source.tenant_id = $tenant_id) ''
     @ ''AND (target.tenant_id IS NULL OR target.tenant_id = $tenant_id) ''
     @ ''MATCH path = shortestPath((source)-[*..'' @ show_int depth @ '']-(target)) ''
     @ ''WHERE all(node IN nodes(path) WHERE node.tenant_id IS NULL OR node.tenant_id = $tenant_id) ''
     @ ''RETURN [node IN nodes(path) | {labels: labels(node), properties: properties(node)}] AS nodes, ''
     @ ''[relationship IN relationships(path) | {type: type(relationship), properties: properties(relationship)}] AS relationships ''
     @ ''LIMIT 5''"

section \<open>Endpoints\<close>

definition graph_healthz :: "database \<Rightarrow> pyval res" where
  "graph_healthz db = res_bind (records db 0 GRAPH_HEALTH_QUERY []) (\<lambda>rows. case rows of
     [] \<Rightarrow> Inl (Exn IndexError ''list index out of range'')
   | row # _ \<Rightarrow> res_bind (field row ''status'') (\<lambda>s. Inr (PDict [(''status'', s), (''version'', PStr ''1.0.0'')])))"

text \<open>The n-th query of a request asks for the entity.\<close>

definition entity :: "database \<Rightarrow> nat \<Rightarrow> string \<Rightarrow> string \<Rightarrow> pyval res" where
  "entity db n stable_id tenant_id =
     res_bind (records db n GRAPH_ENTITY_QUERY [(''stable_id'', PStr stable_id), (''tenant_id'', PStr tenant_id)]) (\<lambda>rows. case rows of
       [] \<Rightarrow> Inl (Exn HTTPException ''404: entity_not_found'')
     | row # _ \<Rightarrow> res_bind (field row ''entity'') (\<lambda>e. res_bind (field row ''evidence'') (\<lambda>evidence.
         res_bind (field row ''mentions'') (\<lambda>mentions.
           res_bind (py_or_dict e [(''evidence'', evidence), (''mentions'', mentions)]) (\<lambda>d. Inr (PDict d))))))"

definition get_entity :: "database \<Rightarrow> string \<Rightarrow> string \<Rightarrow> pyval res" where
  "get_entity db stable_id tenant_id = res_bind (limit_error (in_limits 128 tenant_id)) (\<lambda>_. entity db 0 stable_id tenant_id)"

definition entity_timeline :: "database \<Rightarrow> string \<Rightarrow> string \<Rightarrow> int \<Rightarrow> pyval res" where
  "entity_timeline db stable_id tenant_id limit =
     res_bind (limit_error (in_limits 128 tenant_id \<and> 1 \<le> limit \<and> limit \<le> 250)) (\<lambda>_.
     res_bind (records db 0 TIMELINE_QUERY [(''stable_id'', PStr stable_id), (''tenant_id'', PStr tenant_id), (''limit'', PInt limit)]) (\<lambda>rows.
       Inr (PDict [(''entity_id'', PStr stable_id), (''items'', PList rows)])))"

text \<open>A dictionary whose keys may be any hashable values.\<close>

type_synonym node_map = "(pyval \<times> pyval) list"

fun set_node :: "pyval \<Rightarrow> pyval \<Rightarrow> node_map \<Rightarrow> node_map" where
  "set_node k v [] = [(k, v)]"
| "set_node k v ((j, w) # rest) = (if py_eq j k then (j, v) # rest else (j, w) # set_node k v rest)"

definition add_node :: "pyval \<Rightarrow> node_map \<Rightarrow> node_map res" where
  "add_node node nodes = res_bind (field node ''stable_id'') (\<lambda>k. res_bind (hashed k) (\<lambda>k. Inr (set_node k node nodes)))"

definition relationship_of :: "nat \<Rightarrow> pyval \<Rightarrow> pyval res" where
  "relationship_of index row =
     res_bind (field row ''relationship'') (\<lambda>properties.
     res_bind (py_get properties ''stable_id'' (PStr (''relationship:'' @ show_nat index))) (\<lambda>i.
     res_bind (field row ''relationship_type'') (\<lambda>t.
     res_bind (field row ''source'') (\<lambda>s.
     res_bind (field row ''target'') (\<lambda>e.
     res_bind (py_or_dict properties [(''stable_id'', i), (''type'', t), (''source'', s), (''target'', e)]) (\<lambda>d. Inr (PDict d)))))))"

fun collect_rows :: "nat \<Rightarrow> pyval list \<Rightarrow> node_map \<Rightarrow> (node_map \<times> pyval list) res" where
  "collect_rows index [] nodes = Inr (nodes, [])"
| "collect_rows index (row # rows) nodes =
     res_bind (field row ''root'') (\<lambda>root_node.
     res_bind (field row ''neighbor'') (\<lambda>neighbor.
     res_bind (add_node root_node nodes) (\<lambda>nodes1.
     res_bind (add_node neighbor nodes1) (\<lambda>nodes2.
     res_bind (relationship_of index row) (\<lambda>relationship.
     res_bind (collect_rows (Suc index) rows nodes2) (\<lambda>(nodes3, relationships). Inr (nodes3, relationship # relationships)))))))"

definition graph_answer :: "pyval list \<Rightarrow> pyval list \<Rightarrow> bool \<Rightarrow> pyval" where
  "graph_answer nodes relationships truncated =
     PDict [(''nodes'', PList nodes), (''relationships'', PList relationships), (''truncated'', PBool truncated)]"

definition entity_graph :: "database \<Rightarrow> string \<Rightarrow> string \<Rightarrow> int \<Rightarrow> pyfloat \<Rightarrow> pyval res" where
  "entity_graph db stable_id tenant_id limit min_confidence =
     res_bind (limit_error (in_limits 128 tenant_id \<and> 1 \<le> limit \<and> limit \<le> 250
         \<and> fl_le (Fin 0) min_confidence \<and> fl_le min_confidence (Fin 1))) (\<lambda>_.
     res_bind (records db 0 NEIGHBOURS_QUERY [(''stable_id'', PStr stable_id), (''tenant_id'', PStr tenant_id), (''limit'', PInt limit),
         (''min_confidence'', PFloat min_confidence)]) (\<lambda>rows.
       if rows = [] then res_bind (entity db 1 stable_id tenant_id) (\<lambda>root_node. Inr (graph_answer [root_node] [] False))
       else res_bind (collect_rows 0 rows []) (\<lambda>(nodes, relationships).
         Inr (graph_answer (map snd nodes) relationships (int (length rows) = limit)))))"

definition find_paths :: "database \<Rightarrow> path_request \<Rightarrow> pyval res" where
  "find_paths db request =
     res_bind (limit_error (path_request_ok request)) (\<lambda>_.
     res_bind (records db 0 (path_query (pr_max_depth request)) [(''from_id'', PStr (pr_from_id request)), (''to_id'', PStr (pr_to_id request)),
         (''tenant_id'', PStr (pr_tenant_id request))]) (\<lambda>rows.
       Inr (PDict [(''from_id'', PStr (pr_from_id request)), (''to_id'', PStr (pr_to_id request)), (''paths'', PList rows)])))"

section \<open>The answer is a graph\<close>

text \<open>The identifier of a node; a row as the query promises it: the relationship joins the entity and the
  neighbour, in either direction.\<close>

definition node_id :: "pyval \<Rightarrow> string option" where
  "node_id v = (case field v ''stable_id'' of Inr (PStr s) \<Rightarrow> Some s | _ \<Rightarrow> None)"

definition row_joins :: "pyval \<Rightarrow> bool" where
  "row_joins row \<longleftrightarrow> (\<exists>r n a b s t. field row ''root'' = Inr r \<and> field row ''neighbor'' = Inr n \<and> node_id r = Some a \<and> node_id n = Some b
     \<and> field row ''source'' = Inr (PStr s) \<and> field row ''target'' = Inr (PStr t) \<and> {s, t} \<subseteq> {a, b})"

definition nodes_ok :: "node_map \<Rightarrow> bool" where
  "nodes_ok nodes \<longleftrightarrow> distinct (map fst nodes) \<and> (\<forall>(k, v)\<in>set nodes. \<exists>s. k = PStr s \<and> node_id v = Some s)"

definition known_ids :: "node_map \<Rightarrow> string set" where
  "known_ids nodes = {s. PStr s \<in> fst ` set nodes}"

lemma node_id_field: "node_id v = Some s \<longleftrightarrow> field v ''stable_id'' = Inr (PStr s)"
  by (auto simp: node_id_def split: sum.splits pyval.splits)

lemma set_node_keys: "fst ` set (set_node (PStr s) v nodes) = insert (PStr s) (fst ` set nodes)"
proof (induction nodes)
  case (Cons e nodes)
  obtain a b where e: "e = (a, b)" by force
  show ?case using Cons by (cases "a = PStr s") (simp_all add: e insert_commute)
qed simp

lemma set_node_distinct: "distinct (map fst nodes) \<Longrightarrow> distinct (map fst (set_node (PStr s) v nodes))"
proof (induction nodes)
  case (Cons e nodes)
  then show ?case using set_node_keys [of s v nodes] by (cases e) auto
qed simp

lemma set_node_elements: "(k, w) \<in> set (set_node (PStr s) v nodes) \<Longrightarrow> k = PStr s \<and> w = v \<or> (k, w) \<in> set nodes"
  by (induction nodes) (auto split: if_splits)

lemma add_node_ok:
  assumes "nodes_ok nodes" and "node_id v = Some s" and "add_node v nodes = Inr nodes'"
  shows "nodes_ok nodes' \<and> known_ids nodes' = insert s (known_ids nodes)"
proof -
  have n: "nodes' = set_node (PStr s) v nodes" using assms(2,3) by (simp add: add_node_def node_id_field hashed_def hashable_def)
  have "\<forall>(k, w)\<in>set nodes'. \<exists>s. k = PStr s \<and> node_id w = Some s"
    using set_node_elements [of _ _ s v nodes] assms(1,2) unfolding n nodes_ok_def by blast
  then show ?thesis
    using assms(1) set_node_distinct [of nodes s v] set_node_keys [of s v nodes] unfolding n nodes_ok_def known_ids_def by auto
qed

lemma py_or_dict_Inr: "py_or_dict v d = Inr e \<longleftrightarrow> (\<exists>a. v = PDict a \<and> e = dict_merge a d)"
  by (auto simp: py_or_dict_def split: pyval.splits)

lemma relationship_of_ends:
  assumes "relationship_of i row = Inr rel" and "field row ''source'' = Inr s" and "field row ''target'' = Inr t"
  shows "field rel ''source'' = Inr s \<and> field rel ''target'' = Inr t"
proof -
  obtain d i' ty where d: "rel = PDict (dict_merge d [(''stable_id'', i'), (''type'', ty), (''source'', s), (''target'', t)])"
    using assms by (auto simp: relationship_of_def res_simps py_or_dict_Inr)
  show ?thesis unfolding d by (simp add: dict_merge_Cons)
qed

lemma collect_rows_ok:
  "collect_rows i rows nodes = Inr (nodes', rels) \<Longrightarrow> nodes_ok nodes \<Longrightarrow> \<forall>row\<in>set rows. row_joins row \<Longrightarrow>
   nodes_ok nodes' \<and> known_ids nodes \<subseteq> known_ids nodes' \<and> length rels = length rows
   \<and> (\<forall>rel\<in>set rels. \<exists>s t. field rel ''source'' = Inr (PStr s) \<and> field rel ''target'' = Inr (PStr t) \<and> {s, t} \<subseteq> known_ids nodes')"
proof (induction i rows nodes arbitrary: nodes' rels rule: collect_rows.induct)
  case (2 i row rows nodes)
  obtain r n nodes1 nodes2 rel rels1 where h: "field row ''root'' = Inr r" "field row ''neighbor'' = Inr n" "add_node r nodes = Inr nodes1"
    "add_node n nodes1 = Inr nodes2" "relationship_of i row = Inr rel" "collect_rows (Suc i) rows nodes2 = Inr (nodes', rels1)" "rels = rel # rels1"
    using 2(2) by (auto simp: res_simps)
  obtain a b s t where j: "node_id r = Some a" "node_id n = Some b" "field row ''source'' = Inr (PStr s)" "field row ''target'' = Inr (PStr t)"
    "{s, t} \<subseteq> {a, b}"
    using 2(4) h(1,2) by (auto simp: row_joins_def)
  have 1: "nodes_ok nodes1" "known_ids nodes1 = insert a (known_ids nodes)" using add_node_ok [OF 2(3) j(1) h(3)] by auto
  have 3: "nodes_ok nodes2" "known_ids nodes2 = insert b (known_ids nodes1)" using add_node_ok [OF 1(1) j(2) h(4)] by auto
  have "\<forall>row\<in>set rows. row_joins row" using 2(4) by simp
  from 2(1) [OF h(1-5) h(6) 3(1) this]
  have ih: "nodes_ok nodes'" "known_ids nodes2 \<subseteq> known_ids nodes'" "length rels1 = length rows"
    "\<forall>rel\<in>set rels1. \<exists>s t. field rel ''source'' = Inr (PStr s) \<and> field rel ''target'' = Inr (PStr t) \<and> {s, t} \<subseteq> known_ids nodes'"
    by blast+
  have "{s, t} \<subseteq> known_ids nodes'" using j(5) 1(2) 3(2) ih(2) by blast
  then have "\<exists>s t. field rel ''source'' = Inr (PStr s) \<and> field rel ''target'' = Inr (PStr t) \<and> {s, t} \<subseteq> known_ids nodes'"
    using relationship_of_ends [OF h(5) j(3,4)] by blast
  then show ?case using ih 1(2) 3(2) h(7) by auto
qed simp

text \<open>C19. The graph around an entity is a graph: when every row joins the entity and a neighbour, as the
  query says, then no two nodes of the answer have the same identifier, there is one relationship
  for each row, and both ends of every relationship are nodes of the answer; the answer is marked
  as truncated exactly when there are as many rows as were asked for.\<close>

theorem entity_graph_closed:
  assumes "entity_graph db i t limit c = Inr answer"
    and "records db 0 NEIGHBOURS_QUERY [(''stable_id'', PStr i), (''tenant_id'', PStr t), (''limit'', PInt limit), (''min_confidence'', PFloat c)] = Inr rows"
    and "rows \<noteq> []" and "\<forall>row\<in>set rows. row_joins row"
  shows "\<exists>nodes rels. answer = graph_answer nodes rels (int (length rows) = limit) \<and> length rels = length rows
    \<and> distinct (map node_id nodes) \<and> None \<notin> node_id ` set nodes
    \<and> (\<forall>rel\<in>set rels. \<exists>s e. field rel ''source'' = Inr (PStr s) \<and> field rel ''target'' = Inr (PStr e)
         \<and> Some s \<in> node_id ` set nodes \<and> Some e \<in> node_id ` set nodes)"
proof -
  obtain nodes rels where c: "collect_rows 0 rows [] = Inr (nodes, rels)" and a: "answer = graph_answer (map snd nodes) rels (int (length rows) = limit)"
    using assms(1,3) unfolding entity_graph_def assms(2) res_bind.simps if_not_P [OF assms(3)] res_bind_Inr_iff by auto
  have "nodes_ok []" by (simp add: nodes_ok_def)
  note g = collect_rows_ok [OF c this assms(4)]
  then have ok: "nodes_ok nodes" by (elim conjE)
  have ids: "map node_id (map snd nodes) = map (\<lambda>k. as_str k) (map fst nodes)"
    using ok by (auto simp: nodes_ok_def)
  have "\<forall>k\<in>set (map fst nodes). \<exists>s. k = PStr s" using ok by (auto simp: nodes_ok_def)
  then have "inj_on as_str (set (map fst nodes))" 
  proof (intro inj_onI)
    fix x y
    assume k: "\<forall>k\<in>set (map fst nodes). \<exists>s. k = PStr s" "x \<in> set (map fst nodes)" "y \<in> set (map fst nodes)" "as_str x = as_str y"
    obtain s s' where "x = PStr s" "y = PStr s'" using k(1-3) by blast
    then show "x = y" using k(4) by simp
  qed
  then have d: "distinct (map node_id (map snd nodes))" unfolding ids distinct_map [of as_str] using ok by (simp add: nodes_ok_def)
  have n: "None \<notin> node_id ` set (map snd nodes)" using ok by (fastforce simp: nodes_ok_def)
  have known: "Some s \<in> node_id ` set (map snd nodes)" if s: "s \<in> known_ids nodes" for s
  proof -
    obtain v where v: "(PStr s, v) \<in> set nodes" using s by (auto simp: known_ids_def)
    then have "node_id v = Some s" using ok by (auto simp: nodes_ok_def)
    moreover have "v \<in> set (map snd nodes)" using v by force
    ultimately show ?thesis by (metis imageI)
  qed
  have ends: "\<forall>rel\<in>set rels. \<exists>s e. field rel ''source'' = Inr (PStr s) \<and> field rel ''target'' = Inr (PStr e)
      \<and> {s, e} \<subseteq> known_ids nodes"
    using g by (elim conjE)
  have "\<exists>s e. field rel ''source'' = Inr (PStr s) \<and> field rel ''target'' = Inr (PStr e)
      \<and> Some s \<in> node_id ` set (map snd nodes) \<and> Some e \<in> node_id ` set (map snd nodes)" if r: "rel \<in> set rels" for rel
  proof -
    from bspec [OF ends r] obtain s e where "field rel ''source'' = Inr (PStr s)" "field rel ''target'' = Inr (PStr e)"
      "{s, e} \<subseteq> known_ids nodes"
      by (elim exE conjE)
    then show ?thesis using known [of s] known [of e] by (intro exI [of _ s] exI [of _ e]) simp
  qed
  moreover have "length rels = length rows" using g by (elim conjE)
  ultimately show ?thesis using a d n by (intro exI [of _ "map snd nodes"] exI [of _ rels] conjI) simp_all
qed

section \<open>Queries carry the tenant\<close>

text \<open>A query for a tenant: the tenant is its parameter, and its text restricts each of the variables
  given to nodes of this tenant or of none.\<close>

definition tenant_condition :: "string \<Rightarrow> string" where
  "tenant_condition v = v @ ''.tenant_id IS NULL OR '' @ v @ ''.tenant_id = $tenant_id''"

definition scoped_query :: "string \<Rightarrow> string list \<Rightarrow> string \<Rightarrow> pydict \<Rightarrow> bool" where
  "scoped_query t vars query parameters \<longleftrightarrow> t \<noteq> [] \<and> length t \<le> 128 \<and> dict_get parameters ''tenant_id'' = Some (PStr t)
     \<and> list_all (\<lambda>v. contains query (tenant_condition v)) vars"

text \<open>What an endpoint answers depends on nothing but the answers to certain queries.\<close>

definition depends_on :: "(string \<Rightarrow> pydict \<Rightarrow> bool) \<Rightarrow> (database \<Rightarrow> 'a) \<Rightarrow> bool" where
  "depends_on P f \<longleftrightarrow> (\<forall>db db'. (\<forall>n q ps. P q ps \<longrightarrow> db n q ps = db' n q ps) \<longrightarrow> f db = f db')"

lemma depends_records: "(\<And>n. P q ps) \<Longrightarrow> depends_on P (\<lambda>db. records db n q ps)"
  by (auto simp: depends_on_def records_def)

lemma depends_const: "depends_on P (\<lambda>db. x)"
  by (simp add: depends_on_def)

lemma depends_bind: "depends_on P f \<Longrightarrow> (\<And>x. depends_on P (\<lambda>db. g db x)) \<Longrightarrow> depends_on P (\<lambda>db. res_bind (f db) (g db))"
  unfolding depends_on_def by (metis ext)

lemma depends_limit: "(ok \<Longrightarrow> depends_on P f) \<Longrightarrow> depends_on P (\<lambda>db. res_bind (limit_error ok) (\<lambda>_. f db))"
  by (cases ok) (simp_all add: limit_error_def res_guard_def depends_const)

lemma conditions_in_lines:
  "contains ''WHERE entity.tenant_id IS NULL OR entity.tenant_id = $tenant_id '' (tenant_condition ''entity'')"
  "contains ''WHERE entity.tenant_id IS NULL OR entity.tenant_id = $tenant_id MATCH (related)-[relationship]-(entity) '' (tenant_condition ''entity'')"
  "contains ''WHERE (related.tenant_id IS NULL OR related.tenant_id = $tenant_id) '' (tenant_condition ''related'')"
  "contains ''WHERE root.tenant_id IS NULL OR root.tenant_id = $tenant_id MATCH (root)-[relationship]-(neighbor) '' (tenant_condition ''root'')"
  "contains ''WHERE (neighbor.tenant_id IS NULL OR neighbor.tenant_id = $tenant_id) '' (tenant_condition ''neighbor'')"
  "contains ''WHERE (source.tenant_id IS NULL OR source.tenant_id = $tenant_id) '' (tenant_condition ''source'')"
  "contains ''AND (target.tenant_id IS NULL OR target.tenant_id = $tenant_id) '' (tenant_condition ''target'')"
  "contains ''WHERE all(node IN nodes(path) WHERE node.tenant_id IS NULL OR node.tenant_id = $tenant_id) '' (tenant_condition ''node'')"
  by code_simp+

lemma contains_first: "contains a p \<Longrightarrow> contains (a @ b) p"
  by (rule contains_join) simp

lemma contains_later: "contains b p \<Longrightarrow> contains (a @ b) p"
  by (rule contains_join) simp

lemmas in_line = conditions_in_lines [THEN contains_first]

lemma queries_filter:
  "list_all (\<lambda>v. contains GRAPH_ENTITY_QUERY (tenant_condition v)) [''entity'']"
  "list_all (\<lambda>v. contains TIMELINE_QUERY (tenant_condition v)) [''entity'', ''related'']"
  "list_all (\<lambda>v. contains NEIGHBOURS_QUERY (tenant_condition v)) [''root'', ''neighbor'']"
  "list_all (\<lambda>v. contains (path_query depth) (tenant_condition v)) [''source'', ''target'', ''node'']"
  by (simp_all only: GRAPH_ENTITY_QUERY_def TIMELINE_QUERY_def NEIGHBOURS_QUERY_def path_query_def list.pred_inject simp_thms)
    ((intro conjI)?; (rule in_line | rule contains_later)+)+

lemma entity_depends:
  "t \<noteq> [] \<Longrightarrow> length t \<le> 128 \<Longrightarrow> depends_on (scoped_query t [''entity'']) (\<lambda>db. entity db n i t)"
  unfolding entity_def by (intro depends_bind depends_records depends_const) (use queries_filter(1) in \<open>simp add: scoped_query_def\<close>)

lemma depends_weaken: "depends_on P f \<Longrightarrow> (\<And>q ps. P q ps \<Longrightarrow> Q q ps) \<Longrightarrow> depends_on Q f"
  unfolding depends_on_def by blast

text \<open>C33. Reads of the graph stay with the tenant.  What an endpoint answers is determined by the answers to
  queries that have the tenant of the request, of 1 to 128 characters, as their parameter and
  whose text restricts the nodes matched to this tenant or to none: the entity; the entity and
  the nodes around it; both ends and every node of a path.  A request outside the limits is
  refused with 422 whatever the database holds.\<close>

theorem graph_reads_scoped:
  "depends_on (scoped_query t [''entity'']) (\<lambda>db. get_entity db i t)
   \<and> depends_on (scoped_query t [''entity'', ''related'']) (\<lambda>db. entity_timeline db i t limit)
   \<and> depends_on (\<lambda>q ps. scoped_query t [''root'', ''neighbor''] q ps \<or> scoped_query t [''entity''] q ps) (\<lambda>db. entity_graph db i t limit c)
   \<and> depends_on (scoped_query (pr_tenant_id r) [''source'', ''target'', ''node'']) (\<lambda>db. find_paths db r)
   \<and> (t = [] \<or> 128 < length t \<longrightarrow> get_entity db i t = Inl (Exn HTTPException ''422''))
   \<and> (t = [] \<or> 128 < length t \<or> limit < 1 \<or> 250 < limit \<longrightarrow>
        entity_timeline db i t limit = Inl (Exn HTTPException ''422'') \<and> entity_graph db i t limit c = Inl (Exn HTTPException ''422''))
   \<and> (\<not> (fl_le (Fin 0) c \<and> fl_le c (Fin 1)) \<longrightarrow> entity_graph db i t limit c = Inl (Exn HTTPException ''422''))
   \<and> (list_ex (\<lambda>(n, s). s = [] \<or> n < length s) [(128, pr_tenant_id r), (256, pr_from_id r), (256, pr_to_id r)]
        \<or> pr_max_depth r < 1 \<or> 6 < pr_max_depth r \<longrightarrow> find_paths db r = Inl (Exn HTTPException ''422''))"
proof (intro conjI)
  show "depends_on (scoped_query t [''entity'']) (\<lambda>db. get_entity db i t)"
    unfolding get_entity_def by (intro depends_limit entity_depends) (simp_all add: in_limits_def)
  show "depends_on (scoped_query t [''entity'', ''related'']) (\<lambda>db. entity_timeline db i t limit)"
    unfolding entity_timeline_def using queries_filter(2)
    by (intro depends_limit depends_bind depends_records depends_const) (simp add: scoped_query_def in_limits_def)
  show "depends_on (\<lambda>q ps. scoped_query t [''root'', ''neighbor''] q ps \<or> scoped_query t [''entity''] q ps) (\<lambda>db. entity_graph db i t limit c)"
    unfolding entity_graph_def
  proof (rule depends_limit, rule depends_bind)
    assume "in_limits 128 t \<and> 1 \<le> limit \<and> limit \<le> 250 \<and> fl_le (Fin 0) c \<and> fl_le c (Fin 1)"
    then have t: "t \<noteq> []" "length t \<le> 128" by (simp_all add: in_limits_def)
    show "depends_on (\<lambda>q ps. scoped_query t [''root'', ''neighbor''] q ps \<or> scoped_query t [''entity''] q ps)
       (\<lambda>db. records db 0 NEIGHBOURS_QUERY [(''stable_id'', PStr i), (''tenant_id'', PStr t), (''limit'', PInt limit),
         (''min_confidence'', PFloat c)])"
      using t queries_filter(3) by (intro depends_records) (simp add: scoped_query_def)
    have "depends_on (\<lambda>q ps. scoped_query t [''root'', ''neighbor''] q ps \<or> scoped_query t [''entity''] q ps) (\<lambda>db. entity db 1 i t)"
      by (rule depends_weaken [OF entity_depends [OF t]]) blast
    then show "depends_on (\<lambda>q ps. scoped_query t [''root'', ''neighbor''] q ps \<or> scoped_query t [''entity''] q ps)
       (\<lambda>db. if rows = [] then res_bind (entity db 1 i t) (\<lambda>root_node. Inr (graph_answer [root_node] [] False))
       else res_bind (collect_rows 0 rows []) (\<lambda>(nodes, relationships).
         Inr (graph_answer (map snd nodes) relationships (int (length rows) = limit))))" for rows
      by (cases "rows = []") (simp_all add: depends_bind depends_const)
  qed
  show "depends_on (scoped_query (pr_tenant_id r) [''source'', ''target'', ''node'']) (\<lambda>db. find_paths db r)"
    unfolding find_paths_def using queries_filter(4) [of "pr_max_depth r"]
    by (intro depends_limit depends_bind depends_records depends_const) (simp add: scoped_query_def path_request_ok_def in_limits_def)
qed (auto simp: get_entity_def entity_timeline_def entity_graph_def find_paths_def limit_error_def res_guard_def in_limits_def path_request_ok_def)

section \<open>Examples\<close>

definition sample_node :: "string \<Rightarrow> graph_value" where
  "sample_node i = GItems [(''stable_id'', GVal (PStr i)), (''observed_at'', GTime ''2026-07-14T00:00:00Z'')]"

definition sample_row :: "string \<Rightarrow> row" where
  "sample_row i = [(''root'', sample_node ''acme''), (''neighbor'', sample_node i), (''relationship'', GItems [(''confidence'', GVal (PInt 1))]),
     (''relationship_type'', GVal (PStr ''MENTIONS'')), (''source'', GVal (PStr i)), (''target'', GVal (PStr ''acme''))]"

text \<open>A database of one tenant with an entity and two neighbours.\<close>

definition sample_database :: database where
  "sample_database n query parameters =
     (if dict_get parameters ''tenant_id'' = Some (PStr ''t1'') then Inr [sample_row ''doc1'', sample_row ''doc2''] else Inr [])"

definition sample_rows :: "pyval list" where
  "sample_rows = map (\<lambda>i. serialize (GItems (sample_row i))) [''doc1'', ''doc2'']"

lemma sample_answer:
  "is_ok (entity_graph sample_database ''acme'' ''t1'' 100 (Fin 0))"
  "records sample_database 0 NEIGHBOURS_QUERY [(''stable_id'', PStr ''acme''), (''tenant_id'', PStr ''t1''), (''limit'', PInt 100),
     (''min_confidence'', PFloat (Fin 0))] = Inr sample_rows"
  by code_simp+

lemma sample_rows_join: "\<forall>row\<in>set sample_rows. row_joins row"
  unfolding row_joins_def sample_rows_def sample_row_def sample_node_def by (simp add: node_id_def)

theorem entity_graph_closed_witness:
  "\<exists>nodes rels. entity_graph sample_database ''acme'' ''t1'' 100 (Fin 0) = Inr (graph_answer nodes rels False) \<and> length rels = 2
     \<and> distinct (map node_id nodes)"
proof -
  obtain answer where a: "entity_graph sample_database ''acme'' ''t1'' 100 (Fin 0) = Inr answer"
    using sample_answer(1) by (auto simp: is_ok_iff)
  have "sample_rows \<noteq> []" "length sample_rows = 2" by (simp_all add: sample_rows_def)
  from entity_graph_closed [OF a sample_answer(2) this(1) sample_rows_join] this(2)
  obtain nodes rels where "answer = graph_answer nodes rels False" "length rels = 2" "distinct (map node_id nodes)" by auto
  then show ?thesis using a by blast
qed

theorem graph_reads_scoped_witness:
  "get_entity sample_database ''acme'' ''t1'' = get_entity (\<lambda>n q ps. if dict_get ps ''tenant_id'' = Some (PStr ''t1'') then
      sample_database n q ps else Inr [sample_row ''secret'']) ''acme'' ''t1''
   \<and> get_entity sample_database ''acme'' [] = Inl (Exn HTTPException ''422'')
   \<and> find_paths sample_database \<lparr>pr_tenant_id = ''t1'', pr_from_id = ''a'', pr_to_id = ''b'', pr_max_depth = 7\<rparr>
      = Inl (Exn HTTPException ''422'')"
proof -
  let ?other = "\<lambda>n q ps. if dict_get ps ''tenant_id'' = Some (PStr ''t1'') then sample_database n q ps else Inr [sample_row ''secret'']"
  have d: "depends_on (scoped_query ''t1'' [''entity'']) (\<lambda>db. get_entity db ''acme'' ''t1'')"
    using graph_reads_scoped by blast
  have "get_entity sample_database ''acme'' ''t1'' = get_entity ?other ''acme'' ''t1''"
    by (rule d [unfolded depends_on_def, rule_format]) (simp add: scoped_query_def)
  moreover have "get_entity sample_database ''acme'' [] = Inl (Exn HTTPException ''422'')"
    using graph_reads_scoped [of "[]"] by simp
  moreover have "find_paths sample_database \<lparr>pr_tenant_id = ''t1'', pr_from_id = ''a'', pr_to_id = ''b'', pr_max_depth = 7\<rparr>
      = Inl (Exn HTTPException ''422'')"
    using graph_reads_scoped [where r = "\<lparr>pr_tenant_id = ''t1'', pr_from_id = ''a'', pr_to_id = ''b'', pr_max_depth = 7\<rparr>"] by simp
  ultimately show ?thesis by blast
qed

end
