(* ===== verification/PublicationGate.thy ===== *)
theory PublicationGate
  imports Evidence
begin

text \<open>
  \<open>scripts/validate_publication_readiness.py\<close>: the gate before the repository becomes public.  It looks
  for fixed texts in the files that state the policy or carry it out.  What is shown: that the gate
  always ends with a verdict, what it says about the sign-in screens, and which trigger it misses.
\<close>

section \<open>Files\<close>

text \<open>The files of the checkout: path and text.\<close>

type_synonym file_tree = "(string \<times> string) list"

definition is_file :: "file_tree \<Rightarrow> string \<Rightarrow> bool" where
  "is_file tree path = (map_of tree path \<noteq> None)"

definition read_file :: "file_tree \<Rightarrow> string \<Rightarrow> string res" where
  "read_file tree path = (case map_of tree path of Some text \<Rightarrow> Inr text
     | None \<Rightarrow> Inl (Exn OSError (''No such file or directory: '' @ path)))"

definition REQUIRED_FILES :: "string list" where
  "REQUIRED_FILES =
      [''README.md'', ''LICENSE'', ''NOTICE'', ''SECURITY.md'', ''CONTRIBUTING.md'', ''CODE_OF_CONDUCT.md'',
       ''SUPPORT.md'', ''CHANGELOG.md'', ''docs/publication-checklist.md'',
       ''docs/repository-history-audit.md'', ''docs/community-self-hosting.md'',
       ''docs/single-server-kubernetes.md'', ''docs/dependency-maintenance.md'', ''.github/dependabot.yml'',
       ''.github/history-audit-denylist.sha256'', ''.github/ISSUE_TEMPLATE/bug_report.md'',
       ''.github/ISSUE_TEMPLATE/feature_request.md'', ''.github/ISSUE_TEMPLATE/config.yml'',
       ''.github/releases/v1.0.0.md'', ''.github/workflows/release.yml'',
       ''.github/workflows/repository-history-audit.yml'', ''scripts/audit_repository_history.py'',
       ''scripts/test_audit_repository_history.py'', ''scripts/single-server/backup.sh'',
       ''scripts/single-server/restore.sh'', ''scripts/single-server/restore-v1.sh'',
       ''scripts/single-server/acceptance.sh'', ''apps/web/src/main.tsx'',
       ''apps/web/src/routes/LoginPage.tsx'', ''apps/mobile/app/index.tsx'',
       ''apps/mobile/lib/session.tsx'']"

section \<open>Checks\<close>

definition readme_failures :: "string \<Rightarrow> string list" where
  "readme_failures text =
     map (\<lambda>m. ''README.md must contain publication marker: '' @ m)
       (absent text [''Apache License 2.0'', ''Community self-hosting'', ''Security and responsible use'',
       ''Publication status''])"

definition security_failures :: "string \<Rightarrow> string list" where
  "security_failures text =
     fail_if (\<not> contains text ''Reporting a vulnerability'' \<or> \<not> contains text ''public issue'')
       ''SECURITY.md must define private vulnerability reporting''"

definition support_failures :: "string \<Rightarrow> string list" where
  "support_failures text =
     fail_if (\<not> contains text ''best-effort'' \<or> \<not> contains (lower text) ''no paid support'')
       ''SUPPORT.md must state the best-effort, non-commercial support scope''"

definition changelog_failures :: "string \<Rightarrow> string list" where
  "changelog_failures text =
     fail_if (\<not> contains text ''## [Unreleased]'' \<or> \<not> contains text ''v1.0.0'')
       ''CHANGELOG.md must contain Unreleased and v1.0.0 semantics''"

definition publication_failures :: "string \<Rightarrow> string list" where
  "publication_failures text =
     map (\<lambda>m. ''publication checklist must cover: '' @ m)
       (filter (\<lambda>m. \<not> contains (lower text) (lower m)) [''complete Git history'', ''private to public'', ''mobile'', ''branch protection'',
       ''dependency-maintenance.md''])"

definition dependency_policy_failures :: "string \<Rightarrow> string list" where
  "dependency_policy_failures text =
     map (\<lambda>m. ''dependency maintenance policy must cover: '' @ m)
       (filter (\<lambda>m. \<not> contains (lower text) (lower m)) [''Security updates remain enabled'', ''Major upgrades'', ''full CI'', ''not auto-merged''])"

definition dependabot_failures :: "string \<Rightarrow> string list" where
  "dependabot_failures text =
     map (\<lambda>m. ''Dependabot release policy must retain control: '' @ m)
       (absent text [''package-ecosystem: npm'', ''package-ecosystem: gomod'', ''package-ecosystem: pip'',
       ''package-ecosystem: bundler'', ''package-ecosystem: github-actions'',
       ''applies-to: security-updates'', ''open-pull-requests-limit: 2'', ''timezone: Europe/Berlin''])
     @ fail_if (contains text ''version-update:semver-major'')
       ''routine Dependabot policy must not automatically propose major version updates''"

definition history_audit_failures :: "string \<Rightarrow> string list" where
  "history_audit_failures text =
     map (\<lambda>m. ''repository history audit guide must cover: '' @ m)
       (filter (\<lambda>m. \<not> contains (lower text) (lower m)) [''complete Git history'', ''Gitleaks'', ''hashed'', ''private to public''])"

definition history_workflow_failures :: "string \<Rightarrow> string list" where
  "history_workflow_failures text =
     map (\<lambda>m. ''history audit workflow must retain control: '' @ m)
       (absent text [''fetch-depth: 0'', ''gitleaks git'', ''audit_repository_history.py'', ''upload-artifact''])"

definition single_server_failures :: "string \<Rightarrow> string list" where
  "single_server_failures text =
     map (\<lambda>m. ''single-server Kubernetes guide must cover: '' @ m)
       (filter (\<lambda>m. \<not> contains (lower text) (lower m)) [''single-owner'', ''k3s'', ''backup.sh'', ''restore.sh'', ''acceptance.sh'', ''mobile''])"

definition backup_failures :: "string \<Rightarrow> string list" where
  "backup_failures text =
     map (\<lambda>m. ''single-server backup must retain control: '' @ m)
       (absent text [''runtime.env.age'', ''pg_dump'', ''neo4j-admin database dump neo4j'',
       ''neo4j-admin database dump system'', ''minio.tar'', ''application_quiesced'', ''SHA256SUMS''])"

definition restore_entrypoint_failures :: "string \<Rightarrow> string list" where
  "restore_entrypoint_failures text =
     fail_if (\<not> contains text ''restore-v1.sh'')
       ''single-server restore entrypoint must dispatch to restore-v1.sh''"

definition restore_failures :: "string \<Rightarrow> string list" where
  "restore_failures text =
     map (\<lambda>m. ''single-server restore must retain control: '' @ m)
       (absent text [''sha256sum -c'', ''pg_restore'', ''neo4j-admin database load system'',
       ''neo4j-admin database load neo4j'', ''neo4j-system.dump'', ''application_quiesced'', ''--yes''])"

definition acceptance_failures :: "string \<Rightarrow> string list" where
  "acceptance_failures text =
     map (\<lambda>m. ''single-server acceptance must retain control: '' @ m)
       (absent text [''signalchord-feed-collector'', ''/api/v1/sources'', ''/api/v1/watchlists'', ''/api/v1/alerts''])"

definition web_screen_failures :: "string \<Rightarrow> string list" where
  "web_screen_failures text =
     map (\<lambda>m. ''web sign-in must not prefill development credential: '' @ m)
       (occurring text [''useState(\"analyst@signalchord.local\")'', ''useState(\"signalchord-demo-password\")''])
     @ map (\<lambda>m. ''web sign-in must retain empty, browser-compatible release input: '' @ m)
       (absent text [''useState(\"\")'', ''autoComplete=\"username\"'', ''autoComplete=\"current-password\"''])"

definition mobile_screen_failures :: "string \<Rightarrow> string list" where
  "mobile_screen_failures text =
     map (\<lambda>m. ''mobile sign-in must not prefill development credential: '' @ m)
       (occurring text [''analyst@signalchord.local'', ''signalchord-demo-password'', ''useState(\"demo\")''])
     @ map (\<lambda>m. ''mobile sign-in must include self-hosted connection behavior: '' @ m)
       (absent text [''Server URL'', ''serverUrl'', ''submitting''])"

definition mobile_session_failures :: "string \<Rightarrow> string list" where
  "mobile_session_failures text =
     map (\<lambda>m. ''mobile session must securely persist and validate server configuration: '' @ m)
       (absent text [''API_URL_KEY'', ''SecureStore'', ''normalizeApiUrl'', ''EXPO_PUBLIC_API_URL''])
     @ fail_if (contains text ''?? \"http://localhost:'' \<or> contains text ''|| \"http://localhost:'')
       ''mobile release code must not silently fall back to localhost''"

definition release_notes_failures :: "string \<Rightarrow> string list" where
  "release_notes_failures text =
     map (\<lambda>m. ''v1.0.0 release notes must cover: '' @ m)
       (absent text [''Included'', ''Supported use'', ''Important limitations'', ''Install'', ''Upgrade and rollback'',
       ''Security''])"

definition release_failures :: "string \<Rightarrow> string list" where
  "release_failures text =
     map (\<lambda>m. ''release workflow must retain publication artifact/control: '' @ m)
       (absent text [''workflow_dispatch:'', ''.github/releases/v1.0.0'', ''Release tag:'', ''Release commit:'',
       ''release-manifest.json'', ''cosign sign'', ''cosign attest'', ''cosign verify-attestation'',
       ''provenance-${{ matrix.name }}.json'', ''image-digests.txt'',
       ''body_path: .github/releases/v1.0.0.md''])
     @ map (\<lambda>m. ''release workflow contains unsupported release control: '' @ m)
       (occurring text [''attest-build-provenance'', ''attestations: write''])
     @ fail_if (list_ex (\<lambda>line. line = ''    tags:'') (splitlines text))
       ''release workflow must not use a tag push trigger that duplicates marker publication''"

definition issue_config_failures :: "string \<Rightarrow> string list" where
  "issue_config_failures text =
     fail_if (\<not> contains text ''security/advisories/new'' \<or> \<not> contains text ''blank_issues_enabled: false'')
       ''issue routing must direct security reports privately and disable blank issues''"

section \<open>The gate\<close>

definition publication_checks :: "(string \<times> (string \<Rightarrow> string list)) list" where
  "publication_checks =
     [(''README.md'', readme_failures),
      (''SECURITY.md'', security_failures),
      (''SUPPORT.md'', support_failures),
      (''CHANGELOG.md'', changelog_failures),
      (''docs/publication-checklist.md'', publication_failures),
      (''docs/dependency-maintenance.md'', dependency_policy_failures),
      (''.github/dependabot.yml'', dependabot_failures),
      (''docs/repository-history-audit.md'', history_audit_failures),
      (''.github/workflows/repository-history-audit.yml'', history_workflow_failures),
      (''docs/single-server-kubernetes.md'', single_server_failures),
      (''scripts/single-server/backup.sh'', backup_failures),
      (''scripts/single-server/restore.sh'', restore_entrypoint_failures),
      (''scripts/single-server/restore-v1.sh'', restore_failures),
      (''scripts/single-server/acceptance.sh'', acceptance_failures),
      (''apps/web/src/routes/LoginPage.tsx'', web_screen_failures),
      (''apps/mobile/app/index.tsx'', mobile_screen_failures),
      (''apps/mobile/lib/session.tsx'', mobile_session_failures),
      (''.github/releases/v1.0.0.md'', release_notes_failures),
      (''.github/workflows/release.yml'', release_failures),
      (''.github/ISSUE_TEMPLATE/config.yml'', issue_config_failures)]"

definition validate_publication :: "file_tree \<Rightarrow> string list res" where
  "validate_publication tree =
     (let missing = filter (\<lambda>relative. \<not> is_file tree relative) REQUIRED_FILES
      in if missing \<noteq> [] then Inr (map (\<lambda>relative. ''missing required publication file: '' @ relative) missing)
         else res_concat (\<lambda>(path, check). res_bind (read_file tree path) (\<lambda>text. Inr (check text))) publication_checks)"

text \<open>The exit status.\<close>

definition check_publication :: "file_tree \<Rightarrow> nat res" where
  "check_publication tree = res_bind (validate_publication tree) (\<lambda>failures. Inr (exit_code failures))"

section \<open>The verdict\<close>

text \<open>Every file that is checked is among the required ones.\<close>

lemma checked_files_required: "list_all (\<lambda>(path, _). path \<in> set REQUIRED_FILES) publication_checks"
  by (simp add: publication_checks_def REQUIRED_FILES_def)

lemma read_checks:
  assumes "\<forall>(path, _)\<in>set checks. is_file tree path"
  shows "res_concat (\<lambda>(path, check). res_bind (read_file tree path) (\<lambda>text. Inr (check text))) checks
    = Inr (concat (map (\<lambda>(path, check). check (the (map_of tree path))) checks))"
proof -
  have "res_map (\<lambda>(path, check). res_bind (read_file tree path) (\<lambda>text. Inr (check text))) checks
      = Inr (map (\<lambda>(path, check). check (the (map_of tree path))) checks)"
    using assms by (intro res_map_Inr_map) (auto simp: read_file_def is_file_def split: option.splits)
  then show ?thesis by (simp add: res_concat_def)
qed

text \<open>The gate always ends with a verdict, never with an exception: whatever the checkout holds, it is
  accepted or refused, and it is accepted exactly when all required files are there and no check of
  a text finds anything.  The texts are only read after all files were found.\<close>

theorem publication_gate_decides:
  "\<exists>n\<in>{0, 1}. check_publication tree = Inr n \<and> (n = 0 \<longleftrightarrow> (\<forall>path\<in>set REQUIRED_FILES. is_file tree path)
     \<and> (\<forall>(path, check)\<in>set publication_checks. check (the (map_of tree path)) = []))"
proof (cases "\<forall>path\<in>set REQUIRED_FILES. is_file tree path")
  case True
  then have files: "\<forall>(path, _)\<in>set publication_checks. is_file tree path" using checked_files_required by (auto simp: list_all_iff)
  have "filter (\<lambda>relative. \<not> is_file tree relative) REQUIRED_FILES = []" using True by (simp add: filter_empty_conv)
  then have v: "validate_publication tree = Inr (concat (map (\<lambda>(path, check). check (the (map_of tree path))) publication_checks))"
    unfolding validate_publication_def Let_def using read_checks [OF files] by simp
  let ?fs = "concat (map (\<lambda>(path, check). check (the (map_of tree path))) publication_checks)"
  have "?fs = [] \<longleftrightarrow> (\<forall>(path, check)\<in>set publication_checks. check (the (map_of tree path)) = [])" by auto
  moreover have "check_publication tree = Inr (exit_code ?fs)" by (simp add: check_publication_def v)
  moreover have "exit_code ?fs \<in> {0, 1}" by (simp add: exit_code_def)
  ultimately show ?thesis using True by (intro bexI [of _ "exit_code ?fs"] conjI) simp_all
next
  case False
  then have m: "filter (\<lambda>relative. \<not> is_file tree relative) REQUIRED_FILES \<noteq> []" by (auto simp: filter_empty_conv)
  then have "check_publication tree = Inr 1" by (simp add: check_publication_def validate_publication_def Let_def exit_code_def)
  then show ?thesis using False by (intro bexI [of _ 1]) auto
qed

section \<open>A trigger that is missed\<close>

text \<open>The list of tags in one line, as YAML also allows it.\<close>

definition inline_tags :: string where
  "inline_tags = ''    tags: [v*]''"

lemma inline_tags_facts:
  "one_line inline_tags" "inline_tags \<noteq> ''    tags:''" "\<not> contains inline_tags ''attest-build-provenance''" "\<not> contains inline_tags ''attestations: write''"
  by code_simp+

text \<open>A tag trigger written in one line can be added to any accepted release workflow: the check compares
  whole lines with the block form.\<close>

theorem inline_tag_trigger_escapes:
  assumes "release_failures text = []"
  shows "release_failures (inline_tags @ CHR 0x0A # text) = []"
proof -
  have "splitlines (inline_tags @ CHR 0x0A # text) = inline_tags # splitlines text" by (rule splitlines_line [OF inline_tags_facts(1)])
  moreover have "\<not> contains text p \<Longrightarrow> \<not> contains inline_tags p \<Longrightarrow> CHR 0x0A \<notin> set p \<Longrightarrow> \<not> contains (inline_tags @ CHR 0x0A # text) p" for p
    using absent_in_lines [of p inline_tags] by blast
  ultimately show ?thesis
    using assms inline_tags_facts unfolding release_failures_def by (auto simp: contains_after)
qed

end
