(* ===== verification/SingleServerGate.thy ===== *)
theory SingleServerGate
  imports PublicationGate
begin

text \<open>
  \<open>scripts/validate_single_server.py\<close>: the gate on the single-server deployment.  What is shown: what the
  images of an accepted chart are, and that an image in quotes may be the latest one.
\<close>

section \<open>Files\<close>

definition COMMUNITY :: string where
  "COMMUNITY = ''infrastructure/kubernetes/helm/signalchord-community''"

definition APPLICATION_VALUES :: string where
  "APPLICATION_VALUES = ''infrastructure/kubernetes/helm/signalchord/values-single-server.yaml''"

definition in_community :: "string \<Rightarrow> string" where
  "in_community relative = COMMUNITY @ ''/'' @ relative"

definition SINGLE_SERVER_FILES :: "string list" where
  "SINGLE_SERVER_FILES =
     map in_community
      [''Chart.yaml'', ''values.yaml'', ''templates/kafka.yaml'', ''templates/postgres.yaml'',
       ''templates/neo4j.yaml'', ''templates/valkey.yaml'', ''templates/minio.yaml'',
       ''templates/opensearch.yaml'', ''templates/observability.yaml'', ''templates/init-jobs.yaml'']
     @ APPLICATION_VALUES #
      [''infrastructure/kubernetes/single-server/runtime.env.example'',
       ''scripts/single-server/render_digest_values.py'',
       ''scripts/single-server/test_render_digest_values.py'', ''scripts/single-server/install.sh'',
       ''scripts/single-server/health.sh'', ''scripts/single-server/update.sh'',
       ''scripts/single-server/rollback.sh'']"

section \<open>Images\<close>

definition is_letter_or_digit :: "char \<Rightarrow> bool" where
  "is_letter_or_digit c = (is_letter c \<or> is_digit c)"

text \<open>\<open>^\s{2}[A-Za-z][A-Za-z0-9]*:\s+(\S+)\s*$\<close>: each part ends where the next begins, so that the match is
  found without going back.\<close>

definition value_of :: "string \<Rightarrow> string option" where
  "value_of s = (let r = dropWhile is_space s; reference = takeWhile (\<lambda>c. \<not> is_space c) r
     in if s \<noteq> [] \<and> is_space (hd s) \<and> reference \<noteq> [] \<and> list_all is_space (drop (length reference) r) then Some reference else None)"

definition image_reference :: "string \<Rightarrow> string option" where
  "image_reference line =
     (let name = takeWhile is_letter_or_digit (drop 2 line); rest = drop (2 + length name) line
      in if 2 \<le> length line \<and> list_all is_space (take 2 line) \<and> name \<noteq> [] \<and> is_letter (hd name) \<and> startswith rest '':''
         then value_of (tl rest) else None)"

text \<open>\<open>reference.rsplit("/", 1)[-1]\<close>\<close>

definition after_slash :: "string \<Rightarrow> string" where
  "after_slash reference = rev (takeWhile (\<lambda>c. c \<noteq> CHR ''/'') (rev reference))"

definition reference_failures :: "string \<Rightarrow> string list" where
  "reference_failures reference = fail_if (endswith reference '':latest'' \<or> CHR '':'' \<notin> set (after_slash reference))
     (''community image must use an explicit non-latest version: '' @ reference)"

text \<open>The references of the block of images; the block ends at a line that is not indented.\<close>

fun image_references :: "bool \<Rightarrow> string list \<Rightarrow> string list" where
  "image_references in_images [] = []"
| "image_references in_images (line # lines) =
     (if line = ''images:'' then image_references True lines
      else let still = (in_images \<and> \<not> (line \<noteq> [] \<and> \<not> startswith line ''  ''))
        in case (if still then image_reference line else None) of
             Some reference \<Rightarrow> reference # image_references still lines
           | None \<Rightarrow> image_references still lines)"

definition values_failures :: "string \<Rightarrow> string list" where
  "values_failures text =
     (let references = image_references False (splitlines text)
      in concat (map reference_failures references)
         @ fail_if (length references < 9) ''community values must define every stateful and observability image'')"

section \<open>Texts\<close>

text \<open>The templates in the order of their paths.\<close>

definition templates_text :: "file_tree \<Rightarrow> string" where
  "templates_text tree = join [CHR 0x0A] (map snd (sort_key fst (filter (\<lambda>(path, _).
     path = in_community (''templates/'' @ after_slash path) \<and> endswith path ''.yaml'') tree)))"

definition templates_failures :: "string \<Rightarrow> string list" where
  "templates_failures templates =
     map (\<lambda>m. ''community chart must not expose dependency services: '' @ m)
       (occurring templates [''type: LoadBalancer'', ''type: NodePort'', ''hostPort:'', ''hostNetwork: true''])
     @ map (\<lambda>service. ''community chart is missing service/stateful workload: '' @ service)
         (filter (\<lambda>service. \<not> contains templates (''name: '' @ service)) [''kafka'', ''postgres'', ''neo4j'', ''valkey'', ''minio'', ''opensearch''])
     @ fail_if (\<not> contains templates ''replicas: 1'') ''community chart must remain explicitly single-node''"

definition app_failures :: "string \<Rightarrow> string list" where
  "app_failures app =
     map (\<lambda>m. ''single-server values missing required setting: '' @ m)
       (absent app [''environment: staging'', (''externalSecret:'' @ CHR 0x0A # ''  enabled: false''),
         ''className: traefik'', ''ingressNamespace: kube-system'', ''kafkaBrokers: kafka:9092'',
         ''redisUrl: redis://valkey:6379/0'', ''opensearchUrl: http://opensearch:9200'',
         ''neo4jUri: neo4j://neo4j:7687''])
     @ fail_if (contains app ''localhost'' \<or> contains app ''127.0.0.1'') ''single-server Kubernetes values must not use loopback endpoints''
     @ fail_if (count_of app ''replicas: 1'' < 10) ''every SignalChord workload must default to one replica on one node''"

definition runtime_failures :: "string \<Rightarrow> string list" where
  "runtime_failures runtime =
     map (\<lambda>key. ''runtime template must keep '' @ key @ '' as a non-secret placeholder'')
       (filter (\<lambda>key. \<not> contains runtime (key @ ''=<'')) [''POSTGRES_PASSWORD'', ''SECRET_KEY_BASE'', ''CONTROL_PLANE_INTERNAL_TOKEN'',
         ''NEO4J_PASSWORD'', ''MINIO_SECRET_KEY'', ''GRAFANA_ADMIN_PASSWORD''])
     @ map (\<lambda>m. ''runtime template contains a development credential: '' @ m)
         (occurring runtime [''signalchord-dev'', ''replace-me'', ''password123''])"

definition install_failures :: "string \<Rightarrow> string list" where
  "install_failures install = map (\<lambda>m. ''installer missing fail-closed behavior: '' @ m)
       (absent install [''render_digest_values.py'', ''mode 0600'', ''pod-security.kubernetes.io/enforce=restricted'',
         ''helm upgrade --install signalchord-community'', ''helm upgrade --install signalchord'',
         ''health.sh''])"

definition validate_single_server :: "file_tree \<Rightarrow> string list res" where
  "validate_single_server tree =
     (let missing = filter (\<lambda>relative. \<not> is_file tree relative) SINGLE_SERVER_FILES
      in if missing \<noteq> [] then Inr (map (\<lambda>relative. ''missing single-server file: '' @ relative) missing)
         else res_bind (read_file tree (in_community ''values.yaml'')) (\<lambda>values.
           res_bind (read_file tree APPLICATION_VALUES) (\<lambda>app.
           res_bind (read_file tree ''infrastructure/kubernetes/single-server/runtime.env.example'') (\<lambda>runtime.
           res_bind (read_file tree ''scripts/single-server/install.sh'') (\<lambda>install.
             Inr (values_failures values @ templates_failures (templates_text tree) @ app_failures app
               @ runtime_failures runtime @ install_failures install))))))"

definition check_single_server :: "file_tree \<Rightarrow> nat res" where
  "check_single_server tree = res_bind (validate_single_server tree) (\<lambda>failures. Inr (exit_code failures))"

section \<open>Images of an accepted chart\<close>

text \<open>A reference with a tag that is written out and not \<open>latest\<close>.\<close>

definition tagged :: "string \<Rightarrow> bool" where
  "tagged reference \<longleftrightarrow> (\<exists>name tag. reference = name @ CHR '':'' # tag \<and> CHR ''/'' \<notin> set tag) \<and> \<not> endswith reference '':latest''"

lemma after_slash_split: "\<exists>a. reference = a @ after_slash reference \<and> CHR ''/'' \<notin> set (after_slash reference)"
proof -
  have "rev reference = takeWhile (\<lambda>c. c \<noteq> CHR ''/'') (rev reference) @ dropWhile (\<lambda>c. c \<noteq> CHR ''/'') (rev reference)" by simp
  then have "reference = rev (dropWhile (\<lambda>c. c \<noteq> CHR ''/'') (rev reference)) @ after_slash reference"
    unfolding after_slash_def by (metis rev_append rev_rev_ident)
  moreover have "CHR ''/'' \<notin> set (after_slash reference)" by (auto simp: after_slash_def dest: set_takeWhileD)
  ultimately show ?thesis by blast
qed

lemma reference_tagged: "reference_failures reference = [] \<Longrightarrow> tagged reference"
proof -
  assume h: "reference_failures reference = []"
  then have c: "CHR '':'' \<in> set (after_slash reference)" and l: "\<not> endswith reference '':latest''" by (auto simp: reference_failures_def)
  obtain a where a: "reference = a @ after_slash reference" "CHR ''/'' \<notin> set (after_slash reference)" using after_slash_split by blast
  obtain u v where "after_slash reference = u @ CHR '':'' # v" using c by (meson split_list)
  then have "reference = (a @ u) @ CHR '':'' # v" "CHR ''/'' \<notin> set v" using a by auto
  then show "tagged reference" using l unfolding tagged_def by blast
qed

text \<open>C0. The gate ends with a verdict for every checkout; when it accepts, the chart defines at least nine
  images, each with a tag that is written out and is not \<open>latest\<close>.\<close>

theorem single_server_images_tagged:
  "\<exists>n\<in>{0, 1}. check_single_server tree = Inr n \<and> (n = 0 \<longrightarrow> (\<exists>values. map_of tree (in_community ''values.yaml'') = Some values
     \<and> 9 \<le> length (image_references False (splitlines values)) \<and> (\<forall>r\<in>set (image_references False (splitlines values)). tagged r)))"
proof (cases "\<forall>path\<in>set SINGLE_SERVER_FILES. is_file tree path")
  case True
  have m: "filter (\<lambda>relative. \<not> is_file tree relative) SINGLE_SERVER_FILES = []" using True by (simp add: filter_empty_conv)
  have "is_file tree (in_community ''values.yaml'')" "is_file tree APPLICATION_VALUES"
    "is_file tree ''infrastructure/kubernetes/single-server/runtime.env.example''" "is_file tree ''scripts/single-server/install.sh''"
    using True by (simp_all add: SINGLE_SERVER_FILES_def)
  then obtain v a r i where f: "map_of tree (in_community ''values.yaml'') = Some v" "map_of tree APPLICATION_VALUES = Some a"
    "map_of tree ''infrastructure/kubernetes/single-server/runtime.env.example'' = Some r" "map_of tree ''scripts/single-server/install.sh'' = Some i"
    by (auto simp: is_file_def)
  let ?fs = "values_failures v @ templates_failures (templates_text tree) @ app_failures a @ runtime_failures r @ install_failures i"
  have "check_single_server tree = Inr (exit_code ?fs)"
    by (simp add: check_single_server_def validate_single_server_def Let_def m read_file_def f)
  moreover have "9 \<le> length (image_references False (splitlines v)) \<and> (\<forall>r\<in>set (image_references False (splitlines v)). tagged r)"
    if "?fs = []"
    using that reference_tagged by (auto simp: values_failures_def Let_def)
  ultimately show ?thesis using f(1) by (intro bexI [of _ "exit_code ?fs"]) (auto simp: exit_code_def)
next
  case False
  then have "filter (\<lambda>relative. \<not> is_file tree relative) SINGLE_SERVER_FILES \<noteq> []" by (auto simp: filter_empty_conv)
  then have "check_single_server tree = Inr 1" by (simp add: check_single_server_def validate_single_server_def Let_def exit_code_def)
  then show ?thesis by (intro bexI [of _ 1]) auto
qed

text \<open>An image in quotes is accepted whatever its tag is, because the quote hides the end of the text.\<close>

theorem quoted_latest_accepted:
  "image_reference ''  kafka: \"apache/kafka:latest\"'' = Some ''\"apache/kafka:latest\"''
   \<and> reference_failures ''\"apache/kafka:latest\"'' = [] \<and> reference_failures ''apache/kafka:latest'' \<noteq> []"
  by code_simp

end
