(* ===== verification/DigestValues.thy ===== *)
theory DigestValues
  imports SingleServerGate
begin

text \<open>
  \<open>scripts/single-server/render_digest_values.py\<close>: the image digests of a release as values of the chart.
  What is shown: the values are written for exactly the expected images, each with the one digest
  that the release gives it.
\<close>

section \<open>Reading\<close>

definition EXPECTED :: "string list" where
  "EXPECTED = [''signalchord-control-plane'', ''signalchord-document-fetcher'', ''signalchord-feed-collector'', ''signalchord-python'',
     ''signalchord-realtime-gateway'', ''signalchord-stream-normalizer'', ''signalchord-web'']"

definition digest_ok :: "string \<Rightarrow> bool" where
  "digest_ok d = (startswith d ''sha256:'' \<and> length d = 71 \<and> list_all is_lower_hex (drop 7 d))"

text \<open>The image has neither blanks nor an at sign, so the first at sign ends it.\<close>

definition match_digest :: "string \<Rightarrow> (string \<times> string) option" where
  "match_digest s = (let img = takeWhile (\<lambda>c. c \<noteq> CHR ''@'' \<and> \<not> is_space c) s; rest = drop (length img) s
     in if img \<noteq> [] \<and> startswith rest ''@'' \<and> digest_ok (tl rest) then Some (img, tl rest) else None)"

type_synonym digests = "(string \<times> string) list"

definition digest_line_error :: "string \<Rightarrow> nat \<Rightarrow> string \<Rightarrow> 'a res" where
  "digest_line_error path number message = value_error (path @ '':'' @ show_nat number @ '': '' @ message)"

fun digest_lines :: "string \<Rightarrow> nat \<Rightarrow> string list \<Rightarrow> digests \<Rightarrow> digests res" where
  "digest_lines path number [] vals = Inr vals"
| "digest_lines path number (raw # lines) vals =
     (let s = strip raw
      in if s = [] then digest_lines path (Suc number) lines vals
         else case match_digest s of
           None \<Rightarrow> digest_line_error path number ''expected image@sha256:<64 lowercase hex>''
         | Some (img, digest) \<Rightarrow>
             let name = after_slash img
             in if name \<notin> set EXPECTED then digest_line_error path number (''unexpected release image '' @ name)
                else if map_of vals name \<noteq> None then digest_line_error path number (''duplicate release image '' @ name)
                else digest_lines path (Suc number) lines (vals @ [(name, digest)]))"

definition parse_digests :: "string \<Rightarrow> string \<Rightarrow> digests res" where
  "parse_digests path contents =
     res_bind (digest_lines path 1 (splitlines contents) []) (\<lambda>vals.
       let missing = filter (\<lambda>name. map_of vals name = None) EXPECTED
       in if missing \<noteq> [] then value_error (''missing release image digests: '' @ join '', '' missing) else Inr vals)"

section \<open>Writing\<close>

definition render_values :: "digests \<Rightarrow> string" where
  "render_values vals = join [CHR 0x0A] ([''global:'', ''  imageDigests:'']
     @ map (\<lambda>name. ''    '' @ name @ '': '' @ the (map_of vals name)) (sort (map fst vals))) @ [CHR 0x0A]"

text \<open>The exit status and what is written to the output; the file by its path and text.\<close>

definition render_file :: "string \<Rightarrow> string res \<Rightarrow> (nat \<times> string option) res" where
  "render_file path file = (case res_bind file (parse_digests path) of
     Inr vals \<Rightarrow> Inr (0, Some (render_values vals))
   | Inl e \<Rightarrow> if is_value_error (exn_cls e) \<or> exn_cls e = OSError then Inr (1, None) else Inl e)"

section \<open>The values of a release\<close>

text \<open>A line of the release file that gives an image of this name this digest.\<close>

definition gives :: "string list \<Rightarrow> string \<Rightarrow> string \<Rightarrow> bool" where
  "gives lines name digest \<longleftrightarrow> (\<exists>raw\<in>set lines. \<exists>img. strip raw = img @ CHR ''@'' # digest \<and> after_slash img = name
     \<and> CHR ''@'' \<notin> set img)"

lemma match_digest_Some: "match_digest s = Some (img, digest) \<Longrightarrow> s = img @ CHR ''@'' # digest \<and> CHR ''@'' \<notin> set img \<and> digest_ok digest"
proof -
  assume h: "match_digest s = Some (img, digest)"
  let ?i = "takeWhile (\<lambda>c. c \<noteq> CHR ''@'' \<and> \<not> is_space c) s"
  have p: "img = ?i" "digest = tl (drop (length ?i) s)" "startswith (drop (length ?i) s) ''@''" "digest_ok digest"
    using h by (auto simp: match_digest_def Let_def split: if_splits)
  have "s = ?i @ drop (length ?i) s" by (metis append_take_drop_id takeWhile_eq_take)
  moreover have "drop (length ?i) s = CHR ''@'' # digest" using p(2,3) by (auto simp: startswith_split)
  moreover have "CHR ''@'' \<notin> set ?i" by (auto dest: set_takeWhileD)
  ultimately show ?thesis using p(1,4) by metis
qed

lemma digest_lines_step:
  assumes "digest_lines path k (raw # lines) vals = Inr vals'" and "strip raw \<noteq> []"
  obtains img digest where "match_digest (strip raw) = Some (img, digest)" and "after_slash img \<in> set EXPECTED"
    and "map_of vals (after_slash img) = None" and "digest_lines path (Suc k) lines (vals @ [(after_slash img, digest)]) = Inr vals'"
  using assms by (auto simp: Let_def digest_line_error_def split: option.splits if_splits)

text \<open>The values that are read: distinct expected names, and each is given by a line.\<close>

definition read_ok :: "string list \<Rightarrow> digests \<Rightarrow> bool" where
  "read_ok lines vals \<longleftrightarrow> distinct (map fst vals) \<and> fst ` set vals \<subseteq> set EXPECTED
     \<and> (\<forall>(n, d)\<in>set vals. digest_ok d \<and> gives lines n d)"

lemma gives_mono: "gives lines n d \<Longrightarrow> set lines \<subseteq> set lines' \<Longrightarrow> gives lines' n d"
  unfolding gives_def by blast

lemma digest_lines_ok:
  "digest_lines path k lines vals = Inr vals' \<Longrightarrow> read_ok all_lines vals \<Longrightarrow> set lines \<subseteq> set all_lines \<Longrightarrow> read_ok all_lines vals'"
proof (induction lines arbitrary: k vals)
  case (Cons raw lines)
  show ?case
  proof (cases "strip raw = []")
    case True
    then show ?thesis using Cons by simp
  next
    case False
    from digest_lines_step [OF Cons.prems(1) False] obtain img digest where
      m: "match_digest (strip raw) = Some (img, digest)" "after_slash img \<in> set EXPECTED" "map_of vals (after_slash img) = None"
        "digest_lines path (Suc k) lines (vals @ [(after_slash img, digest)]) = Inr vals'" .
    have "gives all_lines (after_slash img) digest" "digest_ok digest"
      using match_digest_Some [OF m(1)] Cons.prems(3) by (auto simp: gives_def)
    moreover have "after_slash img \<notin> fst ` set vals" using m(3) by (simp add: map_of_eq_None_iff)
    ultimately have "read_ok all_lines (vals @ [(after_slash img, digest)])"
      using Cons.prems(2) m(2) by (auto simp: read_ok_def)
    then show ?thesis using Cons.IH [OF m(4)] Cons.prems(3) by simp
  qed
qed simp

text \<open>A name is given once only: any other line of the file is about another image.\<close>

lemma digest_lines_all:
  "digest_lines path k lines vals = Inr vals' \<Longrightarrow> set vals \<subseteq> set vals' \<and>
   (\<forall>raw\<in>set lines. strip raw \<noteq> [] \<longrightarrow> (\<exists>img d. match_digest (strip raw) = Some (img, d) \<and> (after_slash img, d) \<in> set vals'))"
proof (induction lines arbitrary: k vals)
  case (Cons raw lines)
  show ?case
  proof (cases "strip raw = []")
    case True
    then show ?thesis using Cons by simp
  next
    case False
    from digest_lines_step [OF Cons.prems False] obtain img digest where
      m: "match_digest (strip raw) = Some (img, digest)"
        "digest_lines path (Suc k) lines (vals @ [(after_slash img, digest)]) = Inr vals'" .
    show ?thesis using Cons.IH [OF m(2)] m(1) by auto
  qed
qed simp

lemma digest_lines_length:
  "digest_lines path k lines vals = Inr vals' \<Longrightarrow> length vals' = length vals + length (filter (\<lambda>raw. strip raw \<noteq> []) lines)"
proof (induction lines arbitrary: k vals)
  case (Cons raw lines)
  show ?case
  proof (cases "strip raw = []")
    case True
    then show ?thesis using Cons by simp
  next
    case False
    from digest_lines_step [OF Cons.prems False] obtain img digest where
      m: "digest_lines path (Suc k) lines (vals @ [(after_slash img, digest)]) = Inr vals'" .
    show ?thesis using Cons.IH [OF m] False by simp
  qed
qed simp

lemma EXPECTED_sorted: "sorted EXPECTED" "distinct EXPECTED"
  by code_simp+

lemma sorted_names:
  assumes "distinct (map fst vals)" and "fst ` set vals = set EXPECTED"
  shows "sort (map fst vals) = EXPECTED"
proof (rule sorted_distinct_set_unique)
  show "set (sort (map fst vals)) = set EXPECTED" using assms(2) by simp
qed (use assms(1) EXPECTED_sorted in simp_all)

lemma render_file_written:
  assumes "render_file path (Inr contents) = Inr (0, Some written)"
  obtains vals where "digest_lines path 1 (splitlines contents) [] = Inr vals" and "set EXPECTED \<subseteq> fst ` set vals" and "written = render_values vals"
proof -
  from assms obtain vals where p: "parse_digests path contents = Inr vals" "written = render_values vals"
    by (auto simp: render_file_def split: sum.splits if_splits)
  have q: "digest_lines path 1 (splitlines contents) [] = Inr vals" "filter (\<lambda>name. map_of vals name = None) EXPECTED = []"
    using p(1) by (auto simp: parse_digests_def Let_def res_simps split: if_splits)
  have "set EXPECTED \<subseteq> fst ` set vals"
    using q(2) by (auto simp: filter_empty_conv map_of_eq_None_iff image_image)
  with q(1) p(2) show ?thesis using that by blast
qed

text \<open>C36. The values file that the release job writes names exactly the seven images of the release, in order, each with a
  well-formed digest that a line of the release file gives it; every line of that file with content is one of the
  seven, so no digest is dropped and none is overwritten.
\<close>
theorem digest_values_complete:
  assumes "render_file path (Inr contents) = Inr (0, Some written)"
  shows "\<exists>ds. map fst ds = EXPECTED \<and> written = join [CHR 0x0A] ([''global:'', ''  imageDigests:''] @ map (\<lambda>(n, d). ''    '' @ n @ '': '' @ d) ds) @ [CHR 0x0A]
    \<and> (\<forall>(n, d)\<in>set ds. digest_ok d \<and> gives (splitlines contents) n d)
    \<and> (\<forall>raw\<in>set (splitlines contents). strip raw \<noteq> [] \<longrightarrow> (\<exists>(n, d)\<in>set ds. gives [raw] n d))
    \<and> length (filter (\<lambda>raw. strip raw \<noteq> []) (splitlines contents)) = length EXPECTED"
proof -
  obtain vals where p: "digest_lines path 1 (splitlines contents) [] = Inr vals" "set EXPECTED \<subseteq> fst ` set vals" "written = render_values vals"
    using render_file_written [OF assms] .
  have r: "distinct (map fst vals)" "fst ` set vals \<subseteq> set EXPECTED" "\<forall>(n, d)\<in>set vals. digest_ok d \<and> gives (splitlines contents) n d"
    using digest_lines_ok [OF p(1), of "splitlines contents"] by (simp_all add: read_ok_def)
  have s: "sort (map fst vals) = EXPECTED" using sorted_names [OF r(1)] r(2) p(2) by blast
  let ?ds = "map (\<lambda>n. (n, the (map_of vals n))) EXPECTED"
  have sub: "set vals = set ?ds"
  proof (intro set_eqI iffI; clarify)
    fix n d
    assume h: "(n, d) \<in> set vals"
    then have "map_of vals n = Some d" using r(1) by simp
    moreover have "n \<in> set EXPECTED" using h r(2) by force
    ultimately show "(n, d) \<in> set ?ds" by force
  next
    fix n d
    assume "(n, d) \<in> set ?ds"
    then have h: "n \<in> set EXPECTED" "d = the (map_of vals n)" by auto
    then obtain d' where "map_of vals n = Some d'" using p(2) map_of_eq_None_iff [of vals n] by (metis not_Some_eq subsetD)
    then show "(n, d) \<in> set vals" using h(2) by (simp add: map_of_SomeD)
  qed
  have "map fst ?ds = EXPECTED" by (simp add: comp_def)
  moreover have "written = join [CHR 0x0A] ([''global:'', ''  imageDigests:''] @ map (\<lambda>(n, d). ''    '' @ n @ '': '' @ d) ?ds) @ [CHR 0x0A]"
    using p(3) s by (simp add: render_values_def comp_def)
  moreover have "\<forall>raw\<in>set (splitlines contents). strip raw \<noteq> [] \<longrightarrow> (\<exists>(n, d)\<in>set ?ds. gives [raw] n d)"
  proof (intro ballI impI)
    fix raw
    assume "raw \<in> set (splitlines contents)" "strip raw \<noteq> []"
    then obtain img d where m: "match_digest (strip raw) = Some (img, d)" "(after_slash img, d) \<in> set vals"
      using digest_lines_all [OF p(1)] by blast
    have "gives [raw] (after_slash img) d" using match_digest_Some [OF m(1)] by (simp add: gives_def)
    then show "\<exists>(n, d)\<in>set ?ds. gives [raw] n d" using m(2) sub by blast
  qed
  moreover have "length (filter (\<lambda>raw. strip raw \<noteq> []) (splitlines contents)) = length EXPECTED"
    using digest_lines_length [OF p(1)] arg_cong [OF s, of length] by simp
  moreover have "\<forall>(n, d)\<in>set ?ds. digest_ok d \<and> gives (splitlines contents) n d" using r(3) unfolding sub .
  ultimately show ?thesis by (intro exI [of _ ?ds] conjI)
qed

definition sample_digest :: string where
  "sample_digest = ''sha256:'' @ replicate 64 (CHR ''a'')"

definition sample_release_lines :: "string list" where
  "sample_release_lines = map (\<lambda>name. ''ghcr.io/'' @ name @ CHR ''@'' # sample_digest) EXPECTED"

definition sample_release :: string where
  "sample_release = join [CHR 0x0A] sample_release_lines"

lemma sample_release_read:
  "list_all (\<lambda>l. one_line l \<and> l \<noteq> []) sample_release_lines"
  "digest_lines ''digests'' 1 sample_release_lines [] = Inr (map (\<lambda>name. (name, sample_digest)) EXPECTED)"
  by code_simp+

lemma sample_release_written:
  "render_file ''digests'' (Inr sample_release) = Inr (0, Some (render_values (map (\<lambda>name. (name, sample_digest)) EXPECTED)))"
proof -
  let ?vals = "map (\<lambda>name. (name, sample_digest)) EXPECTED"
  have "splitlines sample_release = sample_release_lines"
    using sample_release_read(1) unfolding sample_release_def list_all_iff by (rule splitlines_join)
  moreover have "filter (\<lambda>name. map_of ?vals name = None) EXPECTED = []"
    by (auto simp: filter_empty_conv map_of_eq_None_iff image_image)
  ultimately have "parse_digests ''digests'' sample_release = Inr ?vals"
    using sample_release_read(2) by (simp add: parse_digests_def Let_def)
  then show ?thesis by (simp add: render_file_def)
qed

theorem digest_values_complete_witness:
  "\<exists>ds. map fst ds = EXPECTED \<and> (\<forall>(n, d)\<in>set ds. digest_ok d \<and> gives (splitlines sample_release) n d)"
  using digest_values_complete [OF sample_release_written] by blast

end
