(* ===== verification/CommunityStack.thy ===== *)
theory CommunityStack
  imports PublicationGate
begin

text \<open>
  \<open>scripts/validate_community_stack.py\<close>: the gate that keeps paid services out of the community runtime.
  What is shown: what no accepted file mentions, in any case of its letters.
\<close>

section \<open>Patterns\<close>

definition COMPOSE_FILES :: "string list" where
  "COMPOSE_FILES = [''docker-compose.yml'', ''docker-compose.override.yml'', ''docker-compose.projector.yml'']"

definition RUNTIME_FILES :: "string list" where
  "RUNTIME_FILES = COMPOSE_FILES @ [''.env.example'', ''scripts/dev-up.sh'', ''scripts/smoke-test.sh'', ''scripts/create-topics.sh'']"

text \<open>\<open>^\s*image:\s*\<close> at the start of a line.\<close>

definition image_key :: "regex \<Rightarrow> regex \<Rightarrow> regex" where
  "image_key key r = Then Line_Start (Then (Star_Class is_space) (Then key (Then (Star_Class is_space) r)))"

definition FORBIDDEN_PATTERNS :: "(string \<times> regex) list" where
  "FORBIDDEN_PATTERNS =
     [(''Confluent container image'', Then Boundary (any_case ''confluentinc/'')),
      (''Schema Registry service or setting'', Then Boundary (Then (Either (any_case ''schema-registry'')
         (Then (any_case ''schema_registry'') (optional (any_case ''_url'')))) Boundary)),
      (''Kafka Connect service'', Then Boundary (Then (any_case ''kafka-connect'') Boundary)),
      (''Redis server image'', image_key (any_case ''image:'') (Then (any_case ''redis'') (Then (optional (any_case ''/redis'')) (exactly '':'')))),
      (''paid LLM API key'', Then Boundary (Then (one_of (map exactly [''OPENAI_API_KEY'', ''ANTHROPIC_API_KEY'', ''COHERE_API_KEY'',
         ''GEMINI_API_KEY''])) Boundary))]"

definition REQUIRED_PATTERNS :: "(string \<times> regex) list" where
  "REQUIRED_PATTERNS =
     [(''official Apache Kafka image'', image_key (exactly ''image:'') (exactly ''apache/kafka:'')),
      (''Valkey image'', image_key (exactly ''image:'') (exactly ''valkey/valkey:'')),
      (''Valkey application endpoint'', exactly ''redis://valkey:6379'')]"

section \<open>The gate\<close>

definition runtime_file_failures :: "file_tree \<Rightarrow> string \<Rightarrow> string list" where
  "runtime_file_failures tree relative = (case map_of tree relative of
     None \<Rightarrow> [''missing required community runtime file: '' @ relative]
   | Some text \<Rightarrow> map (\<lambda>(description, _). relative @ '': contains forbidden '' @ description)
       (filter (\<lambda>(_, pattern). search pattern text) FORBIDDEN_PATTERNS))"

definition compose_text :: "file_tree \<Rightarrow> string" where
  "compose_text tree = concat (map (\<lambda>relative. case map_of tree relative of None \<Rightarrow> []
     | Some text \<Rightarrow> CHR 0x0A # ''# '' @ relative @ CHR 0x0A # text) COMPOSE_FILES)"

definition validate_community :: "file_tree \<Rightarrow> string list" where
  "validate_community tree =
     concat (map (runtime_file_failures tree) RUNTIME_FILES)
     @ map (\<lambda>(description, _). ''community stack is missing '' @ description)
         (filter (\<lambda>(_, pattern). \<not> search pattern (compose_text tree)) REQUIRED_PATTERNS)
     @ fail_if (is_file tree ''infrastructure/docker/connect/Dockerfile'')
         ''infrastructure/docker/connect/Dockerfile reintroduces the optional Confluent connector runtime''
     @ fail_if (\<not> is_file tree ''docs/community-self-hosting.md'') ''missing docs/community-self-hosting.md''"

definition check_community :: "file_tree \<Rightarrow> nat" where
  "check_community tree = exit_code (validate_community tree)"

section \<open>An accepted stack\<close>

text \<open>A name that begins a word, in any case of its letters.\<close>

definition names :: "string \<Rightarrow> string \<Rightarrow> bool" where
  "names text name \<longleftrightarrow> (\<exists>a w b. text = a @ w @ b \<and> map lower_char w = name \<and> (a = [] \<or> \<not> is_word (last a)))"

lemma names_search:
  assumes "names text name" and "name \<noteq> []" and "is_word (hd name)" and "\<And>c. is_word (lower_char c) = is_word c"
  shows "search (Then Boundary (any_case name)) text"
proof -
  obtain a w b where t: "text = a @ w @ b" "map lower_char w = name" "a = [] \<or> \<not> is_word (last a)"
    using assms(1) by (auto simp: names_def)
  obtain c w' where w: "w = c # w'" using t(2) assms(2) by (cases w) auto
  then have "is_word c" using assms(3,4) t(2) by (metis list.map_sel(1) list.sel(1) list.simps(3))
  then have "word_at text (length a)" by (simp add: word_at_def t(1) w)
  moreover have "\<not> (length a \<noteq> 0 \<and> word_at text (length a - 1))"
    using t(3) by (cases a rule: rev_cases) (auto simp: word_at_def t(1) nth_append)
  ultimately have "at_boundary text (length a)" by (simp add: at_boundary_def)
  moreover have "matches text (any_case name) (length a) (length a + length w)"
    unfolding t(1) by (rule lang_matches) (simp_all add: t(2))
  moreover have "length a \<le> length text" by (simp add: t(1))
  ultimately show ?thesis unfolding search_iff matches_simps by blast
qed

lemma is_word_high: "192 \<le> ord_c c \<Longrightarrow> is_word c \<longleftrightarrow> ord_c c \<noteq> 215 \<and> ord_c c \<noteq> 247"
  by (simp add: is_word_def Let_def)

lemma is_word_ascii: "65 \<le> ord_c c \<and> ord_c c \<le> 90 \<or> 97 \<le> ord_c c \<and> ord_c c \<le> 122 \<Longrightarrow> is_word c"
  unfolding is_word_def Let_def by blast

lemma is_word_lower: "is_word (lower_char c) = is_word c"
proof -
  have up: "ord_c (char_of (ord_c c + 32)) = ord_c c + 32" if "ord_c c \<le> 222"
    using that by (simp add: ord_c_def)
  consider "65 \<le> ord_c c \<and> ord_c c \<le> 90" | "192 \<le> ord_c c" "ord_c c \<le> 222" "ord_c c \<noteq> 215" | "lower_char c = c"
    unfolding lower_char_def Let_def by presburger
  then show ?thesis
  proof cases
    case 1
    then have "ord_c (lower_char c) = ord_c c + 32" using up by (simp add: lower_char_def Let_def)
    then have "97 \<le> ord_c (lower_char c) \<and> ord_c (lower_char c) \<le> 122" using 1 by simp
    then show ?thesis using 1 is_word_ascii by blast
  next
    case 2
    then have "ord_c (lower_char c) = ord_c c + 32" using up by (simp add: lower_char_def Let_def)
    then show ?thesis using 2 is_word_high [of c] is_word_high [of "lower_char c"] by simp
  qed simp
qed

text \<open>When the gate accepts, every runtime file is there and none of them names a Confluent image, in any case of
  its letters; the compose files run Valkey and Apache Kafka.\<close>

theorem community_stack_free:
  assumes "check_community tree = 0" and "relative \<in> set RUNTIME_FILES"
  shows "\<exists>text. map_of tree relative = Some text \<and> \<not> names text ''confluentinc/''
    \<and> search (exactly ''redis://valkey:6379'') (compose_text tree)"
proof -
  have v: "runtime_file_failures tree relative = []" "\<forall>(_, pattern)\<in>set REQUIRED_PATTERNS. search pattern (compose_text tree)"
    using assms by (auto simp: check_community_def validate_community_def filter_empty_conv)
  then obtain t where t: "map_of tree relative = Some t" "\<forall>(_, pattern)\<in>set FORBIDDEN_PATTERNS. \<not> search pattern t"
    by (auto simp: runtime_file_failures_def filter_empty_conv split: option.splits)
  have "\<not> search (Then Boundary (any_case ''confluentinc/'')) t" using t(2) by (simp add: FORBIDDEN_PATTERNS_def del: any_case.simps)
  moreover have "is_word (hd ''confluentinc/'')" by code_simp
  ultimately have "\<not> names t ''confluentinc/''" using names_search [of t "''confluentinc/''"] is_word_lower by blast
  moreover have "search (exactly ''redis://valkey:6379'') (compose_text tree)" using v(2) by (simp add: REQUIRED_PATTERNS_def del: exactly.simps)
  ultimately show ?thesis using t(1) by blast
qed

end
