(* ===== verification/ObservabilityGate.thy ===== *)
theory ObservabilityGate
  imports PublicationGate
begin

text \<open>
  \<open>scripts/validate_observability.py\<close>: the gate on alert rules, the dashboard and its documentation.
  What is shown: that splitting the rules loses no text, and what an accepted rule file is.
\<close>

section \<open>Splitting\<close>

text \<open>\<open>re.split(r, s)\<close> of an expression without groups that never matches the empty text.\<close>

fun pieces :: "string \<Rightarrow> nat \<Rightarrow> (nat \<times> nat) list \<Rightarrow> string list" where
  "pieces s i [] = [drop i s]"
| "pieces s i ((a, b) # spans) = text_at s (i, a) # pieces s b spans"

definition re_split :: "regex \<Rightarrow> string \<Rightarrow> string list" where
  "re_split r s = pieces s 0 (finditer r s)"

text \<open>\<open>\n\s*-\s+alert:\s+\<close>\<close>

definition ALERT_START :: regex where
  "ALERT_START = in_order [Class (\<lambda>c. c = CHR 0x0A), Star_Class is_space, exactly ''-'', plus_class is_space, exactly ''alert:'', plus_class is_space]"

section \<open>Rules\<close>

definition alert_fragments :: "string list" where
  "alert_fragments = [''expr:'', ''for:'', ''severity:'', ''owner:'', ''slo:'', ''summary:'', ''runbook_url: docs/runbooks/'']"

definition alerts_in :: "string \<Rightarrow> string list" where
  "alerts_in text = tl (re_split ALERT_START (CHR 0x0A # text))"

definition check_alert :: "string \<Rightarrow> string list res" where
  "check_alert alert = (case splitlines alert of
     [] \<Rightarrow> Inl (Exn IndexError ''list index out of range'')
   | line # _ \<Rightarrow> Inr (map (\<lambda>fragment. ''alert '' @ strip line @ '' is missing '' @ fragment) (absent alert alert_fragments)))"

definition validate_rules :: "string \<Rightarrow> string list res" where
  "validate_rules text = (let alerts = alerts_in text
     in res_append (Inr (fail_if (length alerts < 5) ''expected at least five production alert rules'')) (res_concat check_alert alerts))"

section \<open>Dashboard and documentation\<close>

text \<open>\<open>len(v)\<close>\<close>

definition py_len :: "pyval \<Rightarrow> nat res" where
  "py_len v = (case v of PStr s \<Rightarrow> Inr (length s) | PList xs \<Rightarrow> Inr (length xs) | PDict d \<Rightarrow> Inr (length d)
     | _ \<Rightarrow> Inl (Exn TypeError (''object of type '' @ str_repr (type_name v) @ '' has no len()'')))"

text \<open>\<open>all(target.get("expr") for target in targets)\<close> stops at the first that is missing.\<close>

fun all_expressions :: "pyval list \<Rightarrow> bool res" where
  "all_expressions [] = Inr True"
| "all_expressions (target # targets) = res_bind (get_field target ''expr'') (\<lambda>e. if truthy e then all_expressions targets else Inr False)"

definition check_panel :: "pyval \<Rightarrow> string list res" where
  "check_panel panel =
     res_bind (get_field panel ''title'') (\<lambda>title. res_bind (get_field panel ''id'') (\<lambda>i. res_bind (get_field panel ''targets'') (\<lambda>targets.
       res_bind (if truthy targets then res_bind (py_iter targets) all_expressions else Inr False) (\<lambda>complete.
         Inr (fail_if (\<not> truthy title) (''dashboard panel '' @ py_str i @ '' is missing a title'')
           @ fail_if (\<not> complete) (''dashboard panel '' @ py_str title @ '' is missing Prometheus expressions''))))))"

definition validate_dashboard :: "pyval \<Rightarrow> string list res" where
  "validate_dashboard dashboard =
     res_bind (get_field dashboard ''uid'') (\<lambda>uid. res_bind (py_get dashboard ''panels'' (PList [])) (\<lambda>panels.
     res_bind (py_len panels) (\<lambda>n. res_bind (py_iter panels) (\<lambda>items.
       res_append (Inr (fail_if (uid \<noteq> PStr ''signalchord-production-overview'') ''dashboard uid must be stable''
           @ fail_if (n < 6) ''dashboard must contain the core API, freshness, lag, delivery, telemetry and error panels''))
         (res_concat check_panel items)))))"

definition validate_docs :: "string \<Rightarrow> string list" where
  "validate_docs text = map (\<lambda>m. ''observability doc missing '' @ str_repr m)
     (absent text [''Article-to-alert freshness'', ''Control-plane API availability'', ''Realtime delivery'', ''Telemetry retention'',
       ''External evidence still required''])"

definition check_observability :: "string res \<Rightarrow> pyval res \<Rightarrow> string res \<Rightarrow> nat res" where
  "check_observability rules dashboard docs =
     res_bind (res_append (res_bind rules validate_rules) (res_append (res_bind dashboard validate_dashboard)
       (res_bind docs (\<lambda>text. Inr (validate_docs text))))) (\<lambda>failures. Inr (exit_code failures))"

section \<open>Accepted rules\<close>

text \<open>Splitting loses nothing but the matches: pieces and matches in turn are the text.\<close>

fun woven :: "string \<Rightarrow> string list \<Rightarrow> (nat \<times> nat) list \<Rightarrow> string" where
  "woven s (p # ps) (m # spans) = p @ text_at s m @ woven s ps spans"
| "woven s ps spans = concat ps"

lemma pieces_woven: "spans_from i (length s) spans \<Longrightarrow> i \<le> length s \<Longrightarrow> woven s (pieces s i spans) spans = drop i s"
proof (induction spans arbitrary: i)
  case (Cons m spans)
  obtain a b where sp: "m = (a, b)" by force
  have h: "i \<le> a" "a < b" "b \<le> length s" "spans_from b (length s) spans" using Cons.prems(1) by (auto simp: sp)
  have cut: "drop j s = text_at s (j, k) @ drop k s" if "j \<le> k" for j k
    using append_take_drop_id [of "k - j" "drop j s"] that by (simp add: text_at_def)
  have "woven s (pieces s b spans) spans = drop b s" by (rule Cons.IH [OF h(4,3)])
  then show ?case using cut [OF h(1)] cut [of a b] h(2) by (simp add: sp)
qed simp

lemma length_pieces: "length (pieces s i spans) = Suc (length spans)"
  by (induction s i spans rule: pieces.induct) auto

text \<open>When the gate accepts, the rules are the texts between the places where an alert begins, there are at least
  five, and every one has an expression, a duration, a severity, an owner, an objective, a summary and
  a runbook.\<close>

theorem alerts_complete:
  assumes "check_observability (Inr rules) dashboard docs = Inr 0"
  shows "5 \<le> length (finditer ALERT_START (CHR 0x0A # rules))
    \<and> woven (CHR 0x0A # rules) (re_split ALERT_START (CHR 0x0A # rules)) (finditer ALERT_START (CHR 0x0A # rules)) = CHR 0x0A # rules
    \<and> (\<forall>alert\<in>set (alerts_in rules). \<forall>f\<in>set alert_fragments. contains alert f)"
proof -
  have v: "validate_rules rules = Inr []" using assms by (auto simp: check_observability_def res_simps res_append_def)
  then have n: "5 \<le> length (alerts_in rules)" and c: "\<forall>alert\<in>set (alerts_in rules). check_alert alert = Inr []"
    by (auto simp: validate_rules_def Let_def)
  have "length (alerts_in rules) = length (finditer ALERT_START (CHR 0x0A # rules))"
    by (simp add: alerts_in_def re_split_def length_pieces)
  moreover have "\<forall>alert\<in>set (alerts_in rules). \<forall>f\<in>set alert_fragments. contains alert f"
  proof (intro ballI)
    fix alert f
    assume a: "alert \<in> set (alerts_in rules)" "f \<in> set alert_fragments"
    then have "check_alert alert = Inr []" using c by blast
    then have "absent alert alert_fragments = []" by (cases "splitlines alert") (simp_all add: check_alert_def del: absent_Nil_iff)
    then show "contains alert f" using a(2) by simp
  qed
  ultimately show ?thesis using n pieces_woven [OF finditer_spans] by (simp add: re_split_def)
qed

end
