(* ===== verification/ProductReadiness.thy ===== *)
theory ProductReadiness
  imports PublicationGate
begin

text \<open>
  \<open>scripts/validate_product_readiness.py\<close>: the gate on the readiness checklist, which stops at the first
  failure.  What is shown: what an accepted checklist promises.
\<close>

section \<open>Names\<close>

definition REQUIRED_CONTROLS :: "string list" where
  "REQUIRED_CONTROLS = [''authentication_sessions'', ''export_and_deletion_request_api'', ''notification_invalid_token_handling'',
     ''rbac_membership_administration'', ''support_intake'', ''tenant_onboarding_invitations'', ''usage_limits_and_billing_state'']"

definition REQUIRED_BLOCKERS :: "string list" where
  "REQUIRED_BLOCKERS = [''billing_provider_integration'', ''mfa_decision_and_provider'', ''mobile_signing_and_push_credentials'',
     ''production_email_delivery'', ''representative_customer_acceptance'', ''terms_privacy_acceptable_use'']"

section \<open>The gate\<close>

text \<open>A step passes, fails with a message (the process exits), or raises.\<close>

type_synonym item_outcome = "string option res"

definition pass :: item_outcome where "pass = Inr None"
definition stop :: "string \<Rightarrow> item_outcome" where "stop message = Inr (Some message)"

definition and_then :: "item_outcome \<Rightarrow> item_outcome \<Rightarrow> item_outcome" where
  "and_then a b = res_bind a (\<lambda>r. case r of None \<Rightarrow> b | Some m \<Rightarrow> Inr (Some m))"

definition demand :: "bool \<Rightarrow> string \<Rightarrow> item_outcome" where
  "demand ok message = (if ok then pass else stop message)"

text \<open>\<open>{item.get(key): item for item in items if isinstance(item, dict)}\<close>: the last item of a name counts.\<close>

definition by_name :: "string \<Rightarrow> pyval list \<Rightarrow> string \<Rightarrow> pydict option" where
  "by_name key items name = (case filter (\<lambda>d. dict_val d key = PStr name) (rev (dicts_of items)) of [] \<Rightarrow> None | d # _ \<Rightarrow> Some d)"

definition missing_items :: "string \<Rightarrow> pyval list \<Rightarrow> string list \<Rightarrow> string list" where
  "missing_items key items required = filter (\<lambda>name. by_name key items name = None) required"

text \<open>\<open>ROOT / relative\<close> of a value that is no text raises.\<close>

definition check_path :: "file_tree \<Rightarrow> string \<Rightarrow> pyval \<Rightarrow> item_outcome" where
  "check_path tree name relative = (case relative of
     PStr path \<Rightarrow> demand (is_file tree path) (name @ '' evidence path does not exist: '' @ path)
   | _ \<Rightarrow> Inl (Exn TypeError (''unsupported operand type(s) for /: '' @ str_repr (type_name relative))))"

definition check_control :: "file_tree \<Rightarrow> string \<Rightarrow> pydict \<Rightarrow> item_outcome" where
  "check_control tree name item =
     and_then (demand (dict_val item ''status'' = PStr ''implemented'') (name @ '' status must be implemented''))
     (and_then (demand (list_or_empty (dict_val item ''evidence'') \<noteq> []) (name @ '' must list evidence files''))
       (foldr (\<lambda>relative. and_then (check_path tree name relative)) (list_or_empty (dict_val item ''evidence'')) pass))"

definition described :: "pyval \<Rightarrow> bool" where
  "described v = (case v of PStr s \<Rightarrow> 40 \<le> length (strip s) | _ \<Rightarrow> False)"

definition check_blocker :: "string \<Rightarrow> pydict \<Rightarrow> item_outcome" where
  "check_blocker name item = demand (described (dict_val item ''required_evidence'')) (name @ '' must describe required external evidence'')"

definition check_items :: "pydict \<Rightarrow> string \<Rightarrow> string \<Rightarrow> string list \<Rightarrow> string \<Rightarrow> (string \<Rightarrow> pydict \<Rightarrow> item_outcome) \<Rightarrow> item_outcome" where
  "check_items data key name_key required what check =
     (let items = list_or_empty (dict_val data key)
      in and_then (demand (items \<noteq> []) (key @ '' must be a non-empty list''))
         (res_bind (names_in name_key items) (\<lambda>_.
           let missing = missing_items name_key items required
           in and_then (demand (missing = []) (''missing '' @ what @ '': '' @ join '', '' missing))
              (foldr (\<lambda>name. and_then (case by_name name_key items name of Some item \<Rightarrow> check name item | None \<Rightarrow> pass)) required pass))))"

definition validate_checklist :: "file_tree \<Rightarrow> pyval \<Rightarrow> item_outcome" where
  "validate_checklist tree v = (case v of
     PDict data \<Rightarrow>
       and_then (demand (py_eq (dict_val data ''schema_version'') (PInt 1)) ''schema_version must be 1'')
       (and_then (demand (dict_val data ''track'' = PStr ''issue-32-product-operations-readiness'') ''track must identify issue #32'')
       (and_then (check_items data ''repository_controls'' ''control'' REQUIRED_CONTROLS ''controls'' (check_control tree))
         (check_items data ''external_blockers'' ''blocker'' REQUIRED_BLOCKERS ''external blockers'' check_blocker)))
   | _ \<Rightarrow> Inl (Exn AttributeError (str_repr (type_name v) @ '' object has no attribute '' @ str_repr ''get'')))"

text \<open>A file that is missing or no JSON is a failure too.\<close>

definition check_product :: "file_tree \<Rightarrow> pyval res \<Rightarrow> nat res" where
  "check_product tree file = (case file of
     Inl e \<Rightarrow> if exn_cls e \<in> {OSError, JSONDecodeError} then Inr 1 else Inl e
   | Inr v \<Rightarrow> res_bind (validate_checklist tree v) (\<lambda>r. Inr (if r = None then 0 else 1)))"

section \<open>An accepted checklist\<close>

lemma and_then_pass [simp]: "and_then a b = Inr None \<longleftrightarrow> a = Inr None \<and> b = Inr None"
  by (auto simp: and_then_def res_simps split: option.splits)

lemma demand_pass [simp]: "demand ok m = Inr None \<longleftrightarrow> ok"
  by (simp add: demand_def pass_def stop_def)

lemma all_pass [simp]: "foldr (\<lambda>x. and_then (f x)) xs pass = Inr None \<longleftrightarrow> (\<forall>x\<in>set xs. f x = Inr None)"
  by (induction xs) (auto simp: pass_def)

lemma check_items_pass:
  assumes "check_items data key name_key required what check = Inr None" and "name \<in> set required"
  obtains items item where "dict_val data key = PList items" and "PDict item \<in> set items" and "dict_val item name_key = PStr name"
    and "check name item = Inr None"
proof -
  let ?items = "list_or_empty (dict_val data key)"
  have h: "?items \<noteq> []" "missing_items name_key ?items required = []"
    "\<forall>name\<in>set required. (case by_name name_key ?items name of Some item \<Rightarrow> check name item | None \<Rightarrow> pass) = Inr None"
    using assms(1) by (auto simp: check_items_def Let_def res_simps)
  have l: "dict_val data key = PList ?items" using h(1) by (auto simp: list_or_empty_def split: pyval.splits)
  obtain item where i: "by_name name_key ?items name = Some item" using h(2) assms(2) by (auto simp: missing_items_def filter_empty_conv)
  then have "item \<in> set (filter (\<lambda>d. dict_val d name_key = PStr name) (rev (dicts_of ?items)))"
    by (cases "filter (\<lambda>d. dict_val d name_key = PStr name) (rev (dicts_of ?items))") (auto simp: by_name_def)
  then show ?thesis using that [OF l, of item] in_dicts_of [of item ?items] h(3) assms(2) i by fastforce
qed

text \<open>When the gate accepts, every required control has an entry that says it is implemented and lists evidence
  files, all of which exist, and every blocker says in forty characters or more which evidence it needs.\<close>

theorem product_checklist_complete:
  assumes "check_product tree (Inr v) = Inr 0"
  shows "\<exists>data. v = PDict data
    \<and> (\<forall>name\<in>set REQUIRED_CONTROLS. \<exists>items item. dict_val data ''repository_controls'' = PList items \<and> PDict item \<in> set items
         \<and> dict_val item ''control'' = PStr name \<and> dict_val item ''status'' = PStr ''implemented''
         \<and> (\<forall>relative\<in>set (list_or_empty (dict_val item ''evidence'')). \<exists>path. relative = PStr path \<and> is_file tree path))
    \<and> (\<forall>name\<in>set REQUIRED_BLOCKERS. \<exists>items item. dict_val data ''external_blockers'' = PList items \<and> PDict item \<in> set items
         \<and> dict_val item ''blocker'' = PStr name \<and> described (dict_val item ''required_evidence''))"
proof -
  have "validate_checklist tree v = Inr None" using assms by (auto simp: check_product_def res_simps split: if_splits)
  then obtain data where d: "v = PDict data"
    "check_items data ''repository_controls'' ''control'' REQUIRED_CONTROLS ''controls'' (check_control tree) = Inr None"
    "check_items data ''external_blockers'' ''blocker'' REQUIRED_BLOCKERS ''external blockers'' check_blocker = Inr None"
    by (auto simp: validate_checklist_def split: pyval.splits)
  have path: "check_path tree name relative = Inr None \<Longrightarrow> \<exists>path. relative = PStr path \<and> is_file tree path" for name relative
    by (auto simp: check_path_def split: pyval.splits)
  have "\<exists>items item. dict_val data ''repository_controls'' = PList items \<and> PDict item \<in> set items
         \<and> dict_val item ''control'' = PStr name \<and> dict_val item ''status'' = PStr ''implemented''
         \<and> (\<forall>relative\<in>set (list_or_empty (dict_val item ''evidence'')). \<exists>path. relative = PStr path \<and> is_file tree path)"
    if n: "name \<in> set REQUIRED_CONTROLS" for name
  proof (rule check_items_pass [OF d(2) n])
    fix items item
    assume i: "dict_val data ''repository_controls'' = PList items" "PDict item \<in> set items" "dict_val item ''control'' = PStr name"
      "check_control tree name item = Inr None"
    then show ?thesis using path by (intro exI [of _ items] exI [of _ item]) (auto simp: check_control_def)
  qed
  moreover have "\<exists>items item. dict_val data ''external_blockers'' = PList items \<and> PDict item \<in> set items
         \<and> dict_val item ''blocker'' = PStr name \<and> described (dict_val item ''required_evidence'')"
    if n: "name \<in> set REQUIRED_BLOCKERS" for name
  proof (rule check_items_pass [OF d(3) n])
    fix items item
    assume i: "dict_val data ''external_blockers'' = PList items" "PDict item \<in> set items" "dict_val item ''blocker'' = PStr name"
      "check_blocker name item = Inr None"
    then show ?thesis by (intro exI [of _ items] exI [of _ item]) (auto simp: check_blocker_def)
  qed
  ultimately show ?thesis using d(1) by blast
qed

end
