(* ===== verification/Spec2Isabelle.thy ===== *)
theory Spec2Isabelle
  imports VelatoLibrary VelatoService AlertProjector NotificationWorker SearchProjector Delivery GraphAnalytics ProductionConfig
    PermissionLoops ReleaseManifest MigrationSafety HelmPolicy HistoryAudit CapacityGate RecoveryGate QualityGate GovernanceGate GraphQuery DigestValues CommunityStack ObservabilityGate ProductReadiness
begin

text \<open>
  Verification development of SignalChord's Python services.

  \<^bold>\<open>The program.\<close>  SignalChord turns articles into alerts.  Collectors (in Go) publish documents on
  Kafka.  The Python workers under \<open>services\<close> consume and produce Kafka events:
  the NLP worker finds mentions, relations and claims in a document; the entity worker resolves
  mentions; the claim worker clusters claims; both ask the graph projector to change the graph
  database; graph analytics measures entities in it; the policy worker runs the sealed
  Velato program on the signals of a document and publishes alerts; the alert projector hands
  alerts to the control plane (in Ruby), the search projector indexes events, the notification
  worker pushes.  HTTP services answer questions about the graph and about Velato programs.  Every
  worker runs the same loop (\<open>services/python_common/poison_message.py\<close>): a message is committed
  after it was handled, a message that raises a value error goes to a dead-letter topic first, any
  other error ends the process, which restarts at the last commit.  The scripts under \<open>scripts\<close> are
  the gates of the repository: they read workflows, charts, migrations, evidence files and the
  history, and end with status 0 or 1.

  \<^bold>\<open>Shared theories.\<close>
  \<^item> \<open>Prelude\<close>: exceptions as values (\<open>exn\<close>, \<open>res\<close>), sequencing, hint collections.
  \<^item> \<open>PyFloat\<close>: binary64 as exact rationals with rounding, infinities, the negative zero and NaN.
  \<^item> \<open>PyText\<close>: \<open>str\<close> methods, \<open>int()\<close>, \<open>float()\<close>, printing of numbers.
  \<^item> \<open>PyValue\<close>: JSON values, dictionaries in insertion order, \<open>repr\<close>, \<open>json.dumps\<close>.
  \<^item> \<open>PyBytes\<close>, \<open>Sha256\<close>: UTF-8 decoding, Base64, the hash.
  \<^item> \<open>Regex\<close>: Python's backtracking matcher as the list of ends of a match, the reading of an
    expression as a relation, and the theorem that \<open>finditer\<close> misses no match.
  \<^item> \<open>Messaging\<close>: effects as functions on a \<open>world\<close> (surroundings, counters, log of everything done).
    Each call of the clock, of \<open>uuid4\<close>, of the broker or of a service is answered by a function of
    the surroundings, so every theorem holds for all answers.  The step relation \<open>consumer_run\<close> is
    the poll loop with crashes and restarts.
  \<^item> \<open>Events\<close>, \<open>Http\<close>: reading fields of events, the envelope, requests to services.
  \<^item> \<open>Gates\<close>: searching of expressions, tables of required fragments and what passing them means.

  \<^bold>\<open>Velato\<close> (\<open>services/velato-engine\<close>).  \<open>VelatoIr\<close> is \<open>OPS\<close>, \<open>validate_instruction\<close> and \<open>analyze_ir\<close>
  of \<open>engine.py\<close>; \<open>VelatoVm\<close> is \<open>execute\<close> with its 48 operations (programs have no
  jumps, so a run is a recursion on the program); \<open>VelatoRuns\<close> relates the two: the analysis is exact, accepted programs fail only on
  numbers, results are in range, code after \<open>HALT\<close> is dead.  \<open>VelatoCodec\<close> states round trips
  once, as a locale; \<open>VelatoMidi\<close> (\<open>parse_midi\<close>, \<open>encode_midi\<close>) and \<open>VelatoAsm\<close> (\<open>parse_assembly\<close>,
  \<open>serialize_ir\<close>, \<open>deserialize_ir\<close>, \<open>decompile\<close>) interpret it.  \<open>VelatoLibrary\<close> is
  \<open>standard_library.py\<close>: the builder and what its programs compute; \<open>VelatoService\<close> is \<open>app.py\<close>;
  \<open>VelatoWorker\<close> is \<open>worker.py\<close>.

  \<^bold>\<open>Workers.\<close>  \<open>PoisonMessage\<close> is \<open>python_common/poison_message.py\<close>; its locale \<open>worker\<close> is interpreted by each
  worker.  \<open>GraphProjector\<close>, \<open>ClaimIntelligence\<close>, \<open>EntityResolution\<close>, \<open>AlertProjector\<close>,
  \<open>NotificationWorker\<close>, \<open>SearchProjector\<close>, \<open>GraphAnalytics\<close>, \<open>NlpExtract\<close> with \<open>NlpWorker\<close> model the
  services of these names: statements or calls that are built, events that are published, the
  commit decision.  \<open>GraphContract\<close> and \<open>Pipeline\<close> compose them: what a worker publishes is
  accepted by the worker that consumes it.  \<open>Delivery\<close> shows which failures of delivery a worker
  does not notice.  \<open>ProductionConfig\<close> is \<open>python_common/production_config.py\<close>.

  \<^bold>\<open>Reads of the graph.\<close>  \<open>GraphQuery\<close> is \<open>services/graph-query/app.py\<close>: the limits of the requests, the texts
  of the queries with their parameters, and the answers made from the rows of the database.

  \<^bold>\<open>Gates of the repository\<close> (\<open>scripts\<close>), one theory per script: \<open>WorkflowActions\<close>
  (\<open>validate_workflow_actions.py\<close>; \<open>PermissionLoops\<close> has its nested loops over an index and shows that
  they end), \<open>ReleaseManifest\<close>, \<open>MigrationSafety\<close>, \<open>HelmPolicy\<close>, \<open>HistoryAudit\<close>
  (\<open>audit_repository_history.py\<close>), \<open>PublicationGate\<close>, \<open>SingleServerGate\<close>, \<open>DigestValues\<close>
  (\<open>single-server/render_digest_values.py\<close>), \<open>CommunityStack\<close>, \<open>ObservabilityGate\<close>, \<open>ProductReadiness\<close>,
  \<open>CapacityGate\<close>, \<open>RecoveryGate\<close>, \<open>QualityGate\<close>, \<open>GovernanceGate\<close>; \<open>Evidence\<close> is what the gates on JSON
  files share.  Each models the whole validator, with the failures as texts and the exit status,
  and states what an accepted input is; some state what the gate does not see.  Where a set of the
  script is printed sorted, the definition is the sorted list.

  \<^bold>\<open>Bounds.\<close>  Texts range over U+0000 to U+00FF, with Python's white space, line ends, case and word
  characters there (the case folding of U+00B5 leaves the range and is kept as it is).
  Integers are unbounded as in Python; floats are rounded exactly.  Recursion is structural or has a
  measure; no definition uses fuel.

  \<^bold>\<open>Parameters.\<close>  What is not code of the repository is an argument: \<open>json.loads\<close>, \<open>uuid5\<close>, the clock,
  random identifiers, the broker, HTTP services, databases and object stores (fields of the
  surroundings), C's \<open>pow\<close>, the reading and writing of MIDI files by mido, the check of bracketed
  addresses by \<open>ipaddress\<close>, the answers of git.  Files are given by their path and decoded text.

  \<^bold>\<open>Not modelled.\<close>
  \<^item> The \<open>main\<close> functions of the workers beyond their loop: clients built from the environment,
    signal handlers, printing; the argument parsers of the scripts.
  \<^item> Routing, request decoding and JSON encoding by FastAPI, beyond the limits the request models state.
  \<^item> The query language of the graph database: the texts of queries are modelled, their evaluation
    is a service.
  \<^item> A builder of the Velato library after it raised.
  \<^item> \<open>python_common/models.py\<close>, which no service imports.
  \<^item> The collectors and gateways in Go, the control plane in Ruby, the applications in TypeScript,
    and the charts, compose files and shell scripts of the deployment: other languages.
\<close>

end
